(* ===== verification/Go_Prelude.thy ===== *)
theory Go_Prelude
  imports Main "HOL-Library.Word" "HOL-Library.AList"
begin

text \<open>
  Shared ground of the development.

  \<^item> Go maps as association lists with distinct keys. The list order stands for the order in
    which a \<open>range\<close> loop happens to visit the entries; Go leaves that order unspecified, and
    every theorem of the library holds for an arbitrary list with distinct keys, so for every
    order.
  \<^item> The idiom \<open>map[K1]map[K2]V\<close> with an inner map created on first use and dropped when it
    becomes empty. It occurs in the local router, the session registry and the ACK scanner.
    Its contract is the locale \<open>nested_index\<close>.
  \<^item> A state monad with panics. A Go panic unwinds the call stack but keeps every write done
    before it, so the panicking result carries the state as well.
  \<^item> Bounded channels with the non-blocking send \<open>select { case ch <- x: default: }\<close>.
\<close>

named_theorems gomap_simps "equations of the Go map operations"
named_theorems go_simps "equations of the panic monad"

type_synonym bytes = "8 word list"
type_synonym ('k, 'v) gomap = "('k \<times> 'v) list"

section \<open>Words\<close>

lemma bit_le_unat: "bit (w :: 'a::len word) n \<Longrightarrow> 2 ^ n \<le> unat w"
proof (rule ccontr)
  assume b: "bit w n" and "\<not> 2 ^ n \<le> unat w"
  then have "unat w div 2 ^ n = 0" by simp
  moreover have "bit (unat w) n" using b bit_imp_le_length [of w n] by (simp add: bit_unsigned_iff)
  ultimately show False by (simp add: bit_iff_odd)
qed

lemma option_eqI_Some: "(\<And>y. a = Some y \<longleftrightarrow> b = Some y) \<Longrightarrow> a = b"
  by (cases a; cases b) auto

section \<open>Go maps\<close>

definition gm_get :: "('k, 'v) gomap \<Rightarrow> 'k \<Rightarrow> 'v option" where
  "gm_get m k = map_of m k"

definition gm_set :: "('k, 'v) gomap \<Rightarrow> 'k \<Rightarrow> 'v \<Rightarrow> ('k, 'v) gomap" where
  "gm_set m k v = AList.update k v m"

definition gm_del :: "('k, 'v) gomap \<Rightarrow> 'k \<Rightarrow> ('k, 'v) gomap" where
  "gm_del m k = AList.delete k m"

definition gm_keys :: "('k, 'v) gomap \<Rightarrow> 'k list" where
  "gm_keys m = map fst m"

definition gm_vals :: "('k, 'v) gomap \<Rightarrow> 'v list" where
  "gm_vals m = map snd m"

definition gm_wf :: "('k, 'v) gomap \<Rightarrow> bool" where
  "gm_wf m \<longleftrightarrow> distinct (gm_keys m)"

lemma gm_get_empty [simp, gomap_simps]: "gm_get [] k = None"
  by (simp add: gm_get_def)

lemma gm_get_set [simp, gomap_simps]:
  "gm_get (gm_set m k v) k' = (if k' = k then Some v else gm_get m k')"
  by (simp add: gm_get_def gm_set_def update_conv')

lemma gm_get_del [simp, gomap_simps]:
  "gm_get (gm_del m k) k' = (if k' = k then None else gm_get m k')"
  by (simp add: gm_get_def gm_del_def delete_conv')

lemma gm_wf_empty [simp, gomap_simps]: "gm_wf []"
  by (simp add: gm_wf_def gm_keys_def)

lemma gm_wf_set [simp, gomap_simps]: "gm_wf m \<Longrightarrow> gm_wf (gm_set m k v)"
  by (simp add: gm_wf_def gm_keys_def gm_set_def distinct_update)

lemma gm_wf_del [simp, gomap_simps]: "gm_wf m \<Longrightarrow> gm_wf (gm_del m k)"
  by (simp add: gm_wf_def gm_keys_def gm_del_def distinct_delete)

lemma gm_set_not_Nil [simp]: "gm_set m k v \<noteq> []"
  by (cases m) (auto simp: gm_set_def)

lemma gm_get_None_iff: "gm_get m k = None \<longleftrightarrow> k \<notin> set (gm_keys m)"
  by (simp add: gm_get_def gm_keys_def map_of_eq_None_iff)

lemma gm_keys_iff: "k \<in> set (gm_keys m) \<longleftrightarrow> (\<exists>v. gm_get m k = Some v)"
  using gm_get_None_iff [of m k] by (cases "gm_get m k") auto

lemma gm_Nil_iff: "m = [] \<longleftrightarrow> (\<forall>k. gm_get m k = None)"
proof
  assume "\<forall>k. gm_get m k = None"
  then have "set (gm_keys m) = {}" by (auto simp: gm_get_None_iff)
  then show "m = []" by (simp add: gm_keys_def)
qed simp

lemma gm_vals_iff: "gm_wf m \<Longrightarrow> v \<in> set (gm_vals m) \<longleftrightarrow> (\<exists>k. gm_get m k = Some v)"
  by (force simp: gm_wf_def gm_keys_def gm_vals_def gm_get_def map_of_eq_Some_iff)

lemma gm_get_SomeD: "gm_get m k = Some v \<Longrightarrow> (k, v) \<in> set m"
  by (simp add: gm_get_def map_of_SomeD)

lemma gm_get_mem: "gm_wf m \<Longrightarrow> (k, v) \<in> set m \<Longrightarrow> gm_get m k = Some v"
  by (simp add: gm_wf_def gm_keys_def gm_get_def map_of_is_SomeI)

lemma gm_keys_empty [simp]: "gm_keys [] = []"
  by (simp add: gm_keys_def)

lemma gm_keys_set_mem [simp]: "set (gm_keys (gm_set m k v)) = insert k (set (gm_keys m))"
  by (auto simp: gm_keys_iff split: if_splits)

lemma gm_keys_del_mem [simp]: "set (gm_keys (gm_del m k)) = set (gm_keys m) - {k}"
  by (auto simp: gm_keys_iff split: if_splits)

lemma gm_del_absent: "gm_get m k = None \<Longrightarrow> gm_del m k = m"
  by (simp add: gm_del_def gm_get_None_iff gm_keys_def delete_id)

lemma gm_len_set_new: "gm_get m k = None \<Longrightarrow> length (gm_set m k v) = Suc (length m)"
proof (induction m)
  case (Cons p m)
  then show ?case by (cases p) (auto simp: gm_set_def gm_get_def split: if_splits)
qed (simp add: gm_set_def)

section \<open>The nested index idiom\<close>

definition idx_get :: "('a, ('b, 'v) gomap) gomap \<Rightarrow> 'a \<Rightarrow> 'b \<Rightarrow> 'v option" where
  "idx_get m a b = (case gm_get m a of None \<Rightarrow> None | Some inner \<Rightarrow> gm_get inner b)"

text \<open>\<open>if m[a] == nil { m[a] = make(...) }; m[a][b] = v\<close>\<close>

definition idx_put ::
    "('a, ('b, 'v) gomap) gomap \<Rightarrow> 'a \<Rightarrow> 'b \<Rightarrow> 'v \<Rightarrow> ('a, ('b, 'v) gomap) gomap" where
  "idx_put m a b v =
     gm_set m a (gm_set (case gm_get m a of None \<Rightarrow> [] | Some inner \<Rightarrow> inner) b v)"

text \<open>\<open>if inner, ok := m[a]; ok { delete(inner, b); if len(inner) == 0 { delete(m, a) } }\<close>\<close>

definition idx_drop ::
    "('a, ('b, 'v) gomap) gomap \<Rightarrow> 'a \<Rightarrow> 'b \<Rightarrow> ('a, ('b, 'v) gomap) gomap" where
  "idx_drop m a b =
     (case gm_get m a of
        None \<Rightarrow> m
      | Some inner \<Rightarrow>
          (let inner' = gm_del inner b
           in if inner' = [] then gm_del m a else gm_set m a inner'))"

definition idx_wf :: "('a, ('b, 'v) gomap) gomap \<Rightarrow> bool" where
  "idx_wf m \<longleftrightarrow> gm_wf m \<and> (\<forall>a inner. gm_get m a = Some inner \<longrightarrow> gm_wf inner)"

definition idx_tight :: "('a, ('b, 'v) gomap) gomap \<Rightarrow> bool" where
  "idx_tight m \<longleftrightarrow> (\<forall>a inner. gm_get m a = Some inner \<longrightarrow> inner \<noteq> [])"

locale nested_index =
  fixes get :: "'m \<Rightarrow> 'a \<Rightarrow> 'b \<Rightarrow> 'v option"
    and put :: "'m \<Rightarrow> 'a \<Rightarrow> 'b \<Rightarrow> 'v \<Rightarrow> 'm"
    and drop :: "'m \<Rightarrow> 'a \<Rightarrow> 'b \<Rightarrow> 'm"
    and wf :: "'m \<Rightarrow> bool"
  assumes get_put: "get (put m a b v) a' b' = (if a' = a \<and> b' = b then Some v else get m a' b')"
    and get_drop: "get (drop m a b) a' b' = (if a' = a \<and> b' = b then None else get m a' b')"
    and wf_put: "wf m \<Longrightarrow> wf (put m a b v)"
    and wf_drop: "wf m \<Longrightarrow> wf (drop m a b)"
begin

definition members :: "'m \<Rightarrow> 'a \<Rightarrow> 'b set" where
  "members m a = {b. get m a b \<noteq> None}"

lemma put_get_same: "get (put m a b v) a b = Some v"
  by (simp add: get_put)

lemma put_get_other: "a' \<noteq> a \<or> b' \<noteq> b \<Longrightarrow> get (put m a b v) a' b' = get m a' b'"
  by (auto simp: get_put)

lemma drop_get_same: "get (drop m a b) a b = None"
  by (simp add: get_drop)

lemma members_put: "members (put m a b v) a' = (if a' = a then insert b (members m a) else members m a')"
  by (auto simp: members_def get_put)

lemma members_drop: "members (drop m a b) a' = (if a' = a then members m a - {b} else members m a')"
  by (auto simp: members_def get_drop)

lemma drop_put_absent:
  "get m a b = None \<Longrightarrow> get (drop (put m a b v) a b) a' b' = get m a' b'"
  by (auto simp: get_put get_drop)

lemma wf_puts: "wf m \<Longrightarrow> wf (fold (\<lambda>(a, b, v) m. put m a b v) ps m)"
  by (induction ps arbitrary: m) (auto simp: wf_put)

lemma get_fold_put_same_value:
  "get (fold (\<lambda>a m. put m a b v) as m) a' b' =
     (if a' \<in> set as \<and> b' = b then Some v else get m a' b')"
  by (induction as arbitrary: m) (auto simp: get_put)

lemma get_fold_drop:
  "get (fold (\<lambda>b m. drop m a b) bs m) a' b' =
     (if a' = a \<and> b' \<in> set bs then None else get m a' b')"
  by (induction bs arbitrary: m) (auto simp: get_drop)

end

lemma idx_get_put [simp]:
  "idx_get (idx_put m a b v) a' b' = (if a' = a \<and> b' = b then Some v else idx_get m a' b')"
  by (auto simp: idx_get_def idx_put_def split: option.splits)

lemma idx_get_drop [simp]:
  "idx_get (idx_drop m a b) a' b' = (if a' = a \<and> b' = b then None else idx_get m a' b')"
proof (cases "gm_get m a")
  case None
  then show ?thesis by (auto simp: idx_get_def idx_drop_def)
next
  case (Some inner)
  have "gm_del inner b = [] \<Longrightarrow> b' \<noteq> b \<Longrightarrow> gm_get inner b' = None"
    using gm_get_del [of inner b b'] by simp
  with Some show ?thesis by (auto simp: idx_get_def idx_drop_def Let_def)
qed

lemma idx_wf_put [simp]: "idx_wf m \<Longrightarrow> idx_wf (idx_put m a b v)"
  by (auto simp: idx_wf_def idx_put_def split: option.splits)

lemma idx_wf_drop [simp]: "idx_wf m \<Longrightarrow> idx_wf (idx_drop m a b)"
  by (auto simp: idx_wf_def idx_drop_def Let_def split: option.splits if_splits)

lemma idx_wf_empty [simp]: "idx_wf []"
  by (simp add: idx_wf_def)

lemma idx_get_empty [simp]: "idx_get [] a b = None"
  by (simp add: idx_get_def)

lemma idx_wf_innerD: "idx_wf m \<Longrightarrow> gm_get m a = Some inner \<Longrightarrow> gm_wf inner"
  by (simp add: idx_wf_def)

lemma idx_tight_put [simp]: "idx_tight m \<Longrightarrow> idx_tight (idx_put m a b v)"
  by (auto simp: idx_tight_def idx_put_def split: option.splits)

lemma idx_tight_drop [simp]: "idx_tight m \<Longrightarrow> idx_tight (idx_drop m a b)"
  by (auto simp: idx_tight_def idx_drop_def Let_def split: option.splits)

lemma idx_tight_empty [simp]: "idx_tight []"
  by (simp add: idx_tight_def)

lemma idx_tight_get:
  "idx_tight m \<Longrightarrow> (\<exists>inner. gm_get m a = Some inner) \<longleftrightarrow> (\<exists>b. idx_get m a b \<noteq> None)"
  by (fastforce simp: idx_tight_def idx_get_def gm_Nil_iff split: option.splits)

interpretation gi: nested_index idx_get idx_put idx_drop idx_wf
  by unfold_locales auto

section \<open>Decimal numbers\<close>

text \<open>\<open>strconv.Itoa\<close>\<close>

definition digit_char :: "nat \<Rightarrow> char" where
  "digit_char d = char_of (48 + d)"

function nat_digits :: "nat \<Rightarrow> string" where
  "nat_digits n = (if n < 10 then [digit_char n] else nat_digits (n div 10) @ [digit_char (n mod 10)])"
  by pat_completeness auto
termination by (relation "measure id") auto

declare nat_digits.simps [simp del]

definition Itoa :: "int \<Rightarrow> string" where
  "Itoa i = (if i < 0 then ''-'' @ nat_digits (nat (- i)) else nat_digits (nat i))"

section \<open>Computations that may panic\<close>

datatype ('s, 'a) res = Ret 'a 's | Panic 's

type_synonym ('s, 'a) go = "'s \<Rightarrow> ('s, 'a) res"

definition retG :: "'a \<Rightarrow> ('s, 'a) go" where
  "retG x s = Ret x s"

definition bindG :: "('s, 'a) go \<Rightarrow> ('a \<Rightarrow> ('s, 'b) go) \<Rightarrow> ('s, 'b) go" where
  "bindG m f s = (case m s of Ret a s' \<Rightarrow> f a s' | Panic s' \<Rightarrow> Panic s')"

definition thenG :: "('s, 'a) go \<Rightarrow> ('s, 'b) go \<Rightarrow> ('s, 'b) go" where
  "thenG m k = bindG m (\<lambda>_. k)"

definition getG :: "('s \<Rightarrow> 'a) \<Rightarrow> ('s, 'a) go" where
  "getG f s = Ret (f s) s"

definition modG :: "('s \<Rightarrow> 's) \<Rightarrow> ('s, unit) go" where
  "modG f s = Ret () (f s)"

text \<open>\<open>runG f\<close> lifts a call that returns a value and the new state and cannot panic.\<close>

definition runG :: "('s \<Rightarrow> 'a \<times> 's) \<Rightarrow> ('s, 'a) go" where
  "runG f s = (case f s of (a, s') \<Rightarrow> Ret a s')"

definition panicG :: "('s, 'a) go" where
  "panicG s = Panic s"

text \<open>\<open>defer func() { if r := recover(); r != nil { h } }()\<close> around \<open>m\<close>.\<close>

definition recoverG :: "('s, unit) go \<Rightarrow> ('s, unit) go \<Rightarrow> ('s, unit) go" where
  "recoverG m h s = (case m s of Ret a s' \<Rightarrow> Ret a s' | Panic s' \<Rightarrow> h s')"

text \<open>Reading a field through a pointer that may be nil.\<close>

definition derefG :: "'a option \<Rightarrow> ('a \<Rightarrow> ('s, 'b) go) \<Rightarrow> ('s, 'b) go" where
  "derefG p k = (case p of None \<Rightarrow> panicG | Some x \<Rightarrow> k x)"

primrec forG :: "'a list \<Rightarrow> ('a \<Rightarrow> ('s, unit) go) \<Rightarrow> ('s, unit) go" where
  "forG [] f = retG ()"
| "forG (x # xs) f = thenG (f x) (forG xs f)"

fun res_state :: "('s, 'a) res \<Rightarrow> 's" where
  "res_state (Ret a s) = s"
| "res_state (Panic s) = s"

fun panicked :: "('s, 'a) res \<Rightarrow> bool" where
  "panicked (Ret a s) = False"
| "panicked (Panic s) = True"

lemmas go_defs [go_simps] =
  retG_def bindG_def thenG_def getG_def modG_def runG_def panicG_def recoverG_def derefG_def

lemma bindG_assoc: "bindG (bindG m f) g = bindG m (\<lambda>x. bindG (f x) g)"
  by (rule ext) (simp add: bindG_def split: res.split)

lemma forG_append: "forG (xs @ ys) f = thenG (forG xs f) (forG ys f)"
  by (induction xs) (auto simp: thenG_def bindG_assoc retG_def bindG_def fun_eq_iff split: res.split)

text \<open>A loop whose body never panics is a fold over the state.\<close>

lemma forG_total:
  assumes "\<And>x s. x \<in> set xs \<Longrightarrow> f x s = Ret () (g x s)"
  shows "forG xs f s = Ret () (fold g xs s)"
  using assms by (induction xs arbitrary: s) (auto simp: go_simps)

lemma res_split_panicked: "\<not> panicked r \<longleftrightarrow> (\<exists>a s. r = Ret a s)"
  by (cases r) auto

section \<open>Bounded channels\<close>

record 'a chan =
  ch_buf :: "'a list"
  ch_cap :: nat
  ch_closed :: bool

definition make_chan :: "nat \<Rightarrow> 'a chan" where
  "make_chan n = \<lparr>ch_buf = [], ch_cap = n, ch_closed = False\<rparr>"

text \<open>A send on a closed channel panics, whether or not there is a default branch.\<close>

datatype 'a send_result = Sent "'a chan" | Full | SendPanic

definition try_send :: "'a \<Rightarrow> 'a chan \<Rightarrow> 'a send_result" where
  "try_send x ch =
     (if ch_closed ch then SendPanic
      else if length (ch_buf ch) < ch_cap ch then Sent (ch\<lparr>ch_buf := ch_buf ch @ [x]\<rparr>)
      else Full)"

text \<open>
  A receive takes the head; on a closed and drained channel it yields the zero value at once;
  on an open empty channel it blocks.
\<close>

datatype 'a recv_result = Received 'a "'a chan" | RecvZero | Blocked

definition recv :: "'a chan \<Rightarrow> 'a recv_result" where
  "recv ch =
     (case ch_buf ch of
        x # xs \<Rightarrow> Received x (ch\<lparr>ch_buf := xs\<rparr>)
      | [] \<Rightarrow> if ch_closed ch then RecvZero else Blocked)"

definition chan_bounded :: "'a chan \<Rightarrow> bool" where
  "chan_bounded ch \<longleftrightarrow> length (ch_buf ch) \<le> ch_cap ch"

lemma chan_bounded_make [simp]: "chan_bounded (make_chan n)"
  by (simp add: chan_bounded_def make_chan_def)

lemma try_send_bounded: "chan_bounded ch \<Longrightarrow> try_send x ch = Sent ch' \<Longrightarrow> chan_bounded ch'"
  by (auto simp: chan_bounded_def try_send_def split: if_splits)

lemma try_send_buf: "try_send x ch = Sent ch' \<Longrightarrow> ch_buf ch' = ch_buf ch @ [x] \<and> ch_cap ch' = ch_cap ch"
  by (auto simp: try_send_def split: if_splits)

lemma recv_bounded: "chan_bounded ch \<Longrightarrow> recv ch = Received x ch' \<Longrightarrow> chan_bounded ch'"
  by (auto simp: chan_bounded_def recv_def split: list.splits if_splits)

lemma recv_buf: "recv ch = Received x ch' \<Longrightarrow> ch_buf ch = x # ch_buf ch' \<and> ch_cap ch' = ch_cap ch"
  by (auto simp: recv_def split: list.splits if_splits)

section \<open>Errors\<close>

text \<open>A Go \<open>(T, error)\<close> pair: \<open>Inl\<close> the error, \<open>Inr\<close> the value.\<close>

type_synonym ('e, 'a) result = "'e + 'a"

definition bindE :: "('e, 'a) result \<Rightarrow> ('a \<Rightarrow> ('e, 'b) result) \<Rightarrow> ('e, 'b) result" where
  "bindE r f = (case r of Inl e \<Rightarrow> Inl e | Inr x \<Rightarrow> f x)"

definition wrapE :: "('e \<Rightarrow> 'f) \<Rightarrow> ('e, 'a) result \<Rightarrow> ('f, 'a) result" where
  "wrapE g r = (case r of Inl e \<Rightarrow> Inl (g e) | Inr x \<Rightarrow> Inr x)"

lemma bindE_simps [simp]: "bindE (Inl e) f = Inl e" "bindE (Inr x) f = f x"
  by (simp_all add: bindE_def)

lemma wrapE_simps [simp]: "wrapE g (Inl e) = Inl (g e)" "wrapE g (Inr x) = Inr x"
  by (simp_all add: wrapE_def)

lemma bindE_Inr_right [simp]: "bindE r Inr = r"
  by (simp add: bindE_def split: sum.split)

lemma bindE_Inr_iff: "bindE r f = Inr y \<longleftrightarrow> (\<exists>x. r = Inr x \<and> f x = Inr y)"
  by (cases r) auto

lemma wrapE_Inr_iff [simp]: "wrapE g r = Inr y \<longleftrightarrow> r = Inr y"
  by (cases r) auto

end
