(* ===== verification/Proto.thy ===== *)
theory Proto
  imports Go_Prelude
begin

text \<open>
  The wire message as the gateway's Go code uses it. The struct \<open>gatewayv1.Message\<close> is generated
  by \<open>protoc\<close> and is not part of the tree, so the record below is the interface the sources rely
  on: one field per field that some function under \<open>gateway/internal\<close> reads or writes, with the
  type its uses fix. A nil pointer to a sub-message is \<open>None\<close>.

  \<open>proto.Marshal\<close> is a library call. Nothing under \<open>gateway/internal\<close> looks inside the bytes it
  returns for a control payload, so a body holds either raw bytes or the value that was
  marshalled (\<open>payload\<close>).

  Messages are handled through pointers: one message object is shared by every queue it is
  put into. The type \<open>mref\<close> is a pointer and \<open>msgheap\<close> the store it points into.
\<close>

datatype FrameType =
    FrameType_HANDSHAKE | FrameType_HANDSHAKE_ACK | FrameType_PING | FrameType_PONG
  | FrameType_KICK | FrameType_BUSINESS | FrameType_ERROR | FrameType_OTHER int

text \<open>Protobuf enums are open: any \<open>int32\<close> can arrive.\<close>

definition QosClass_AT_MOST_ONCE :: int where
  "QosClass_AT_MOST_ONCE = 1"

definition QosClass_AT_LEAST_ONCE :: int where
  "QosClass_AT_LEAST_ONCE = 2"

record Delivery =
  d_AckId :: "string option"
  d_Qos :: int
  d_Offline :: bool

definition empty_Delivery :: Delivery where
  "empty_Delivery = \<lparr>d_AckId = None, d_Qos = 0, d_Offline = False\<rparr>"

datatype RouteTargetType = RouteTargetType_CONNECTION | RouteTargetType_OTHER int

record RouteTarget =
  rt_Type :: RouteTargetType
  rt_Key :: string

record HandshakeResponse =
  hr_Success :: bool
  hr_SessionId :: string
  hr_HeartbeatInterval :: int
  hr_MaxBodySize :: int
  hr_ReplayFrom :: "64 word"

record KickRequest =
  kr_Code :: int
  kr_Reason :: string

datatype payload =
    Raw bytes
  | Text string
  | ErrorPayload int string
  | KickPayload KickRequest
  | HandshakePayload HandshakeResponse

record Message =
  m_Type :: FrameType
  m_MsgId :: string
  m_SeqId :: "64 word"
  m_BizCode :: string
  m_ExpireAt :: int
  m_From :: "RouteTarget option"
  m_To :: "RouteTarget option"
  m_Delivery :: "Delivery option"
  m_TraceId :: "string option"  \<comment> \<open>TraceContext, of which only TraceId is used\<close>
  m_Headers :: "(string, string) gomap option"
  m_Body :: "payload option"

text \<open>The zero value, \<open>&gatewayv1.Message{Type: t}\<close>.\<close>

definition new_Message :: "FrameType \<Rightarrow> Message" where
  "new_Message t =
     \<lparr>m_Type = t, m_MsgId = '''', m_SeqId = 0, m_BizCode = '''', m_ExpireAt = 0, m_From = None,
      m_To = None, m_Delivery = None, m_TraceId = None, m_Headers = None, m_Body = None\<rparr>"

text \<open>\<open>if msg.Headers == nil { msg.Headers = make(...) }; msg.Headers[k] = v\<close>\<close>

definition set_header :: "string \<Rightarrow> string \<Rightarrow> Message \<Rightarrow> Message" where
  "set_header k v m =
     m\<lparr>m_Headers := Some (gm_set (case m_Headers m of None \<Rightarrow> [] | Some h \<Rightarrow> h) k v)\<rparr>"

text \<open>Indexing a nil map yields the zero value.\<close>

definition get_header :: "Message \<Rightarrow> string \<Rightarrow> string" where
  "get_header m k =
     (case m_Headers m of
        None \<Rightarrow> ''''
      | Some h \<Rightarrow> (case gm_get h k of None \<Rightarrow> '''' | Some v \<Rightarrow> v))"

lemma get_set_header [simp]: "get_header (set_header k v m) k' = (if k' = k then v else get_header m k')"
  by (auto simp: get_header_def set_header_def split: option.splits)

lemma set_header_fields [simp]:
  "m_Type (set_header k v m) = m_Type m" "m_MsgId (set_header k v m) = m_MsgId m"
  "m_SeqId (set_header k v m) = m_SeqId m" "m_BizCode (set_header k v m) = m_BizCode m"
  "m_ExpireAt (set_header k v m) = m_ExpireAt m" "m_From (set_header k v m) = m_From m"
  "m_To (set_header k v m) = m_To m" "m_Delivery (set_header k v m) = m_Delivery m"
  "m_TraceId (set_header k v m) = m_TraceId m" "m_Body (set_header k v m) = m_Body m"
  by (simp_all add: set_header_def)

section \<open>Pointers to messages\<close>

type_synonym mref = nat

record msgheap =
  mh_obj :: "mref \<Rightarrow> Message"
  mh_next :: mref

definition msg_alloc :: "Message \<Rightarrow> msgheap \<Rightarrow> mref \<times> msgheap" where
  "msg_alloc m h =
     (mh_next h, h\<lparr>mh_obj := (mh_obj h)(mh_next h := m), mh_next := Suc (mh_next h)\<rparr>)"

definition msg_update :: "mref \<Rightarrow> (Message \<Rightarrow> Message) \<Rightarrow> msgheap \<Rightarrow> msgheap" where
  "msg_update r f h = h\<lparr>mh_obj := (mh_obj h)(r := f (mh_obj h r))\<rparr>"

lemma msg_update_obj [simp]:
  "mh_obj (msg_update r f h) r' = (if r' = r then f (mh_obj h r) else mh_obj h r')"
  by (simp add: msg_update_def)

lemma msg_update_next [simp]: "mh_next (msg_update r f h) = mh_next h"
  by (simp add: msg_update_def)

lemma msg_alloc_simps [simp]:
  "fst (msg_alloc m h) = mh_next h"
  "mh_obj (snd (msg_alloc m h)) r = (if r = mh_next h then m else mh_obj h r)"
  "mh_next (snd (msg_alloc m h)) = Suc (mh_next h)"
  by (simp_all add: msg_alloc_def)

section \<open>Expiry\<close>

text \<open>
  \<open>expireAt > 0 && now > expireAt\<close>. The same test is written out in four packages: the
  connection reader, both pipelines and the worker pool.
\<close>

definition IsExpired :: "int \<Rightarrow> int \<Rightarrow> bool" where
  "IsExpired now expireAt \<longleftrightarrow> expireAt > 0 \<and> now > expireAt"

definition isExpired :: "int \<Rightarrow> Message \<Rightarrow> bool" where
  "isExpired now msg = (m_ExpireAt msg > 0 \<and> now > m_ExpireAt msg)"

lemma IsExpired_mono: "IsExpired t e \<Longrightarrow> t \<le> t' \<Longrightarrow> IsExpired t' e"
  by (auto simp: IsExpired_def)

lemma isExpired_eq: "isExpired now msg = IsExpired now (m_ExpireAt msg)"
  by (simp add: isExpired_def IsExpired_def)

end
