(* ===== verification/Codec.thy ===== *)
theory Codec
  imports Proto
begin

unbundle bit_operations_syntax

text \<open>
  \<open>gateway/internal/protocol/codec/codec.go\<close>: the frame codec that packs the serialisation
  format and the compression algorithm into the first byte of a frame.

  Serialisation (\<open>encoding/json\<close>, \<open>proto\<close>) and gzip are calls into libraries on a message type
  that is generated code; they are the argument \<open>codec_lib\<close>. Of gzip it is assumed that reading
  gives back what was written. Nothing is assumed of the serialisers: \<open>marshal\<close> passes the option
  \<open>UseCachedSize\<close>, which protobuf documents only for a message whose \<open>Size\<close> has been called before
  and that has not changed since, and no code calls it, so what the marshaller answers here is not
  documented to be an encoding of the message; and \<open>encoding/json\<close> and \<open>proto\<close> do not tell
  nil from empty maps and slices. What is proved is that the codec hands the bytes of the
  marshaller unchanged to the unmarshaller of the same kind.
\<close>

section \<open>Codec and compression identifiers\<close>

type_synonym CodecType = "8 word"
type_synonym CompressAlgo = "8 word"
type_synonym frameCodecByte = "8 word"

definition CodecJSON :: CodecType where "CodecJSON = 1"
definition CodecProtobuf :: CodecType where "CodecProtobuf = 2"
definition CodecMsgpack :: CodecType where "CodecMsgpack = 3"

definition CompressNone :: CompressAlgo where "CompressNone = 0"
definition CompressGzip :: CompressAlgo where "CompressGzip = 1"
definition CompressZstd :: CompressAlgo where "CompressZstd = 2"
definition CompressSnappy :: CompressAlgo where "CompressSnappy = 3"

lemmas codec_ids =
  CodecJSON_def CodecProtobuf_def CodecMsgpack_def
  CompressNone_def CompressGzip_def CompressZstd_def CompressSnappy_def

definition makeFrameCodecByte :: "CodecType \<Rightarrow> CompressAlgo \<Rightarrow> frameCodecByte" where
  "makeFrameCodecByte ct ca = push_bit 4 ca OR ct"

definition frameCodecByte_CodecType :: "frameCodecByte \<Rightarrow> CodecType" where
  "frameCodecByte_CodecType f = f AND 0x0F"

definition frameCodecByte_CompressAlgo :: "frameCodecByte \<Rightarrow> CompressAlgo" where
  "frameCodecByte_CompressAlgo f = drop_bit 4 f AND 0x0F"

section \<open>The codec\<close>

datatype lib_error = LibError string

datatype codec_error =
    FrameTooShort nat
  | MarshalError CodecType codec_error
  | CompressError CompressAlgo codec_error
  | DecompressError CompressAlgo codec_error
  | UnmarshalError CodecType codec_error
  | UnsupportedCodec CodecType
  | UnsupportedCompress CompressAlgo
  | Lib lib_error

text \<open>\<open>proto.MarshalOptions\<close>, of which the code sets one field.\<close>

record MarshalOptions =
  mo_UseCachedSize :: bool

definition marshalOpts :: MarshalOptions where
  "marshalOpts = \<lparr>mo_UseCachedSize = True\<rparr>"

record 'm codec_lib =
  json_Marshal :: "'m \<Rightarrow> (lib_error, bytes) result"
  json_Unmarshal :: "bytes \<Rightarrow> (lib_error, 'm) result"
  proto_Marshal :: "MarshalOptions \<Rightarrow> 'm \<Rightarrow> (lib_error, bytes) result"
  proto_Unmarshal :: "bytes \<Rightarrow> (lib_error, 'm) result"
  gzip_Write :: "bytes \<Rightarrow> (lib_error, bytes) result"
  gzip_ReadAll :: "bytes \<Rightarrow> (lib_error, bytes) result"

record FrameCodec =
  fc_codecType :: CodecType
  fc_compressAlgo :: CompressAlgo

definition DefaultConfig :: FrameCodec where
  "DefaultConfig = \<lparr>fc_codecType = CodecProtobuf, fc_compressAlgo = CompressZstd\<rparr>"

definition JSONConfig :: FrameCodec where
  "JSONConfig = \<lparr>fc_codecType = CodecJSON, fc_compressAlgo = CompressNone\<rparr>"

definition NewCodec :: "FrameCodec \<Rightarrow> FrameCodec" where
  "NewCodec cfg = \<lparr>fc_codecType = fc_codecType cfg, fc_compressAlgo = fc_compressAlgo cfg\<rparr>"

definition codec_marshal :: "'m codec_lib \<Rightarrow> FrameCodec \<Rightarrow> 'm \<Rightarrow> (codec_error, bytes) result" where
  "codec_marshal L fc msg =
     (if fc_codecType fc = CodecJSON then wrapE Lib (json_Marshal L msg)
      else if fc_codecType fc = CodecProtobuf then wrapE Lib (proto_Marshal L marshalOpts msg)
      else Inl (UnsupportedCodec (fc_codecType fc)))"

definition codec_unmarshal :: "'m codec_lib \<Rightarrow> CodecType \<Rightarrow> bytes \<Rightarrow> (codec_error, 'm) result" where
  "codec_unmarshal L ct data =
     (if ct = CodecJSON then wrapE Lib (json_Unmarshal L data)
      else if ct = CodecProtobuf then wrapE Lib (proto_Unmarshal L data)
      else Inl (UnsupportedCodec ct))"

definition codec_compress :: "'m codec_lib \<Rightarrow> FrameCodec \<Rightarrow> bytes \<Rightarrow> (codec_error, bytes) result" where
  "codec_compress L fc data =
     (if fc_compressAlgo fc = CompressNone then Inr data
      else if fc_compressAlgo fc = CompressGzip then wrapE Lib (gzip_Write L data)
      else if fc_compressAlgo fc = CompressZstd then Inr data
      else if fc_compressAlgo fc = CompressSnappy then Inr data
      else Inl (UnsupportedCompress (fc_compressAlgo fc)))"

definition codec_decompress :: "'m codec_lib \<Rightarrow> CompressAlgo \<Rightarrow> bytes \<Rightarrow> (codec_error, bytes) result" where
  "codec_decompress L algo data =
     (if algo = CompressNone then Inr data
      else if algo = CompressGzip then wrapE Lib (gzip_ReadAll L data)
      else if algo = CompressZstd then Inr data
      else if algo = CompressSnappy then Inr data
      else Inl (UnsupportedCompress algo))"

definition FrameCodec_Encode :: "'m codec_lib \<Rightarrow> FrameCodec \<Rightarrow> 'm \<Rightarrow> (codec_error, bytes) result" where
  "FrameCodec_Encode L fc msg =
     bindE (wrapE (MarshalError (fc_codecType fc)) (codec_marshal L fc msg)) (\<lambda>payload.
     bindE (wrapE (CompressError (fc_compressAlgo fc)) (codec_compress L fc payload)) (\<lambda>compressed.
     Inr (makeFrameCodecByte (fc_codecType fc) (fc_compressAlgo fc) # compressed)))"

definition FrameCodec_Decode :: "'m codec_lib \<Rightarrow> bytes \<Rightarrow> (codec_error, 'm) result" where
  "FrameCodec_Decode L data =
     (case data of
        [] \<Rightarrow> Inl (FrameTooShort 0)
      | cb # payload \<Rightarrow>
          bindE (wrapE (DecompressError (frameCodecByte_CompressAlgo cb))
                   (codec_decompress L (frameCodecByte_CompressAlgo cb) payload)) (\<lambda>decompressed.
          bindE (wrapE (UnmarshalError (frameCodecByte_CodecType cb))
                   (codec_unmarshal L (frameCodecByte_CodecType cb) decompressed)) (\<lambda>msg.
          Inr msg)))"

section \<open>The frame byte\<close>

lemma nibble_bits:
  "bit (makeFrameCodecByte ct ca) n \<longleftrightarrow> n < 8 \<and> (bit ct n \<or> 4 \<le> n \<and> bit ca (n - 4))"
  by (auto simp: makeFrameCodecByte_def bit_simps dest: bit_imp_le_length)

lemma small_nibble_bit:
  assumes "(w :: 8 word) < 16" and "bit w n"
  shows "n < 4"
proof (rule ccontr)
  assume "\<not> n < 4"
  then have "(2::nat) ^ 4 \<le> 2 ^ n" by (intro power_increasing) auto
  also have "\<dots> \<le> unat w" by (rule bit_le_unat [OF assms(2)])
  finally show False using assms(1) by (simp add: word_less_nat_alt)
qed

lemma bit_0x0F: "bit (0x0F :: int) n \<longleftrightarrow> n < 4"
proof -
  have eq: "(0x0F :: int) = mask 4" by (simp add: mask_eq_exp_minus_1)
  show ?thesis unfolding eq by (simp only: bit_mask_iff) auto
qed

lemma frame_byte_nibbles:
  assumes "ct < 16" and "ca < 16"
  shows "frameCodecByte_CodecType (makeFrameCodecByte ct ca) = ct
       \<and> frameCodecByte_CompressAlgo (makeFrameCodecByte ct ca) = ca"
proof
  show "frameCodecByte_CodecType (makeFrameCodecByte ct ca) = ct"
    using small_nibble_bit [OF assms(1)]
    by (intro bit_word_eqI) (auto simp: frameCodecByte_CodecType_def nibble_bits bit_and_iff bit_0x0F)
  show "frameCodecByte_CompressAlgo (makeFrameCodecByte ct ca) = ca"
    using small_nibble_bit [OF assms(1)] small_nibble_bit [OF assms(2)]
    by (intro bit_word_eqI)
      (auto simp: frameCodecByte_CompressAlgo_def nibble_bits bit_and_iff bit_drop_bit_eq bit_0x0F)
qed

text \<open>
  The frame byte keeps both identifiers apart. For every codec type and compression
  algorithm that fit in a nibble, unpacking the byte built by \<open>makeFrameCodecByte\<close> gives back
  exactly the two values.
\<close>

theorem frame_byte_roundtrip:
  assumes "ct < 16" and "ca < 16"
  shows "frameCodecByte_CodecType (makeFrameCodecByte ct ca) = ct
       \<and> frameCodecByte_CompressAlgo (makeFrameCodecByte ct ca) = ca"
  using assms by (rule frame_byte_nibbles)

theorem frame_byte_roundtrip_witness:
  "(2 :: 8 word) < 16 \<and> (3 :: 8 word) < 16
   \<and> frameCodecByte_CodecType (makeFrameCodecByte 2 3) = 2
   \<and> frameCodecByte_CompressAlgo (makeFrameCodecByte 2 3) = 3"
  using frame_byte_roundtrip [of 2 3] by simp

section \<open>Encoding and decoding\<close>

text \<open>What the codec relies on: reading a gzip stream gives back what was written to it.\<close>

definition gzip_law :: "'m codec_lib \<Rightarrow> bool" where
  "gzip_law L \<longleftrightarrow> (\<forall>d c. gzip_Write L d = Inr c \<longrightarrow> gzip_ReadAll L c = Inr d)"

definition codec_supported :: "CodecType \<Rightarrow> CompressAlgo \<Rightarrow> bool" where
  "codec_supported ct ca \<longleftrightarrow>
     ct \<in> {CodecJSON, CodecProtobuf} \<and> ca \<in> {CompressNone, CompressGzip, CompressZstd, CompressSnappy}"

lemma codec_supported_small: "codec_supported ct ca \<Longrightarrow> ct < 16 \<and> ca < 16"
  by (auto simp: codec_supported_def codec_ids)

lemma codec_compress_ok:
  "gzip_law L \<Longrightarrow> codec_compress L fc d = Inr c \<Longrightarrow> codec_decompress L (fc_compressAlgo fc) c = Inr d"
  by (auto simp: codec_compress_def codec_decompress_def gzip_law_def codec_ids split: if_splits)

lemma Encode_supported:
  "FrameCodec_Encode L fc m = Inr frame \<Longrightarrow> codec_supported (fc_codecType fc) (fc_compressAlgo fc)"
  by (auto simp: FrameCodec_Encode_def bindE_Inr_iff codec_marshal_def codec_compress_def
      codec_supported_def split: if_splits)

lemma frame_byte_split:
  assumes "codec_supported ct ca"
  shows "frameCodecByte_CodecType (makeFrameCodecByte ct ca) = ct"
    and "frameCodecByte_CompressAlgo (makeFrameCodecByte ct ca) = ca"
  using frame_byte_nibbles [of ct ca] codec_supported_small [OF assms] by auto

text \<open>
  C29. A frame is read back by its first byte alone. Whatever frame \<open>Encode\<close> produces, for any codec
  configuration, \<open>Decode\<close> takes the serialisation format and the compression from the frame, undoes
  the compression, and answers what the unmarshaller of that format answers for exactly the
  bytes that the marshaller produced; the decoder's own configuration plays no role. So \<open>Decode\<close>
  returns a message if and only if the unmarshaller reads that message from those bytes.
\<close>

theorem codec_frame_roundtrip:
  assumes "gzip_law L" and "FrameCodec_Encode L fc m = Inr frame"
  shows "\<exists>payload. codec_marshal L fc m = Inr payload
    \<and> FrameCodec_Decode L frame
        = wrapE (UnmarshalError (fc_codecType fc)) (codec_unmarshal L (fc_codecType fc) payload)"
proof -
  have sup: "codec_supported (fc_codecType fc) (fc_compressAlgo fc)"
    using assms(2) by (rule Encode_supported)
  obtain b c where b: "codec_marshal L fc m = Inr b" and c: "codec_compress L fc b = Inr c"
    and frame: "frame = makeFrameCodecByte (fc_codecType fc) (fc_compressAlgo fc) # c"
    using assms(2) by (auto simp: FrameCodec_Encode_def bindE_Inr_iff)
  have "FrameCodec_Decode L frame = wrapE (UnmarshalError (fc_codecType fc)) (codec_unmarshal L (fc_codecType fc) b)"
    using codec_compress_ok [OF assms(1) c]
    by (simp add: FrameCodec_Decode_def frame frame_byte_split [OF sup] bindE_Inr_right)
  with b show ?thesis by blast
qed

definition byte_lib :: "bytes codec_lib" where
  "byte_lib = \<lparr>json_Marshal = (\<lambda>m. Inr (0x7B # m)), json_Unmarshal = (\<lambda>b. Inr (tl b)),
     proto_Marshal = (\<lambda>_ m. Inr m), proto_Unmarshal = (\<lambda>b. Inr b),
     gzip_Write = (\<lambda>d. Inr (0x1F # 0x8B # d)), gzip_ReadAll = (\<lambda>c. Inr (drop 2 c))\<rparr>"

theorem codec_frame_roundtrip_witness:
  "gzip_law byte_lib
   \<and> FrameCodec_Encode byte_lib \<lparr>fc_codecType = CodecJSON, fc_compressAlgo = CompressGzip\<rparr> [7, 9] = Inr [0x11, 0x1F, 0x8B, 0x7B, 7, 9]
   \<and> FrameCodec_Decode byte_lib [0x11, 0x1F, 0x8B, 0x7B, 7, 9] = Inr [7, 9]"
proof -
  let ?fc = "\<lparr>fc_codecType = CodecJSON, fc_compressAlgo = CompressGzip\<rparr>"
  have l: "gzip_law byte_lib" by (auto simp: gzip_law_def byte_lib_def)
  have e: "FrameCodec_Encode byte_lib ?fc [7, 9] = Inr [0x11, 0x1F, 0x8B, 0x7B, 7, 9]"
    by (simp add: FrameCodec_Encode_def codec_marshal_def codec_compress_def codec_ids byte_lib_def makeFrameCodecByte_def)
  have m: "codec_marshal byte_lib ?fc [7, 9] = Inr [0x7B, 7, 9]"
    by (simp add: codec_marshal_def byte_lib_def)
  have u: "codec_unmarshal byte_lib CodecJSON [0x7B, 7, 9] = Inr [7, 9]"
    by (simp add: codec_unmarshal_def byte_lib_def)
  show ?thesis using codec_frame_roundtrip [OF l e] by (simp add: l e m u)
qed

text \<open>
  \<open>Decode\<close> accepts only frames whose first byte names a supported pair: JSON or Protobuf in
  the low nibble and one of the four known algorithms in the high nibble. Everything else,
  the empty frame and Msgpack included, is an error.
\<close>

theorem decode_accepts_only_supported:
  assumes "FrameCodec_Decode L frame = Inr m"
  shows "frame \<noteq> [] \<and> codec_supported (frameCodecByte_CodecType (hd frame))
           (frameCodecByte_CompressAlgo (hd frame))"
  using assms
  by (auto simp: FrameCodec_Decode_def bindE_Inr_iff codec_decompress_def codec_unmarshal_def
      codec_supported_def split: list.splits if_splits)

theorem decode_accepts_only_supported_witness:
  "FrameCodec_Decode byte_lib [0x22, 7, 9] = Inr [7, 9]
   \<and> codec_supported (frameCodecByte_CodecType (hd [0x22, 7, 9]))
       (frameCodecByte_CompressAlgo (hd [0x22, 7, 9]))"
proof -
  have d: "FrameCodec_Decode byte_lib [0x22, 7, 9] = Inr [7, 9]"
    by (simp add: FrameCodec_Decode_def codec_decompress_def codec_unmarshal_def codec_ids
        byte_lib_def frameCodecByte_CodecType_def frameCodecByte_CompressAlgo_def)
  show ?thesis using d decode_accepts_only_supported [OF d] by simp
qed

end
