(* ===== verification/Framing.thy ===== *)
theory Framing
  imports Go_Prelude
begin

unbundle bit_operations_syntax

text \<open>
  Byte streams and framing. The byte-order helpers of \<open>encoding/binary\<close>, a socket as the list of
  segments that will arrive on it, and the contract \<open>frame_stream\<close> of a length-prefixed reader:
  it cuts exactly the written frames out of the stream again. The gateway's and the SDK's TCP
  transports are two providers of it.
\<close>

section \<open>Big-endian integers\<close>

definition BigEndian_Uint16 :: "bytes \<Rightarrow> 16 word" where
  "BigEndian_Uint16 b = ucast (b ! 1) OR push_bit 8 (ucast (b ! 0))"

definition BigEndian_PutUint16 :: "16 word \<Rightarrow> bytes" where
  "BigEndian_PutUint16 v = [ucast (drop_bit 8 v), ucast v]"

definition BigEndian_Uint32 :: "bytes \<Rightarrow> 32 word" where
  "BigEndian_Uint32 b =
     ucast (b ! 3) OR push_bit 8 (ucast (b ! 2)) OR push_bit 16 (ucast (b ! 1)) OR push_bit 24 (ucast (b ! 0))"

definition BigEndian_PutUint32 :: "32 word \<Rightarrow> bytes" where
  "BigEndian_PutUint32 v = [ucast (drop_bit 24 v), ucast (drop_bit 16 v), ucast (drop_bit 8 v), ucast v]"

lemma length_PutUint [simp]:
  "length (BigEndian_PutUint16 v) = 2" "length (BigEndian_PutUint32 w) = 4"
  by (simp_all add: BigEndian_PutUint16_def BigEndian_PutUint32_def)

lemma nat_lt_cases8: "(n::nat) < 32 \<Longrightarrow> n < 8 \<or> 8 \<le> n \<and> n < 16 \<or> 16 \<le> n \<and> n < 24 \<or> 24 \<le> n \<and> n < 32"
  by arith

lemma Uint16_Put [simp]: "BigEndian_Uint16 (BigEndian_PutUint16 v) = v"
  by (rule bit_word_eqI)
    (auto simp: BigEndian_Uint16_def BigEndian_PutUint16_def bit_simps)

lemma Uint32_Put [simp]: "BigEndian_Uint32 (BigEndian_PutUint32 v) = v"
proof (rule bit_word_eqI)
  fix n
  assume "n < LENGTH(32)"
  then have n: "n < 32" by simp
  show "bit (BigEndian_Uint32 (BigEndian_PutUint32 v)) n = bit v n"
    using nat_lt_cases8 [OF n]
    by (auto simp: BigEndian_Uint32_def BigEndian_PutUint32_def bit_simps)
qed

section \<open>Sockets\<close>

text \<open>
  \<open>nc_in\<close> are the segments the peer's bytes arrive in; one \<open>Read\<close> into a 4096-byte buffer takes
  at most 4096 bytes of the first. When no segment is left the read fails, with end of file
  or with another error (a deadline, a reset).
\<close>

datatype net_error = NetEOF | NetError

record netconn =
  nc_in :: "bytes list"
  nc_end :: net_error
  nc_out :: bytes

definition readBuf_size :: nat where
  "readBuf_size = 4096"

definition net_Read :: "netconn \<Rightarrow> (net_error, bytes \<times> netconn) result" where
  "net_Read c =
     (case nc_in c of
        [] \<Rightarrow> Inl (nc_end c)
      | s # ss \<Rightarrow>
          if length s \<le> readBuf_size then Inr (s, c\<lparr>nc_in := ss\<rparr>)
          else Inr (take readBuf_size s, c\<lparr>nc_in := drop readBuf_size s # ss\<rparr>))"

text \<open>A write succeeds, or fails with an error after part of the bytes has gone out.\<close>

definition net_Write :: "(net_error \<times> nat) option \<Rightarrow> bytes \<Rightarrow> netconn \<Rightarrow> net_error option \<times> netconn" where
  "net_Write outcome d c =
     (case outcome of
        None \<Rightarrow> (None, c\<lparr>nc_out := nc_out c @ d\<rparr>)
      | Some (e, n) \<Rightarrow> (Some e, c\<lparr>nc_out := nc_out c @ take n d\<rparr>))"

definition net_pending :: "netconn \<Rightarrow> nat" where
  "net_pending c = sum_list (map (\<lambda>s. Suc (length s)) (nc_in c))"

lemma net_Read_pending: "net_Read c = Inr (d, c') \<Longrightarrow> net_pending c' < net_pending c"
  by (auto simp: net_Read_def net_pending_def readBuf_size_def split: list.splits if_splits)

lemma net_Read_stream:
  "net_Read c = Inr (d, c') \<Longrightarrow> concat (nc_in c) = d @ concat (nc_in c') \<and> nc_end c' = nc_end c \<and> nc_out c' = nc_out c"
  by (auto simp: net_Read_def split: list.splits if_splits)

lemma net_Read_fail: "net_Read c = Inl e \<longleftrightarrow> nc_in c = [] \<and> e = nc_end c"
  by (auto simp: net_Read_def split: list.splits)

section \<open>The contract of a frame reader\<close>

text \<open>Reading \<open>n\<close> frames one after the other.\<close>

fun read_frames :: "('s \<Rightarrow> ('d \<times> 's) option) \<Rightarrow> nat \<Rightarrow> 's \<Rightarrow> ('d list \<times> 's) option" where
  "read_frames rd 0 s = Some ([], s)"
| "read_frames rd (Suc n) s =
     (case rd s of
        None \<Rightarrow> None
      | Some (d, s') \<Rightarrow>
          (case read_frames rd n s' of None \<Rightarrow> None | Some (ds, s'') \<Rightarrow> Some (d # ds, s'')))"

locale frame_stream =
  fixes frame :: "'d \<Rightarrow> bytes"
    and valid :: "'d \<Rightarrow> bool"
    and read :: "'s \<Rightarrow> ('d \<times> 's) option"
    and unread :: "'s \<Rightarrow> bytes"
    and ready :: "'s \<Rightarrow> bool"
  assumes read_frame:
      "ready s \<Longrightarrow> valid d \<Longrightarrow> unread s = frame d @ rest \<Longrightarrow>
         \<exists>s'. read s = Some (d, s') \<and> unread s' = rest \<and> ready s'"
begin

lemma read_frames_all:
  assumes "ready s" and "list_all valid ds" and "unread s = concat (map frame ds) @ rest"
  shows "\<exists>s'. read_frames read (length ds) s = Some (ds, s') \<and> unread s' = rest \<and> ready s'"
  using assms
proof (induction ds arbitrary: s)
  case Nil
  then show ?case by simp
next
  case (Cons d ds)
  then obtain s1 where s1: "read s = Some (d, s1)" "unread s1 = concat (map frame ds) @ rest" "ready s1"
    using read_frame [of s d "concat (map frame ds) @ rest"] by auto
  with Cons.IH [of s1] Cons.prems(2) show ?case by auto
qed

end

end
