(* ===== verification/Tcp_Transport.thy ===== *)
theory Tcp_Transport
  imports Framing
begin

text \<open>
  \<open>gateway/internal/access/tcp/transport.go\<close> and \<open>access/websocket/transport.go\<close>: the gateway side
  of the wire. A TCP frame is a two-byte magic number, a four-byte big-endian length and the
  body. \<open>TCPTransport_Read\<close> keeps what it has received in \<open>t_packetBuf\<close>; its loop is a
  \<^theory_text>\<open>partial_function\<close> because it need not end, and \<open>None\<close> is the loop that does not.
\<close>

definition Magic :: "16 word" where
  "Magic = 0x1234"

definition HeaderLen :: nat where
  "HeaderLen = 6"

definition MaxFrame :: "32 word" where
  "MaxFrame = 4 * 2 ^ 20"

datatype transport_error =
    CtxDone
  | ReadTcpFailed net_error
  | ErrInvalidMagic
  | BodyTooLarge "32 word"
  | WriteTcpFailed net_error

record TCPTransport =
  t_conn :: netconn
  t_packetBuf :: bytes

definition NewTCPTransport :: "netconn \<Rightarrow> TCPTransport" where
  "NewTCPTransport c = \<lparr>t_conn = c, t_packetBuf = []\<rparr>"

text \<open>The body of the \<open>for\<close> loop. When the header is there but the body is not, the code says
  \<open>continue\<close> without reading from the socket.\<close>

partial_function (option) tcp_read_loop ::
    "TCPTransport \<Rightarrow> ((transport_error, bytes) result \<times> TCPTransport) option" where
  "tcp_read_loop t =
     (if length (t_packetBuf t) < HeaderLen then
        (case net_Read (t_conn t) of
           Inl e \<Rightarrow> Some (Inl (ReadTcpFailed e), t)
         | Inr p \<Rightarrow> tcp_read_loop (t\<lparr>t_conn := snd p, t_packetBuf := t_packetBuf t @ fst p\<rparr>))
      else if BigEndian_Uint16 (take 2 (t_packetBuf t)) \<noteq> Magic then Some (Inl ErrInvalidMagic, t)
      else if BigEndian_Uint32 (take 4 (drop 2 (t_packetBuf t))) > MaxFrame then
        Some (Inl (BodyTooLarge (BigEndian_Uint32 (take 4 (drop 2 (t_packetBuf t))))), t)
      else if length (t_packetBuf t) < HeaderLen + unat (BigEndian_Uint32 (take 4 (drop 2 (t_packetBuf t)))) then
        tcp_read_loop t
      else
        (let totalPacketLen = HeaderLen + unat (BigEndian_Uint32 (take 4 (drop 2 (t_packetBuf t))))
         in Some (Inr (drop HeaderLen (take totalPacketLen (t_packetBuf t))),
                  t\<lparr>t_packetBuf := drop totalPacketLen (t_packetBuf t)\<rparr>)))"

definition TCPTransport_Read ::
    "bool \<Rightarrow> TCPTransport \<Rightarrow> ((transport_error, bytes) result \<times> TCPTransport) option" where
  "TCPTransport_Read ctxDone t = (if ctxDone then Some (Inl CtxDone, t) else tcp_read_loop t)"

text \<open>The packet \<open>Write\<close> builds; the length is converted to \<open>uint32\<close> and so taken modulo \<open>2 ^ 32\<close>.\<close>

definition tcp_packet :: "bytes \<Rightarrow> bytes" where
  "tcp_packet data = BigEndian_PutUint16 Magic @ BigEndian_PutUint32 (of_nat (length data)) @ data"

definition TCPTransport_Write ::
    "bool \<Rightarrow> (net_error \<times> nat) option \<Rightarrow> bytes \<Rightarrow> TCPTransport \<Rightarrow> (transport_error, unit) result \<times> TCPTransport" where
  "TCPTransport_Write ctxDone outcome data t =
     (if ctxDone then (Inl CtxDone, t)
      else
        (case net_Write outcome (tcp_packet data) (t_conn t) of
           (None, c) \<Rightarrow> (Inr (), t\<lparr>t_conn := c\<rparr>)
         | (Some e, c) \<Rightarrow> (Inl (WriteTcpFailed e), t\<lparr>t_conn := c\<rparr>)))"

section \<open>WebSocket transport\<close>

text \<open>The websocket library delivers whole messages; \<open>ws_BinaryMessage\<close> is its type code 2.\<close>

datatype ws_error = ReadWebsocketFailed string | OnlyBinarySupported | WsBodyTooLarge nat

definition ws_BinaryMessage :: int where
  "ws_BinaryMessage = 2"

definition WSTransport_Read :: "string + (int \<times> bytes) \<Rightarrow> (ws_error, bytes) result" where
  "WSTransport_Read readMessage =
     (case readMessage of
        Inl e \<Rightarrow> Inl (ReadWebsocketFailed e)
      | Inr (msgType, data) \<Rightarrow>
          if msgType \<noteq> ws_BinaryMessage then Inl OnlyBinarySupported
          else if length data > unat MaxFrame then Inl (WsBodyTooLarge (length data))
          else Inr data)"

record WSTransport =
  wst_sent :: "(int \<times> bytes) list"  \<comment> \<open>type and data of the messages written\<close>
  wst_closed :: bool
  wst_peer :: string
  wst_readDeadline :: "int option"

definition NewWSTransport :: "string \<Rightarrow> WSTransport" where
  "NewWSTransport peer = \<lparr>wst_sent = [], wst_closed = False, wst_peer = peer, wst_readDeadline = None\<rparr>"

definition WSTransport_Write :: "string option \<Rightarrow> bytes \<Rightarrow> WSTransport \<Rightarrow> string option \<times> WSTransport" where
  "WSTransport_Write outcome data t =
     (case outcome of
        Some err \<Rightarrow> (Some err, t)
      | None \<Rightarrow> (None, t\<lparr>wst_sent := wst_sent t @ [(ws_BinaryMessage, data)]\<rparr>))"

definition WSTransport_Close :: "WSTransport \<Rightarrow> WSTransport" where
  "WSTransport_Close t = t\<lparr>wst_closed := True\<rparr>"

definition WSTransport_RemoteAddr :: "WSTransport \<Rightarrow> string" where
  "WSTransport_RemoteAddr t = wst_peer t"

definition WSTransport_SetReadDeadline :: "int \<Rightarrow> WSTransport \<Rightarrow> WSTransport" where
  "WSTransport_SetReadDeadline at t = t\<lparr>wst_readDeadline := Some at\<rparr>"

text \<open>
  What is written to a WebSocket is read by the same code, frame by frame and in order, up to the limit of
  4 MiB: \<open>Write\<close> does not check the limit, so that a larger frame is sent and refused by the reader.
\<close>

lemma ws_frames_roundtrip:
  "map (\<lambda>m. WSTransport_Read (Inr m)) (wst_sent (fold (\<lambda>d t. snd (WSTransport_Write None d t)) ds t)) =
     map (\<lambda>m. WSTransport_Read (Inr m)) (wst_sent t)
     @ map (\<lambda>d. if length d \<le> 4 * 2 ^ 20 then Inr d else Inl (WsBodyTooLarge (length d))) ds"
proof (induction ds arbitrary: t)
  case (Cons d ds)
  have "unat MaxFrame = 4 * 2 ^ 20" by (simp add: MaxFrame_def)
  with Cons show ?case by (simp add: WSTransport_Write_def WSTransport_Read_def)
qed simp

section \<open>Reading frames that are in the buffer\<close>

lemma unat_MaxFrame: "unat MaxFrame = 4 * 2 ^ 20"
  by (simp add: MaxFrame_def)

lemma length_tcp_packet [simp]: "length (tcp_packet d) = HeaderLen + length d"
  by (simp add: tcp_packet_def HeaderLen_def)

lemma tcp_packet_header:
  "BigEndian_Uint16 (take 2 (tcp_packet d @ rest)) = Magic"
  "BigEndian_Uint32 (take 4 (drop 2 (tcp_packet d @ rest))) = of_nat (length d)"
  by (simp_all add: tcp_packet_def)

lemma tcp_packet_body: "drop HeaderLen (take (HeaderLen + length d) (tcp_packet d @ rest)) = d"
  by (simp add: tcp_packet_def HeaderLen_def)

definition tcp_ok :: "bytes \<Rightarrow> bool" where
  "tcp_ok d \<longleftrightarrow> length d \<le> 4 * 2 ^ 20"

lemma tcp_ok_len: "tcp_ok d \<Longrightarrow> unat (of_nat (length d) :: 32 word) = length d \<and> \<not> (of_nat (length d) :: 32 word) > MaxFrame"
  by (auto simp: tcp_ok_def unat_of_nat word_less_nat_alt unat_MaxFrame)

lemma tcp_read_complete:
  assumes "tcp_ok d" and "t_packetBuf t = tcp_packet d @ rest"
  shows "tcp_read_loop t = Some (Inr d, t\<lparr>t_packetBuf := rest\<rparr>)"
proof -
  let ?b = "t_packetBuf t"
  have len: "length ?b = HeaderLen + length d + length rest" using assms(2) by simp
  note hdr = tcp_packet_header [of d rest, folded assms(2)]
  note body = tcp_packet_body [of d rest, folded assms(2)]
  have dr: "drop (HeaderLen + length d) ?b = rest"
    using assms(2) length_tcp_packet [of d] by (metis append_eq_conv_conj)
  show ?thesis
    using tcp_ok_len [OF assms(1)]
    by (subst tcp_read_loop.simps) (simp add: len hdr body dr Let_def)
qed

text \<open>The gateway reader meets the contract for a stream that is already in its buffer.\<close>

definition tcp_next :: "TCPTransport \<Rightarrow> (bytes \<times> TCPTransport) option" where
  "tcp_next t = (case TCPTransport_Read False t of Some (Inr d, t') \<Rightarrow> Some (d, t') | _ \<Rightarrow> None)"

interpretation gw_tcp: frame_stream tcp_packet tcp_ok tcp_next t_packetBuf "\<lambda>_. True"
  by unfold_locales (simp add: tcp_next_def TCPTransport_Read_def tcp_read_complete)

text \<open>
  Frames survive the gateway's transport. Write any sequence of bodies of at most 4 MiB to a
  fresh connection; a reader that has received those bytes returns exactly the bodies, in
  order, and is left with an empty buffer.
\<close>

theorem gateway_frames_roundtrip:
  assumes "list_all tcp_ok ds" and "nc_out (t_conn w) = []"
    and "w' = fold (\<lambda>d t. snd (TCPTransport_Write False None d t)) ds w"
  shows "\<exists>t'. read_frames tcp_next (length ds) (NewTCPTransport c\<lparr>t_packetBuf := nc_out (t_conn w')\<rparr>)
                = Some (ds, t') \<and> t_packetBuf t' = []"
proof -
  have out: "nc_out (t_conn (fold (\<lambda>d t. snd (TCPTransport_Write False None d t)) ds w))
               = nc_out (t_conn w) @ concat (map tcp_packet ds)"
    by (induction ds arbitrary: w) (simp_all add: TCPTransport_Write_def net_Write_def)
  show ?thesis
    using gw_tcp.read_frames_all [where s = "NewTCPTransport c\<lparr>t_packetBuf := nc_out (t_conn w')\<rparr>" and ds = ds and rest = "[]"]
      assms out by auto
qed

theorem gateway_frames_roundtrip_witness:
  "\<exists>t'. read_frames tcp_next 2
      (NewTCPTransport \<lparr>nc_in = [], nc_end = NetEOF, nc_out = []\<rparr>\<lparr>t_packetBuf :=
         nc_out (t_conn (fold (\<lambda>d t. snd (TCPTransport_Write False None d t)) [[1, 2], [3]]
           (NewTCPTransport \<lparr>nc_in = [], nc_end = NetEOF, nc_out = []\<rparr>)))\<rparr>)
      = Some ([[1, 2], [3]], t') \<and> t_packetBuf t' = []"
proof -
  have "list_all tcp_ok [[1, 2], [3]]" by (simp add: tcp_ok_def)
  from gateway_frames_roundtrip [OF this, of "NewTCPTransport \<lparr>nc_in = [], nc_end = NetEOF, nc_out = []\<rparr>"]
  show ?thesis by (simp add: NewTCPTransport_def numeral_2_eq_2)
qed

section \<open>Frames that arrive in pieces\<close>

definition tcp_stuck :: "TCPTransport \<Rightarrow> bool" where
  "tcp_stuck t \<longleftrightarrow>
     HeaderLen \<le> length (t_packetBuf t)
   \<and> BigEndian_Uint16 (take 2 (t_packetBuf t)) = Magic
   \<and> \<not> BigEndian_Uint32 (take 4 (drop 2 (t_packetBuf t))) > MaxFrame
   \<and> length (t_packetBuf t) < HeaderLen + unat (BigEndian_Uint32 (take 4 (drop 2 (t_packetBuf t))))"

lemma tcp_read_not_stuck:
  assumes "tcp_read_loop t = Some r"
  shows "\<not> tcp_stuck t"
proof (rule tcp_read_loop.raw_induct [where P = "\<lambda>t r. \<not> tcp_stuck t", OF _ assms])
  fix f t r
  assume IH: "\<And>t r. f t = Some r \<Longrightarrow> \<not> tcp_stuck t"
    and eq: "(if length (t_packetBuf t) < HeaderLen then
        (case net_Read (t_conn t) of
           Inl e \<Rightarrow> Some (Inl (ReadTcpFailed e), t)
         | Inr p \<Rightarrow> f (t\<lparr>t_conn := snd p, t_packetBuf := t_packetBuf t @ fst p\<rparr>))
      else if BigEndian_Uint16 (take 2 (t_packetBuf t)) \<noteq> Magic then Some (Inl ErrInvalidMagic, t)
      else if BigEndian_Uint32 (take 4 (drop 2 (t_packetBuf t))) > MaxFrame then
        Some (Inl (BodyTooLarge (BigEndian_Uint32 (take 4 (drop 2 (t_packetBuf t))))), t)
      else if length (t_packetBuf t) < HeaderLen + unat (BigEndian_Uint32 (take 4 (drop 2 (t_packetBuf t)))) then
        f t
      else
        (let totalPacketLen = HeaderLen + unat (BigEndian_Uint32 (take 4 (drop 2 (t_packetBuf t))))
         in Some (Inr (drop HeaderLen (take totalPacketLen (t_packetBuf t))),
                  t\<lparr>t_packetBuf := drop totalPacketLen (t_packetBuf t)\<rparr>))) = Some r"
  show "\<not> tcp_stuck t"
  proof
    assume "tcp_stuck t"
    with eq have "f t = Some r" by (simp add: tcp_stuck_def)
    with IH \<open>tcp_stuck t\<close> show False by blast
  qed
qed

lemma tcp_stuck_diverges: "tcp_stuck t \<Longrightarrow> tcp_read_loop t = None"
  using tcp_read_not_stuck by (cases "tcp_read_loop t") auto

lemma tcp_stuck_prefix:
  assumes "tcp_ok d" and "HeaderLen \<le> length b" and "length b < HeaderLen + length d"
    and "t_packetBuf t = b" and "b @ behind = tcp_packet d @ rest"
  shows "tcp_stuck t"
proof -
  have tk: "take 2 b = take 2 (b @ behind)" "take 4 (drop 2 b) = take 4 (drop 2 (b @ behind))"
    using assms(2) by (auto simp: HeaderLen_def)
  have "BigEndian_Uint16 (take 2 b) = Magic"
    and "BigEndian_Uint32 (take 4 (drop 2 b)) = of_nat (length d)"
    unfolding tk assms(5) by (rule tcp_packet_header)+
  then show ?thesis
    using assms tcp_ok_len [OF assms(1)] by (simp add: tcp_stuck_def)
qed

lemma tcp_large_diverges:
  assumes "tcp_ok d" and "4095 < length d" and "length (t_packetBuf t) < HeaderLen"
    and "t_packetBuf t @ concat (nc_in (t_conn t)) = tcp_packet d @ rest"
  shows "tcp_read_loop t = None"
  using assms(3,4)
proof (induction "net_pending (t_conn t)" arbitrary: t rule: less_induct)
  case less
  have "length (t_packetBuf t @ concat (nc_in (t_conn t))) = HeaderLen + length d + length rest"
    unfolding less.prems(2) by simp
  then have "nc_in (t_conn t) \<noteq> []" using less.prems(1) by (cases "nc_in (t_conn t)") auto
  then obtain p where p: "net_Read (t_conn t) = Inr p"
    using net_Read_fail [of "t_conn t"] by (cases "net_Read (t_conn t)") auto
  let ?t = "t\<lparr>t_conn := snd p, t_packetBuf := t_packetBuf t @ fst p\<rparr>"
  have step: "tcp_read_loop t = tcp_read_loop ?t"
    by (subst tcp_read_loop.simps) (simp add: less.prems(1) p)
  have pend: "net_pending (t_conn ?t) < net_pending (t_conn t)"
    using net_Read_pending [of "t_conn t" "fst p" "snd p"] p by simp
  have str: "t_packetBuf ?t @ concat (nc_in (t_conn ?t)) = tcp_packet d @ rest"
    using net_Read_stream [of "t_conn t" "fst p" "snd p"] p less.prems(2) by simp
  have small: "length (fst p) \<le> readBuf_size"
    using p by (auto simp: net_Read_def split: list.splits if_splits)
  show ?case
  proof (cases "length (t_packetBuf ?t) < HeaderLen")
    case True
    show ?thesis unfolding step by (rule less.hyps [OF pend True str])
  next
    case False
    have "length (t_packetBuf ?t) < HeaderLen + length d"
      using less.prems(1) small assms(2) by (simp add: readBuf_size_def HeaderLen_def)
    with False have "tcp_stuck ?t" by (intro tcp_stuck_prefix [OF assms(1) _ _ refl str]) auto
    then show ?thesis unfolding step by (rule tcp_stuck_diverges)
  qed
qed

text \<open>
  The gateway's reader never returns from a frame whose body is longer than 4095 bytes, although
  bodies up to 4 MiB are allowed. However the bytes are segmented, one read from the socket
  brings at most 4096 of them, and once the header is in the buffer the loop does not read
  again: it spins, with the rest of the frame waiting in the socket.
\<close>

theorem tcp_read_never_returns_large_frame:
  assumes "tcp_ok d" and "4095 < length d" and "concat (nc_in c) = tcp_packet d @ rest"
  shows "TCPTransport_Read False (NewTCPTransport c) = None"
  unfolding TCPTransport_Read_def
  using tcp_large_diverges [of d "NewTCPTransport c" rest] assms
  by (simp add: NewTCPTransport_def HeaderLen_def)

theorem tcp_read_never_returns_large_frame_witness:
  "tcp_ok (replicate 5000 0)
   \<and> TCPTransport_Read False
       (NewTCPTransport \<lparr>nc_in = [tcp_packet (replicate 5000 0)], nc_end = NetEOF, nc_out = []\<rparr>) = None"
proof -
  have ok: "tcp_ok (replicate 5000 0)" by (simp add: tcp_ok_def)
  show ?thesis
    using ok tcp_read_never_returns_large_frame [OF ok, of "\<lparr>nc_in = [tcp_packet (replicate 5000 0)], nc_end = NetEOF, nc_out = []\<rparr>" "[]"]
    by simp
qed

text \<open>
  A frame that arrives whole, in one segment of at most 4096 bytes with anything behind it, is
  returned, and what came after it stays in the buffer for the next call.
\<close>

theorem tcp_read_whole_frame:
  assumes "tcp_ok d" and "nc_in c = (tcp_packet d @ behind) # segs"
    and "length (tcp_packet d @ behind) \<le> readBuf_size"
  shows "TCPTransport_Read False (NewTCPTransport c)
           = Some (Inr d, \<lparr>t_conn = c\<lparr>nc_in := segs\<rparr>, t_packetBuf = behind\<rparr>)"
proof -
  have rd: "net_Read c = Inr (tcp_packet d @ behind, c\<lparr>nc_in := segs\<rparr>)"
    using assms(2,3) by (simp add: net_Read_def)
  have step: "tcp_read_loop (NewTCPTransport c)
                = tcp_read_loop \<lparr>t_conn = c\<lparr>nc_in := segs\<rparr>, t_packetBuf = tcp_packet d @ behind\<rparr>"
    by (subst tcp_read_loop.simps) (simp add: NewTCPTransport_def rd HeaderLen_def)
  show ?thesis
    using tcp_read_complete [OF assms(1), of "\<lparr>t_conn = c\<lparr>nc_in := segs\<rparr>, t_packetBuf = tcp_packet d @ behind\<rparr>" behind]
    by (simp add: TCPTransport_Read_def step)
qed

theorem tcp_read_whole_frame_witness:
  "TCPTransport_Read False (NewTCPTransport \<lparr>nc_in = [tcp_packet [5, 6] @ [9]], nc_end = NetEOF, nc_out = []\<rparr>)
     = Some (Inr [5, 6], \<lparr>t_conn = \<lparr>nc_in = [], nc_end = NetEOF, nc_out = []\<rparr>, t_packetBuf = [9]\<rparr>)"
  using tcp_read_whole_frame [of "[5, 6]" "\<lparr>nc_in = [tcp_packet [5, 6] @ [9]], nc_end = NetEOF, nc_out = []\<rparr>" "[9]" "[]"]
  by (simp add: tcp_ok_def readBuf_size_def HeaderLen_def)

section \<open>When the reader returns\<close>

text \<open>The reads from the socket that one call makes: they stop as soon as a header is in the buffer.\<close>

function tcp_fill :: "TCPTransport \<Rightarrow> TCPTransport" where
  "tcp_fill t =
     (if HeaderLen \<le> length (t_packetBuf t) then t
      else (case net_Read (t_conn t) of
              Inl e \<Rightarrow> t
            | Inr p \<Rightarrow> tcp_fill (t\<lparr>t_conn := snd p, t_packetBuf := t_packetBuf t @ fst p\<rparr>)))"
  by pat_completeness auto
termination
proof (relation "measure (\<lambda>t. net_pending (t_conn t))")
qed (auto dest: net_Read_pending [of _ "fst p" "snd p" for p, simplified])

declare tcp_fill.simps [simp del]

lemma tcp_read_header_there:
  "HeaderLen \<le> length (t_packetBuf t) \<Longrightarrow> tcp_read_loop t = None \<longleftrightarrow> tcp_stuck t"
  using tcp_stuck_diverges by (subst tcp_read_loop.simps) (auto simp: tcp_stuck_def Let_def)

lemma tcp_read_loop_returns_iff: "tcp_read_loop t = None \<longleftrightarrow> tcp_stuck (tcp_fill t)"
proof (induction t rule: tcp_fill.induct)
  case (1 t)
  show ?case
  proof (cases "HeaderLen \<le> length (t_packetBuf t)")
    case True
    then show ?thesis by (simp add: tcp_read_header_there tcp_fill.simps [of t])
  next
    case False
    with 1 show ?thesis
      by (cases "net_Read (t_conn t)")
         (simp_all add: tcp_fill.simps [of t] tcp_read_loop.simps [of t] tcp_stuck_def)
  qed
qed

text \<open>
  C16. Exactly when a call of \<open>Read\<close> returns. Take the bytes that are in the buffer once it holds a header, or
  once the socket fails. If they begin with a valid header whose body is not complete, the call never
  returns; in every other case, a failed socket, a wrong magic number, a body length above the limit
  or a whole frame, it does. A cancelled context always makes it return.
\<close>

theorem tcp_read_returns_iff:
  "TCPTransport_Read ctxDone t = None \<longleftrightarrow>
     (let b = t_packetBuf (tcp_fill t); n = BigEndian_Uint32 (take 4 (drop 2 b))
      in \<not> ctxDone \<and> 6 \<le> length b \<and> BigEndian_Uint16 (take 2 b) = 0x1234 \<and> n \<le> 0x400000 \<and> length b < 6 + unat n)"
  using tcp_read_loop_returns_iff [of t]
  by (auto simp: TCPTransport_Read_def tcp_stuck_def Let_def HeaderLen_def Magic_def MaxFrame_def not_less)

end
