(* ===== verification/Sdk_Transport.thy ===== *)
theory Sdk_Transport
  imports Tcp_Transport
begin

unbundle bit_operations_syntax

text \<open>
  \<open>sdk/tcp/client.go\<close>, type \<open>Transport\<close>: the client side of the wire. Its header is eight bytes
  (magic, version, type, length). Unlike the gateway's reader it reads on while the body is
  incomplete, so every iteration that does not return consumes bytes of the socket and the
  loop is a total function. \<open>proto.Unmarshal\<close> and \<open>Marshal\<close> of the generated signal type are
  arguments.
\<close>

definition sdk_Magic :: "16 word" where
  "sdk_Magic = 0x1234"

definition sdk_HeaderLen :: nat where
  "sdk_HeaderLen = 8"

definition sdk_MaxBodyLen :: "32 word" where
  "sdk_MaxBodyLen = 1024 * 1024"

definition sdk_Version :: "8 word" where
  "sdk_Version = 0x01"

datatype sdk_error =
    SdkCtxDone
  | ConnectionClosed
  | SdkReadFailed
  | InvalidMagic "16 word"
  | SdkBodyTooLarge "32 word"
  | UnmarshalFailed string
  | MarshalFailed string
  | SdkWriteFailed net_error

record Transport =
  st_conn :: netconn
  st_packetBuf :: bytes

definition sdk_NewTransport :: "netconn \<Rightarrow> Transport" where
  "sdk_NewTransport c = \<lparr>st_conn = c, st_packetBuf = []\<rparr>"

definition sdk_read_error :: "net_error \<Rightarrow> sdk_error" where
  "sdk_read_error e = (case e of NetEOF \<Rightarrow> ConnectionClosed | NetError \<Rightarrow> SdkReadFailed)"

abbreviation sdk_len :: "bytes \<Rightarrow> 32 word" where
  "sdk_len b \<equiv> BigEndian_Uint32 (take 4 (drop 4 b))"

function Transport_Read ::
    "(bytes \<Rightarrow> (string, 'g) result) \<Rightarrow> bool \<Rightarrow> Transport \<Rightarrow> (sdk_error, 'g) result \<times> Transport" where
  "Transport_Read unmarshal ctxDone t =
     (if ctxDone then (Inl SdkCtxDone, t)
      else if length (st_packetBuf t) < sdk_HeaderLen then
        (case net_Read (st_conn t) of
           Inl e \<Rightarrow> (Inl (sdk_read_error e), t)
         | Inr p \<Rightarrow> Transport_Read unmarshal ctxDone
                      (t\<lparr>st_conn := snd p, st_packetBuf := st_packetBuf t @ fst p\<rparr>))
      else if BigEndian_Uint16 (take 2 (st_packetBuf t)) \<noteq> sdk_Magic then
        (Inl (InvalidMagic (BigEndian_Uint16 (take 2 (st_packetBuf t)))), t)
      else if sdk_len (st_packetBuf t) > sdk_MaxBodyLen then
        (Inl (SdkBodyTooLarge (sdk_len (st_packetBuf t))), t)
      else if length (st_packetBuf t) < sdk_HeaderLen + unat (sdk_len (st_packetBuf t)) then
        (case net_Read (st_conn t) of
           Inl e \<Rightarrow> (Inl (sdk_read_error e), t)
         | Inr p \<Rightarrow> Transport_Read unmarshal ctxDone
                      (t\<lparr>st_conn := snd p, st_packetBuf := st_packetBuf t @ fst p\<rparr>))
      else
        (let totalPacketLen = sdk_HeaderLen + unat (sdk_len (st_packetBuf t));
             protobufBody = drop sdk_HeaderLen (take totalPacketLen (st_packetBuf t));
             t' = t\<lparr>st_packetBuf := drop totalPacketLen (st_packetBuf t)\<rparr>
         in (case unmarshal protobufBody of
               Inl e \<Rightarrow> (Inl (UnmarshalFailed e), t')
             | Inr sig \<Rightarrow> (Inr sig, t'))))"
  by pat_completeness auto
termination
proof (relation "measure (\<lambda>(unmarshal, ctxDone, t). net_pending (st_conn t))")
qed (auto dest: net_Read_pending [of _ "fst p" "snd p" for p, simplified])

declare Transport_Read.simps [simp del]

definition sdk_packet :: "bytes \<Rightarrow> bytes" where
  "sdk_packet body =
     BigEndian_PutUint16 sdk_Magic @ [sdk_Version, 0] @ BigEndian_PutUint32 (of_nat (length body)) @ body"

definition Transport_Write ::
    "('g \<Rightarrow> (string, bytes) result) \<Rightarrow> bool \<Rightarrow> (net_error \<times> nat) option \<Rightarrow> 'g \<Rightarrow> Transport \<Rightarrow> (sdk_error, unit) result \<times> Transport" where
  "Transport_Write marshal ctxDone outcome sig t =
     (if ctxDone then (Inl SdkCtxDone, t)
      else
        (case marshal sig of
           Inl e \<Rightarrow> (Inl (MarshalFailed e), t)
         | Inr body \<Rightarrow>
             (case net_Write outcome (sdk_packet body) (st_conn t) of
                (None, c) \<Rightarrow> (Inr (), t\<lparr>st_conn := c\<rparr>)
              | (Some e, c) \<Rightarrow> (Inl (SdkWriteFailed e), t\<lparr>st_conn := c\<rparr>))))"

section \<open>The contract holds under any segmentation\<close>

definition sdk_ok :: "bytes \<Rightarrow> bool" where
  "sdk_ok d \<longleftrightarrow> length d \<le> 1024 * 1024"

definition sdk_unread :: "Transport \<Rightarrow> bytes" where
  "sdk_unread t = st_packetBuf t @ concat (nc_in (st_conn t))"

lemma length_sdk_packet [simp]: "length (sdk_packet d) = sdk_HeaderLen + length d"
  by (simp add: sdk_packet_def sdk_HeaderLen_def)

lemma sdk_packet_header:
  "BigEndian_Uint16 (take 2 (sdk_packet d @ rest)) = sdk_Magic"
  "sdk_len (sdk_packet d @ rest) = of_nat (length d)"
  by (simp_all add: sdk_packet_def)

lemma sdk_packet_body: "drop sdk_HeaderLen (take (sdk_HeaderLen + length d) (sdk_packet d @ rest)) = d"
proof -
  let ?h = "BigEndian_PutUint16 sdk_Magic @ [sdk_Version, 0] @ BigEndian_PutUint32 (of_nat (length d))"
  have "sdk_packet d @ rest = ?h @ d @ rest" and "length ?h = sdk_HeaderLen"
    by (simp_all add: sdk_packet_def sdk_HeaderLen_def)
  then show ?thesis by (metis append_eq_conv_conj drop_append take_add take_drop add_diff_cancel_left')
qed

lemma sdk_ok_len: "sdk_ok d \<Longrightarrow> unat (of_nat (length d) :: 32 word) = length d \<and> \<not> (of_nat (length d) :: 32 word) > sdk_MaxBodyLen"
  by (auto simp: sdk_ok_def unat_of_nat word_less_nat_alt sdk_MaxBodyLen_def)

lemma sdk_prefix_header:
  assumes "sdk_HeaderLen \<le> length b" and "b @ behind = sdk_packet d @ rest"
  shows "BigEndian_Uint16 (take 2 b) = sdk_Magic" and "sdk_len b = of_nat (length d)"
proof -
  have tk: "take 2 b = take 2 (b @ behind)" "take 4 (drop 4 b) = take 4 (drop 4 (b @ behind))"
    using assms(1) by (auto simp: sdk_HeaderLen_def)
  show "BigEndian_Uint16 (take 2 b) = sdk_Magic" and "sdk_len b = of_nat (length d)"
    unfolding tk assms(2) by (rule sdk_packet_header)+
qed

lemma sdk_read_more:
  assumes "net_Read (st_conn t) = Inr p"
    and "length (st_packetBuf t) < sdk_HeaderLen
         \<or> BigEndian_Uint16 (take 2 (st_packetBuf t)) = sdk_Magic
           \<and> \<not> sdk_len (st_packetBuf t) > sdk_MaxBodyLen
           \<and> length (st_packetBuf t) < sdk_HeaderLen + unat (sdk_len (st_packetBuf t))"
  shows "Transport_Read um False t
           = Transport_Read um False (t\<lparr>st_conn := snd p, st_packetBuf := st_packetBuf t @ fst p\<rparr>)"
  using assms by (subst Transport_Read.simps) auto

lemma sdk_read_complete:
  assumes "sdk_ok d" and "st_packetBuf t = sdk_packet d @ rest"
  shows "Transport_Read um False t
           = ((case um d of Inl e \<Rightarrow> Inl (UnmarshalFailed e) | Inr g \<Rightarrow> Inr g), t\<lparr>st_packetBuf := rest\<rparr>)"
proof -
  let ?b = "st_packetBuf t"
  have len: "length ?b = sdk_HeaderLen + length d + length rest" using assms(2) by simp
  note hdr = sdk_packet_header [of d rest, folded assms(2)]
  note body = sdk_packet_body [of d rest, folded assms(2)]
  have dr: "drop (sdk_HeaderLen + length d) ?b = rest"
    using assms(2) length_sdk_packet [of d] by (metis append_eq_conv_conj)
  show ?thesis
    using sdk_ok_len [OF assms(1)]
    by (subst Transport_Read.simps) (simp add: len hdr body dr Let_def split: sum.split)
qed

lemma sdk_read_segmented:
  assumes "sdk_ok d" and "sdk_unread t = sdk_packet d @ rest"
  shows "\<exists>t'. Transport_Read um False t
                = ((case um d of Inl e \<Rightarrow> Inl (UnmarshalFailed e) | Inr g \<Rightarrow> Inr g), t')
              \<and> sdk_unread t' = rest"
  using assms(2)
proof (induction "net_pending (st_conn t)" arbitrary: t rule: less_induct)
  case less
  let ?b = "st_packetBuf t"
  have str: "?b @ concat (nc_in (st_conn t)) = sdk_packet d @ rest"
    using less.prems by (simp add: sdk_unread_def)
  show ?case
  proof (cases "length ?b < sdk_HeaderLen + length d")
    case short: True
    have "length (?b @ concat (nc_in (st_conn t))) = sdk_HeaderLen + length d + length rest"
      unfolding str by simp
    with short have "nc_in (st_conn t) \<noteq> []" by (cases "nc_in (st_conn t)") auto
    then obtain p where p: "net_Read (st_conn t) = Inr p"
      using net_Read_fail [of "st_conn t"] by (cases "net_Read (st_conn t)") auto
    let ?t = "t\<lparr>st_conn := snd p, st_packetBuf := ?b @ fst p\<rparr>"
    have "Transport_Read um False t = Transport_Read um False ?t"
    proof (rule sdk_read_more [OF p])
      show "length ?b < sdk_HeaderLen \<or> BigEndian_Uint16 (take 2 ?b) = sdk_Magic
              \<and> \<not> sdk_len ?b > sdk_MaxBodyLen \<and> length ?b < sdk_HeaderLen + unat (sdk_len ?b)"
        using short sdk_prefix_header [OF _ str] sdk_ok_len [OF assms(1)]
        by (cases "length ?b < sdk_HeaderLen") auto
    qed
    moreover have "net_pending (st_conn ?t) < net_pending (st_conn t)"
      using net_Read_pending [of "st_conn t" "fst p" "snd p"] p by simp
    moreover have "sdk_unread ?t = sdk_packet d @ rest"
      using net_Read_stream [of "st_conn t" "fst p" "snd p"] p str by (simp add: sdk_unread_def)
    ultimately show ?thesis using less.hyps [of ?t] by simp
  next
    case False
    then have "take (sdk_HeaderLen + length d) (?b @ concat (nc_in (st_conn t))) = sdk_packet d"
      unfolding str by simp
    with False obtain r where r: "?b = sdk_packet d @ r"
      by (metis append_take_drop_id take_append diff_is_0_eq linorder_not_less take_0 append_Nil2)
    with str have "r @ concat (nc_in (st_conn t)) = rest" by simp
    with sdk_read_complete [OF assms(1) r, of um] show ?thesis by (auto simp: sdk_unread_def)
  qed
qed

definition sdk_next :: "Transport \<Rightarrow> (bytes \<times> Transport) option" where
  "sdk_next t = (case Transport_Read Inr False t of (Inr d, t') \<Rightarrow> Some (d, t') | _ \<Rightarrow> None)"

interpretation sdk_tcp: frame_stream sdk_packet sdk_ok sdk_next sdk_unread "\<lambda>_. True"
proof
  fix s d rest
  assume "sdk_ok d" and "sdk_unread s = sdk_packet d @ rest"
  from sdk_read_segmented [OF this, of Inr]
  show "\<exists>s'. sdk_next s = Some (d, s') \<and> sdk_unread s' = rest \<and> True"
    by (auto simp: sdk_next_def)
qed

text \<open>
  C30. The client's reader is independent of segmentation. However TCP cuts a sequence of frames
  (bodies of at most 1 MiB) into segments, reading as many frames as were written returns
  exactly their bodies, in order, and leaves what follows them unread.
\<close>

theorem sdk_read_any_segmentation:
  assumes "list_all sdk_ok ds" and "concat (nc_in c) = concat (map sdk_packet ds) @ rest"
  shows "\<exists>t'. read_frames sdk_next (length ds) (sdk_NewTransport c) = Some (ds, t') \<and> sdk_unread t' = rest"
  using sdk_tcp.read_frames_all [where s = "sdk_NewTransport c" and ds = ds and rest = rest] assms
  by (auto simp: sdk_NewTransport_def sdk_unread_def)

theorem sdk_read_any_segmentation_witness:
  "\<exists>t'. read_frames sdk_next 2
      (sdk_NewTransport \<lparr>nc_in = [take 5 (sdk_packet [1, 2]), drop 5 (sdk_packet [1, 2]) @ sdk_packet [3]],
                         nc_end = NetEOF, nc_out = []\<rparr>) = Some ([[1, 2], [3]], t') \<and> sdk_unread t' = []"
proof -
  have "list_all sdk_ok [[1, 2], [3]]" by (simp add: sdk_ok_def)
  from sdk_read_any_segmentation [OF this, of "\<lparr>nc_in = [take 5 (sdk_packet [1, 2]), drop 5 (sdk_packet [1, 2]) @ sdk_packet [3]], nc_end = NetEOF, nc_out = []\<rparr>" "[]"]
  show ?thesis by (simp add: numeral_2_eq_2 flip: append_assoc)
qed

section \<open>Client frames at the gateway\<close>

lemma sdk_frame_gateway_len:
  "BigEndian_Uint16 (take 2 (sdk_packet d @ rest)) = Magic"
  "BigEndian_Uint32 (take 4 (drop 2 (sdk_packet d @ rest))) > MaxFrame"
proof -
  show "BigEndian_Uint16 (take 2 (sdk_packet d @ rest)) = Magic"
    unfolding Magic_def sdk_Magic_def [symmetric] by (rule sdk_packet_header)
  let ?w = "BigEndian_Uint32 (take 4 (drop 2 (sdk_packet d @ rest)))"
  have "bit ?w 24"
    by (simp add: sdk_packet_def BigEndian_Uint32_def BigEndian_PutUint32_def sdk_Version_def
        numeral_eq_Suc bit_simps)
  then have "2 ^ 24 \<le> unat ?w" by (rule bit_le_unat)
  then show "?w > MaxFrame" by (simp add: word_less_nat_alt unat_MaxFrame)
qed

lemma gateway_rejects_prefix:
  assumes "t_packetBuf t @ concat (nc_in (t_conn t)) = sdk_packet d @ rest"
  shows "\<exists>n t'. tcp_read_loop t = Some (Inl (BodyTooLarge n), t')"
  using assms
proof (induction "net_pending (t_conn t)" arbitrary: t rule: less_induct)
  case less
  let ?b = "t_packetBuf t"
  show ?case
  proof (cases "length ?b < HeaderLen")
    case short: True
    have "length (?b @ concat (nc_in (t_conn t))) = sdk_HeaderLen + length d + length rest"
      unfolding less.prems by simp
    with short have "nc_in (t_conn t) \<noteq> []"
      by (cases "nc_in (t_conn t)") (auto simp: HeaderLen_def sdk_HeaderLen_def)
    then obtain p where p: "net_Read (t_conn t) = Inr p"
      using net_Read_fail [of "t_conn t"] by (cases "net_Read (t_conn t)") auto
    let ?t = "t\<lparr>t_conn := snd p, t_packetBuf := ?b @ fst p\<rparr>"
    have "tcp_read_loop t = tcp_read_loop ?t"
      by (subst tcp_read_loop.simps) (simp add: short p)
    moreover have "net_pending (t_conn ?t) < net_pending (t_conn t)"
      using net_Read_pending [of "t_conn t" "fst p" "snd p"] p by simp
    moreover have "t_packetBuf ?t @ concat (nc_in (t_conn ?t)) = sdk_packet d @ rest"
      using net_Read_stream [of "t_conn t" "fst p" "snd p"] p less.prems by simp
    ultimately show ?thesis using less.hyps [of ?t] by simp
  next
    case False
    have tk: "take 2 ?b = take 2 (?b @ concat (nc_in (t_conn t)))"
      "take 4 (drop 2 ?b) = take 4 (drop 2 (?b @ concat (nc_in (t_conn t))))"
      using False by (auto simp: HeaderLen_def)
    have "BigEndian_Uint16 (take 2 ?b) = Magic" and "BigEndian_Uint32 (take 4 (drop 2 ?b)) > MaxFrame"
      unfolding tk less.prems by (rule sdk_frame_gateway_len)+
    with False show ?thesis by (subst tcp_read_loop.simps) simp
  qed
qed

text \<open>
  C39. The client and the gateway do not speak the same framing. Whatever signal the SDK sends, the
  gateway's reader takes the version byte for the top byte of the length and rejects the
  frame as larger than 4 MiB, under every segmentation.
\<close>

theorem gateway_rejects_every_sdk_frame:
  assumes "concat (nc_in c) = sdk_packet d @ rest"
  shows "\<exists>n t'. TCPTransport_Read False (NewTCPTransport c) = Some (Inl (BodyTooLarge n), t')"
  unfolding TCPTransport_Read_def
  using gateway_rejects_prefix [of "NewTCPTransport c" d rest] assms
  by (simp add: NewTCPTransport_def HeaderLen_def)

theorem gateway_rejects_every_sdk_frame_witness:
  "\<exists>n t'. TCPTransport_Read False
      (NewTCPTransport \<lparr>nc_in = [sdk_packet [1, 2, 3]], nc_end = NetEOF, nc_out = []\<rparr>)
      = Some (Inl (BodyTooLarge n), t')"
  using gateway_rejects_every_sdk_frame [of "\<lparr>nc_in = [sdk_packet [1, 2, 3]], nc_end = NetEOF, nc_out = []\<rparr>" "[1, 2, 3]" "[]"]
  by simp

end
