(* ===== verification/Go_Heap.thy ===== *)
theory Go_Heap
  imports Go_Prelude "HOL-Library.Multiset"
begin

text \<open>
  Go's \<open>container/heap\<close> on a slice: \<open>up\<close>, \<open>down\<close>, \<open>Push\<close> and \<open>Pop\<close> as the standard library
  writes them, over a list and a key (the \<open>Less\<close> of the timer's \<open>taskHeap\<close> compares due times).
  The contract a client needs is the locale \<open>min_heap\<close>; the functions here are its instance for
  every key.
\<close>

definition swap :: "'a list \<Rightarrow> nat \<Rightarrow> nat \<Rightarrow> 'a list" where
  "swap xs i j = xs[i := xs ! j, j := xs ! i]"

abbreviation parent :: "nat \<Rightarrow> nat" where
  "parent j \<equiv> (j - 1) div 2"

text \<open>\<open>for { i := (j-1)/2; if i == j || !Less(j, i) { break }; Swap(i, j); j = i }\<close>\<close>

function heap_up :: "('a \<Rightarrow> int) \<Rightarrow> 'a list \<Rightarrow> nat \<Rightarrow> 'a list" where
  "heap_up key xs j =
     (let i = parent j
      in if i = j \<or> \<not> key (xs ! j) < key (xs ! i) then xs
         else heap_up key (swap xs i j) i)"
  by pat_completeness auto
termination
  by (relation "measure (\<lambda>(key, xs, j). j)") auto

text \<open>
  \<open>for { j1 := 2*i+1; if j1 >= n { break }; j := j1; if j2 := j1+1; j2 < n && Less(j2, j1) { j = j2 };
  if !Less(j, i) { break }; Swap(i, j); i = j }\<close>
\<close>

function heap_down :: "('a \<Rightarrow> int) \<Rightarrow> 'a list \<Rightarrow> nat \<Rightarrow> nat \<Rightarrow> 'a list" where
  "heap_down key xs i n =
     (let j1 = 2 * i + 1
      in if j1 \<ge> n then xs
         else
           (let j = (if j1 + 1 < n \<and> key (xs ! (j1 + 1)) < key (xs ! j1) then j1 + 1 else j1)
            in if \<not> key (xs ! j) < key (xs ! i) then xs
               else heap_down key (swap xs i j) j n))"
  by pat_completeness auto
termination
  by (relation "measure (\<lambda>(key, xs, i, n). n - i)") (auto simp: Let_def split: if_splits)

declare heap_up.simps [simp del] heap_down.simps [simp del]

definition heap_Push :: "('a \<Rightarrow> int) \<Rightarrow> 'a \<Rightarrow> 'a list \<Rightarrow> 'a list" where
  "heap_Push key x xs = heap_up key (xs @ [x]) (length xs)"

text \<open>\<open>n := Len()-1; Swap(0, n); down(0, n); return Pop()\<close>, where \<open>Pop\<close> removes the last element.\<close>

definition heap_Pop :: "('a \<Rightarrow> int) \<Rightarrow> 'a list \<Rightarrow> 'a list" where
  "heap_Pop key xs = (let n = length xs - 1 in butlast (heap_down key (swap xs 0 n) 0 n))"

section \<open>The heap order\<close>

definition heap_ordered :: "('a \<Rightarrow> int) \<Rightarrow> 'a list \<Rightarrow> nat \<Rightarrow> bool" where
  "heap_ordered key xs n \<longleftrightarrow> (\<forall>k<n. 0 < k \<longrightarrow> key (xs ! parent k) \<le> key (xs ! k))"

text \<open>The order holds except that the element at \<open>j\<close> may be smaller than its parent.\<close>

definition except_up :: "('a \<Rightarrow> int) \<Rightarrow> 'a list \<Rightarrow> nat \<Rightarrow> nat \<Rightarrow> bool" where
  "except_up key xs n j \<longleftrightarrow>
     (\<forall>k<n. 0 < k \<longrightarrow> k \<noteq> j \<longrightarrow> key (xs ! parent k) \<le> key (xs ! k))
   \<and> (\<forall>k<n. 0 < k \<longrightarrow> 0 < j \<longrightarrow> parent k = j \<longrightarrow> key (xs ! parent j) \<le> key (xs ! k))"

text \<open>The order holds except that the element at \<open>i\<close> may be larger than its children.\<close>

definition except_down :: "('a \<Rightarrow> int) \<Rightarrow> 'a list \<Rightarrow> nat \<Rightarrow> nat \<Rightarrow> bool" where
  "except_down key xs n i \<longleftrightarrow>
     (\<forall>k<n. 0 < k \<longrightarrow> parent k \<noteq> i \<longrightarrow> key (xs ! parent k) \<le> key (xs ! k))
   \<and> (\<forall>k<n. 0 < k \<longrightarrow> 0 < i \<longrightarrow> parent k = i \<longrightarrow> key (xs ! parent i) \<le> key (xs ! k))"

lemma length_swap [simp]: "length (swap xs i j) = length xs"
  by (simp add: swap_def)

lemma mset_swap_eq [simp]: "i < length xs \<Longrightarrow> j < length xs \<Longrightarrow> mset (swap xs i j) = mset xs"
  unfolding swap_def by (rule mset_swap)

lemma nth_swap:
  "i < length xs \<Longrightarrow> j < length xs \<Longrightarrow> k < length xs \<Longrightarrow>
     swap xs i j ! k = (if k = j then xs ! i else if k = i then xs ! j else xs ! k)"
  by (auto simp: swap_def nth_list_update)

lemma parent_cases: "0 < k \<Longrightarrow> parent k = i \<longleftrightarrow> k = 2 * i + 1 \<or> k = 2 * i + 2"
  by auto

lemma parent_less: "0 < k \<Longrightarrow> parent k < k"
  by auto

lemma heap_ordered_root:
  assumes "heap_ordered key xs n" and "k < n"
  shows "key (xs ! 0) \<le> key (xs ! k)"
  using assms(2)
proof (induction k rule: less_induct)
  case (less k)
  show ?case
  proof (cases "k = 0")
    case False
    then have "key (xs ! 0) \<le> key (xs ! parent k)"
      using less.IH [of "parent k"] less.prems parent_less [of k] by auto
    also have "\<dots> \<le> key (xs ! k)" using assms(1) less.prems False by (simp add: heap_ordered_def)
    finally show ?thesis .
  qed simp
qed

section \<open>Sifting up\<close>

lemma heap_up_mset:
  "j < length xs \<Longrightarrow> mset (heap_up key xs j) = mset xs \<and> length (heap_up key xs j) = length xs"
proof (induction key xs j rule: heap_up.induct)
  case (1 key xs j)
  then show ?case
    by (subst (1 2) heap_up.simps) (auto simp: Let_def)
qed

lemma except_up_done:
  "except_up key xs n j \<Longrightarrow> j = 0 \<or> \<not> key (xs ! j) < key (xs ! parent j) \<Longrightarrow> heap_ordered key xs n"
  unfolding except_up_def heap_ordered_def by (metis linorder_not_less not_gr_zero)

lemma except_up_step:
  assumes e: "except_up key xs n j" and j: "0 < j" "j < n" and n: "n \<le> length xs"
    and lt: "key (xs ! j) < key (xs ! parent j)"
  shows "except_up key (swap xs (parent j) j) n (parent j)"
proof -
  let ?i = "parent j"
  have ij: "?i < j" using j(1) by (rule parent_less)
  have nth: "k < n \<Longrightarrow> swap xs ?i j ! k = (if k = j then xs ! ?i else if k = ?i then xs ! j else xs ! k)" for k
    using ij j n by (intro nth_swap) auto
  have up: "k < n \<Longrightarrow> 0 < k \<Longrightarrow> k \<noteq> j \<Longrightarrow> key (xs ! parent k) \<le> key (xs ! k)" for k
    using e by (simp add: except_up_def)
  have gp: "k < n \<Longrightarrow> 0 < k \<Longrightarrow> parent k = j \<Longrightarrow> key (xs ! ?i) \<le> key (xs ! k)" for k
    using e j by (simp add: except_up_def)
  have pl: "0 < k \<Longrightarrow> k < n \<Longrightarrow> parent k < n" for k using parent_less [of k] by linarith
  have A: "key (swap xs ?i j ! parent k) \<le> key (swap xs ?i j ! k)" if k: "k < n" "0 < k" "k \<noteq> ?i" for k
  proof (cases "k = j")
    case True
    then show ?thesis using nth [OF k(1)] nth [OF pl [OF k(2,1)]] lt ij by auto
  next
    case False
    show ?thesis
    proof (cases "parent k = j")
      case True
      then show ?thesis using nth [OF k(1)] nth [OF j(2)] gp [OF k(1,2) True] False k(3) by auto
    next
      case pj: False
      show ?thesis
        using nth [OF k(1)] nth [OF pl [OF k(2,1)]] up [OF k(1,2) False] lt False k(3) pj
        by (cases "parent k = ?i") auto
    qed
  qed
  have B: "key (swap xs ?i j ! parent ?i) \<le> key (swap xs ?i j ! k)"
    if k: "k < n" "0 < k" "0 < ?i" "parent k = ?i" for k
  proof -
    have pi: "parent ?i < ?i" using k(3) by (rule parent_less)
    have lhs: "swap xs ?i j ! parent ?i = xs ! parent ?i"
      using nth [of "parent ?i"] pi ij j by auto
    have ui: "key (xs ! parent ?i) \<le> key (xs ! ?i)" using up [of ?i] k(3) ij j by auto
    have ki: "k \<noteq> ?i" using k(2,4) parent_less [of k] by auto
    show ?thesis
    proof (cases "k = j")
      case True
      then show ?thesis using lhs nth [OF k(1)] ui by simp
    next
      case False
      then show ?thesis using lhs nth [OF k(1)] ui up [OF k(1,2) False] ki k(4) by simp
    qed
  qed
  show ?thesis unfolding except_up_def using A B by blast
qed

lemma heap_up_ordered:
  "except_up key xs n j \<Longrightarrow> j < n \<Longrightarrow> n \<le> length xs \<Longrightarrow> heap_ordered key (heap_up key xs j) n"
proof (induction key xs j rule: heap_up.induct)
  case (1 key xs j)
  show ?case
  proof (cases "parent j = j \<or> \<not> key (xs ! j) < key (xs ! parent j)")
    case True
    then have "j = 0 \<or> \<not> key (xs ! j) < key (xs ! parent j)" using parent_less [of j] by force
    with "1.prems"(1) have "heap_ordered key xs n" by (rule except_up_done)
    with True show ?thesis by (subst heap_up.simps) (simp add: Let_def)
  next
    case False
    then have j0: "0 < j" by (cases j) auto
    have "except_up key (swap xs (parent j) j) n (parent j)"
      using "1.prems" j0 False by (intro except_up_step) auto
    then have "heap_ordered key (heap_up key (swap xs (parent j) j) (parent j)) n"
      using "1.IH" [OF refl False] "1.prems" parent_less [OF j0] by simp
    with False show ?thesis by (subst heap_up.simps) (simp add: Let_def)
  qed
qed

section \<open>Sifting down\<close>

definition min_child :: "('a \<Rightarrow> int) \<Rightarrow> 'a list \<Rightarrow> nat \<Rightarrow> nat \<Rightarrow> nat" where
  "min_child key xs n i =
     (if 2 * i + 1 + 1 < n \<and> key (xs ! (2 * i + 1 + 1)) < key (xs ! (2 * i + 1)) then 2 * i + 1 + 1 else 2 * i + 1)"

lemma heap_down_unfold:
  "heap_down key xs i n =
     (if 2 * i + 1 \<ge> n \<or> \<not> key (xs ! min_child key xs n i) < key (xs ! i) then xs
      else heap_down key (swap xs i (min_child key xs n i)) (min_child key xs n i) n)"
  by (subst heap_down.simps) (simp add: Let_def min_child_def)

lemma min_child_bounds: "2 * i + 1 < n \<Longrightarrow> i < min_child key xs n i \<and> min_child key xs n i < n \<and> parent (min_child key xs n i) = i"
  by (auto simp: min_child_def)

lemma min_child_least:
  assumes "2 * i + 1 < n" and k: "k < n" "0 < k" "parent k = i"
  shows "key (xs ! min_child key xs n i) \<le> key (xs ! k)"
proof -
  have "k = 2 * i + 1 \<or> k = 2 * i + 2" using parent_cases [of k i] k by blast
  with k(1) show ?thesis by (auto simp: min_child_def)
qed

lemma heap_down_induct [case_names step]:
  assumes "\<And>xs i. (\<lbrakk>2 * i + 1 < n; key (xs ! min_child key xs n i) < key (xs ! i)\<rbrakk>
      \<Longrightarrow> P (swap xs i (min_child key xs n i)) (min_child key xs n i)) \<Longrightarrow> P xs i"
  shows "P xs i"
proof (induction "n - i" arbitrary: xs i rule: less_induct)
  case less
  show ?case
  proof (rule assms)
    assume "2 * i + 1 < n" and "key (xs ! min_child key xs n i) < key (xs ! i)"
    then show "P (swap xs i (min_child key xs n i)) (min_child key xs n i)"
      using min_child_bounds [of i n key xs] by (intro less) auto
  qed
qed

lemma heap_down_mset:
  "n \<le> length xs \<Longrightarrow> i < length xs \<Longrightarrow>
     mset (heap_down key xs i n) = mset xs \<and> length (heap_down key xs i n) = length xs"
proof (induction xs i rule: heap_down_induct [where n = n and key = key])
  case (step xs i)
  then show ?case
    using min_child_bounds [of i n key xs] by (subst (1 2) heap_down_unfold) auto
qed

lemma heap_down_untouched:
  "n \<le> length xs \<Longrightarrow> n \<le> k \<Longrightarrow> k < length xs \<Longrightarrow> heap_down key xs i n ! k = xs ! k"
proof (induction xs i rule: heap_down_induct [where n = n and key = key])
  case (step xs i)
  then show ?case
    using min_child_bounds [of i n key xs]
    by (subst heap_down_unfold) (auto simp: nth_swap)
qed

lemma except_down_done:
  assumes "except_down key xs n i" and "2 * i + 1 \<ge> n \<or> \<not> key (xs ! min_child key xs n i) < key (xs ! i)"
  shows "heap_ordered key xs n"
  unfolding heap_ordered_def
proof (intro allI impI)
  fix k
  assume k: "k < n" "0 < k"
  show "key (xs ! parent k) \<le> key (xs ! k)"
  proof (cases "parent k = i")
    case True
    then have "2 * i + 1 < n" using k by (auto simp: parent_cases)
    with assms(2) min_child_least [OF this k True, of key xs] True show ?thesis by auto
  next
    case False
    with assms(1) k show ?thesis by (simp add: except_down_def)
  qed
qed

lemma except_down_step:
  assumes e: "except_down key xs n i" and n: "n \<le> length xs" "2 * i + 1 < n"
    and j: "j = min_child key xs n i" and lt: "key (xs ! j) < key (xs ! i)"
  shows "except_down key (swap xs i j) n j"
proof -
  have b: "i < j" "j < n" "parent j = i" using min_child_bounds [OF n(2)] j by auto
  have nth: "k < n \<Longrightarrow> swap xs i j ! k = (if k = j then xs ! i else if k = i then xs ! j else xs ! k)" for k
    using b n by (intro nth_swap) auto
  have up: "k < n \<Longrightarrow> 0 < k \<Longrightarrow> parent k \<noteq> i \<Longrightarrow> key (xs ! parent k) \<le> key (xs ! k)" for k
    using e by (simp add: except_down_def)
  have gp: "k < n \<Longrightarrow> 0 < k \<Longrightarrow> 0 < i \<Longrightarrow> parent k = i \<Longrightarrow> key (xs ! parent i) \<le> key (xs ! k)" for k
    using e by (simp add: except_down_def)
  have pl: "0 < k \<Longrightarrow> k < n \<Longrightarrow> parent k < n" for k using parent_less [of k] by linarith
  have A: "key (swap xs i j ! parent k) \<le> key (swap xs i j ! k)" if k: "k < n" "0 < k" "parent k \<noteq> j" for k
  proof (cases "parent k = i")
    case True
    have "key (xs ! j) \<le> key (xs ! k)" unfolding j by (rule min_child_least [OF n(2) k(1,2) True])
    moreover have "k \<noteq> i" using True k(2) parent_less [of k] by auto
    ultimately show ?thesis using nth [OF k(1)] nth [of i] True b lt by auto
  next
    case False
    then have kj: "k \<noteq> j" using b(3) by auto
    show ?thesis
    proof (cases "k = i")
      case True
      have "key (xs ! parent i) \<le> key (xs ! j)" using gp [OF b(2)] b k(2) True by auto
      then show ?thesis using nth [OF k(1)] nth [OF pl [OF k(2,1)]] True False k(3) b by auto
    next
      case ki: False
      then show ?thesis
        using nth [OF k(1)] nth [OF pl [OF k(2,1)]] up [OF k(1,2) False] False k(3) kj by auto
    qed
  qed
  have B: "key (swap xs i j ! parent j) \<le> key (swap xs i j ! k)"
    if k: "k < n" "0 < k" "parent k = j" for k
  proof -
    have "k \<noteq> j" "k \<noteq> i" using k parent_less [of k] b by auto
    moreover have "key (xs ! j) \<le> key (xs ! k)" using up [OF k(1,2)] k(3) b by simp
    ultimately show ?thesis using nth [OF k(1)] nth [of i] b by auto
  qed
  show ?thesis unfolding except_down_def using A B by blast
qed

lemma heap_down_ordered:
  "except_down key xs n i \<Longrightarrow> n \<le> length xs \<Longrightarrow> heap_ordered key (heap_down key xs i n) n"
proof (induction xs i rule: heap_down_induct [where n = n and key = key])
  case (step xs i)
  show ?case
  proof (cases "2 * i + 1 \<ge> n \<or> \<not> key (xs ! min_child key xs n i) < key (xs ! i)")
    case True
    with step.prems(1) have "heap_ordered key xs n" by (intro except_down_done)
    with True show ?thesis by (subst heap_down_unfold) simp
  next
    case False
    then have "except_down key (swap xs i (min_child key xs n i)) n (min_child key xs n i)"
      using step.prems by (intro except_down_step) auto
    with False step.IH step.prems(2) show ?thesis by (subst heap_down_unfold) auto
  qed
qed

section \<open>Push and Pop\<close>

definition is_heap :: "('a \<Rightarrow> int) \<Rightarrow> 'a list \<Rightarrow> bool" where
  "is_heap key xs \<longleftrightarrow> heap_ordered key xs (length xs)"

lemma is_heap_Nil [simp]: "is_heap key []"
  by (simp add: is_heap_def heap_ordered_def)

lemma mset_heap_Push [simp]: "mset (heap_Push key x xs) = add_mset x (mset xs)"
  using heap_up_mset [of "length xs" "xs @ [x]" key] by (simp add: heap_Push_def)

lemma is_heap_Push [simp]: "is_heap key xs \<Longrightarrow> is_heap key (heap_Push key x xs)"
proof -
  assume h: "is_heap key xs"
  have nth: "k < length xs \<Longrightarrow> (xs @ [x]) ! k = xs ! k" for k by (simp add: nth_append)
  have "except_up key (xs @ [x]) (length (xs @ [x])) (length xs)"
    unfolding except_up_def
  proof (intro conjI allI impI)
    fix k assume "k < length (xs @ [x])" and k0: "0 < k" and "k \<noteq> length xs"
    then have k: "k < length xs" by simp
    with parent_less [OF k0] have p: "parent k < length xs" by linarith
    show "key ((xs @ [x]) ! parent k) \<le> key ((xs @ [x]) ! k)"
      unfolding nth [OF k] nth [OF p] using h k k0 by (simp add: is_heap_def heap_ordered_def)
  next
    fix k assume "k < length (xs @ [x])" "0 < k" "parent k = length xs"
    then show "key ((xs @ [x]) ! parent (length xs)) \<le> key ((xs @ [x]) ! k)"
      using parent_less [of k] by simp
  qed
  from heap_up_ordered [OF this] show ?thesis
    using heap_up_mset [of "length xs" "xs @ [x]" key] by (simp add: is_heap_def heap_Push_def)
qed

lemma heap_Pop_parts:
  assumes "xs \<noteq> []"
  shows "heap_down key (swap xs 0 (length xs - 1)) 0 (length xs - 1) = heap_Pop key xs @ [xs ! 0]"
proof -
  let ?n = "length xs - 1" and ?zs = "heap_down key (swap xs 0 (length xs - 1)) 0 (length xs - 1)"
  have len: "length ?zs = length xs" using heap_down_mset [of ?n "swap xs 0 ?n" 0 key] assms by simp
  have "?zs ! ?n = swap xs 0 ?n ! ?n" using assms by (intro heap_down_untouched) auto
  also have "\<dots> = xs ! 0" using assms by (simp add: nth_swap)
  finally have "last ?zs = xs ! 0" using len assms by (metis last_conv_nth length_0_conv)
  moreover have "?zs \<noteq> []" using len assms by auto
  ultimately show ?thesis by (metis append_butlast_last_id heap_Pop_def)
qed

lemma mset_heap_Pop: "xs \<noteq> [] \<Longrightarrow> add_mset (xs ! 0) (mset (heap_Pop key xs)) = mset xs"
  using heap_down_mset [of "length xs - 1" "swap xs 0 (length xs - 1)" 0 key]
    arg_cong [OF heap_Pop_parts [of xs key], where f = mset] by simp

lemma is_heap_Pop: 
  assumes "is_heap key xs" and "xs \<noteq> []"
  shows "is_heap key (heap_Pop key xs)"
proof -
  let ?n = "length xs - 1"
  have "except_down key (swap xs 0 ?n) ?n 0"
    using assms unfolding except_down_def is_heap_def heap_ordered_def
    by (auto simp: nth_swap dest: parent_less)
  then have "heap_ordered key (heap_down key (swap xs 0 ?n) 0 ?n) ?n"
    by (rule heap_down_ordered) simp
  then have ord: "heap_ordered key (heap_Pop key xs @ [xs ! 0]) ?n"
    unfolding heap_Pop_parts [OF assms(2)] .
  have len: "length (heap_Pop key xs) = ?n"
    using arg_cong [OF mset_heap_Pop [OF assms(2), of key], where f = size] by simp
  have "key (heap_Pop key xs ! parent k) \<le> key (heap_Pop key xs ! k)" if k: "k < ?n" "0 < k" for k
  proof -
    have p: "parent k < ?n" using k parent_less [of k] by linarith
    show ?thesis
      using ord k p unfolding heap_ordered_def by (metis len nth_append)
  qed
  then show ?thesis unfolding is_heap_def heap_ordered_def len by blast
qed

section \<open>The contract\<close>

locale min_heap =
  fixes key :: "'a \<Rightarrow> int"
    and push :: "'a \<Rightarrow> 'q \<Rightarrow> 'q"
    and pop :: "'q \<Rightarrow> 'q"
    and peek :: "'q \<Rightarrow> 'a option"
    and elems :: "'q \<Rightarrow> 'a multiset"
    and invar :: "'q \<Rightarrow> bool"
  assumes peek_None: "peek q = None \<longleftrightarrow> elems q = {#}"
    and peek_min: "invar q \<Longrightarrow> peek q = Some x \<Longrightarrow> x \<in># elems q \<and> (\<forall>y \<in># elems q. key x \<le> key y)"
    and elems_push: "elems (push x q) = add_mset x (elems q)"
    and elems_pop: "peek q = Some x \<Longrightarrow> add_mset x (elems (pop q)) = elems q"
    and invar_push: "invar q \<Longrightarrow> invar (push x q)"
    and invar_pop: "invar q \<Longrightarrow> elems q \<noteq> {#} \<Longrightarrow> invar (pop q)"
begin

lemma pop_size: "peek q = Some x \<Longrightarrow> size (elems (pop q)) < size (elems q)"
  using elems_pop [of q x] by (metis lessI size_add_mset)

lemma pop_keeps_rest: "peek q = Some x \<Longrightarrow> y \<in># elems q \<Longrightarrow> y = x \<or> y \<in># elems (pop q)"
  using elems_pop [of q x] by (metis insert_iff set_mset_add_mset_insert)

lemma peek_before_rest:
  assumes "invar q" and "peek q = Some x" and "y \<in># elems (pop q)"
  shows "key x \<le> key y"
proof -
  have "y \<in># elems q" unfolding elems_pop [OF assms(2), symmetric] using assms(3) by simp
  with peek_min [OF assms(1,2)] show ?thesis by blast
qed

end

definition heap_Peek :: "'a list \<Rightarrow> 'a option" where
  "heap_Peek xs = (case xs of [] \<Rightarrow> None | x # _ \<Rightarrow> Some x)"

lemma heap_root_least:
  assumes "is_heap key xs" and "y \<in> set xs"
  shows "key (xs ! 0) \<le> key y"
proof -
  obtain i where "i < length xs" and "xs ! i = y" using assms(2) by (auto simp: in_set_conv_nth)
  with heap_ordered_root [of key xs "length xs" i] assms(1) show ?thesis by (simp add: is_heap_def)
qed

interpretation gh: min_heap key "heap_Push key" "heap_Pop key" heap_Peek mset "is_heap key" for key :: "'a \<Rightarrow> int"
proof
  fix q :: "'a list" and x :: 'a
  show "heap_Peek q = None \<longleftrightarrow> mset q = {#}" by (cases q) (simp_all add: heap_Peek_def)
  show "mset (heap_Push key x q) = add_mset x (mset q)" by simp
  show "heap_Peek q = Some x \<Longrightarrow> add_mset x (mset (heap_Pop key q)) = mset q"
    using mset_heap_Pop [of q key] by (cases q) (auto simp: heap_Peek_def)
  show "is_heap key q \<Longrightarrow> is_heap key (heap_Push key x q)" by simp
  show "is_heap key q \<Longrightarrow> mset q \<noteq> {#} \<Longrightarrow> is_heap key (heap_Pop key q)" by (simp add: is_heap_Pop)
  show "x \<in># mset q \<and> (\<forall>y \<in># mset q. key x \<le> key y)" if h: "is_heap key q" and pk: "heap_Peek q = Some x"
    using pk heap_root_least [OF h] by (cases q) (auto simp: heap_Peek_def)
qed

end
