(* ===== verification/Timer_Heap.thy ===== *)
theory Timer_Heap
  imports Go_Heap
begin

text \<open>
  The data of \<open>gateway/internal/timer\<close> and its priority queue. A \<open>wheelTask\<close> is an object that
  the queue and the key map both point to, so it lives in a store and the queue holds
  references. \<open>taskHeap\<close> implements \<open>heap.Interface\<close>: every \<open>Swap\<close> also writes the \<open>index\<close>
  fields of the two objects. The functions \<open>th_Push\<close> and \<open>th_Pop\<close> are \<open>container/heap\<close> driven
  through that interface; the lemmas show that the slice they leave behind is the one the list
  functions of \<open>Go_Heap\<close> compute, that they touch no field but \<open>index\<close>, and that \<open>index\<close> is the
  position of the item.

  A \<open>time.Time\<close> is an integer number of nanoseconds since Go's zero time, so that \<open>IsZero\<close> is
  equality with 0. A handler is a closure; the model keeps its identity ('h).
\<close>

type_synonym time = int

datatype TaskType = TaskHeartbeat | TaskAckTimeout | TaskRetry | TaskSessionSuspend | TaskDrainKick

record ('p, 'h) Task =
  tk_Key :: string
  tk_Type :: TaskType
  tk_DueAt :: time
  tk_Payload :: 'p
  tk_Handler :: "'h option"

record ('p, 'h) wheelTask =
  wt_Task :: "('p, 'h) Task"
  wt_cancelled :: bool
  wt_index :: int

type_synonym tref = nat
type_synonym ('p, 'h) items = "tref \<Rightarrow> ('p, 'h) wheelTask"
type_synonym ('p, 'h) hq = "tref list \<times> ('p, 'h) items"

definition due :: "('p, 'h) items \<Rightarrow> tref \<Rightarrow> time" where
  "due it r = tk_DueAt (wt_Task (it r))"

definition set_index :: "tref \<Rightarrow> int \<Rightarrow> ('p, 'h) items \<Rightarrow> ('p, 'h) items" where
  "set_index r i it = it(r := (it r)\<lparr>wt_index := i\<rparr>)"

section \<open>The heap.Interface methods\<close>

definition taskHeap_Len :: "('p, 'h) hq \<Rightarrow> nat" where
  "taskHeap_Len h = length (fst h)"

definition taskHeap_Less :: "('p, 'h) hq \<Rightarrow> nat \<Rightarrow> nat \<Rightarrow> bool" where
  "taskHeap_Less h i j \<longleftrightarrow> due (snd h) (fst h ! i) < due (snd h) (fst h ! j)"

definition taskHeap_Swap :: "('p, 'h) hq \<Rightarrow> nat \<Rightarrow> nat \<Rightarrow> ('p, 'h) hq" where
  "taskHeap_Swap h i j =
     (let q = swap (fst h) i j
      in (q, set_index (q ! j) (int j) (set_index (q ! i) (int i) (snd h))))"

definition taskHeap_Push :: "('p, 'h) hq \<Rightarrow> tref \<Rightarrow> ('p, 'h) hq" where
  "taskHeap_Push h x = (fst h @ [x], set_index x (int (length (fst h))) (snd h))"

definition taskHeap_Pop :: "('p, 'h) hq \<Rightarrow> tref \<times> ('p, 'h) hq" where
  "taskHeap_Pop h =
     (let old = fst h; n = length old; item = old ! (n - 1)
      in (item, (take (n - 1) old, set_index item (-1) (snd h))))"

section \<open>container/heap through the interface\<close>

function th_up :: "('p, 'h) hq \<Rightarrow> nat \<Rightarrow> ('p, 'h) hq" where
  "th_up h j =
     (let i = parent j
      in if i = j \<or> \<not> taskHeap_Less h j i then h else th_up (taskHeap_Swap h i j) i)"
  by pat_completeness auto
termination
  by (relation "measure snd") auto

function th_down :: "('p, 'h) hq \<Rightarrow> nat \<Rightarrow> nat \<Rightarrow> ('p, 'h) hq" where
  "th_down h i n =
     (let j1 = 2 * i + 1
      in if j1 \<ge> n then h
         else
           (let j = (if j1 + 1 < n \<and> taskHeap_Less h (j1 + 1) j1 then j1 + 1 else j1)
            in if \<not> taskHeap_Less h j i then h else th_down (taskHeap_Swap h i j) j n))"
  by pat_completeness auto
termination
  by (relation "measure (\<lambda>(h, i, n). n - i)") (auto simp: Let_def split: if_splits)

declare th_up.simps [simp del] th_down.simps [simp del]

definition th_Push :: "('p, 'h) hq \<Rightarrow> tref \<Rightarrow> ('p, 'h) hq" where
  "th_Push h x = (let h' = taskHeap_Push h x in th_up h' (taskHeap_Len h' - 1))"

definition th_Pop :: "('p, 'h) hq \<Rightarrow> tref \<times> ('p, 'h) hq" where
  "th_Pop h = (let n = taskHeap_Len h - 1 in taskHeap_Pop (th_down (taskHeap_Swap h 0 n) 0 n))"

section \<open>Only index is written\<close>

text \<open>Two stores that agree on every field but \<open>index\<close>.\<close>

definition same_items :: "('p, 'h) items \<Rightarrow> ('p, 'h) items \<Rightarrow> bool" where
  "same_items it it' \<longleftrightarrow>
     (\<forall>r. wt_Task (it' r) = wt_Task (it r) \<and> wt_cancelled (it' r) = wt_cancelled (it r))"

lemma same_items_refl [simp]: "same_items it it"
  by (simp add: same_items_def)

lemma same_items_trans: "same_items a b \<Longrightarrow> same_items b c \<Longrightarrow> same_items a c"
  by (simp add: same_items_def)

lemma same_items_set_index [simp]: "same_items it (set_index r i it)"
  by (simp add: same_items_def set_index_def)

lemma same_items_due: "same_items it it' \<Longrightarrow> due it' = due it"
  by (simp add: same_items_def due_def fun_eq_iff)

lemma taskHeap_Swap_same [simp]: "same_items (snd h) (snd (taskHeap_Swap h i j))"
  by (simp add: taskHeap_Swap_def Let_def same_items_def set_index_def)

lemma fst_taskHeap_Swap [simp]: "fst (taskHeap_Swap h i j) = swap (fst h) i j"
  by (simp add: taskHeap_Swap_def Let_def)

lemma due_taskHeap_Swap [simp]: "due (snd (taskHeap_Swap h i j)) = due (snd h)"
  by (rule same_items_due) simp

text \<open>What every \<open>Swap\<close> inside the slice keeps, sifting keeps.\<close>

lemma th_up_inv:
  assumes swap: "\<And>h i j. P h \<Longrightarrow> i < m \<Longrightarrow> j < m \<Longrightarrow> P (taskHeap_Swap h i j)"
  shows "P h \<Longrightarrow> j < m \<Longrightarrow> P (th_up h j)"
proof (induction h j rule: th_up.induct)
  case (1 h j)
  show ?case
  proof (cases "parent j = j \<or> \<not> taskHeap_Less h j (parent j)")
    case True
    then show ?thesis using 1 by (subst th_up.simps) (auto simp: Let_def)
  next
    case False
    have "parent j < m" using 1 by auto
    moreover from this have "P (taskHeap_Swap h (parent j) j)" using 1 by (intro swap) auto
    ultimately have "P (th_up (taskHeap_Swap h (parent j) j) (parent j))"
      using 1(1) [OF refl False] by blast
    then show ?thesis using False by (subst th_up.simps) (simp add: Let_def)
  qed
qed

lemma th_down_inv:
  assumes swap: "\<And>h i j. P h \<Longrightarrow> i < n \<Longrightarrow> j < n \<Longrightarrow> P (taskHeap_Swap h i j)"
  shows "P h \<Longrightarrow> P (th_down h i n)"
  using assms
proof (induction h i n rule: th_down.induct)
  case (1 h i n)
  define j where "j = (if 2 * i + 1 + 1 < n \<and> taskHeap_Less h (2 * i + 1 + 1) (2 * i + 1) then 2 * i + 1 + 1 else 2 * i + 1)"
  have unf: "th_down h i n = (if 2 * i + 1 \<ge> n \<or> \<not> taskHeap_Less h j i then h else th_down (taskHeap_Swap h i j) j n)"
    by (subst th_down.simps) (simp add: Let_def j_def)
  show ?case
  proof (cases "2 * i + 1 \<ge> n \<or> \<not> taskHeap_Less h j i")
    case True
    then show ?thesis using 1(2) unf by simp
  next
    case False
    then have "P (taskHeap_Swap h i j)" using 1(2) by (intro 1(3)) (auto simp: j_def)
    with 1(1) [OF refl _ j_def] 1(3) False have "P (th_down (taskHeap_Swap h i j) j n)" by auto
    then show ?thesis using unf False by simp
  qed
qed

lemma th_up_same [simp]: "same_items (snd h) (snd (th_up h j))"
  by (rule th_up_inv [where P = "\<lambda>h'. same_items (snd h) (snd h')" and m = "Suc j"])
     (auto intro: same_items_trans [OF _ taskHeap_Swap_same])

lemma th_down_same [simp]: "same_items (snd h) (snd (th_down h i n))"
  by (rule th_down_inv [where P = "\<lambda>h'. same_items (snd h) (snd h')"])
     (auto intro: same_items_trans [OF _ taskHeap_Swap_same])

section \<open>The slice is the list heap\<close>

lemma fst_th_up: "fst (th_up h j) = heap_up (due (snd h)) (fst h) j"
proof (induction h j rule: th_up.induct)
  case (1 h j)
  then show ?case
    by (subst th_up.simps, subst heap_up.simps) (simp add: Let_def taskHeap_Less_def)
qed

lemma fst_th_down: "fst (th_down h i n) = heap_down (due (snd h)) (fst h) i n"
proof (induction h i n rule: th_down.induct)
  case (1 h i n)
  then show ?case
    by (subst th_down.simps, subst heap_down.simps) (simp add: Let_def taskHeap_Less_def)
qed

lemma th_Push_items: "same_items (snd h) (snd (th_Push h x))"
  unfolding th_Push_def Let_def
  by (rule same_items_trans [OF _ th_up_same]) (simp add: taskHeap_Push_def)

lemma th_Push_queue: "fst (th_Push h x) = heap_Push (due (snd h)) x (fst h)"
proof -
  have "due (snd (taskHeap_Push h x)) = due (snd h)"
    by (rule same_items_due) (simp add: taskHeap_Push_def)
  then show ?thesis
    by (simp add: th_Push_def Let_def fst_th_up heap_Push_def taskHeap_Push_def taskHeap_Len_def)
qed

lemma th_Pop_items: "same_items (snd h) (snd (snd (th_Pop h)))"
  unfolding th_Pop_def Let_def taskHeap_Pop_def
  by (simp, rule same_items_trans [OF _ same_items_set_index],
      rule same_items_trans [OF taskHeap_Swap_same th_down_same])

lemma th_Pop_queue: "fst (snd (th_Pop h)) = heap_Pop (due (snd h)) (fst h)"
  by (simp add: th_Pop_def Let_def taskHeap_Pop_def fst_th_down heap_Pop_def taskHeap_Len_def butlast_conv_take)

lemma th_Pop_item:
  assumes "fst h \<noteq> []"
  shows "fst (th_Pop h) = fst h ! 0"
proof -
  let ?n = "length (fst h) - 1"
  let ?d = "heap_down (due (snd h)) (swap (fst h) 0 ?n) 0 ?n"
  have len: "length ?d = length (fst h)"
    using heap_down_mset [of ?n "swap (fst h) 0 ?n" 0] assms by (simp add: swap_def)
  have "?d ! ?n = swap (fst h) 0 ?n ! ?n" using heap_down_untouched [of ?n "swap (fst h) 0 ?n" ?n] assms by simp
  also have "\<dots> = fst h ! 0" using assms by (simp add: nth_swap)
  finally show ?thesis
    using len by (simp add: th_Pop_def Let_def taskHeap_Pop_def fst_th_down taskHeap_Len_def)
qed

section \<open>The index field\<close>

definition index_ok :: "('p, 'h) hq \<Rightarrow> bool" where
  "index_ok h \<longleftrightarrow> distinct (fst h) \<and> (\<forall>i < length (fst h). wt_index (snd h (fst h ! i)) = int i)"

lemma distinct_swap [simp]:
  "i < length q \<Longrightarrow> j < length q \<Longrightarrow> distinct (swap q i j) = distinct q"
  unfolding swap_def by (rule distinct_swap)

lemma index_ok_Swap:
  assumes h: "index_ok h" and i: "i < length (fst h)" and j: "j < length (fst h)"
  shows "index_ok (taskHeap_Swap h i j)"
proof -
  let ?q = "swap (fst h) i j"
  have d: "distinct ?q" using h i j by (simp add: index_ok_def)
  have "wt_index (snd (taskHeap_Swap h i j) (?q ! k)) = int k" if k: "k < length (fst h)" for k
  proof (cases "k = i \<or> k = j")
    case True
    then show ?thesis
      using d i j by (auto simp: taskHeap_Swap_def Let_def set_index_def nth_eq_iff_index_eq)
  next
    case False
    then have "?q ! k = fst h ! k" using i j k by (simp add: nth_swap)
    moreover have "?q ! k \<noteq> ?q ! i" "?q ! k \<noteq> ?q ! j"
      using False d i j k by (simp_all add: nth_eq_iff_index_eq)
    ultimately show ?thesis
      using h k by (simp add: taskHeap_Swap_def Let_def set_index_def index_ok_def)
  qed
  with d show ?thesis by (simp add: index_ok_def)
qed

lemma index_ok_up: "index_ok h \<Longrightarrow> j < length (fst h) \<Longrightarrow> index_ok (th_up h j)"
  using th_up_inv [of "\<lambda>h'. index_ok h' \<and> length (fst h') = length (fst h)" "length (fst h)" h j]
  by (simp add: index_ok_Swap)

lemma index_ok_down: "index_ok h \<Longrightarrow> n \<le> length (fst h) \<Longrightarrow> index_ok (th_down h i n)"
  using th_down_inv [of "\<lambda>h'. index_ok h' \<and> length (fst h') = length (fst h)" n h i]
  by (simp add: index_ok_Swap)

lemma index_ok_Push: "index_ok h \<Longrightarrow> x \<notin> set (fst h) \<Longrightarrow> index_ok (th_Push h x)"
  unfolding th_Push_def Let_def
  by (rule index_ok_up)
     (auto simp: index_ok_def taskHeap_Push_def taskHeap_Len_def set_index_def nth_append less_Suc_eq)

lemma index_ok_Pop:
  assumes "index_ok h" and "fst h \<noteq> []"
  shows "index_ok (snd (th_Pop h))"
proof -
  let ?n = "length (fst h) - 1"
  let ?h = "th_down (taskHeap_Swap h 0 ?n) 0 ?n"
  have ok: "index_ok ?h" using assms by (intro index_ok_down index_ok_Swap) simp_all
  have len: "length (fst ?h) = length (fst h)"
    using heap_down_mset [of ?n "swap (fst h) 0 ?n" 0] assms(2) by (simp add: fst_th_down)
  have "fst ?h ! i \<noteq> fst ?h ! ?n" if "i < ?n" for i
    using ok that len by (simp add: index_ok_def nth_eq_iff_index_eq)
  then show ?thesis
    using ok len by (auto simp: th_Pop_def taskHeap_Pop_def Let_def taskHeap_Len_def index_ok_def set_index_def)
qed

lemma index_ok_distinct: "index_ok h \<Longrightarrow> distinct (fst h)"
  by (simp add: index_ok_def)

end
