(* ===== verification/Timer_Wheel.thy ===== *)
theory Timer_Wheel
  imports Timer_Heap
begin

text \<open>
  \<open>gateway/internal/timer/wheel.go\<close>: one shard of the scheduler. The state is the key map, the
  heap, the item store and the wake channel. \<open>schedule\<close> and \<open>cancel\<close> are each a section under the
  mutex followed by a non-blocking send on the wake channel; the two halves are definitions of
  their own, because other goroutines can run between them.

  The counters are one \<open>*Metrics\<close> shared by all shards, so they are passed to an operation and
  returned by it (\<open>None\<close> is a nil pointer).

  What a wheel promises is a partial function from keys to tasks (\<open>pending\<close>): scheduling
  overwrites, cancelling deletes, and \<open>popDue\<close> removes and returns exactly the due part of it.
  The interface the rest of the gateway uses is the locale \<open>scheduler\<close>.
\<close>

record Metrics =
  mx_Scheduled :: "64 word"
  mx_Executed :: "64 word"
  mx_Cancelled :: "64 word"
  mx_Overdue :: "64 word"

definition NewMetrics :: Metrics where
  "NewMetrics = \<lparr>mx_Scheduled = 0, mx_Executed = 0, mx_Cancelled = 0, mx_Overdue = 0\<rparr>"

record ('p, 'h) wheel =
  w_tasks :: "(string, tref) gomap"
  w_queue :: "tref list"
  w_wakeCh :: "unit chan"
  w_items :: "('p, 'h) items"
  w_next :: tref

datatype timer_error = Empty_task_key | Nil_task_handler

definition newWheel :: "('p, 'h) items \<Rightarrow> ('p, 'h) wheel" where
  "newWheel junk =
     \<lparr>w_tasks = [], w_queue = [], w_wakeCh = make_chan 1, w_items = junk, w_next = 0\<rparr>"

definition set_cancelled :: "tref \<Rightarrow> ('p, 'h) items \<Rightarrow> ('p, 'h) items" where
  "set_cancelled r it = it(r := (it r)\<lparr>wt_cancelled := True\<rparr>)"

definition wheel_signal :: "('p, 'h) wheel \<Rightarrow> ('p, 'h) wheel" where
  "wheel_signal w =
     (case try_send () (w_wakeCh w) of
        Sent ch \<Rightarrow> w\<lparr>w_wakeCh := ch\<rparr>
      | Full \<Rightarrow> w
      | SendPanic \<Rightarrow> w)"

section \<open>schedule and cancel\<close>

definition schedule_locked :: "('p, 'h) Task \<Rightarrow> Metrics option \<Rightarrow> ('p, 'h) wheel \<Rightarrow> Metrics option \<times> ('p, 'h) wheel" where
  "schedule_locked task mx w =
     (let items1 = (case gm_get (w_tasks w) (tk_Key task) of
                      Some current \<Rightarrow> set_cancelled current (w_items w)
                    | None \<Rightarrow> w_items w);
          item = w_next w;
          items2 = items1(item := \<lparr>wt_Task = task, wt_cancelled = False, wt_index = 0\<rparr>);
          (queue, items3) = th_Push (w_queue w, items2) item
      in (map_option (\<lambda>m. m\<lparr>mx_Scheduled := mx_Scheduled m + 1\<rparr>) mx,
          w\<lparr>w_tasks := gm_set (w_tasks w) (tk_Key task) item, w_queue := queue,
            w_items := items3, w_next := Suc (w_next w)\<rparr>))"

definition task_error :: "('p, 'h) Task \<Rightarrow> timer_error option" where
  "task_error task =
     (if tk_Key task = '''' then Some Empty_task_key
      else if tk_Handler task = None then Some Nil_task_handler
      else None)"

definition default_due :: "time \<Rightarrow> ('p, 'h) Task \<Rightarrow> ('p, 'h) Task" where
  "default_due now task = (if tk_DueAt task = 0 then task\<lparr>tk_DueAt := now\<rparr> else task)"

definition wheel_schedule ::
    "time \<Rightarrow> ('p, 'h) Task \<Rightarrow> Metrics option \<Rightarrow> ('p, 'h) wheel \<Rightarrow> timer_error option \<times> Metrics option \<times> ('p, 'h) wheel" where
  "wheel_schedule now task mx w =
     (case task_error task of
        Some e \<Rightarrow> (Some e, mx, w)
      | None \<Rightarrow> (let (mx', w') = schedule_locked (default_due now task) mx w in (None, mx', wheel_signal w')))"

definition cancel_locked :: "string \<Rightarrow> Metrics option \<Rightarrow> ('p, 'h) wheel \<Rightarrow> bool \<times> Metrics option \<times> ('p, 'h) wheel" where
  "cancel_locked key mx w =
     (case gm_get (w_tasks w) key of
        None \<Rightarrow> (False, mx, w)
      | Some item \<Rightarrow>
          (True, map_option (\<lambda>m. m\<lparr>mx_Cancelled := mx_Cancelled m + 1\<rparr>) mx,
           w\<lparr>w_items := set_cancelled item (w_items w), w_tasks := gm_del (w_tasks w) key\<rparr>))"

definition wheel_cancel :: "string \<Rightarrow> Metrics option \<Rightarrow> ('p, 'h) wheel \<Rightarrow> bool \<times> Metrics option \<times> ('p, 'h) wheel" where
  "wheel_cancel key mx w =
     (if key = '''' then (False, mx, w)
      else
        (let (ok, mx', w') = cancel_locked key mx w
         in (ok, mx', if ok then wheel_signal w' else w')))"

section \<open>nextTask and popDue\<close>

text \<open>\<open>heap.Pop(&w.queue)\<close>\<close>

definition wheel_heapPop :: "('p, 'h) wheel \<Rightarrow> ('p, 'h) wheel" where
  "wheel_heapPop w =
     (let (item, queue, items) = th_Pop (w_queue w, w_items w)
      in w\<lparr>w_queue := queue, w_items := items\<rparr>)"

lemma wheel_heapPop_fields [simp]:
  "w_tasks (wheel_heapPop w) = w_tasks w" "w_wakeCh (wheel_heapPop w) = w_wakeCh w"
  "w_next (wheel_heapPop w) = w_next w"
  "w_queue (wheel_heapPop w) = heap_Pop (due (w_items w)) (w_queue w)"
  using th_Pop_queue [of "(w_queue w, w_items w)"]
  by (auto simp: wheel_heapPop_def split: prod.splits)

lemma wheel_heapPop_items: "same_items (w_items w) (w_items (wheel_heapPop w))"
  using th_Pop_items [of "(w_queue w, w_items w)"]
  by (auto simp: wheel_heapPop_def split: prod.splits)

lemma wheel_heapPop_item_fields [simp]:
  "wt_Task (w_items (wheel_heapPop w) r) = wt_Task (w_items w r)"
  "wt_cancelled (w_items (wheel_heapPop w) r) = wt_cancelled (w_items w r)"
  "due (w_items (wheel_heapPop w)) = due (w_items w)"
  using wheel_heapPop_items [of w] same_items_due [OF wheel_heapPop_items [of w]]
  by (simp_all add: same_items_def)

lemma mset_heap_Pop_Cons [simp]: "mset (heap_Pop key (x # xs)) = mset xs"
  using mset_heap_Pop [of "x # xs" key] by simp

lemma length_heap_Pop_Cons [simp]: "length (heap_Pop key (x # xs)) = length xs"
  using mset_heap_Pop_Cons [of key x xs] by (rule mset_eq_length)

lemma set_heap_Pop_Cons [simp]: "set (heap_Pop key (x # xs)) = set xs"
  using mset_heap_Pop_Cons [of key x xs] by (rule mset_eq_setD)

function nextTask :: "('p, 'h) wheel \<Rightarrow> tref option \<times> ('p, 'h) wheel" where
  "nextTask w =
     (case w_queue w of
        [] \<Rightarrow> (None, w)
      | item # _ \<Rightarrow> if wt_cancelled (w_items w item) then nextTask (wheel_heapPop w) else (Some item, w))"
  by pat_completeness auto
termination
  by (relation "measure (\<lambda>w. length (w_queue w))") auto

definition delete_if_current :: "tref \<Rightarrow> ('p, 'h) wheel \<Rightarrow> ('p, 'h) wheel" where
  "delete_if_current item w =
     (let key = tk_Key (wt_Task (w_items w item))
      in if gm_get (w_tasks w) key = Some item then w\<lparr>w_tasks := gm_del (w_tasks w) key\<rparr> else w)"

lemma delete_if_current_fields [simp]:
  "w_queue (delete_if_current r w) = w_queue w" "w_items (delete_if_current r w) = w_items w"
  "w_next (delete_if_current r w) = w_next w" "w_wakeCh (delete_if_current r w) = w_wakeCh w"
  by (simp_all add: delete_if_current_def Let_def)

function popDue_loop :: "time \<Rightarrow> tref list \<Rightarrow> ('p, 'h) wheel \<Rightarrow> tref list \<times> ('p, 'h) wheel" where
  "popDue_loop now ready w =
     (case w_queue w of
        [] \<Rightarrow> (ready, w)
      | item # _ \<Rightarrow>
          if wt_cancelled (w_items w item) then popDue_loop now ready (wheel_heapPop w)
          else if due (w_items w) item > now then (ready, w)
          else popDue_loop now (ready @ [item]) (delete_if_current item (wheel_heapPop w)))"
  by pat_completeness auto
termination
  by (relation "measure (\<lambda>(now, ready, w). length (w_queue w))") auto

declare nextTask.simps [simp del] popDue_loop.simps [simp del]

definition popDue :: "time \<Rightarrow> ('p, 'h) wheel \<Rightarrow> tref list \<times> ('p, 'h) wheel" where
  "popDue now w = popDue_loop now [] w"

section \<open>The invariant and the abstraction\<close>

definition live :: "('p, 'h) wheel \<Rightarrow> tref \<Rightarrow> bool" where
  "live w r \<longleftrightarrow> r \<in> set (w_queue w) \<and> \<not> wt_cancelled (w_items w r)"

abbreviation task_of :: "('p, 'h) wheel \<Rightarrow> tref \<Rightarrow> ('p, 'h) Task" where
  "task_of w r \<equiv> wt_Task (w_items w r)"

definition wheel_ok :: "('p, 'h) wheel \<Rightarrow> bool" where
  "wheel_ok w \<longleftrightarrow>
     index_ok (w_queue w, w_items w) \<and> is_heap (due (w_items w)) (w_queue w)
   \<and> (\<forall>r \<in> set (w_queue w). r < w_next w \<and> task_error (task_of w r) = None)
   \<and> gm_wf (w_tasks w)
   \<and> (\<forall>k r. gm_get (w_tasks w) k = Some r \<longleftrightarrow> live w r \<and> tk_Key (task_of w r) = k)
   \<and> ch_cap (w_wakeCh w) = 1 \<and> chan_bounded (w_wakeCh w) \<and> \<not> ch_closed (w_wakeCh w)"

definition pending :: "('p, 'h) wheel \<Rightarrow> string \<Rightarrow> ('p, 'h) Task option" where
  "pending w k = map_option (task_of w) (gm_get (w_tasks w) k)"

lemma wheel_okD:
  assumes "wheel_ok w"
  shows "index_ok (w_queue w, w_items w)" "is_heap (due (w_items w)) (w_queue w)"
    "r \<in> set (w_queue w) \<Longrightarrow> r < w_next w" "r \<in> set (w_queue w) \<Longrightarrow> task_error (task_of w r) = None"
    "gm_wf (w_tasks w)"
    "gm_get (w_tasks w) k = Some r \<longleftrightarrow> live w r \<and> tk_Key (task_of w r) = k"
    "distinct (w_queue w)"
  using assms by (auto simp: wheel_ok_def index_ok_def)

lemma pending_iff:
  "wheel_ok w \<Longrightarrow> pending w k = Some t \<longleftrightarrow> (\<exists>r. live w r \<and> task_of w r = t \<and> tk_Key t = k)"
  by (auto simp: pending_def wheel_okD(6))

lemma pending_key: "wheel_ok w \<Longrightarrow> pending w k = Some t \<Longrightarrow> tk_Key t = k"
  by (auto simp: pending_iff)

lemma pending_empty_key: "wheel_ok w \<Longrightarrow> pending w '''' = None"
  by (rule ccontr) (auto simp: pending_iff live_def task_error_def dest!: wheel_okD(4) split: if_splits)

lemma newWheel_ok [simp]: "wheel_ok (newWheel junk)"
  by (simp add: wheel_ok_def newWheel_def index_ok_def live_def make_chan_def chan_bounded_def)

lemma pending_newWheel [simp]: "pending (newWheel junk) = Map.empty"
  by (simp add: pending_def newWheel_def fun_eq_iff)

lemma wheel_signal_fields [simp]:
  "w_tasks (wheel_signal w) = w_tasks w" "w_queue (wheel_signal w) = w_queue w"
  "w_items (wheel_signal w) = w_items w" "w_next (wheel_signal w) = w_next w"
  by (simp_all add: wheel_signal_def split: send_result.split)

lemma wheel_signal_ok [simp]: "wheel_ok w \<Longrightarrow> wheel_ok (wheel_signal w)"
  by (auto simp: wheel_ok_def live_def wheel_signal_def try_send_def chan_bounded_def split: send_result.split)

lemma wheel_signal_wakes: "wheel_ok w \<Longrightarrow> ch_buf (w_wakeCh (wheel_signal w)) \<noteq> []"
  by (auto simp: wheel_ok_def wheel_signal_def try_send_def chan_bounded_def split: send_result.split)

lemma pending_signal [simp]: "pending (wheel_signal w) = pending w"
  by (simp add: pending_def fun_eq_iff)

lemma live_signal [simp]: "live (wheel_signal w) = live w"
  by (simp add: live_def fun_eq_iff)

section \<open>schedule and cancel keep the invariant and refine map update\<close>

lemma schedule_locked_parts:
  assumes "schedule_locked task mx w = (mx', w')"
  shows "w_tasks w' = gm_set (w_tasks w) (tk_Key task) (w_next w)"
    and "w_next w' = Suc (w_next w)" and "w_wakeCh w' = w_wakeCh w"
    and "wt_Task (w_items w' r) = (if r = w_next w then task else task_of w r)"
    and "wt_cancelled (w_items w' r) \<longleftrightarrow>
           r \<noteq> w_next w \<and> (wt_cancelled (w_items w r) \<or> gm_get (w_tasks w) (tk_Key task) = Some r)"
    and "mset (w_queue w') = add_mset (w_next w) (mset (w_queue w))"
proof -
  define it where "it = (case gm_get (w_tasks w) (tk_Key task) of
      Some current \<Rightarrow> set_cancelled current (w_items w) | None \<Rightarrow> w_items w)
      (w_next w := \<lparr>wt_Task = task, wt_cancelled = False, wt_index = 0\<rparr>)"
  let ?h = "th_Push (w_queue w, it) (w_next w)"
  have w': "w' = w\<lparr>w_tasks := gm_set (w_tasks w) (tk_Key task) (w_next w), w_queue := fst ?h,
      w_items := snd ?h, w_next := Suc (w_next w)\<rparr>"
    using assms by (simp add: schedule_locked_def Let_def it_def split: prod.splits)
  have it: "wt_Task (it r) = (if r = w_next w then task else task_of w r)"
    "wt_cancelled (it r) \<longleftrightarrow>
       r \<noteq> w_next w \<and> (wt_cancelled (w_items w r) \<or> gm_get (w_tasks w) (tk_Key task) = Some r)" for r
    by (auto simp: it_def set_cancelled_def split: option.splits)
  have same: "same_items it (snd ?h)" using th_Push_items [of "(w_queue w, it)"] by simp
  show "w_tasks w' = gm_set (w_tasks w) (tk_Key task) (w_next w)" "w_next w' = Suc (w_next w)"
    "w_wakeCh w' = w_wakeCh w"
    by (simp_all add: w')
  show "wt_Task (w_items w' r) = (if r = w_next w then task else task_of w r)"
    "wt_cancelled (w_items w' r) \<longleftrightarrow>
       r \<noteq> w_next w \<and> (wt_cancelled (w_items w r) \<or> gm_get (w_tasks w) (tk_Key task) = Some r)"
    using same it by (simp_all add: w' same_items_def)
  show "mset (w_queue w') = add_mset (w_next w) (mset (w_queue w))"
    by (simp add: w' th_Push_queue)
qed

lemma schedule_locked_heap:
  assumes ok: "wheel_ok w" and sch: "schedule_locked task mx w = (mx', w')"
  shows "index_ok (w_queue w', w_items w')" and "is_heap (due (w_items w')) (w_queue w')"
proof -
  define it where "it = (case gm_get (w_tasks w) (tk_Key task) of
      Some current \<Rightarrow> set_cancelled current (w_items w) | None \<Rightarrow> w_items w)
      (w_next w := \<lparr>wt_Task = task, wt_cancelled = False, wt_index = 0\<rparr>)"
  let ?h = "th_Push (w_queue w, it) (w_next w)"
  have w': "(w_queue w', w_items w') = ?h"
    using sch by (auto simp: schedule_locked_def Let_def it_def split: prod.splits)
  have fresh: "w_next w \<notin> set (w_queue w)" using wheel_okD(3) [OF ok] by auto
  have idx: "wt_index (it r) = wt_index (w_items w r)" and due: "due it r = due (w_items w) r"
    if "r \<noteq> w_next w" for r
    using that by (auto simp: it_def due_def set_cancelled_def split: option.splits)
  have ne: "w_queue w ! i \<noteq> w_next w" if "i < length (w_queue w)" for i
    using fresh that nth_mem by metis
  have "index_ok (w_queue w, it)"
    using wheel_okD(1) [OF ok] idx ne by (simp add: index_ok_def)
  then show "index_ok (w_queue w', w_items w')" unfolding w' using fresh by (intro index_ok_Push) simp_all
  have "is_heap (due it) (w_queue w)"
    using wheel_okD(2) [OF ok] due ne by (auto simp: is_heap_def heap_ordered_def)
  then have "is_heap (due it) (fst ?h)" by (simp add: th_Push_queue)
  moreover have "due (snd ?h) = due it" using same_items_due [OF th_Push_items] by fastforce
  ultimately show "is_heap (due (w_items w')) (w_queue w')" using w' by (metis prod.sel)
qed

lemma schedule_locked_live:
  assumes ok: "wheel_ok w" and sch: "schedule_locked task mx w = (mx', w')"
  shows "live w' r \<longleftrightarrow> r = w_next w \<or> live w r \<and> tk_Key (task_of w r) \<noteq> tk_Key task"
proof -
  note parts = schedule_locked_parts [OF sch]
  have "set (w_queue w') = insert (w_next w) (set (w_queue w))"
    using parts(6) by (metis set_mset_add_mset_insert set_mset_mset)
  then show ?thesis using wheel_okD(3,6) [OF ok] by (auto simp: live_def parts(5))
qed

lemma schedule_locked_ok:
  assumes ok: "wheel_ok w" and sch: "schedule_locked task mx w = (mx', w')" and t: "task_error task = None"
  shows "wheel_ok w'"
proof -
  note parts = schedule_locked_parts [OF sch]
  have q: "set (w_queue w') = insert (w_next w) (set (w_queue w))"
    using parts(6) by (metis set_mset_add_mset_insert set_mset_mset)
  have lt: "\<not> live w (w_next w)" using wheel_okD(3) [OF ok] by (auto simp: live_def)
  have "\<forall>r \<in> set (w_queue w'). r < w_next w' \<and> task_error (task_of w' r) = None"
    using wheel_okD(3,4) [OF ok] t by (auto simp: q parts(2,4) less_SucI)
  moreover have "gm_get (w_tasks w') k = Some r \<longleftrightarrow> live w' r \<and> tk_Key (task_of w' r) = k" for k r
    using wheel_okD(6) [OF ok] lt by (auto simp: parts(1,4) schedule_locked_live [OF ok sch])
  ultimately show ?thesis
    using schedule_locked_heap [OF ok sch] ok parts(1,3) unfolding wheel_ok_def by simp
qed

lemma schedule_locked_pending:
  assumes ok: "wheel_ok w" and sch: "schedule_locked task mx w = (mx', w')"
  shows "pending w' = (pending w)(tk_Key task \<mapsto> task)"
proof
  fix k
  note parts = schedule_locked_parts [OF sch]
  have "r < w_next w" if "gm_get (w_tasks w) k = Some r" for r
    using that wheel_okD(3,6) [OF ok] by (auto simp: live_def)
  then show "pending w' k = ((pending w)(tk_Key task \<mapsto> task)) k"
    by (cases "gm_get (w_tasks w) k") (auto simp: pending_def parts)
qed

lemma task_error_default_due [simp]: "task_error (default_due now t) = task_error t"
  by (simp add: task_error_def default_due_def)

lemma tk_Key_default_due [simp]: "tk_Key (default_due now t) = tk_Key t"
  by (simp add: default_due_def)

lemma wheel_schedule_refines:
  assumes ok: "wheel_ok w" and sch: "wheel_schedule now task mx w = (err, mx', w')"
  shows "wheel_ok w'"
    and "err = task_error task"
    and "pending w' = (if task_error task = None then (pending w)(tk_Key task \<mapsto> default_due now task) else pending w)"
  using assms schedule_locked_ok [OF ok] schedule_locked_pending [OF ok]
  by (auto simp: wheel_schedule_def split: option.splits prod.splits)

lemma cancel_locked_parts:
  assumes c: "cancel_locked key mx w = (b, mx', w')"
  shows "w_queue w' = w_queue w" and "w_next w' = w_next w" and "w_wakeCh w' = w_wakeCh w"
    and "task_of w' r = task_of w r" and "gm_get (w_tasks w') k = (if k = key then None else gm_get (w_tasks w) k)"
    and "wt_index (w_items w' r) = wt_index (w_items w r)"
    and "wt_cancelled (w_items w' r) \<longleftrightarrow> wt_cancelled (w_items w r) \<or> gm_get (w_tasks w) key = Some r"
    and "gm_wf (w_tasks w) \<Longrightarrow> gm_wf (w_tasks w')" and "b \<longleftrightarrow> pending w key \<noteq> None"
  using c by (auto simp: cancel_locked_def set_cancelled_def pending_def split: option.splits if_splits)

lemma cancel_locked_live:
  assumes ok: "wheel_ok w" and c: "cancel_locked key mx w = (b, mx', w')"
  shows "live w' r \<longleftrightarrow> live w r \<and> tk_Key (task_of w r) \<noteq> key"
  using wheel_okD(6) [OF ok, of key r] by (auto simp: live_def cancel_locked_parts [OF c])

lemma cancel_locked_ok:
  assumes ok: "wheel_ok w" and c: "cancel_locked key mx w = (b, mx', w')"
  shows "wheel_ok w'" and "pending w' = (pending w)(key := None)"
proof -
  note parts = cancel_locked_parts [OF c]
  have d: "due (w_items w') = due (w_items w)" by (simp add: due_def parts(4) fun_eq_iff)
  have "gm_get (w_tasks w') k = Some r \<longleftrightarrow> live w' r \<and> tk_Key (task_of w' r) = k" for k r
    using wheel_okD(6) [OF ok] by (auto simp: parts(4,5) cancel_locked_live [OF ok c])
  then show "wheel_ok w'"
    using ok by (simp add: wheel_ok_def parts(1,2,3,4,6,8) index_ok_def d)
  show "pending w' = (pending w)(key := None)"
    by (auto simp: pending_def parts(4,5) fun_eq_iff)
qed

lemma wheel_cancel_refines:
  assumes ok: "wheel_ok w" and c: "wheel_cancel key mx w = (b, mx', w')"
  shows "wheel_ok w'" and "pending w' = (pending w)(key := None)" and "b \<longleftrightarrow> pending w key \<noteq> None"
proof -
  obtain b0 m0 w0 where c0: "cancel_locked key mx w = (b0, m0, w0)" by (cases "cancel_locked key mx w") auto
  note facts = cancel_locked_ok [OF ok c0] cancel_locked_parts(9) [OF c0]
  show "wheel_ok w'" "pending w' = (pending w)(key := None)" "b \<longleftrightarrow> pending w key \<noteq> None"
    using c c0 facts pending_empty_key [OF ok] ok
    by (auto simp: wheel_cancel_def fun_upd_idem split: if_splits)
qed

section \<open>nextTask and popDue\<close>

lemma live_queue: "live w r \<Longrightarrow> r \<in> set (w_queue w)"
  by (simp add: live_def)

lemma heapPop_heap:
  assumes "wheel_ok w" and "w_queue w = r # rs"
  shows "index_ok (w_queue (wheel_heapPop w), w_items (wheel_heapPop w))"
    and "is_heap (due (w_items w)) (w_queue (wheel_heapPop w))"
    and "set (w_queue (wheel_heapPop w)) = set (w_queue w) - {r}"
proof -
  have "(w_queue (wheel_heapPop w), w_items (wheel_heapPop w)) = snd (th_Pop (w_queue w, w_items w))"
    by (simp add: wheel_heapPop_def split: prod.splits)
  then show "index_ok (w_queue (wheel_heapPop w), w_items (wheel_heapPop w))"
    using index_ok_Pop [OF wheel_okD(1) [OF assms(1)]] assms(2) by simp
  show "is_heap (due (w_items w)) (w_queue (wheel_heapPop w))"
    using gh.invar_pop [OF wheel_okD(2) [OF assms(1)]] assms(2) by simp
  show "set (w_queue (wheel_heapPop w)) = set (w_queue w) - {r}"
    using wheel_okD(7) [OF assms(1)] assms(2) by auto
qed

lemma pop_cancelled:
  assumes ok: "wheel_ok w" and q: "w_queue w = r # rs" and c: "wt_cancelled (w_items w r)"
  shows "wheel_ok (wheel_heapPop w)" and "live (wheel_heapPop w) = live w"
    and "pending (wheel_heapPop w) = pending w"
proof -
  note heap = heapPop_heap [OF ok q]
  show l: "live (wheel_heapPop w) = live w"
    using heap(3) c by (auto simp: live_def fun_eq_iff)
  show "wheel_ok (wheel_heapPop w)"
    using ok heap l by (simp add: wheel_ok_def del: wheel_heapPop_fields(4))
  show "pending (wheel_heapPop w) = pending w"
    by (simp add: pending_def fun_eq_iff comp_def)
qed

lemma pop_live:
  assumes ok: "wheel_ok w" and q: "w_queue w = r # rs" and c: "\<not> wt_cancelled (w_items w r)"
  defines "w' \<equiv> delete_if_current r (wheel_heapPop w)"
  shows "wheel_ok w'" and "live w' r' \<longleftrightarrow> live w r' \<and> r' \<noteq> r"
    and "pending w' = (pending w)(tk_Key (task_of w r) := None)"
proof -
  note heap = heapPop_heap [OF ok q]
  have live: "live w r" using q c by (simp add: live_def)
  then have cur: "gm_get (w_tasks w) (tk_Key (task_of w r)) = Some r" using wheel_okD(6) [OF ok] by simp
  then have tasks: "w_tasks w' = gm_del (w_tasks w) (tk_Key (task_of w r))"
    by (simp add: w'_def delete_if_current_def)
  show l: "live w' r' \<longleftrightarrow> live w r' \<and> r' \<noteq> r" for r'
    using heap(3) by (auto simp: live_def w'_def)
  have "gm_get (w_tasks w') k = Some r' \<longleftrightarrow> live w' r' \<and> tk_Key (task_of w' r') = k" for k r'
    using wheel_okD(6) [OF ok, of k r'] cur by (auto simp: tasks l) (auto simp: w'_def)
  then show "wheel_ok w'"
    using ok heap tasks by (simp add: wheel_ok_def w'_def del: wheel_heapPop_fields(4))
  show "pending w' = (pending w)(tk_Key (task_of w r) := None)"
    by (simp add: pending_def fun_eq_iff tasks) (simp add: w'_def comp_def)
qed

lemma head_least:
  assumes ok: "wheel_ok w" and q: "w_queue w = r # rs" and l: "live w r'"
  shows "due (w_items w) r \<le> due (w_items w) r'"
  using heap_root_least [OF wheel_okD(2) [OF ok] live_queue [OF l]] q by simp

lemma nextTask_spec:
  assumes "wheel_ok w" and "nextTask w = (next, w')"
  shows "wheel_ok w' \<and> pending w' = pending w \<and> live w' = live w \<and> same_items (w_items w) (w_items w')
       \<and> w_wakeCh w' = w_wakeCh w \<and> w_next w' = w_next w
       \<and> (case next of
            None \<Rightarrow> \<forall>r. \<not> live w r
          | Some r \<Rightarrow> live w r \<and> (\<forall>r'. live w r' \<longrightarrow> due (w_items w) r \<le> due (w_items w) r'))"
  using assms
proof (induction w rule: nextTask.induct)
  case (1 w)
  show ?case
  proof (cases "w_queue w")
    case Nil
    with 1 show ?thesis by (auto simp: nextTask.simps [of w] live_def)
  next
    case (Cons r rs)
    show ?thesis
    proof (cases "wt_cancelled (w_items w r)")
      case True
      note pc = pop_cancelled [OF 1(2) Cons True]
      have nx: "nextTask (wheel_heapPop w) = (next, w')"
        using 1(3) Cons True by (simp add: nextTask.simps [of w])
      show ?thesis
        using 1(1) [OF Cons True pc(1) nx] pc same_items_trans [OF wheel_heapPop_items [of w], of "w_items w'"]
        by (simp cong: option.case_cong)
    next
      case False
      then have "live w r" using Cons by (simp add: live_def)
      with 1 Cons False show ?thesis by (auto simp: nextTask.simps [of w] head_least)
    qed
  qed
qed

definition due_refs :: "time \<Rightarrow> ('p, 'h) wheel \<Rightarrow> tref set" where
  "due_refs now w = {r. live w r \<and> due (w_items w) r \<le> now}"

lemma popDue_loop_spec:
  assumes "wheel_ok w" and "popDue_loop now ready w = (out, w')"
  shows "\<exists>rs. out = ready @ rs \<and> wheel_ok w' \<and> set rs = due_refs now w \<and> distinct rs
       \<and> sorted (map (due (w_items w)) rs)
       \<and> (\<forall>r. live w' r \<longleftrightarrow> live w r \<and> due (w_items w) r > now)
       \<and> same_items (w_items w) (w_items w') \<and> w_wakeCh w' = w_wakeCh w \<and> w_next w' = w_next w"
  using assms
proof (induction now ready w rule: popDue_loop.induct)
  case (1 now ready w)
  show ?case
  proof (cases "w_queue w")
    case Nil
    with 1 show ?thesis by (auto simp: popDue_loop.simps [of now ready w] live_def due_refs_def)
  next
    case (Cons r rs)
    consider (cancelled) "wt_cancelled (w_items w r)"
      | (later) "\<not> wt_cancelled (w_items w r)" "due (w_items w) r > now"
      | (ready) "\<not> wt_cancelled (w_items w r)" "\<not> due (w_items w) r > now" by blast
    then show ?thesis
    proof cases
      case cancelled
      note pc = pop_cancelled [OF 1(3) Cons cancelled]
      have "popDue_loop now ready (wheel_heapPop w) = (out, w')"
        using 1(4) Cons cancelled by (simp add: popDue_loop.simps [of now ready w])
      from 1(1) [OF Cons cancelled pc(1) this] show ?thesis
        using pc same_items_trans [OF wheel_heapPop_items [of w], of "w_items w'"] by (simp add: due_refs_def) blast
    next
      case later
      have "due (w_items w) r' > now" if "live w r'" for r'
        using head_least [OF 1(3) Cons that] later(2) by simp
      with later 1 Cons show ?thesis by (fastforce simp: popDue_loop.simps [of now ready w] due_refs_def)
    next
      case ready
      let ?w = "delete_if_current r (wheel_heapPop w)"
      note pl = pop_live [OF 1(3) Cons ready(1)]
      have "popDue_loop now (ready @ [r]) ?w = (out, w')"
        using 1(4) Cons ready by (simp add: popDue_loop.simps [of now ready w])
      from 1(2) [OF Cons ready pl(1) this] obtain rs' where
        rs': "out = (ready @ [r]) @ rs'" "wheel_ok w'" "set rs' = due_refs now ?w" "distinct rs'"
          "sorted (map (due (w_items w)) rs')" "\<forall>r'. live w' r' \<longleftrightarrow> live ?w r' \<and> due (w_items w) r' > now"
          "same_items (w_items w) (w_items w')" "w_wakeCh w' = w_wakeCh w" "w_next w' = w_next w"
        using same_items_trans [OF wheel_heapPop_items [of w], of "w_items w'"] by auto
      have lr: "live w r" using Cons ready by (simp add: live_def)
      have set: "set (r # rs') = due_refs now w" using lr ready(2) by (simp add: rs'(3) due_refs_def pl(2)) force
      have least: "due (w_items w) r \<le> due (w_items w) r'" if "r' \<in> set rs'" for r'
        using that head_least [OF 1(3) Cons, of r'] by (simp add: rs'(3) due_refs_def pl(2))
      have "r \<notin> set rs'" by (simp add: rs'(3) due_refs_def pl(2))
      moreover have "live w' r' \<longleftrightarrow> live w r' \<and> due (w_items w) r' > now" for r'
        using rs'(6) ready(2) by (auto simp: pl(2))
      ultimately show ?thesis
        using rs'(1,2,4,5,7-9) set least by (intro exI [of _ "r # rs'"]) simp
    qed
  qed
qed

lemmas popDue_spec = popDue_loop_spec [where ready = "[]", folded popDue_def, simplified]

text \<open>
  C4. \<open>popDue\<close> returns exactly the pending tasks whose due time has come, each once, in the order
  of their due times, and leaves exactly the others pending.
\<close>

theorem popDue_exact:
  assumes ok: "wheel_ok w" and pop: "popDue now w = (ready, w')"
  shows "set (map (task_of w) ready) = {t \<in> ran (pending w). tk_DueAt t \<le> now}
       \<and> distinct (map (\<lambda>r. tk_Key (task_of w r)) ready)
       \<and> sorted (map (\<lambda>r. tk_DueAt (task_of w r)) ready)
       \<and> wheel_ok w'
       \<and> pending w' = (\<lambda>k. case pending w k of None \<Rightarrow> None | Some t \<Rightarrow> if tk_DueAt t \<le> now then None else Some t)"
proof -
  from popDue_spec [OF ok pop] have
    p: "wheel_ok w'" "set ready = due_refs now w" "distinct ready" "sorted (map (due (w_items w)) ready)"
      "\<And>r. live w' r \<longleftrightarrow> live w r \<and> due (w_items w) r > now" "\<And>r. task_of w' r = task_of w r"
    by (simp_all add: same_items_def)
  have "set (map (task_of w) ready) = {t \<in> ran (pending w). tk_DueAt t \<le> now}"
    by (auto simp: p(2) due_refs_def ran_def pending_iff [OF ok] due_def)
  moreover have "inj_on (\<lambda>r. tk_Key (task_of w r)) (set ready)"
    using wheel_okD(6) [OF ok] by (intro inj_onI) (metis (lifting) due_refs_def mem_Collect_eq option.inject p(2))
  moreover have "pending w' k = (case pending w k of None \<Rightarrow> None | Some t \<Rightarrow> if tk_DueAt t \<le> now then None else Some t)" for k
  proof (rule option_eqI_Some)
    fix t
    have "pending w' k = Some t \<longleftrightarrow> pending w k = Some t \<and> now < tk_DueAt t"
      by (auto simp: pending_iff [OF p(1)] pending_iff [OF ok] p(5,6) due_def)
    then show "pending w' k = Some t \<longleftrightarrow>
        (case pending w k of None \<Rightarrow> None | Some t \<Rightarrow> if tk_DueAt t \<le> now then None else Some t) = Some t"
      by (auto split: option.split)
  qed
  ultimately show ?thesis using p(1,3) p(4) [unfolded due_def [abs_def]] by (simp add: distinct_map fun_eq_iff)
qed

definition sample_task :: "string \<Rightarrow> time \<Rightarrow> (unit, unit) Task" where
  "sample_task k t = \<lparr>tk_Key = k, tk_Type = TaskRetry, tk_DueAt = t, tk_Payload = (), tk_Handler = Some ()\<rparr>"

definition sample_junk :: "(unit, unit) items" where
  "sample_junk = (\<lambda>_. \<lparr>wt_Task = sample_task '''' 0, wt_cancelled = False, wt_index = 0\<rparr>)"

definition sample_wheel :: "(unit, unit) Task list \<Rightarrow> (unit, unit) wheel" where
  "sample_wheel ts = fold (\<lambda>t w. snd (snd (wheel_schedule 1 t None w))) ts (newWheel sample_junk)"

lemma wheel_ok_schedules: "wheel_ok w \<Longrightarrow> wheel_ok (fold (\<lambda>t w. snd (snd (wheel_schedule now t mx w))) ts w)"
proof (induction ts arbitrary: w)
  case (Cons t ts)
  then show ?case using wheel_schedule_refines(1) [of w now t mx] by simp (metis prod.collapse)
qed simp

lemma sample_wheel_ok: "wheel_ok (sample_wheel ts)"
  by (simp add: sample_wheel_def wheel_ok_schedules)

theorem popDue_exact_witness:
  "(let w = sample_wheel [sample_task ''a'' 9, sample_task ''b'' 5, sample_task ''c'' 20, sample_task ''a'' 3]
    in map (task_of w) (fst (popDue 9 w)) = [sample_task ''a'' 3, sample_task ''b'' 5]
       \<and> {t \<in> ran (pending w). tk_DueAt t \<le> 9} = {sample_task ''a'' 3, sample_task ''b'' 5}
       \<and> wheel_ok (snd (popDue 9 w)))"
proof -
  define w where "w = sample_wheel [sample_task ''a'' 9, sample_task ''b'' 5, sample_task ''c'' 20, sample_task ''a'' 3]"
  have ok: "wheel_ok w" unfolding w_def by (rule sample_wheel_ok)
  have m: "map (task_of w) (fst (popDue 9 w)) = [sample_task ''a'' 3, sample_task ''b'' 5]"
    unfolding w_def by code_simp
  show ?thesis
    using popDue_exact [OF ok prod.collapse [symmetric], of 9] m unfolding w_def [symmetric] Let_def by force
qed

end
