(* ===== verification/Timer_Run.thy ===== *)
theory Timer_Run
  imports Timer_Wheel
begin

text \<open>
  The goroutine \<open>wheel.run\<close> beside the callers of \<open>schedule\<close> and \<open>cancel\<close>, as a step relation.
  The program counter names the points where the loop can be preempted: before \<open>nextTask\<close>, in
  one of the two \<open>select\<close> statements, and between two handler calls. A caller is two steps: the
  section under the mutex, and later the send on the wake channel (\<open>rs_signals\<close> counts the calls
  between the two). Handlers are logged when they are called; what a handler itself schedules or
  cancels is a step of a caller.
\<close>

datatype run_pc = Top | WaitAny | WaitFor tref | Firing "tref list" | Returned

record ('p, 'h) runsys =
  rs_wheel :: "('p, 'h) wheel"
  rs_metrics :: "Metrics option"
  rs_pc :: run_pc
  rs_now :: time
  rs_signals :: nat
  rs_ctxDone :: bool
  rs_log :: "(tref \<times> time) list"

definition run_init :: "('p, 'h) items \<Rightarrow> Metrics option \<Rightarrow> time \<Rightarrow> ('p, 'h) runsys" where
  "run_init junk mx now =
     \<lparr>rs_wheel = newWheel junk, rs_metrics = mx, rs_pc = Top, rs_now = now, rs_signals = 0,
      rs_ctxDone = False, rs_log = []\<rparr>"

definition runnable :: "('p, 'h) wheel \<Rightarrow> tref \<Rightarrow> bool" where
  "runnable w r \<longleftrightarrow> \<not> (wt_cancelled (w_items w r) \<or> tk_Handler (task_of w r) = None)"

definition waiting :: "run_pc \<Rightarrow> bool" where
  "waiting pc \<longleftrightarrow> (case pc of WaitAny \<Rightarrow> True | WaitFor _ \<Rightarrow> True | _ \<Rightarrow> False)"

inductive run_step :: "('p, 'h) runsys \<Rightarrow> ('p, 'h) runsys \<Rightarrow> bool" where
  schedule: "task_error task = None \<Longrightarrow>
     schedule_locked (default_due (rs_now s) task) (rs_metrics s) (rs_wheel s) = (mx', w') \<Longrightarrow>
     run_step s (s\<lparr>rs_wheel := w', rs_metrics := mx', rs_signals := Suc (rs_signals s)\<rparr>)"
| cancel: "cancel_locked key (rs_metrics s) (rs_wheel s) = (True, mx', w') \<Longrightarrow>
     run_step s (s\<lparr>rs_wheel := w', rs_metrics := mx', rs_signals := Suc (rs_signals s)\<rparr>)"
| signal: "rs_signals s = Suc n \<Longrightarrow>
     run_step s (s\<lparr>rs_wheel := wheel_signal (rs_wheel s), rs_signals := n\<rparr>)"
| tick: "rs_now s \<le> t \<Longrightarrow> run_step s (s\<lparr>rs_now := t\<rparr>)"
| ctx_done: "run_step s (s\<lparr>rs_ctxDone := True\<rparr>)"
| top_none: "rs_pc s = Top \<Longrightarrow> nextTask (rs_wheel s) = (None, w') \<Longrightarrow>
     run_step s (s\<lparr>rs_wheel := w', rs_pc := WaitAny\<rparr>)"
| top_some: "rs_pc s = Top \<Longrightarrow> nextTask (rs_wheel s) = (Some r, w') \<Longrightarrow>
     run_step s (s\<lparr>rs_wheel := w', rs_pc := WaitFor r\<rparr>)"
| wake: "waiting (rs_pc s) \<Longrightarrow> recv (w_wakeCh (rs_wheel s)) = Received () ch \<Longrightarrow>
     run_step s (s\<lparr>rs_wheel := (rs_wheel s)\<lparr>w_wakeCh := ch\<rparr>, rs_pc := Top\<rparr>)"
| stop: "waiting (rs_pc s) \<Longrightarrow> rs_ctxDone s \<Longrightarrow> run_step s (s\<lparr>rs_pc := Returned\<rparr>)"
| fire: "rs_pc s = WaitFor r \<Longrightarrow> due (w_items (rs_wheel s)) r \<le> rs_now s \<Longrightarrow>
     popDue (rs_now s) (rs_wheel s) = (ready, w') \<Longrightarrow>
     run_step s (s\<lparr>rs_wheel := w', rs_pc := Firing ready\<rparr>)"
| skip: "rs_pc s = Firing (r # ready) \<Longrightarrow> \<not> runnable (rs_wheel s) r \<Longrightarrow>
     run_step s (s\<lparr>rs_pc := Firing ready\<rparr>)"
| exec: "rs_pc s = Firing (r # ready) \<Longrightarrow> runnable (rs_wheel s) r \<Longrightarrow>
     run_step s (s\<lparr>rs_pc := Firing ready, rs_log := (r, rs_now s) # rs_log s,
        rs_metrics := map_option (\<lambda>m. m\<lparr>mx_Executed := mx_Executed m + 1\<rparr>) (rs_metrics s)\<rparr>)"
| again: "rs_pc s = Firing [] \<Longrightarrow> run_step s (s\<lparr>rs_pc := Top\<rparr>)"

inductive run_reachable :: "('p, 'h) runsys \<Rightarrow> bool" where
  start: "run_reachable (run_init junk mx now)"
| more: "run_reachable s \<Longrightarrow> run_step s s' \<Longrightarrow> run_reachable s'"

inductive_cases run_step_E: "run_step s s'"

section \<open>The invariants\<close>

definition firing :: "run_pc \<Rightarrow> tref list" where
  "firing pc = (case pc of Firing rs \<Rightarrow> rs | _ \<Rightarrow> [])"

lemma firing_simps [simp]:
  "firing Top = []" "firing WaitAny = []" "firing (WaitFor r) = []" "firing (Firing rs) = rs" "firing Returned = []"
  by (simp_all add: firing_def)

text \<open>Items in flight or already run have left the queue, and they were due when they left.\<close>

definition log_ok :: "('p, 'h) runsys \<Rightarrow> bool" where
  "log_ok s \<longleftrightarrow>
     distinct (firing (rs_pc s) @ map fst (rs_log s))
   \<and> (\<forall>r \<in> set (firing (rs_pc s)). due (w_items (rs_wheel s)) r \<le> rs_now s)
   \<and> (\<forall>(r, t) \<in> set (rs_log s). due (w_items (rs_wheel s)) r \<le> t)
   \<and> (\<forall>r \<in> set (firing (rs_pc s) @ map fst (rs_log s)).
        r < w_next (rs_wheel s) \<and> r \<notin> set (w_queue (rs_wheel s)))"

text \<open>When no wake-up is on its way, the loop waits for the right thing.\<close>

definition wait_ok :: "('p, 'h) runsys \<Rightarrow> bool" where
  "wait_ok s \<longleftrightarrow>
     (rs_signals s = 0 \<and> ch_buf (w_wakeCh (rs_wheel s)) = [] \<longrightarrow>
        (case rs_pc s of
           WaitAny \<Rightarrow> \<forall>r. \<not> live (rs_wheel s) r
         | WaitFor r \<Rightarrow> live (rs_wheel s) r
             \<and> (\<forall>r'. live (rs_wheel s) r' \<longrightarrow> due (w_items (rs_wheel s)) r \<le> due (w_items (rs_wheel s)) r')
         | _ \<Rightarrow> True))"

lemma wheel_ok_wake: "wheel_ok w \<Longrightarrow> recv (w_wakeCh w) = Received () ch \<Longrightarrow> wheel_ok (w\<lparr>w_wakeCh := ch\<rparr>)"
  by (auto simp: wheel_ok_def live_def chan_bounded_def recv_def split: list.splits if_splits)

lemma run_step_wheel_ok: "run_step s s' \<Longrightarrow> wheel_ok (rs_wheel s) \<Longrightarrow> wheel_ok (rs_wheel s')"
  by (erule run_step_E)
     (auto simp: cancel_locked_ok(1) wheel_ok_wake intro: schedule_locked_ok dest: nextTask_spec popDue_spec)

lemma run_step_wait_ok:
  assumes "run_step s s'" and "wheel_ok (rs_wheel s)" and "wait_ok s"
  shows "wait_ok s'"
  using assms(1)
proof cases
  case signal
  then show ?thesis using wheel_signal_wakes [OF assms(2)] by (simp add: wait_ok_def)
next
  case (top_none w')
  then show ?thesis using nextTask_spec [OF assms(2) top_none(3)] by (simp add: wait_ok_def)
next
  case (top_some r w')
  then show ?thesis
    using nextTask_spec [OF assms(2) top_some(3)] same_items_due [of "w_items (rs_wheel s)" "w_items w'"]
    by (simp add: wait_ok_def)
qed (use assms(3) in \<open>auto simp: wait_ok_def split: run_pc.splits\<close>)

text \<open>What no step undoes: the task of an item, its cancellation, and its leaving the queue.\<close>

definition wheel_grows :: "('p, 'h) wheel \<Rightarrow> ('p, 'h) wheel \<Rightarrow> bool" where
  "wheel_grows w w' \<longleftrightarrow> w_next w \<le> w_next w'
     \<and> (\<forall>r < w_next w. task_of w' r = task_of w r
          \<and> (wt_cancelled (w_items w r) \<longrightarrow> wt_cancelled (w_items w' r))
          \<and> (r \<in> set (w_queue w') \<longrightarrow> r \<in> set (w_queue w)))"

lemma wheel_grows_refl [simp]: "wheel_grows w w"
  by (simp add: wheel_grows_def)

lemma wheel_grows_same: "same_items (w_items w) (w_items w') \<Longrightarrow> w_next w' = w_next w \<Longrightarrow>
    set (w_queue w') \<subseteq> set (w_queue w) \<Longrightarrow> wheel_grows w w'"
  by (auto simp: wheel_grows_def same_items_def)

lemma wheel_grows_schedule:
  assumes "schedule_locked task mx w = (mx', w')"
  shows "wheel_grows w w'"
proof -
  note parts = schedule_locked_parts [OF assms]
  have "set (w_queue w') = insert (w_next w) (set (w_queue w))"
    using parts(6) by (metis set_mset_add_mset_insert set_mset_mset)
  then show ?thesis by (simp add: wheel_grows_def parts)
qed

lemma wheel_grows_cancel: "cancel_locked key mx w = (b, mx', w') \<Longrightarrow> wheel_grows w w'"
  by (simp add: wheel_grows_def cancel_locked_parts)

lemma nextTask_queue: "nextTask w = (n, w') \<Longrightarrow> set (w_queue w') \<subseteq> set (w_queue w)"
proof (induction w rule: nextTask.induct)
  case (1 w)
  then show ?case
    by (cases "w_queue w") (auto simp: nextTask.simps [of w] split: if_splits)
qed

lemma popDue_queue: "popDue_loop now ready w = (out, w') \<Longrightarrow> set (w_queue w') \<subseteq> set (w_queue w)"
proof (induction now ready w rule: popDue_loop.induct)
  case (1 now ready w)
  then show ?case
    by (cases "w_queue w") (auto simp: popDue_loop.simps [of now ready w] split: if_splits)
qed

lemma run_step_grows:
  assumes st: "run_step s s'" and ok: "wheel_ok (rs_wheel s)"
  shows "wheel_grows (rs_wheel s) (rs_wheel s')"
  using st
proof cases
  case (top_none w')
  then show ?thesis
    using nextTask_spec [OF ok top_none(3)] nextTask_queue [OF top_none(3)] by (simp add: wheel_grows_same)
next
  case (top_some r w')
  then show ?thesis
    using nextTask_spec [OF ok top_some(3)] nextTask_queue [OF top_some(3)] by (simp add: wheel_grows_same)
next
  case (fire r ready w')
  then show ?thesis
    using popDue_spec [OF ok fire(4)] popDue_queue [OF fire(4) [unfolded popDue_def]]
    by (simp add: wheel_grows_same)
qed (auto simp: wheel_grows_schedule wheel_grows_cancel wheel_grows_same)

lemma log_ok_grows:
  assumes "log_ok s" and g: "wheel_grows (rs_wheel s) (rs_wheel s')" and "rs_log s' = rs_log s"
    and "rs_now s \<le> rs_now s'"
    and "firing (rs_pc s') = firing (rs_pc s) \<or> firing (rs_pc s') = [] \<or> (\<exists>r. firing (rs_pc s) = r # firing (rs_pc s'))"
  shows "log_ok s'"
proof -
  have r: "due (w_items (rs_wheel s')) r = due (w_items (rs_wheel s)) r"
    "r < w_next (rs_wheel s')" "r \<in> set (w_queue (rs_wheel s')) \<Longrightarrow> r \<in> set (w_queue (rs_wheel s))"
    if "r < w_next (rs_wheel s)" for r
    using g that by (auto simp: wheel_grows_def due_def)
  have sub: "set (firing (rs_pc s')) \<subseteq> set (firing (rs_pc s))" using assms(5) by auto
  have old: "r < w_next (rs_wheel s)" "r \<notin> set (w_queue (rs_wheel s))"
    if "r \<in> set (firing (rs_pc s')) \<union> fst ` set (rs_log s)" for r
    using assms(1) that sub by (auto simp: log_ok_def)
  have "distinct (firing (rs_pc s') @ map fst (rs_log s'))"
    using assms(5) assms(1) by (elim disjE exE) (simp_all add: log_ok_def assms(3))
  moreover have "\<forall>r \<in> set (firing (rs_pc s')). due (w_items (rs_wheel s')) r \<le> rs_now s'"
  proof
    fix r assume "r \<in> set (firing (rs_pc s'))"
    then have "due (w_items (rs_wheel s')) r = due (w_items (rs_wheel s)) r" and "r \<in> set (firing (rs_pc s))"
      using r(1) old(1) sub by auto
    then show "due (w_items (rs_wheel s')) r \<le> rs_now s'" using assms(1,4) by (auto simp: log_ok_def)
  qed
  moreover have "\<forall>(r, t) \<in> set (rs_log s'). due (w_items (rs_wheel s')) r \<le> t"
  proof safe
    fix r t assume m: "(r, t) \<in> set (rs_log s')"
    then have "r \<in> fst ` set (rs_log s)" by (force simp: assms(3))
    then have "due (w_items (rs_wheel s')) r = due (w_items (rs_wheel s)) r" using r(1) old(1) by blast
    then show "due (w_items (rs_wheel s')) r \<le> t" using assms(1) m by (auto simp: log_ok_def assms(3))
  qed
  moreover have "\<forall>r \<in> set (firing (rs_pc s') @ map fst (rs_log s')).
      r < w_next (rs_wheel s') \<and> r \<notin> set (w_queue (rs_wheel s'))"
  proof
    fix r assume "r \<in> set (firing (rs_pc s') @ map fst (rs_log s'))"
    then have "r \<in> set (firing (rs_pc s')) \<union> fst ` set (rs_log s)" by (simp add: assms(3))
    from old [OF this] r(2,3) show "r < w_next (rs_wheel s') \<and> r \<notin> set (w_queue (rs_wheel s'))" by blast
  qed
  ultimately show ?thesis by (simp add: log_ok_def)
qed

lemma run_step_log_ok:
  assumes st: "run_step s s'" and ok: "wheel_ok (rs_wheel s)" and lo: "log_ok s"
  shows "log_ok s'"
proof -
  note grows = log_ok_grows [OF lo run_step_grows [OF st ok]]
  from st show ?thesis
  proof cases
    case (fire r ready w')
    let ?w = "rs_wheel s"
    from popDue_spec [OF ok fire(4)] have
      w': "set ready = due_refs (rs_now s) ?w" "distinct ready" "wheel_ok w'"
        "\<forall>r. live w' r \<longleftrightarrow> live ?w r \<and> due (w_items ?w) r > rs_now s" "same_items (w_items ?w) (w_items w')"
        "w_next w' = w_next ?w" by simp_all
    have q: "set (w_queue w') \<subseteq> set (w_queue ?w)" using popDue_queue [OF fire(4) [unfolded popDue_def]] .
    have "r \<in> set (w_queue ?w)" "r < w_next ?w" "due (w_items ?w) r \<le> rs_now s" "r \<notin> set (w_queue w')"
      if "r \<in> set ready" for r
      using that w'(1,5) spec [OF w'(4), of r] wheel_okD(3) [OF ok, of r] by (auto simp: due_refs_def live_def same_items_def)
    then show ?thesis
      using lo fire(1,2) w'(2,6) q same_items_due [OF w'(5)] by (fastforce simp: log_ok_def)
  next
    case (exec r ready)
    then show ?thesis using lo by (auto simp: log_ok_def)
  qed (rule grows; simp)+
qed

theorem run_reachable_ok: "run_reachable s \<Longrightarrow> wheel_ok (rs_wheel s) \<and> wait_ok s \<and> log_ok s"
proof (induction rule: run_reachable.induct)
  case (start junk mx now)
  then show ?case by (simp add: run_init_def wait_ok_def log_ok_def)
next
  case (more s s')
  then show ?case using run_step_wheel_ok run_step_wait_ok run_step_log_ok by blast
qed

section \<open>An executable reading of the relation\<close>

datatype ('p, 'h) run_event =
    EvSchedule "('p, 'h) Task" | EvCancel string | EvSignal | EvTick time | EvTop | EvWake | EvFire | EvHandler | EvAgain

definition run_event :: "('p, 'h) run_event \<Rightarrow> ('p, 'h) runsys \<Rightarrow> ('p, 'h) runsys option" where
  "run_event e s =
     (case e of
        EvSchedule task \<Rightarrow>
          (if task_error task = None
           then (let (mx', w') = schedule_locked (default_due (rs_now s) task) (rs_metrics s) (rs_wheel s)
                 in Some (s\<lparr>rs_wheel := w', rs_metrics := mx', rs_signals := Suc (rs_signals s)\<rparr>))
           else None)
      | EvCancel key \<Rightarrow>
          (let (b, mx', w') = cancel_locked key (rs_metrics s) (rs_wheel s)
           in if b then Some (s\<lparr>rs_wheel := w', rs_metrics := mx', rs_signals := Suc (rs_signals s)\<rparr>) else None)
      | EvSignal \<Rightarrow>
          (case rs_signals s of
             0 \<Rightarrow> None
           | Suc n \<Rightarrow> Some (s\<lparr>rs_wheel := wheel_signal (rs_wheel s), rs_signals := n\<rparr>))
      | EvTick t \<Rightarrow> (if rs_now s \<le> t then Some (s\<lparr>rs_now := t\<rparr>) else None)
      | EvTop \<Rightarrow>
          (if rs_pc s = Top
           then (let (next, w') = nextTask (rs_wheel s)
                 in Some (s\<lparr>rs_wheel := w', rs_pc := (case next of None \<Rightarrow> WaitAny | Some r \<Rightarrow> WaitFor r)\<rparr>))
           else None)
      | EvWake \<Rightarrow>
          (if waiting (rs_pc s)
           then (case recv (w_wakeCh (rs_wheel s)) of
                   Received u ch \<Rightarrow> Some (s\<lparr>rs_wheel := (rs_wheel s)\<lparr>w_wakeCh := ch\<rparr>, rs_pc := Top\<rparr>)
                 | _ \<Rightarrow> None)
           else None)
      | EvFire \<Rightarrow>
          (case rs_pc s of
             WaitFor r \<Rightarrow>
               (if due (w_items (rs_wheel s)) r \<le> rs_now s
                then (let (ready, w') = popDue (rs_now s) (rs_wheel s)
                      in Some (s\<lparr>rs_wheel := w', rs_pc := Firing ready\<rparr>))
                else None)
           | _ \<Rightarrow> None)
      | EvHandler \<Rightarrow>
          (case rs_pc s of
             Firing (r # ready) \<Rightarrow>
               (if runnable (rs_wheel s) r
                then Some (s\<lparr>rs_pc := Firing ready, rs_log := (r, rs_now s) # rs_log s,
                  rs_metrics := map_option (\<lambda>m. m\<lparr>mx_Executed := mx_Executed m + 1\<rparr>) (rs_metrics s)\<rparr>)
                else Some (s\<lparr>rs_pc := Firing ready\<rparr>))
           | _ \<Rightarrow> None)
      | EvAgain \<Rightarrow> (if rs_pc s = Firing [] then Some (s\<lparr>rs_pc := Top\<rparr>) else None))"

lemma run_event_step: "run_event e s = Some s' \<Longrightarrow> run_step s s'"
  unfolding run_event_def Let_def
  by (cases e)
     (auto split: if_splits prod.splits nat.splits option.splits recv_result.splits run_pc.splits list.splits
           intro: run_step.intros)

primrec run_events :: "('p, 'h) run_event list \<Rightarrow> ('p, 'h) runsys \<Rightarrow> ('p, 'h) runsys option" where
  "run_events [] s = Some s"
| "run_events (e # es) s = (case run_event e s of None \<Rightarrow> None | Some s' \<Rightarrow> run_events es s')"

lemma run_events_reachable: "run_events es s = Some s' \<Longrightarrow> run_reachable s \<Longrightarrow> run_reachable s'"
  by (induction es arbitrary: s) (auto split: option.splits dest!: run_event_step intro: run_reachable.more)

lemma run_events_steps: "run_events es s = Some s' \<Longrightarrow> run_step\<^sup>*\<^sup>* s s'"
  by (induction es arbitrary: s) (auto split: option.splits dest!: run_event_step intro: converse_rtranclp_into_rtranclp)

definition sample_start :: "(unit, unit) runsys" where
  "sample_start = run_init sample_junk (Some NewMetrics) 1"

definition sample_run :: "(unit, unit) run_event list \<Rightarrow> (unit, unit) runsys" where
  "sample_run es = the (run_events es sample_start)"

lemma sample_run_reachable: "run_events es sample_start \<noteq> None \<Longrightarrow> run_reachable (sample_run es)"
  unfolding sample_run_def sample_start_def by (metis option.exhaust_sel run_events_reachable run_reachable.start)

section \<open>What the loop guarantees\<close>

text \<open>
  C1. No wake-up is lost. Whenever the loop sleeps, in the \<open>select\<close> of the empty queue or in the
  one with a timer, and neither a wake token nor a caller about to send one is outstanding: if
  any task is pending, then the loop sleeps for an item (so not in the \<open>select\<close> of the empty
  queue, which only a wake-up or the context ends), that item is itself pending, and no pending
  task is due earlier. So a task scheduled into an empty wheel, or with a shorter delay than
  the one slept for, always interrupts the sleep, in every interleaving of the callers with the
  loop.
\<close>

theorem run_no_lost_wakeup:
  assumes "run_reachable s" and "rs_pc s = WaitAny \<or> (\<exists>r. rs_pc s = WaitFor r)"
    and "rs_signals s = 0" and "ch_buf (w_wakeCh (rs_wheel s)) = []"
    and "pending (rs_wheel s) k = Some t"
  shows "\<exists>r. rs_pc s = WaitFor r \<and> due (w_items (rs_wheel s)) r \<le> tk_DueAt t
       \<and> pending (rs_wheel s) (tk_Key (task_of (rs_wheel s) r)) = Some (task_of (rs_wheel s) r)"
proof -
  have ok: "wheel_ok (rs_wheel s)" and w: "wait_ok s" using run_reachable_ok [OF assms(1)] by simp_all
  obtain r' where r': "live (rs_wheel s) r'" "task_of (rs_wheel s) r' = t"
    using assms(5) by (auto simp: pending_iff [OF ok])
  then obtain r where r: "rs_pc s = WaitFor r" "live (rs_wheel s) r"
    and least: "due (w_items (rs_wheel s)) r \<le> due (w_items (rs_wheel s)) r'"
    using w assms(2,3,4) by (auto simp: wait_ok_def)
  have "pending (rs_wheel s) (tk_Key (task_of (rs_wheel s) r)) = Some (task_of (rs_wheel s) r)"
    using r(2) by (auto simp: pending_iff [OF ok])
  then show ?thesis using r(1) least r'(2) by (auto simp: due_def)
qed

theorem run_no_lost_wakeup_witness:
  "(let s = sample_run [EvTop, EvSchedule (sample_task ''a'' 9), EvSignal, EvWake, EvTop,
                        EvSchedule (sample_task ''b'' 5), EvSignal, EvWake, EvTop]
    in rs_pc s = WaitFor 1 \<and> pending (rs_wheel s) ''a'' = Some (sample_task ''a'' 9)
       \<and> due (w_items (rs_wheel s)) 1 \<le> tk_DueAt (sample_task ''a'' 9))"
proof -
  define s where "s = sample_run [EvTop, EvSchedule (sample_task ''a'' 9), EvSignal, EvWake, EvTop,
                        EvSchedule (sample_task ''b'' 5), EvSignal, EvWake, EvTop]"
  have reach: "run_reachable s" unfolding s_def by (rule sample_run_reachable) code_simp
  have pc: "rs_pc s = WaitFor 1" unfolding s_def by code_simp
  have sig: "rs_signals s = 0" unfolding s_def by code_simp
  have buf: "ch_buf (w_wakeCh (rs_wheel s)) = []" unfolding s_def by code_simp
  have pend: "pending (rs_wheel s) ''a'' = Some (sample_task ''a'' 9)" unfolding s_def by code_simp
  show ?thesis
    using run_no_lost_wakeup [OF reach _ sig buf pend] pc pend by (simp add: Let_def s_def)
qed

text \<open>
  C10. Each scheduled item runs at most once, and never before it is due.
\<close>

theorem run_once_and_not_early:
  assumes "run_reachable s"
  shows "distinct (map fst (rs_log s)) \<and> (\<forall>(r, t) \<in> set (rs_log s). tk_DueAt (task_of (rs_wheel s) r) \<le> t)"
  using run_reachable_ok [OF assms] by (auto simp: log_ok_def due_def)

theorem run_once_and_not_early_witness:
  "(let s = sample_run [EvSchedule (sample_task ''a'' 9), EvTop, EvTick 12, EvFire, EvHandler]
    in rs_log s = [(0, 12)] \<and> distinct (map fst (rs_log s))
       \<and> (\<forall>(r, t) \<in> set (rs_log s). tk_DueAt (task_of (rs_wheel s) r) \<le> t))"
proof -
  define s where "s = sample_run [EvSchedule (sample_task ''a'' 9), EvTop, EvTick 12, EvFire, EvHandler]"
  have reach: "run_reachable s" unfolding s_def by (rule sample_run_reachable) code_simp
  have "rs_log s = [(0, 12)]" unfolding s_def by code_simp
  then show ?thesis using run_once_and_not_early [OF reach] by (simp add: Let_def s_def)
qed

lemma run_step_cancelled:
  assumes "run_step s s'" and "wheel_ok (rs_wheel s)" and "r < w_next (rs_wheel s)"
    and "wt_cancelled (w_items (rs_wheel s) r)"
  shows "r < w_next (rs_wheel s') \<and> wt_cancelled (w_items (rs_wheel s') r)
       \<and> filter (\<lambda>e. fst e = r) (rs_log s') = filter (\<lambda>e. fst e = r) (rs_log s)"
proof -
  have "r < w_next (rs_wheel s') \<and> wt_cancelled (w_items (rs_wheel s') r)"
    using run_step_grows [OF assms(1,2)] assms(3,4) by (simp add: wheel_grows_def)
  moreover have "filter (\<lambda>e. fst e = r) (rs_log s') = filter (\<lambda>e. fst e = r) (rs_log s)"
    using assms(1,4) by cases (auto simp: runnable_def)
  ultimately show ?thesis by blast
qed

lemma run_steps_cancelled:
  assumes "run_step\<^sup>*\<^sup>* s s'" and "run_reachable s" and "r < w_next (rs_wheel s)"
    and "wt_cancelled (w_items (rs_wheel s) r)"
  shows "wt_cancelled (w_items (rs_wheel s') r)
       \<and> filter (\<lambda>e. fst e = r) (rs_log s') = filter (\<lambda>e. fst e = r) (rs_log s)"
proof -
  have "run_reachable s' \<and> r < w_next (rs_wheel s') \<and> wt_cancelled (w_items (rs_wheel s') r)
       \<and> filter (\<lambda>e. fst e = r) (rs_log s') = filter (\<lambda>e. fst e = r) (rs_log s)"
    using assms(1)
  proof (induction rule: rtranclp_induct)
    case (step s1 s2)
    then show ?case using run_step_cancelled [of s1 s2 r] run_reachable_ok run_reachable.more by metis
  qed (use assms in simp)
  then show ?thesis by blast
qed

text \<open>What \<open>cancel\<close> and \<open>schedule\<close> do to the item their key stands for.\<close>

lemma run_event_cancels:
  assumes "gm_get (w_tasks (rs_wheel s)) key = Some r" and "r < w_next (rs_wheel s)"
    and "e = EvCancel key \<or> (\<exists>task. e = EvSchedule task \<and> tk_Key task = key)"
    and "run_event e s = Some s1"
  shows "r < w_next (rs_wheel s1) \<and> wt_cancelled (w_items (rs_wheel s1) r) \<and> rs_log s1 = rs_log s"
  using assms(3)
proof (elim disjE exE conjE)
  assume "e = EvCancel key"
  then show ?thesis
    using assms(1,2,4)
    by (auto simp: run_event_def cancel_locked_parts split: prod.splits if_splits)
next
  fix task assume "e = EvSchedule task" and "tk_Key task = key"
  then show ?thesis
    using assms(1,2,4)
    by (auto simp: run_event_def schedule_locked_parts split: prod.splits if_splits)
qed

text \<open>
  C11. A pending task that is cancelled, or superseded by a \<open>schedule\<close> with its key, never runs:
  when the key stands for an item in some reachable state and a caller then goes through the
  section under the mutex of \<open>cancel\<close> for the key, or of \<open>schedule\<close> with a task of that key, the
  handler of the item is not called in any state reached after that, and had not been called
  before.
\<close>

theorem run_cancelled_never_runs:
  assumes "run_reachable s" and "gm_get (w_tasks (rs_wheel s)) key = Some r"
    and "e = EvCancel key \<or> (\<exists>task. e = EvSchedule task \<and> tk_Key task = key)"
    and "run_event e s = Some s1" and "run_step\<^sup>*\<^sup>* s1 s'"
  shows "r \<notin> fst ` set (rs_log s')"
proof -
  have ok: "wheel_ok (rs_wheel s)" "log_ok s" using run_reachable_ok [OF assms(1)] by simp_all
  have "live (rs_wheel s) r" using wheel_okD(6) [OF ok(1)] assms(2) by blast
  then have q: "r \<in> set (w_queue (rs_wheel s))" by (rule live_queue)
  then have lt: "r < w_next (rs_wheel s)" using wheel_okD(3) [OF ok(1)] by blast
  have new: "r \<notin> fst ` set (rs_log s)" using ok(2) q by (auto simp: log_ok_def)
  note s1 = run_event_cancels [OF assms(2) lt assms(3,4)]
  have "run_reachable s1" using assms(1) run_event_step [OF assms(4)] by (rule run_reachable.more)
  from run_steps_cancelled [OF assms(5) this] s1
  have "filter (\<lambda>e. fst e = r) (rs_log s') = filter (\<lambda>e. fst e = r) (rs_log s)" by simp
  moreover have "filter (\<lambda>e. fst e = r) (rs_log s) = []" using new by (force simp: filter_empty_conv)
  ultimately show ?thesis by (auto simp: filter_empty_conv)
qed

theorem run_cancelled_never_runs_witness:
  "(let s = sample_run [EvSchedule (sample_task ''a'' 9), EvSchedule (sample_task ''b'' 7), EvTop];
        s' = the (run_events [EvTick 12, EvFire, EvHandler, EvAgain] (the (run_event (EvCancel ''a'') s)))
    in gm_get (w_tasks (rs_wheel s)) ''a'' = Some 0 \<and> rs_log s' = [(1, 12)] \<and> 0 \<notin> fst ` set (rs_log s'))"
proof -
  define s where "s = sample_run [EvSchedule (sample_task ''a'' 9), EvSchedule (sample_task ''b'' 7), EvTop]"
  define s1 where "s1 = the (run_event (EvCancel ''a'') s)"
  define s' where "s' = the (run_events [EvTick 12, EvFire, EvHandler, EvAgain] s1)"
  have reach: "run_reachable s" unfolding s_def by (rule sample_run_reachable) code_simp
  have cur: "gm_get (w_tasks (rs_wheel s)) ''a'' = Some 0" unfolding s_def by code_simp
  have "run_event (EvCancel ''a'') s \<noteq> None" unfolding s_def by code_simp
  then have ev: "run_event (EvCancel ''a'') s = Some s1" unfolding s1_def by simp
  have "run_events [EvTick 12, EvFire, EvHandler, EvAgain] s1 \<noteq> None" unfolding s1_def s_def by code_simp
  then have steps: "run_step\<^sup>*\<^sup>* s1 s'" unfolding s'_def by (metis option.exhaust_sel run_events_steps)
  have log: "rs_log s' = [(1, 12)]" unfolding s'_def s1_def s_def by code_simp
  show ?thesis
    using run_cancelled_never_runs [OF reach cur _ ev steps] cur log by (simp add: Let_def s_def s1_def s'_def)
qed

text \<open>
  The limit of that: once the loop has popped an item into its batch, the key no longer stands
  for it, so a \<open>cancel\<close> that arrives then answers false and the handler runs.
\<close>

lemma cancel_after_pop_is_too_late:
  "(let s = sample_run [EvSchedule (sample_task ''a'' 9), EvTop, EvTick 12, EvFire];
        (ok, mx', w') = wheel_cancel ''a'' (rs_metrics s) (rs_wheel s)
    in rs_log s = [] \<and> \<not> ok \<and> rs_log (the (run_event EvHandler (s\<lparr>rs_wheel := w'\<rparr>))) = [(0, 12)])"
  by code_simp

text \<open>The two steps of a caller, taken one after the other, are the call.\<close>

lemma wheel_schedule_is_two_steps:
  assumes "wheel_schedule (rs_now s) task (rs_metrics s) (rs_wheel s) = (None, mx', w')"
  shows "run_events [EvSchedule task, EvSignal] s = Some (s\<lparr>rs_wheel := w', rs_metrics := mx'\<rparr>)"
  using assms by (auto simp: wheel_schedule_def run_event_def split: option.splits prod.splits)

end
