(* ===== verification/Timer_Scheduler.thy ===== *)
theory Timer_Scheduler
  imports Timer_Wheel
begin

text \<open>
  \<open>gateway/internal/timer/scheduler.go\<close> and \<open>shard.go\<close>: the \<open>Scheduler\<close> interface, stated as the
  locale \<open>scheduler\<close>, and its implementation by shards picked with an FNV-1a hash of the key. The
  interpretation shows that the shards together behave as one map from keys to tasks, so that a
  client (the ACK scanner) need not know about them.
\<close>

section \<open>The interface\<close>

datatype ('p, 'h) sched_op = OpSchedule time "('p, 'h) Task" | OpCancel string

text \<open>The promise: one map from keys to tasks.\<close>

fun spec_op :: "('p, 'h) sched_op \<Rightarrow> (string \<Rightarrow> ('p, 'h) Task option) \<Rightarrow> (string \<Rightarrow> ('p, 'h) Task option)" where
  "spec_op (OpSchedule now t) m = (if task_error t = None then m(tk_Key t \<mapsto> default_due now t) else m)"
| "spec_op (OpCancel k) m = m(k := None)"

locale scheduler =
  fixes Schedule :: "time \<Rightarrow> ('p, 'h) Task \<Rightarrow> 's \<Rightarrow> timer_error option \<times> 's"
    and Cancel :: "string \<Rightarrow> 's \<Rightarrow> bool \<times> 's"
    and pend :: "'s \<Rightarrow> string \<Rightarrow> ('p, 'h) Task option"
    and inv :: "'s \<Rightarrow> bool"
  assumes Schedule_err: "inv s \<Longrightarrow> fst (Schedule now t s) = task_error t"
    and Schedule_inv: "inv s \<Longrightarrow> inv (snd (Schedule now t s))"
    and Schedule_pend: "inv s \<Longrightarrow> pend (snd (Schedule now t s)) =
      (if task_error t = None then (pend s)(tk_Key t \<mapsto> default_due now t) else pend s)"
    and Cancel_result: "inv s \<Longrightarrow> fst (Cancel k s) \<longleftrightarrow> pend s k \<noteq> None"
    and Cancel_inv: "inv s \<Longrightarrow> inv (snd (Cancel k s))"
    and Cancel_pend: "inv s \<Longrightarrow> pend (snd (Cancel k s)) = (pend s)(k := None)"
begin

fun exec_op :: "('p, 'h) sched_op \<Rightarrow> 's \<Rightarrow> 's" where
  "exec_op (OpSchedule now t) s = snd (Schedule now t s)"
| "exec_op (OpCancel k) s = snd (Cancel k s)"

lemma exec_op_simulates: "inv s \<Longrightarrow> inv (exec_op op s) \<and> pend (exec_op op s) = spec_op op (pend s)"
  by (cases op) (simp_all add: Schedule_inv Schedule_pend Cancel_inv Cancel_pend)

lemma exec_ops_simulate: "inv s \<Longrightarrow> inv (fold exec_op ops s) \<and> pend (fold exec_op ops s) = fold spec_op ops (pend s)"
  by (induction ops arbitrary: s) (simp_all add: exec_op_simulates)

lemma cancel_after_schedule:
  assumes "inv s" and "task_error t = None"
  shows "fst (Cancel (tk_Key t) (snd (Schedule now t s)))"
    and "pend (snd (Cancel (tk_Key t) (snd (Schedule now t s)))) (tk_Key t) = None"
  using assms by (simp_all add: Cancel_result Cancel_pend Schedule_inv Schedule_pend)

lemma cancel_twice: "inv s \<Longrightarrow> \<not> fst (Cancel k (snd (Cancel k s)))"
  by (simp add: Cancel_result Cancel_inv Cancel_pend)

lemma schedule_overwrites:
  assumes "inv s" and "task_error t1 = None" and "task_error t2 = None" and "tk_Key t1 = tk_Key t2"
  shows "pend (snd (Schedule now' t2 (snd (Schedule now t1 s)))) = pend (snd (Schedule now' t2 s))"
  using assms by (simp add: Schedule_inv Schedule_pend)

lemma cancel_all:
  "inv s \<Longrightarrow> inv (fold (\<lambda>k s. snd (Cancel k s)) ks s) \<and>
     pend (fold (\<lambda>k s. snd (Cancel k s)) ks s) = (\<lambda>k. if k \<in> set ks then None else pend s k)"
  by (induction ks arbitrary: s) (auto simp: Cancel_inv Cancel_pend fun_eq_iff)

end

text \<open>One wheel, with its counters, is a scheduler.\<close>

type_synonym ('p, 'h) counted_wheel = "Metrics option \<times> ('p, 'h) wheel"

interpretation single: scheduler
  "\<lambda>now t (mx, w). wheel_schedule now t mx w" "\<lambda>k (mx, w). wheel_cancel k mx w"
  "\<lambda>(mx, w). pending w" "\<lambda>(mx, w). wheel_ok w"
proof
  fix s :: "('p, 'h) counted_wheel" and now t k
  obtain mx w where s: "s = (mx, w)" by (cases s)
  obtain e mx1 w1 where sch: "wheel_schedule now t mx w = (e, mx1, w1)" by (cases "wheel_schedule now t mx w") auto
  obtain b mx2 w2 where can: "wheel_cancel k mx w = (b, mx2, w2)" by (cases "wheel_cancel k mx w") auto
  assume "case s of (mx, w) \<Rightarrow> wheel_ok w"
  then have ok: "wheel_ok w" by (simp add: s)
  note facts = wheel_schedule_refines [OF ok sch] wheel_cancel_refines [OF ok can]
  show "fst (case s of (mx, w) \<Rightarrow> wheel_schedule now t mx w) = task_error t"
    "case snd (case s of (mx, w) \<Rightarrow> wheel_schedule now t mx w) of (mx, w) \<Rightarrow> wheel_ok w"
    "(case snd (case s of (mx, w) \<Rightarrow> wheel_schedule now t mx w) of (mx, w) \<Rightarrow> pending w) =
      (if task_error t = None then (case s of (mx, w) \<Rightarrow> pending w)(tk_Key t \<mapsto> default_due now t)
       else (case s of (mx, w) \<Rightarrow> pending w))"
    "fst (case s of (mx, w) \<Rightarrow> wheel_cancel k mx w) \<longleftrightarrow> (case s of (mx, w) \<Rightarrow> pending w) k \<noteq> None"
    "case snd (case s of (mx, w) \<Rightarrow> wheel_cancel k mx w) of (mx, w) \<Rightarrow> wheel_ok w"
    "(case snd (case s of (mx, w) \<Rightarrow> wheel_cancel k mx w) of (mx, w) \<Rightarrow> pending w) =
      (case s of (mx, w) \<Rightarrow> pending w)(k := None)"
    using facts by (simp_all add: s sch can)
qed

section \<open>Shards\<close>

text \<open>\<open>fnv.New32a()\<close>, one byte of the key at a time.\<close>

definition fnv_offset32 :: "32 word" where
  "fnv_offset32 = 2166136261"

definition fnv_prime32 :: "32 word" where
  "fnv_prime32 = 16777619"

definition fnv32a :: "string \<Rightarrow> 32 word" where
  "fnv32a key = foldl (\<lambda>h c. (xor h (of_char c)) * fnv_prime32) fnv_offset32 key"

definition hashKey :: "string \<Rightarrow> nat \<Rightarrow> nat" where
  "hashKey key shardCount =
     (if shardCount \<le> 1 then 0 else unat (fnv32a key mod (of_nat shardCount :: 32 word)))"

record ('p, 'h) shardedScheduler =
  ss_shards :: "('p, 'h) wheel list"
  ss_metrics :: Metrics
  ss_once :: bool  \<comment> \<open>the \<open>sync.Once\<close> of Start has fired\<close>
  ss_cancelled :: "bool option"  \<comment> \<open>\<open>None\<close>: \<open>cancel\<close> is nil; \<open>Some b\<close>: the context, and whether it is cancelled\<close>

definition newShardedScheduler :: "('p, 'h) items \<Rightarrow> nat \<Rightarrow> ('p, 'h) shardedScheduler" where
  "newShardedScheduler junk shardCount =
     \<lparr>ss_shards = replicate shardCount (newWheel junk), ss_metrics = NewMetrics, ss_once = False, ss_cancelled = None\<rparr>"

definition NewScheduler :: "('p, 'h) items \<Rightarrow> int \<Rightarrow> ('p, 'h) shardedScheduler" where
  "NewScheduler junk shardCount =
     newShardedScheduler junk (nat (if shardCount \<le> 0 then 64 else shardCount))"

text \<open>The second component tells that \<open>shard.run\<close> is started for every shard.\<close>

definition Start :: "('p, 'h) shardedScheduler \<Rightarrow> ('p, 'h) shardedScheduler \<times> nat list" where
  "Start s =
     (if ss_once s then (s, [])
      else (s\<lparr>ss_once := True, ss_cancelled := Some False\<rparr>, [0 ..< length (ss_shards s)]))"

definition Stop :: "('p, 'h) shardedScheduler \<Rightarrow> ('p, 'h) shardedScheduler" where
  "Stop s = s\<lparr>ss_cancelled := map_option (\<lambda>_. True) (ss_cancelled s)\<rparr>"

text \<open>With no shards the code works on a fresh wheel that nobody keeps.\<close>

definition sharded_Schedule ::
    "('p, 'h) items \<Rightarrow> time \<Rightarrow> ('p, 'h) Task \<Rightarrow> ('p, 'h) shardedScheduler \<Rightarrow> timer_error option \<times> ('p, 'h) shardedScheduler" where
  "sharded_Schedule junk now task s =
     (if ss_shards s = [] then (fst (wheel_schedule now task (Some NewMetrics) (newWheel junk)), s)
      else
        (let i = hashKey (tk_Key task) (length (ss_shards s));
             (err, mx, w) = wheel_schedule now task (Some (ss_metrics s)) (ss_shards s ! i)
         in (err, s\<lparr>ss_shards := (ss_shards s)[i := w], ss_metrics := the mx\<rparr>)))"

definition sharded_Cancel ::
    "('p, 'h) items \<Rightarrow> string \<Rightarrow> ('p, 'h) shardedScheduler \<Rightarrow> bool \<times> ('p, 'h) shardedScheduler" where
  "sharded_Cancel junk key s =
     (if ss_shards s = [] then (fst (wheel_cancel key (Some NewMetrics) (newWheel junk)), s)
      else
        (let i = hashKey key (length (ss_shards s));
             (ok, mx, w) = wheel_cancel key (Some (ss_metrics s)) (ss_shards s ! i)
         in (ok, s\<lparr>ss_shards := (ss_shards s)[i := w], ss_metrics := the mx\<rparr>)))"

section \<open>The shards are one map\<close>

lemma hashKey_less:
  assumes "0 < n" and "n < 2 ^ 32"
  shows "hashKey key n < n"
proof (cases "n \<le> 1")
  case False
  have n: "unat (of_nat n :: 32 word) = n" using assms(2) by (simp add: unat_of_nat take_bit_nat_eq_self)
  have "unat (fnv32a key mod (of_nat n :: 32 word)) = unat (fnv32a key) mod n" by (simp add: unat_mod_distrib n)
  then show ?thesis using False by (simp add: hashKey_def)
qed (use assms in \<open>simp add: hashKey_def\<close>)

definition sharded_pending :: "('p, 'h) shardedScheduler \<Rightarrow> string \<Rightarrow> ('p, 'h) Task option" where
  "sharded_pending s key = pending (ss_shards s ! hashKey key (length (ss_shards s))) key"

definition sharded_ok :: "('p, 'h) shardedScheduler \<Rightarrow> bool" where
  "sharded_ok s \<longleftrightarrow> 0 < length (ss_shards s) \<and> length (ss_shards s) < 2 ^ 32
     \<and> (\<forall>i < length (ss_shards s). wheel_ok (ss_shards s ! i)
          \<and> (\<forall>k. pending (ss_shards s ! i) k \<noteq> None \<longrightarrow> i = hashKey k (length (ss_shards s))))"

lemma sharded_ok_shard: "sharded_ok s \<Longrightarrow> hashKey k (length (ss_shards s)) < length (ss_shards s)"
  by (simp add: sharded_ok_def hashKey_less)

lemma sharded_ok_wheel: "sharded_ok s \<Longrightarrow> wheel_ok (ss_shards s ! hashKey k (length (ss_shards s)))"
  using sharded_ok_shard [of s k] by (simp add: sharded_ok_def)

text \<open>Replacing the shard of a key by a wheel that differs at that key only.\<close>

lemma sharded_update:
  fixes s :: "('p, 'h) shardedScheduler" and mx :: Metrics
  defines "i \<equiv> \<lambda>k. hashKey k (length (ss_shards s))"
  assumes ok: "sharded_ok s" and w: "wheel_ok w" and p: "pending w = (pending (ss_shards s ! i k))(k := v)"
  defines "s' \<equiv> s\<lparr>ss_shards := (ss_shards s)[i k := w], ss_metrics := mx\<rparr>"
  shows "sharded_ok s'" and "sharded_pending s' = (sharded_pending s)(k := v)"
proof -
  have i: "i k < length (ss_shards s)" for k using sharded_ok_shard [OF ok] by (simp add: i_def)
  show "sharded_ok s'"
    using ok w i [of k] by (auto simp: sharded_ok_def s'_def nth_list_update p i_def split: if_splits)
  show "sharded_pending s' = (sharded_pending s)(k := v)"
  proof
    fix k'
    show "sharded_pending s' k' = ((sharded_pending s)(k := v)) k'"
      using i [of k'] i [of k] p by (auto simp: sharded_pending_def s'_def nth_list_update i_def)
  qed
qed

lemma sharded_Schedule_refines:
  assumes ok: "sharded_ok s" and r: "sharded_Schedule junk now t s = (e, s')"
  shows "e = task_error t" and "sharded_ok s'"
    and "sharded_pending s' =
      (if task_error t = None then (sharded_pending s)(tk_Key t \<mapsto> default_due now t) else sharded_pending s)"
proof -
  let ?w = "ss_shards s ! hashKey (tk_Key t) (length (ss_shards s))"
  have w: "wheel_ok ?w" using sharded_ok_wheel [OF ok] .
  have ne: "ss_shards s \<noteq> []" using ok by (auto simp: sharded_ok_def)
  obtain e0 mx w' where sch: "wheel_schedule now t (Some (ss_metrics s)) ?w = (e0, mx, w')"
    by (cases "wheel_schedule now t (Some (ss_metrics s)) ?w") auto
  note ref = wheel_schedule_refines [OF w sch]
  have s': "e = e0" "s' = s\<lparr>ss_shards := (ss_shards s)[hashKey (tk_Key t) (length (ss_shards s)) := w'], ss_metrics := the mx\<rparr>"
    using r ne sch by (auto simp: sharded_Schedule_def Let_def)
  have upd: "pending w' = (pending ?w)(tk_Key t := (if task_error t = None then Some (default_due now t) else pending ?w (tk_Key t)))"
    using ref(3) by simp
  note u = sharded_update [OF ok ref(1) upd, of "the mx", folded s'(2)]
  show "e = task_error t" using s' ref by simp
  show "sharded_ok s'" by (rule u(1))
  show "sharded_pending s' =
      (if task_error t = None then (sharded_pending s)(tk_Key t \<mapsto> default_due now t) else sharded_pending s)"
    using u(2) by (simp add: sharded_pending_def fun_upd_idem)
qed

lemma sharded_Cancel_refines:
  assumes ok: "sharded_ok s" and r: "sharded_Cancel junk k s = (b, s')"
  shows "b \<longleftrightarrow> sharded_pending s k \<noteq> None" and "sharded_ok s'"
    and "sharded_pending s' = (sharded_pending s)(k := None)"
proof -
  let ?w = "ss_shards s ! hashKey k (length (ss_shards s))"
  have w: "wheel_ok ?w" using sharded_ok_wheel [OF ok] .
  have ne: "ss_shards s \<noteq> []" using ok by (auto simp: sharded_ok_def)
  obtain b0 mx w' where can: "wheel_cancel k (Some (ss_metrics s)) ?w = (b0, mx, w')"
    by (cases "wheel_cancel k (Some (ss_metrics s)) ?w") auto
  note ref = wheel_cancel_refines [OF w can]
  have s': "b = b0" "s' = s\<lparr>ss_shards := (ss_shards s)[hashKey k (length (ss_shards s)) := w'], ss_metrics := the mx\<rparr>"
    using r ne can by (auto simp: sharded_Cancel_def Let_def)
  note u = sharded_update [OF ok ref(1,2), of "the mx", folded s'(2)]
  show "b \<longleftrightarrow> sharded_pending s k \<noteq> None" using s' ref by (simp add: sharded_pending_def)
  show "sharded_ok s'" "sharded_pending s' = (sharded_pending s)(k := None)" by (rule u)+
qed

interpretation sharded: scheduler "sharded_Schedule junk" "sharded_Cancel junk" sharded_pending sharded_ok
  for junk :: "('p, 'h) items"
  by unfold_locales
     (metis prod.collapse sharded_Schedule_refines sharded_Cancel_refines)+

lemma NewScheduler_ok:
  assumes "shardCount < 2 ^ 32"
  shows "sharded_ok (NewScheduler junk shardCount)" and "sharded_pending (NewScheduler junk shardCount) = Map.empty"
proof -
  let ?n = "nat (if shardCount \<le> 0 then 64 else shardCount)"
  have n: "0 < ?n" "?n < 2 ^ 32" using assms by (auto simp: nat_less_iff)
  show ok: "sharded_ok (NewScheduler junk shardCount)"
    using n by (simp add: sharded_ok_def NewScheduler_def newShardedScheduler_def)
  show "sharded_pending (NewScheduler junk shardCount) = Map.empty"
    using n hashKey_less [of ?n] by (simp add: sharded_pending_def NewScheduler_def newShardedScheduler_def fun_eq_iff)
qed

text \<open>The two calls of the \<open>Scheduler\<close> interface, driven by a list of operations.\<close>

definition sharded_op :: "('p, 'h) items \<Rightarrow> ('p, 'h) sched_op \<Rightarrow> ('p, 'h) shardedScheduler \<Rightarrow> ('p, 'h) shardedScheduler" where
  "sharded_op junk op s =
     (case op of
        OpSchedule now t \<Rightarrow> snd (sharded_Schedule junk now t s)
      | OpCancel k \<Rightarrow> snd (sharded_Cancel junk k s))"

text \<open>
  C5. A scheduler of any number of shards below \<open>2^32\<close>, driven by any sequence of \<open>Schedule\<close> and
  \<open>Cancel\<close> calls, holds exactly what a single map from keys to tasks would hold: the last task
  scheduled under each key that was not cancelled afterwards. Which shard a key hashes to is
  invisible.
\<close>

theorem sharded_scheduler_is_one_map:
  assumes "shardCount < 2 ^ 32"
  shows "sharded_pending (fold (sharded_op junk) ops (NewScheduler junk shardCount)) = fold spec_op ops Map.empty"
proof -
  have "sharded_op junk = sharded.exec_op junk"
    by (simp add: fun_eq_iff sharded_op_def sharded.exec_op.simps split: sched_op.split)
  then show ?thesis
    using sharded.exec_ops_simulate [OF NewScheduler_ok(1) [OF assms], of junk ops junk]
    by (simp add: NewScheduler_ok(2) [OF assms])
qed

theorem sharded_scheduler_is_one_map_witness:
  "(let t = \<lparr>tk_Key = ''ack:s:1'', tk_Type = TaskAckTimeout, tk_DueAt = 0, tk_Payload = (), tk_Handler = Some ()\<rparr>;
        junk = (\<lambda>_. \<lparr>wt_Task = t, wt_cancelled = False, wt_index = 0\<rparr>);
        ops = [OpSchedule 5 t, OpSchedule 6 (t\<lparr>tk_Key := ''ack:s:2''\<rparr>), OpCancel ''ack:s:2'']
    in sharded_pending (fold (sharded_op junk) ops (NewScheduler junk 4)) ''ack:s:1'' = Some (t\<lparr>tk_DueAt := 5\<rparr>)
       \<and> sharded_pending (fold (sharded_op junk) ops (NewScheduler junk 4)) ''ack:s:2'' = None)"
  by (simp add: Let_def sharded_scheduler_is_one_map task_error_def default_due_def)

end
