(* ===== verification/Local_Router.thy ===== *)
theory Local_Router
  imports Go_Prelude
begin

text \<open>
  \<open>gateway/internal/router/local.go\<close>: the four indexes from users, devices, rooms and topics to
  sessions. A session is a reference (\<open>sref\<close>); its methods \<open>SessionID()\<close> and \<open>DeviceID()\<close>, which
  the router calls through the interface \<open>SessionTarget\<close>, are the arguments \<open>sid\<close> and \<open>did\<close>.

  The part of the router a session uses (\<open>types.LocalRouterOps\<close>) is the locale \<open>membership\<close>.
\<close>

type_synonym sref = nat

record LocalRouter =
  lr_userConns :: "(string, (string, sref) gomap) gomap"
  lr_deviceConn :: "(string, sref) gomap"
  lr_rooms :: "(string, (string, sref) gomap) gomap"
  lr_topics :: "(string, (string, sref) gomap) gomap"

definition NewLocalRouter :: LocalRouter where
  "NewLocalRouter = \<lparr>lr_userConns = [], lr_deviceConn = [], lr_rooms = [], lr_topics = []\<rparr>"

text \<open>The parameter \<open>deviceID\<close> is not used by the code; the session's own device is.\<close>

definition RegisterSession ::
    "(sref \<Rightarrow> string) \<Rightarrow> (sref \<Rightarrow> string) \<Rightarrow> string \<Rightarrow> string \<Rightarrow> sref \<Rightarrow> LocalRouter \<Rightarrow> sref option \<times> LocalRouter" where
  "RegisterSession sid did userID deviceID sess r =
     (let kicked = (case gm_get (lr_deviceConn r) (did sess) of
                      Some old \<Rightarrow> if sid old = sid sess then Some old else None
                    | None \<Rightarrow> None)
      in (kicked,
          r\<lparr>lr_deviceConn := gm_set (lr_deviceConn r) (did sess) sess,
            lr_userConns := idx_put (lr_userConns r) userID (did sess) sess\<rparr>))"

definition UnregisterSession :: "string \<Rightarrow> string \<Rightarrow> LocalRouter \<Rightarrow> LocalRouter" where
  "UnregisterSession userID deviceID r =
     r\<lparr>lr_deviceConn := gm_del (lr_deviceConn r) deviceID,
       lr_userConns := idx_drop (lr_userConns r) userID deviceID\<rparr>"

definition JoinRoom :: "(sref \<Rightarrow> string) \<Rightarrow> string \<Rightarrow> sref \<Rightarrow> LocalRouter \<Rightarrow> LocalRouter" where
  "JoinRoom sid roomID sess r = r\<lparr>lr_rooms := idx_put (lr_rooms r) roomID (sid sess) sess\<rparr>"

definition LeaveRoom :: "(sref \<Rightarrow> string) \<Rightarrow> string \<Rightarrow> sref \<Rightarrow> LocalRouter \<Rightarrow> LocalRouter" where
  "LeaveRoom sid roomID sess r = r\<lparr>lr_rooms := idx_drop (lr_rooms r) roomID (sid sess)\<rparr>"

definition Subscribe :: "(sref \<Rightarrow> string) \<Rightarrow> string \<Rightarrow> sref \<Rightarrow> LocalRouter \<Rightarrow> LocalRouter" where
  "Subscribe sid topic sess r = r\<lparr>lr_topics := idx_put (lr_topics r) topic (sid sess) sess\<rparr>"

definition Unsubscribe :: "(sref \<Rightarrow> string) \<Rightarrow> string \<Rightarrow> sref \<Rightarrow> LocalRouter \<Rightarrow> LocalRouter" where
  "Unsubscribe sid topic sess r = r\<lparr>lr_topics := idx_drop (lr_topics r) topic (sid sess)\<rparr>"

text \<open>
  \<open>for _, v := range m { for sessionID := range v { if sessionID == id { delete(v, sessionID) } } }\<close>.
  The inner maps stay, even when they become empty.
\<close>

definition purge :: "string \<Rightarrow> (string, (string, sref) gomap) gomap \<Rightarrow> (string, (string, sref) gomap) gomap" where
  "purge s m = map (\<lambda>(k, v). (k, gm_del v s)) m"

definition UnregisterAll :: "(sref \<Rightarrow> string) \<Rightarrow> sref \<Rightarrow> LocalRouter \<Rightarrow> LocalRouter" where
  "UnregisterAll sid sess r =
     r\<lparr>lr_rooms := purge (sid sess) (lr_rooms r), lr_topics := purge (sid sess) (lr_topics r)\<rparr>"

definition members_of :: "(string, (string, sref) gomap) gomap \<Rightarrow> string \<Rightarrow> sref list" where
  "members_of m to = (case gm_get m to of None \<Rightarrow> [] | Some inner \<Rightarrow> gm_vals inner)"

definition Resolve :: "string \<Rightarrow> LocalRouter \<Rightarrow> sref list option" where
  "Resolve to r =
     (let conns = members_of (lr_userConns r) to @ members_of (lr_rooms r) to @ members_of (lr_topics r) to
      in if conns = [] then None else Some conns)"

section \<open>Well-formedness\<close>

definition router_ok :: "(sref \<Rightarrow> string) \<Rightarrow> (sref \<Rightarrow> string) \<Rightarrow> LocalRouter \<Rightarrow> bool" where
  "router_ok sid did r \<longleftrightarrow>
     idx_wf (lr_userConns r) \<and> gm_wf (lr_deviceConn r) \<and> idx_wf (lr_rooms r) \<and> idx_wf (lr_topics r)
   \<and> (\<forall>d s. gm_get (lr_deviceConn r) d = Some s \<longrightarrow> did s = d)
   \<and> (\<forall>u d s. idx_get (lr_userConns r) u d = Some s \<longrightarrow> did s = d)
   \<and> (\<forall>k i s. idx_get (lr_rooms r) k i = Some s \<longrightarrow> sid s = i)
   \<and> (\<forall>k i s. idx_get (lr_topics r) k i = Some s \<longrightarrow> sid s = i)"

lemma gm_get_purge: "gm_get (purge s m) k = map_option (\<lambda>v. gm_del v s) (gm_get m k)"
  by (induction m) (auto simp: gm_get_def purge_def)

lemma gm_keys_purge [simp]: "gm_keys (purge s m) = gm_keys m"
  by (simp add: gm_keys_def purge_def case_prod_unfold comp_def)

lemma idx_get_purge [simp]: "idx_get (purge s m) k i = (if i = s then None else idx_get m k i)"
  by (simp add: idx_get_def gm_get_purge split: option.split)

lemma idx_wf_purge [simp]: "idx_wf m \<Longrightarrow> idx_wf (purge s m)"
  by (auto simp: idx_wf_def gm_wf_def gm_get_purge) (metis gm_wf_def gm_wf_del)

lemma members_of_iff: "idx_wf m \<Longrightarrow> x \<in> set (members_of m to) \<longleftrightarrow> (\<exists>i. idx_get m to i = Some x)"
  by (cases "gm_get m to") (simp_all add: members_of_def idx_get_def gm_vals_iff idx_wf_innerD)

lemma router_ok_new [simp]: "router_ok sid did NewLocalRouter"
  by (simp add: router_ok_def NewLocalRouter_def)

lemma router_ok_ops:
  assumes "router_ok sid did r"
  shows "router_ok sid did (snd (RegisterSession sid did u d s r))" "router_ok sid did (UnregisterSession u d r)"
    "router_ok sid did (JoinRoom sid k s r)" "router_ok sid did (LeaveRoom sid k s r)"
    "router_ok sid did (Subscribe sid k s r)" "router_ok sid did (Unsubscribe sid k s r)"
    "router_ok sid did (UnregisterAll sid s r)"
  using assms
  by (auto simp: router_ok_def RegisterSession_def UnregisterSession_def JoinRoom_def LeaveRoom_def
      Subscribe_def Unsubscribe_def UnregisterAll_def Let_def split: if_splits)

section \<open>The interface a session relies on\<close>

text \<open>
  \<open>rooms\<close> and \<open>topics\<close> read who is where. The laws say that each operation changes its own entry and
  nothing else, and that \<open>unregister\<close> removes a session identity everywhere.
\<close>

locale membership =
  fixes join leave subscribe unsubscribe :: "string \<Rightarrow> sref \<Rightarrow> 'r \<Rightarrow> 'r"
    and unregister :: "sref \<Rightarrow> 'r \<Rightarrow> 'r"
    and rooms topics :: "'r \<Rightarrow> string \<Rightarrow> string \<Rightarrow> sref option"
    and sid :: "sref \<Rightarrow> string"
  assumes join_rooms: "rooms (join k s r) k' i = (if k' = k \<and> i = sid s then Some s else rooms r k' i)"
    and join_topics: "topics (join k s r) = topics r"
    and leave_rooms: "rooms (leave k s r) k' i = (if k' = k \<and> i = sid s then None else rooms r k' i)"
    and leave_topics: "topics (leave k s r) = topics r"
    and sub_topics: "topics (subscribe k s r) k' i = (if k' = k \<and> i = sid s then Some s else topics r k' i)"
    and sub_rooms: "rooms (subscribe k s r) = rooms r"
    and unsub_topics: "topics (unsubscribe k s r) k' i = (if k' = k \<and> i = sid s then None else topics r k' i)"
    and unsub_rooms: "rooms (unsubscribe k s r) = rooms r"
    and unreg_rooms: "rooms (unregister s r) k i = (if i = sid s then None else rooms r k i)"
    and unreg_topics: "topics (unregister s r) k i = (if i = sid s then None else topics r k i)"
begin

definition rejoin :: "string list \<Rightarrow> string list \<Rightarrow> sref \<Rightarrow> 'r \<Rightarrow> 'r" where
  "rejoin rs ts s r = fold (\<lambda>k. subscribe k s) ts (fold (\<lambda>k. join k s) rs r)"

lemma joins: "rooms (fold (\<lambda>k. join k s) ks r) k i = (if k \<in> set ks \<and> i = sid s then Some s else rooms r k i)
    \<and> topics (fold (\<lambda>k. join k s) ks r) = topics r"
  by (induction ks arbitrary: r) (auto simp: join_rooms join_topics)

lemma subscribes: "topics (fold (\<lambda>k. subscribe k s) ks r) k i = (if k \<in> set ks \<and> i = sid s then Some s else topics r k i)
    \<and> rooms (fold (\<lambda>k. subscribe k s) ks r) = rooms r"
  by (induction ks arbitrary: r) (auto simp: sub_topics sub_rooms)

text \<open>Detaching and attaching again restores exactly the memberships of the snapshot.\<close>

lemma rejoin_after_unregister:
  "rooms (rejoin rs ts s (unregister s r)) k i =
     (if i = sid s then (if k \<in> set rs then Some s else None) else rooms r k i)"
  "topics (rejoin rs ts s (unregister s r)) k i =
     (if i = sid s then (if k \<in> set ts then Some s else None) else topics r k i)"
  by (simp_all add: rejoin_def joins subscribes unreg_rooms unreg_topics)

end

interpretation lr: membership "JoinRoom sid" "LeaveRoom sid" "Subscribe sid" "Unsubscribe sid" "UnregisterAll sid"
  "\<lambda>r. idx_get (lr_rooms r)" "\<lambda>r. idx_get (lr_topics r)" sid for sid
  by unfold_locales
     (simp_all add: JoinRoom_def LeaveRoom_def Subscribe_def Unsubscribe_def UnregisterAll_def)

section \<open>Properties\<close>

text \<open>
  \<open>Resolve\<close> returns exactly the sessions registered under the address in one of the three
  indexes, and reports failure exactly when there is none. (The address is used as it is in all
  three indexes.)
\<close>

theorem Resolve_exact:
  assumes "router_ok sid did r"
  shows "(case Resolve to r of None \<Rightarrow> {} | Some conns \<Rightarrow> set conns) =
      {s. (\<exists>d. idx_get (lr_userConns r) to d = Some s)
        \<or> (\<exists>i. idx_get (lr_rooms r) to i = Some s) \<or> (\<exists>i. idx_get (lr_topics r) to i = Some s)}
    \<and> Resolve to r \<noteq> Some []"
proof -
  have wf: "idx_wf (lr_userConns r)" "idx_wf (lr_rooms r)" "idx_wf (lr_topics r)"
    using assms by (simp_all add: router_ok_def)
  have "(case Resolve to r of None \<Rightarrow> {} | Some conns \<Rightarrow> set conns) =
      set (members_of (lr_userConns r) to) \<union> set (members_of (lr_rooms r) to) \<union> set (members_of (lr_topics r) to)"
    by (auto simp: Resolve_def Let_def)
  also have "\<dots> = {s. (\<exists>d. idx_get (lr_userConns r) to d = Some s)
        \<or> (\<exists>i. idx_get (lr_rooms r) to i = Some s) \<or> (\<exists>i. idx_get (lr_topics r) to i = Some s)}"
    using members_of_iff [OF wf(1)] members_of_iff [OF wf(2)] members_of_iff [OF wf(3)] by auto
  finally show ?thesis by (simp add: Resolve_def Let_def)
qed

text \<open>
  A session that reconnects with a subscription snapshot is afterwards a member of exactly
  the rooms and topics of the snapshot, whatever it was a member of before, and the
  memberships of every other session are untouched.
\<close>

theorem rejoin_restores_subscriptions:
  "(let r' = fold (\<lambda>k. Subscribe sid k s) ts (fold (\<lambda>k. JoinRoom sid k s) rs (UnregisterAll sid s r))
    in (idx_get (lr_rooms r') k i = (if i = sid s then (if k \<in> set rs then Some s else None) else idx_get (lr_rooms r) k i))
     \<and> (idx_get (lr_topics r') k i = (if i = sid s then (if k \<in> set ts then Some s else None) else idx_get (lr_topics r) k i)))"
  using lr.rejoin_after_unregister [of sid rs ts s r k i] by (simp add: lr.rejoin_def Let_def)

text \<open>
  The session that \<open>RegisterSession\<close> hands back to be kicked always has the identity of the
  session being registered; another session that held the device is replaced in the index and
  not reported. So a reconnecting client's own session is kicked and a stranger's is not, the
  opposite of what the interface promises (\<open>types.SessionRegistrar\<close>: a different session with the
  same device is returned).
\<close>

theorem RegisterSession_kicks_only_itself:
  assumes "gm_get (lr_deviceConn r) (did s) = Some old"
  shows "fst (RegisterSession sid did u d s r) = (if sid old = sid s then Some old else None)
       \<and> gm_get (lr_deviceConn (snd (RegisterSession sid did u d s r))) (did s) = Some s
       \<and> idx_get (lr_userConns (snd (RegisterSession sid did u d s r))) u (did s) = Some s"
  using assms by (simp add: RegisterSession_def Let_def)

definition sample_router :: LocalRouter where
  "sample_router =
     JoinRoom (\<lambda>s. ''s'') ''room'' 0 (snd (RegisterSession (\<lambda>s. ''s'') (\<lambda>s. ''d'') ''u'' ''d'' 0 NewLocalRouter))"

theorem Resolve_exact_witness:
  "Resolve ''room'' sample_router = Some [0] \<and> Resolve ''u'' sample_router = Some [0] \<and>
   {s. (\<exists>d. idx_get (lr_userConns sample_router) ''room'' d = Some s)
     \<or> (\<exists>i. idx_get (lr_rooms sample_router) ''room'' i = Some s)
     \<or> (\<exists>i. idx_get (lr_topics sample_router) ''room'' i = Some s)} = {0}"
proof -
  have ok: "router_ok (\<lambda>s. ''s'') (\<lambda>s. ''d'') sample_router"
    by (simp add: sample_router_def router_ok_ops)
  have res: "Resolve ''room'' sample_router = Some [0]" by code_simp
  have "Resolve ''u'' sample_router = Some [0]" by code_simp
  with Resolve_exact [OF ok, of "''room''"] res show ?thesis by simp
qed

theorem RegisterSession_kicks_only_itself_witness:
  "fst (RegisterSession (\<lambda>s. ''s'') (\<lambda>s. ''d'') ''u'' ''d'' 0 sample_router) = Some 0"
  using RegisterSession_kicks_only_itself [of sample_router "\<lambda>s. ''d''" 0 0 "\<lambda>s. ''s''" "''u''" "''d''"]
  by (simp add: sample_router_def RegisterSession_def JoinRoom_def NewLocalRouter_def)

end
