(* ===== verification/Connection.thy ===== *)
theory Connection
  imports Proto Codec Timer_Heap
begin

text \<open>
  \<open>gateway/internal/access/connruntime\<close>: the physical connection. Messages in the write queue are
  pointers into the message store, as in the code, so that a write to a message that sits in two
  queues is seen by both. The transport and the codec libraries are arguments.

  Milliseconds since the Unix epoch (\<open>UnixMilli\<close>) are derived from the nanosecond clock of
  \<open>Timer_Heap\<close>.
\<close>

definition WriteChannelSize :: nat where
  "WriteChannelSize = 4096"

definition Second :: int where
  "Second = 1000000000"

definition Millisecond :: int where
  "Millisecond = 1000000"

definition HeartbeatTimeout :: int where
  "HeartbeatTimeout = 90 * Second"

text \<open>Seconds from year 1 to 1970.\<close>

definition unixEpoch :: time where
  "unixEpoch = 62135596800 * Second"

definition UnixMilli :: "time \<Rightarrow> int" where
  "UnixMilli t = (t - unixEpoch) div Millisecond"

definition from_UnixMilli :: "int \<Rightarrow> time" where
  "from_UnixMilli ms = unixEpoch + ms * Millisecond"

datatype ConnState = ConnHandshaking | ConnActive | ConnClosing | ConnClosed

record Connection =
  cn_ConnID :: string
  cn_UserID :: string
  cn_AppID :: string
  cn_DeviceID :: string
  cn_DeviceType :: string
  cn_BizCode :: string
  cn_writeCh :: "mref chan"
  cn_state :: ConnState
  cn_lastPingAt :: int
  cn_lastRecvSeq :: "64 word"
  cn_nextSendSeq :: "64 word"
  cn_ctxDone :: bool
  cn_doneCh_closed :: bool
  cn_tp_closed :: bool
  cn_wire :: "bytes list"  \<comment> \<open>frames handed to the transport, oldest first\<close>

definition newConnection :: "time \<Rightarrow> Connection" where
  "newConnection now =
     \<lparr>cn_ConnID = '''', cn_UserID = '''', cn_AppID = '''', cn_DeviceID = '''', cn_DeviceType = '''',
      cn_BizCode = '''', cn_writeCh = make_chan WriteChannelSize, cn_state = ConnHandshaking,
      cn_lastPingAt = UnixMilli now, cn_lastRecvSeq = 0, cn_nextSendSeq = 0, cn_ctxDone = False,
      cn_doneCh_closed = False, cn_tp_closed = False, cn_wire = []\<rparr>"

section \<open>State and submission\<close>

definition conn_IsActive :: "Connection \<Rightarrow> bool" where
  "conn_IsActive c \<longleftrightarrow> cn_state c = ConnActive"

definition conn_Activate :: "Connection \<Rightarrow> Connection" where
  "conn_Activate c = (if cn_state c = ConnHandshaking then c\<lparr>cn_state := ConnActive\<rparr> else c)"

text \<open>The body of \<open>Connection.Close\<close> is empty.\<close>

definition conn_Close :: "KickRequest option \<Rightarrow> Connection \<Rightarrow> Connection" where
  "conn_Close kick c = c"

text \<open>
  \<open>Submit\<close> stamps the shared message with the next sequence number before it tries to enqueue it.
  Nothing in the package closes \<open>writeCh\<close>.
\<close>

definition conn_Submit :: "mref \<Rightarrow> Connection \<times> msgheap \<Rightarrow> bool \<times> Connection \<times> msgheap" where
  "conn_Submit msg ch =
     (case ch of (c, h) \<Rightarrow>
        if \<not> conn_IsActive c then (False, c, h)
        else
          (let seq = cn_nextSendSeq c + 1;
               c1 = c\<lparr>cn_nextSendSeq := seq\<rparr>;
               h1 = msg_update msg (\<lambda>m. m\<lparr>m_SeqId := seq\<rparr>) h
           in (case try_send msg (cn_writeCh c) of
                 Sent q \<Rightarrow> (True, c1\<lparr>cn_writeCh := q\<rparr>, h1)
               | Full \<Rightarrow> (False, c1, h1)
               | SendPanic \<Rightarrow> (False, c1, h1))))"

datatype send_error = Conn_not_active | Write_buffer_full

definition conn_Send :: "mref \<Rightarrow> Connection \<Rightarrow> send_error option \<times> Connection" where
  "conn_Send msg c =
     (if \<not> conn_IsActive c then (Some Conn_not_active, c)
      else
        (case try_send msg (cn_writeCh c) of
           Sent q \<Rightarrow> (None, c\<lparr>cn_writeCh := q\<rparr>)
         | Full \<Rightarrow> (Some Write_buffer_full, c)
         | SendPanic \<Rightarrow> (Some Write_buffer_full, c)))"

section \<open>The write loop\<close>

datatype conn_error = EncodeErr codec_error | TransportErr

text \<open>\<open>fail\<close> is the transport's answer to this write.\<close>

definition encodeAndWrite ::
    "Message codec_lib \<Rightarrow> FrameCodec \<Rightarrow> bool \<Rightarrow> Message \<Rightarrow> Connection \<Rightarrow> conn_error option \<times> Connection" where
  "encodeAndWrite L fc fail msg c =
     (case FrameCodec_Encode L fc msg of
        Inl e \<Rightarrow> (Some (EncodeErr e), c)
      | Inr data \<Rightarrow> if fail then (Some TransportErr, c) else (None, c\<lparr>cn_wire := cn_wire c @ [data]\<rparr>))"

text \<open>The drain after cancellation ignores errors; \<open>fails\<close> are the transport's answers.\<close>

fun drain_writeCh ::
    "Message codec_lib \<Rightarrow> FrameCodec \<Rightarrow> msgheap \<Rightarrow> bool list \<Rightarrow> mref list \<Rightarrow> Connection \<Rightarrow> Connection" where
  "drain_writeCh L fc h fails [] c = c"
| "drain_writeCh L fc h fails (msg # q) c =
     (let fail = (case fails of [] \<Rightarrow> False | f # _ \<Rightarrow> f);
          c1 = c\<lparr>cn_writeCh := (cn_writeCh c)\<lparr>ch_buf := q\<rparr>\<rparr>
      in drain_writeCh L fc h (tl fails) q (snd (encodeAndWrite L fc fail (mh_obj h msg) c1)))"

datatype loop_result = LoopReturned | LoopContinues | LoopBlocked

text \<open>
  One turn of \<open>writeLoop\<close>. \<open>pickDone\<close> is the choice of the \<open>select\<close> when the context is cancelled and
  a message is waiting as well.
\<close>

definition writeLoop_turn ::
    "Message codec_lib \<Rightarrow> FrameCodec \<Rightarrow> msgheap \<Rightarrow> bool \<Rightarrow> bool list \<Rightarrow> Connection \<Rightarrow> loop_result \<times> Connection" where
  "writeLoop_turn L fc h pickDone fails c =
     (if cn_ctxDone c \<and> (pickDone \<or> ch_buf (cn_writeCh c) = []) then
        (LoopReturned, drain_writeCh L fc h fails (ch_buf (cn_writeCh c)) c)
      else
        (case recv (cn_writeCh c) of
           Blocked \<Rightarrow> (LoopBlocked, c)
         | RecvZero \<Rightarrow> (LoopReturned, c)
         | Received msg q \<Rightarrow>
             (case encodeAndWrite L fc (case fails of [] \<Rightarrow> False | f # _ \<Rightarrow> f) (mh_obj h msg) (c\<lparr>cn_writeCh := q\<rparr>) of
                (Some e, c') \<Rightarrow> (LoopReturned, c')
              | (None, c') \<Rightarrow> (LoopContinues, c'))))"

section \<open>The read loop\<close>

text \<open>What the environment answers in one turn of the loop.\<close>

record read_env =
  re_now :: time
  re_deadlineErr :: bool
  re_Read :: "bytes option"  \<comment> \<open>\<open>None\<close>: the transport returned an error\<close>

datatype read_action = ReadExit | ReadSkip | ReadDeliver Message

definition readLoop_turn :: "Message codec_lib \<Rightarrow> read_env \<Rightarrow> Connection \<Rightarrow> read_action \<times> Connection" where
  "readLoop_turn L e c =
     (if cn_ctxDone c then (ReadExit, c)
      else if re_deadlineErr e then (ReadExit, c)
      else
        (case re_Read e of
           None \<Rightarrow> (ReadExit, c)
         | Some raw \<Rightarrow>
             (let c1 = c\<lparr>cn_lastPingAt := UnixMilli (re_now e)\<rparr>
              in (case FrameCodec_Decode L raw of
                    Inl err \<Rightarrow> (ReadSkip, c1)
                  | Inr msg \<Rightarrow>
                      (let c2 = (if m_SeqId msg > 0 then c1\<lparr>cn_lastRecvSeq := m_SeqId msg\<rparr> else c1)
                       in if isExpired (UnixMilli (re_now e)) msg then (ReadSkip, c2) else (ReadDeliver msg, c2))))))"

text \<open>
  The loop over a list of environment answers, with the messages passed to \<open>onMessage\<close>. The flag
  tells whether the loop has returned; if not it is waiting for the next answer.
\<close>

fun readLoop :: "Message codec_lib \<Rightarrow> read_env list \<Rightarrow> Connection \<Rightarrow> Message list \<times> bool \<times> Connection" where
  "readLoop L [] c = ([], False, c)"
| "readLoop L (e # es) c =
     (case readLoop_turn L e c of
        (ReadExit, c') \<Rightarrow> ([], True, c')
      | (ReadSkip, c') \<Rightarrow> readLoop L es c'
      | (ReadDeliver msg, c') \<Rightarrow> (case readLoop L es c' of (ms, fin, c'') \<Rightarrow> (msg # ms, fin, c'')))"

text \<open>The deferred block of \<open>Run\<close>; \<open>onClose\<close> runs after it.\<close>

definition Run_deferred :: "Connection \<Rightarrow> Connection" where
  "Run_deferred c = c\<lparr>cn_state := ConnClosed, cn_tp_closed := True, cn_doneCh_closed := True\<rparr>"

section \<open>The heartbeat watchdog\<close>

text \<open>One tick; the first component tells whether the goroutine returns.\<close>

definition HeartbeatWatchdog_tick :: "time \<Rightarrow> int \<Rightarrow> Connection \<Rightarrow> bool \<times> Connection" where
  "HeartbeatWatchdog_tick now timeout c =
     (if cn_ctxDone c then (True, c)
      else if now - from_UnixMilli (cn_lastPingAt c) > timeout
      then (True, conn_Close (Some \<lparr>kr_Code = 4001, kr_Reason = ''heartbeat timeout''\<rparr>) c)
      else (False, c))"

section \<open>The connection registry\<close>

type_synonym cref = nat
type_synonym ConnRegistry = "(string, cref) gomap"

definition RegisterConn :: "string \<Rightarrow> cref \<Rightarrow> ConnRegistry \<Rightarrow> bool \<times> ConnRegistry" where
  "RegisterConn connID conn r = (if connID = '''' then (False, r) else (True, gm_set r connID conn))"

definition UnregisterConn :: "string \<Rightarrow> ConnRegistry \<Rightarrow> ConnRegistry" where
  "UnregisterConn connID r = gm_del r connID"

definition GetConn :: "string \<Rightarrow> ConnRegistry \<Rightarrow> cref option" where
  "GetConn connID r = gm_get r connID"

definition conn_Count :: "ConnRegistry \<Rightarrow> nat" where
  "conn_Count r = length r"

section \<open>Lemmas on submission\<close>

definition conn_ok :: "Connection \<Rightarrow> bool" where
  "conn_ok c \<longleftrightarrow> ch_cap (cn_writeCh c) = WriteChannelSize \<and> chan_bounded (cn_writeCh c) \<and> \<not> ch_closed (cn_writeCh c)"

lemma conn_ok_new [simp]: "conn_ok (newConnection now)"
  by (simp add: conn_ok_def newConnection_def make_chan_def chan_bounded_def)

lemma conn_Submit_cases:
  assumes "conn_ok c"
  shows "conn_Submit m (c, h) =
    (if \<not> conn_IsActive c then (False, c, h)
     else
       (let seq = cn_nextSendSeq c + 1; h' = msg_update m (\<lambda>x. x\<lparr>m_SeqId := seq\<rparr>) h
        in if length (ch_buf (cn_writeCh c)) < WriteChannelSize
           then (True, c\<lparr>cn_nextSendSeq := seq, cn_writeCh := (cn_writeCh c)\<lparr>ch_buf := ch_buf (cn_writeCh c) @ [m]\<rparr>\<rparr>, h')
           else (False, c\<lparr>cn_nextSendSeq := seq\<rparr>, h')))"
  using assms by (simp add: conn_Submit_def conn_ok_def try_send_def Let_def)

lemma conn_ok_Submit: "conn_ok c \<Longrightarrow> conn_ok (fst (snd (conn_Submit m (c, h))))"
  by (auto simp: conn_Submit_cases Let_def conn_ok_def chan_bounded_def)

lemma conn_ok_Send: "conn_ok c \<Longrightarrow> conn_ok (snd (conn_Send m c))"
  by (auto simp: conn_Send_def conn_ok_def try_send_def chan_bounded_def)

lemma conn_ok_trivial [simp]: "conn_ok c \<Longrightarrow> conn_ok (conn_Close k c)" "conn_ok c \<Longrightarrow> conn_ok (conn_Activate c)"
  "conn_ok c \<Longrightarrow> conn_ok (Run_deferred c)"
  by (simp_all add: conn_ok_def conn_Close_def conn_Activate_def Run_deferred_def)

lemma recv_conn_ok: "conn_ok c \<Longrightarrow> recv (cn_writeCh c) = Received m q \<Longrightarrow>
    conn_ok (c\<lparr>cn_writeCh := q\<rparr>) \<and> ch_buf (cn_writeCh c) = m # ch_buf q"
  by (auto simp: conn_ok_def chan_bounded_def recv_def split: list.splits if_splits)

lemma encodeAndWrite_queue [simp]: "cn_writeCh (snd (encodeAndWrite L fc f m c)) = cn_writeCh c"
  by (simp add: encodeAndWrite_def split: sum.split)

lemma conn_ok_encodeAndWrite [simp]: "conn_ok (snd (encodeAndWrite L fc f m c)) = conn_ok c"
  by (simp add: conn_ok_def)

section \<open>Properties\<close>

text \<open>Submitting a list of messages, one after the other, on one connection.\<close>

fun submit_all :: "mref list \<Rightarrow> Connection \<times> msgheap \<Rightarrow> bool list \<times> Connection \<times> msgheap" where
  "submit_all [] ch = ([], ch)"
| "submit_all (m # ms) ch =
     (case conn_Submit m ch of (ok, ch') \<Rightarrow> (case submit_all ms ch' of (oks, ch'') \<Rightarrow> (ok # oks, ch'')))"

lemma submit_all_spec:
  assumes "conn_ok c" and "conn_IsActive c" and "submit_all ms (c, h) = (oks, c', h')"
  shows "conn_ok c' \<and> conn_IsActive c'
    \<and> ch_buf (cn_writeCh c') = ch_buf (cn_writeCh c) @ take (WriteChannelSize - length (ch_buf (cn_writeCh c))) ms
    \<and> oks = map (\<lambda>i. i < WriteChannelSize - length (ch_buf (cn_writeCh c))) [0 ..< length ms]
    \<and> cn_nextSendSeq c' = cn_nextSendSeq c + of_nat (length ms)
    \<and> (\<forall>r. r \<notin> set ms \<longrightarrow> mh_obj h' r = mh_obj h r)
    \<and> (distinct ms \<longrightarrow> (\<forall>i < length ms. m_SeqId (mh_obj h' (ms ! i)) = cn_nextSendSeq c + of_nat (Suc i)))"
  using assms
proof (induction ms arbitrary: c h oks)
  case Nil
  then show ?case by simp
next
  case (Cons m ms)
  let ?len = "length (ch_buf (cn_writeCh c))"
  obtain ok c1 h1 where s1: "conn_Submit m (c, h) = (ok, c1, h1)" by (cases "conn_Submit m (c, h)") auto
  obtain oks1 where s2: "submit_all ms (c1, h1) = (oks1, c', h')" and oks: "oks = ok # oks1"
    using Cons.prems(3) s1 by (auto split: prod.splits)
  have c1: "conn_ok c1" "conn_IsActive c1" "cn_nextSendSeq c1 = cn_nextSendSeq c + 1"
      "h1 = msg_update m (\<lambda>x. x\<lparr>m_SeqId := cn_nextSendSeq c + 1\<rparr>) h"
      "ok = (?len < WriteChannelSize)"
      "ch_buf (cn_writeCh c1) = (if ?len < WriteChannelSize then ch_buf (cn_writeCh c) @ [m] else ch_buf (cn_writeCh c))"
    using s1 Cons.prems(1,2) conn_ok_Submit [OF Cons.prems(1), of m h]
    by (auto simp: conn_Submit_cases Let_def conn_IsActive_def split: if_splits)
  note IH = Cons.IH [OF c1(1,2) s2]
  have le: "?len \<le> WriteChannelSize" using Cons.prems(1) by (simp add: conn_ok_def chan_bounded_def)
  have buf: "ch_buf (cn_writeCh c') = ch_buf (cn_writeCh c) @ take (WriteChannelSize - ?len) (m # ms)"
    using IH c1(6) by (auto simp: take_Cons' Suc_diff_le)
  have res: "oks = map (\<lambda>i. i < WriteChannelSize - ?len) [0 ..< length (m # ms)]"
    using IH c1(5,6) le oks by (auto simp: upt_conv_Cons map_Suc_upt [symmetric] simp del: upt_Suc)
  have seqs: "m_SeqId (mh_obj h' ((m # ms) ! i)) = cn_nextSendSeq c + of_nat (Suc i)"
    if "distinct (m # ms)" and "i < length (m # ms)" for i
    using that IH c1(3,4) by (cases i) (simp_all add: algebra_simps)
  show ?case using IH c1(3,4) buf res seqs by (auto simp: algebra_simps)
qed

text \<open>
  C27. Submission is first in, first out and bounded. On an active connection, a run of \<open>Submit\<close>
  calls appends to the write queue exactly the messages that fit in its 4096 places, in order,
  answers true exactly for those, and stamps consecutive sequence numbers on distinct messages,
  also on those that are refused. (The bound is \<open>consts.WriteChannelSize\<close>; the comment at the
  field \<open>writeCh\<close> gives it as 256.)
\<close>

theorem Submit_fifo_bounded:
  assumes "conn_ok c" and "conn_IsActive c" and "distinct ms" and "submit_all ms (c, h) = (oks, c', h')"
  shows "(let room = WriteChannelSize - length (ch_buf (cn_writeCh c)) in
      ch_buf (cn_writeCh c') = ch_buf (cn_writeCh c) @ take room ms
    \<and> oks = map (\<lambda>i. i < room) [0 ..< length ms]
    \<and> length (ch_buf (cn_writeCh c')) \<le> WriteChannelSize
    \<and> (\<forall>i < length ms. m_SeqId (mh_obj h' (ms ! i)) = cn_nextSendSeq c + of_nat (Suc i)))"
  using submit_all_spec [OF assms(1,2,4)] assms(1,3) by (auto simp: Let_def conn_ok_def chan_bounded_def)

definition sample_conn :: Connection where
  "sample_conn = conn_Activate (newConnection 0)"

definition sample_heap :: msgheap where
  "sample_heap = \<lparr>mh_obj = (\<lambda>_. new_Message FrameType_BUSINESS), mh_next = 9\<rparr>"

lemma sample_conn_ok: "conn_ok sample_conn" "conn_IsActive sample_conn"
  by (simp_all add: sample_conn_def) (simp add: conn_IsActive_def conn_Activate_def newConnection_def)

theorem Submit_fifo_bounded_witness:
  "(case submit_all [3, 5] (sample_conn, sample_heap) of (oks, c', h') \<Rightarrow>
      oks = [True, True] \<and> ch_buf (cn_writeCh c') = [3, 5] \<and> m_SeqId (mh_obj h' 5) = 2)"
proof -
  obtain oks c' h' where r: "submit_all [3, 5] (sample_conn, sample_heap) = (oks, c', h')"
    by (cases "submit_all [3, 5] (sample_conn, sample_heap)") auto
  have e: "ch_buf (cn_writeCh sample_conn) = []" "cn_nextSendSeq sample_conn = 0"
    by (simp_all add: sample_conn_def conn_Activate_def newConnection_def make_chan_def)
  show ?thesis
    using Submit_fifo_bounded [OF sample_conn_ok _ r] unfolding r
    by (auto simp: Let_def e WriteChannelSize_def dest: spec [of _ 1])
qed

text \<open>
  Fan-out shares one message object. When the same message is submitted to two connections,
  the copy still queued on the first one carries the second one's sequence number afterwards.
\<close>

theorem Submit_shared_message_loses_seq:
  assumes "conn_ok c1" and "conn_ok c2" and "conn_IsActive c2"
    and "conn_Submit m (c1, h) = (True, c1', h')" and "conn_Submit m (c2, h') = (ok, c2', h'')"
  shows "m \<in> set (ch_buf (cn_writeCh c1')) \<and> m_SeqId (mh_obj h' m) = cn_nextSendSeq c1'
       \<and> m_SeqId (mh_obj h'' m) = cn_nextSendSeq c2 + 1"
  using assms by (auto simp: conn_Submit_cases Let_def split: if_splits)

theorem Submit_shared_message_loses_seq_witness:
  "(let (ok1, c1, h1) = conn_Submit 3 (sample_conn, sample_heap);
        (ok2, c2, h2) = conn_Submit 3 (sample_conn\<lparr>cn_nextSendSeq := 40\<rparr>, h1)
    in ok1 \<and> 3 \<in> set (ch_buf (cn_writeCh c1)) \<and> cn_nextSendSeq c1 = 1 \<and> m_SeqId (mh_obj h2 3) = 41)"
proof -
  obtain c1 h1 where r1: "conn_Submit 3 (sample_conn, sample_heap) = (True, c1, h1)" and n: "cn_nextSendSeq c1 = 1"
    by (simp add: conn_Submit_cases sample_conn_ok Let_def)
       (simp add: sample_conn_def conn_Activate_def newConnection_def make_chan_def WriteChannelSize_def)
  let ?c = "sample_conn\<lparr>cn_nextSendSeq := 40\<rparr>"
  obtain ok2 c2 h2 where r2: "conn_Submit 3 (?c, h1) = (ok2, c2, h2)" by (cases "conn_Submit 3 (?c, h1)") auto
  have ok: "conn_ok ?c" "conn_IsActive ?c" using sample_conn_ok by (simp_all add: conn_ok_def conn_IsActive_def)
  show ?thesis
    using Submit_shared_message_loses_seq [OF sample_conn_ok(1) ok r1 r2] by (simp add: r1 r2 n)
qed

lemma drain_writeCh_wire:
  "cn_wire (drain_writeCh L fc h [] q c) =
     cn_wire c @ concat (map (\<lambda>m. case FrameCodec_Encode L fc (mh_obj h m) of Inl e \<Rightarrow> [] | Inr d \<Rightarrow> [d]) q)"
  by (induction q arbitrary: c) (simp_all add: Let_def encodeAndWrite_def split: sum.split)

lemma drain_writeCh_empties:
  "ch_buf (cn_writeCh c) = q \<Longrightarrow> ch_buf (cn_writeCh (drain_writeCh L fc h fails q c)) = []"
  by (induction q arbitrary: c fails) (simp_all add: Let_def)

fun writeLoop :: "nat \<Rightarrow> Message codec_lib \<Rightarrow> FrameCodec \<Rightarrow> msgheap \<Rightarrow> Connection \<Rightarrow> loop_result \<times> Connection" where
  "writeLoop 0 L fc h c = (LoopContinues, c)"
| "writeLoop (Suc n) L fc h c =
     (case writeLoop_turn L fc h True [] c of
        (LoopContinues, c') \<Rightarrow> writeLoop n L fc h c'
      | r \<Rightarrow> r)"

lemma writeLoop_queue:
  assumes "conn_ok c"
    and "\<And>m. m \<in> set (ch_buf (cn_writeCh c)) \<Longrightarrow> FrameCodec_Encode L fc (mh_obj h m) = Inr (enc m)"
  shows "(case writeLoop (Suc (length (ch_buf (cn_writeCh c)))) L fc h c of
      (r, c') \<Rightarrow> r = (if cn_ctxDone c then LoopReturned else LoopBlocked)
        \<and> cn_wire c' = cn_wire c @ map enc (ch_buf (cn_writeCh c)) \<and> ch_buf (cn_writeCh c') = [])"
proof (cases "cn_ctxDone c")
  case True
  have "concat (map (\<lambda>m. case FrameCodec_Encode L fc (mh_obj h m) of Inl e \<Rightarrow> [] | Inr d \<Rightarrow> [d]) q) = map enc q"
    if "set q \<subseteq> set (ch_buf (cn_writeCh c))" for q
    using that assms(2) by (induction q) auto
  then show ?thesis
    using True by (simp add: writeLoop_turn_def drain_writeCh_wire drain_writeCh_empties)
next
  case False
  then show ?thesis
    using assms
  proof (induction "ch_buf (cn_writeCh c)" arbitrary: c)
    case Nil
    then show ?case by (simp add: writeLoop_turn_def recv_def conn_ok_def)
  next
    case (Cons m q)
    let ?c = "c\<lparr>cn_writeCh := (cn_writeCh c)\<lparr>ch_buf := q\<rparr>, cn_wire := cn_wire c @ [enc m]\<rparr>"
    have turn: "writeLoop_turn L fc h True [] c = (LoopContinues, ?c)"
      using Cons.hyps(2) [symmetric] Cons.prems by (simp add: writeLoop_turn_def recv_def encodeAndWrite_def)
    have "conn_ok ?c" using Cons.prems(2) Cons.hyps(2) [symmetric] by (simp add: conn_ok_def chan_bounded_def)
    then have IH: "case writeLoop (Suc (length q)) L fc h ?c of (r, c') \<Rightarrow> r = LoopBlocked
        \<and> cn_wire c' = cn_wire c @ [enc m] @ map enc q \<and> ch_buf (cn_writeCh c') = []"
      using Cons.hyps(1) [of ?c] Cons.prems Cons.hyps(2) [symmetric] by (simp split: prod.splits)
    have unf: "writeLoop (Suc (length (ch_buf (cn_writeCh c)))) L fc h c = writeLoop (Suc (length q)) L fc h ?c"
      unfolding Cons.hyps(2) [symmetric] by (subst writeLoop.simps) (simp add: turn)
    show ?case unfolding unf using IH Cons.prems(1) Cons.hyps(2) [symmetric] by (simp split: prod.splits)
  qed
qed

text \<open>
  The write loop loses and reorders nothing. With a transport that accepts and messages that
  encode, as many turns as there are queued messages leave the queue empty and the encodings
  on the wire in queue order; the loop then waits for more, or, when the connection is
  cancelled, has returned.
\<close>

theorem writeLoop_writes_queue:
  assumes "conn_ok c"
    and "\<And>m. m \<in> set (ch_buf (cn_writeCh c)) \<Longrightarrow> FrameCodec_Encode L fc (mh_obj h m) = Inr (enc m)"
  shows "(case writeLoop (Suc (length (ch_buf (cn_writeCh c)))) L fc h c of
      (r, c') \<Rightarrow> r = (if cn_ctxDone c then LoopReturned else LoopBlocked)
        \<and> cn_wire c' = cn_wire c @ map enc (ch_buf (cn_writeCh c)) \<and> ch_buf (cn_writeCh c') = [])"
  using writeLoop_queue [OF assms] .

text \<open>A concrete serialisation for the examples: a message is its identifier.\<close>

definition sample_lib :: "Message codec_lib" where
  "sample_lib =
     \<lparr>json_Marshal = (\<lambda>m. Inr (map of_char (m_MsgId m))),
      json_Unmarshal = (\<lambda>b. Inr ((new_Message FrameType_PING)\<lparr>m_MsgId := map (\<lambda>w. char_of (unat w)) b\<rparr>)),
      proto_Marshal = (\<lambda>_ m. Inr (map of_char (m_MsgId m))),
      proto_Unmarshal = (\<lambda>b. Inr ((new_Message FrameType_PING)\<lparr>m_MsgId := map (\<lambda>w. char_of (unat w)) b\<rparr>)),
      gzip_Write = Inr, gzip_ReadAll = Inr\<rparr>"

theorem writeLoop_writes_queue_witness:
  "(case writeLoop 3 sample_lib DefaultConfig sample_heap
           (sample_conn\<lparr>cn_writeCh := (cn_writeCh sample_conn)\<lparr>ch_buf := [3, 5]\<rparr>\<rparr>) of
      (r, c') \<Rightarrow> r = LoopBlocked \<and> length (cn_wire c') = 2 \<and> ch_buf (cn_writeCh c') = [])"
proof -
  let ?c = "sample_conn\<lparr>cn_writeCh := (cn_writeCh sample_conn)\<lparr>ch_buf := [3, 5]\<rparr>\<rparr>"
  have ok: "conn_ok ?c" using sample_conn_ok(1) by (simp add: conn_ok_def chan_bounded_def WriteChannelSize_def)
  have enc: "FrameCodec_Encode sample_lib DefaultConfig (mh_obj sample_heap m) = Inr [34]" for m
    unfolding sample_heap_def by simp code_simp
  have st: "cn_ctxDone ?c = False" "cn_wire ?c = []"
    by (simp_all add: sample_conn_def conn_Activate_def newConnection_def)
  have three: "Suc (length (ch_buf (cn_writeCh ?c))) = 3" by simp
  show ?thesis
    using writeLoop_writes_queue [of ?c sample_lib DefaultConfig sample_heap "\<lambda>_. [34]", OF ok enc]
    unfolding three st by (auto simp del: writeLoop.simps)
qed

definition deliverable :: "Message codec_lib \<Rightarrow> read_env \<Rightarrow> Message option" where
  "deliverable L e =
     (case re_Read e of
        None \<Rightarrow> None
      | Some raw \<Rightarrow> (case FrameCodec_Decode L raw of
                        Inl _ \<Rightarrow> None
                      | Inr m \<Rightarrow> if isExpired (UnixMilli (re_now e)) m then None else Some m))"

text \<open>
  C28. The read loop hands to \<open>onMessage\<close> exactly the frames that decode and have not expired, in
  the order they arrive. Malformed and expired frames are skipped without closing the
  connection, and every frame, whatever its content, refreshes the heartbeat time.
\<close>

theorem readLoop_delivers:
  assumes "\<not> cn_ctxDone c" and "\<And>e. e \<in> set es \<Longrightarrow> \<not> re_deadlineErr e \<and> re_Read e \<noteq> None"
    and "readLoop L es c = (ms, fin, c')"
  shows "\<not> fin \<and> ms = List.map_filter (deliverable L) es
       \<and> (es \<noteq> [] \<longrightarrow> cn_lastPingAt c' = UnixMilli (re_now (last es)))"
  using assms
proof (induction es arbitrary: c ms)
  case Nil
  then show ?case by (simp add: List.map_filter_def)
next
  case (Cons e es)
  obtain a c1 where t: "readLoop_turn L e c = (a, c1)" by (cases "readLoop_turn L e c")
  obtain raw where raw: "re_Read e = Some raw" and nd: "\<not> re_deadlineErr e" using Cons.prems(2) [of e] by auto
  have a: "a = (case deliverable L e of None \<Rightarrow> ReadSkip | Some m \<Rightarrow> ReadDeliver m)"
      "\<not> cn_ctxDone c1" "cn_lastPingAt c1 = UnixMilli (re_now e)"
    using t raw nd Cons.prems(1)
    by (auto simp: readLoop_turn_def deliverable_def Let_def split: sum.splits if_splits)
  obtain ms1 where l1: "readLoop L es c1 = (ms1, fin, c')"
      "ms = (case deliverable L e of None \<Rightarrow> ms1 | Some m \<Rightarrow> m # ms1)"
    using Cons.prems(3) t a(1) by (auto split: option.splits prod.splits)
  have "\<not> fin \<and> ms1 = List.map_filter (deliverable L) es
       \<and> (es \<noteq> [] \<longrightarrow> cn_lastPingAt c' = UnixMilli (re_now (last es)))"
    using Cons.IH [OF a(2) _ l1(1)] Cons.prems(2) by simp
  moreover have "es = [] \<Longrightarrow> c' = c1" using l1(1) by simp
  ultimately show ?case using l1(2) a(3) by (auto simp: List.map_filter_def split: option.splits)
qed

theorem readLoop_delivers_witness:
  "(let env = \<lambda>raw. \<lparr>re_now = unixEpoch, re_deadlineErr = False, re_Read = Some raw\<rparr>
    in case readLoop sample_lib [env [34, 65], env [], env [34, 66]] sample_conn of (ms, fin, c') \<Rightarrow>
         map m_MsgId ms = [''A'', ''B''] \<and> \<not> fin \<and> cn_lastPingAt c' = 0)"
proof -
  let ?env = "\<lambda>raw. \<lparr>re_now = unixEpoch, re_deadlineErr = False, re_Read = Some raw\<rparr>"
  let ?es = "[?env [34, 65], ?env [], ?env [34, 66]]"
  obtain ms fin c' where r: "readLoop sample_lib ?es sample_conn = (ms, fin, c')"
    by (cases "readLoop sample_lib ?es sample_conn") auto
  have st: "\<not> cn_ctxDone sample_conn" by (simp add: sample_conn_def conn_Activate_def newConnection_def)
  have "map m_MsgId (List.map_filter (deliverable sample_lib) ?es) = [''A'', ''B'']" by code_simp
  moreover have "\<not> fin \<and> ms = List.map_filter (deliverable sample_lib) ?es
      \<and> (?es \<noteq> [] \<longrightarrow> cn_lastPingAt c' = UnixMilli (re_now (last ?es)))"
    by (rule readLoop_delivers [OF st _ r]) auto
  ultimately show ?thesis unfolding r Let_def by (simp add: r UnixMilli_def)
qed

text \<open>
  The watchdog never tears a connection down: however long the peer has been silent, a tick
  leaves the connection as it was, because \<open>Connection.Close\<close> has no body.
\<close>

lemma HeartbeatWatchdog_never_closes: "snd (HeartbeatWatchdog_tick now timeout c) = c"
  by (simp add: HeartbeatWatchdog_tick_def conn_Close_def)

end
