(* ===== verification/Ack_Scanner.thy ===== *)
theory Ack_Scanner
  imports Timer_Scheduler Connection
begin

text \<open>
  \<open>gateway/internal/delivery/ack\<close> and \<open>delivery/retry\<close>: acknowledgement timers on top of the sharded
  scheduler, and the retry policy. The scanner keeps one timer per unacknowledged message, under
  the key \<open>ack:<session>:<message>\<close>, and an index of the messages per session that is only
  used to cancel them in bulk.

  The interface \<open>types.Acker\<close> that sessions use is the locale \<open>acker\<close>. Session identifiers are
  hexadecimal (\<open>computeSessionID\<close>), so they hold no colon and keys of different sessions differ.
\<close>

record timeoutPayload =
  tp_SessID :: string
  tp_MsgID :: string

type_synonym ack_sched = "(timeoutPayload, unit) shardedScheduler"
type_synonym ack_task = "(timeoutPayload, unit) Task"

record Scanner =
  sc_timer :: ack_sched
  sc_ackTimeout :: int
  sc_sessAcks :: "(string, (string, unit) gomap) gomap"
  sc_onTimeout :: bool  \<comment> \<open>whether the callback has been injected\<close>

definition ack_junk :: "(timeoutPayload, unit) items" where
  "ack_junk = (\<lambda>_. \<lparr>wt_Task = \<lparr>tk_Key = '''', tk_Type = TaskAckTimeout, tk_DueAt = 0,
      tk_Payload = \<lparr>tp_SessID = '''', tp_MsgID = ''''\<rparr>, tk_Handler = None\<rparr>, wt_cancelled = False, wt_index = 0\<rparr>)"

definition NewScanner :: "ack_sched \<Rightarrow> int \<Rightarrow> Scanner" where
  "NewScanner t ackTimeout =
     \<lparr>sc_timer = t, sc_ackTimeout = (if ackTimeout \<le> 0 then 5 * Second else ackTimeout),
      sc_sessAcks = [], sc_onTimeout = False\<rparr>"

definition SetTimeoutHandler :: "Scanner \<Rightarrow> Scanner" where
  "SetTimeoutHandler s = s\<lparr>sc_onTimeout := True\<rparr>"

definition ackKey :: "string \<Rightarrow> string \<Rightarrow> string" where
  "ackKey sessID msgID = ''ack:'' @ sessID @ '':'' @ msgID"

definition needs_ack :: "Message \<Rightarrow> bool" where
  "needs_ack msg \<longleftrightarrow> \<not> (case m_Delivery msg of None \<Rightarrow> True | Some d \<Rightarrow> d_Qos d \<noteq> QosClass_AT_LEAST_ONCE)"

definition ack_task :: "time \<Rightarrow> string \<Rightarrow> string \<Rightarrow> Scanner \<Rightarrow> ack_task" where
  "ack_task now sessID msgID s =
     \<lparr>tk_Key = ackKey sessID msgID, tk_Type = TaskAckTimeout, tk_DueAt = now + sc_ackTimeout s,
      tk_Payload = \<lparr>tp_SessID = sessID, tp_MsgID = msgID\<rparr>, tk_Handler = Some ()\<rparr>"

definition Scanner_Track :: "time \<Rightarrow> Message \<Rightarrow> string \<Rightarrow> Scanner \<Rightarrow> Scanner" where
  "Scanner_Track now msg sessID s =
     (if \<not> needs_ack msg then s
      else
        (let s1 = s\<lparr>sc_sessAcks := idx_put (sc_sessAcks s) sessID (m_MsgId msg) ()\<rparr>
         in s1\<lparr>sc_timer := snd (sharded_Schedule ack_junk now (ack_task now sessID (m_MsgId msg) s1) (sc_timer s1))\<rparr>))"

definition Scanner_Done :: "string \<Rightarrow> string \<Rightarrow> Scanner \<Rightarrow> Scanner" where
  "Scanner_Done msgID sessID s =
     (let s1 = s\<lparr>sc_timer := snd (sharded_Cancel ack_junk (ackKey sessID msgID) (sc_timer s))\<rparr>
      in s1\<lparr>sc_sessAcks := idx_drop (sc_sessAcks s1) sessID msgID\<rparr>)"

definition Scanner_CancelAll :: "string \<Rightarrow> Scanner \<Rightarrow> Scanner" where
  "Scanner_CancelAll sessID s =
     (let msgs = (case gm_get (sc_sessAcks s) sessID of None \<Rightarrow> [] | Some m \<Rightarrow> gm_keys m);
          s1 = s\<lparr>sc_sessAcks := gm_del (sc_sessAcks s) sessID\<rparr>
      in s1\<lparr>sc_timer := fold (\<lambda>k t. snd (sharded_Cancel ack_junk k t)) (map (ackKey sessID) msgs) (sc_timer s1)\<rparr>)"

text \<open>
  The timer callback. \<open>onTimeout\<close> acts on a state that contains the scanner; the entry is removed
  from the index after it has returned.
\<close>

definition Scanner_handleTimeout ::
    "('w \<Rightarrow> Scanner) \<Rightarrow> ((Scanner \<Rightarrow> Scanner) \<Rightarrow> 'w \<Rightarrow> 'w) \<Rightarrow> (string \<Rightarrow> string \<Rightarrow> 'w \<Rightarrow> 'w) \<Rightarrow> ack_task \<Rightarrow> 'w \<Rightarrow> 'w" where
  "Scanner_handleTimeout get upd onTimeout task w =
     (if \<not> sc_onTimeout (get w) then w
      else
        (let p = tk_Payload task;
             w1 = onTimeout (tp_SessID p) (tp_MsgID p) w
         in upd (\<lambda>s. s\<lparr>sc_sessAcks := idx_drop (sc_sessAcks s) (tp_SessID p) (tp_MsgID p)\<rparr>) w1))"

section \<open>Retry policy\<close>

record PendingEntry =
  pe_Msg :: "mref option"
  pe_RetryCount :: int
  pe_FirstSentAt :: time
  pe_LastRetryAt :: time

definition NewPendingEntry :: "time \<Rightarrow> mref \<Rightarrow> PendingEntry" where
  "NewPendingEntry now msg = \<lparr>pe_Msg = Some msg, pe_RetryCount = 0, pe_FirstSentAt = now, pe_LastRetryAt = now\<rparr>"

record Policy =
  po_Interval :: int
  po_MaxRetries :: int

definition DefaultPolicy :: Policy where
  "DefaultPolicy = \<lparr>po_Interval = 5 * Second, po_MaxRetries = 5\<rparr>"

definition ensureRetryHeader :: "int \<Rightarrow> Message \<Rightarrow> Message" where
  "ensureRetryHeader retryCount msg = set_header ''x-retry-count'' (Itoa retryCount) msg"

definition Bump :: "time \<Rightarrow> PendingEntry \<Rightarrow> msgheap \<Rightarrow> int \<times> PendingEntry \<times> msgheap" where
  "Bump now entry h =
     (let e = entry\<lparr>pe_RetryCount := pe_RetryCount entry + 1, pe_LastRetryAt := now\<rparr>
      in (pe_RetryCount e, e,
          (case pe_Msg e of None \<Rightarrow> h | Some m \<Rightarrow> msg_update m (ensureRetryHeader (pe_RetryCount e)) h)))"

definition ShouldGiveUp :: "PendingEntry \<Rightarrow> Policy \<Rightarrow> bool" where
  "ShouldGiveUp entry policy =
     (let maxRetries = (if po_MaxRetries policy \<le> 0 then po_MaxRetries DefaultPolicy else po_MaxRetries policy)
      in pe_RetryCount entry > maxRetries)"

section \<open>Keys\<close>

definition hexid :: "string \<Rightarrow> bool" where
  "hexid s \<longleftrightarrow> CHR '':'' \<notin> set s"

lemma colon_split:
  "hexid s \<Longrightarrow> hexid s' \<Longrightarrow> s @ CHR '':'' # m = s' @ CHR '':'' # m' \<Longrightarrow> s = s' \<and> m = m'"
proof (induction s arbitrary: s')
  case Nil
  then show ?case by (cases s') (auto simp: hexid_def)
next
  case (Cons c s)
  then show ?case by (cases s') (auto simp: hexid_def)
qed

lemma ackKey_inject: "hexid s \<Longrightarrow> hexid s' \<Longrightarrow> ackKey s m = ackKey s' m' \<longleftrightarrow> s = s' \<and> m = m'"
  using colon_split [of s s' m m'] by (auto simp: ackKey_def)

section \<open>The interface\<close>

locale acker =
  fixes Track :: "time \<Rightarrow> Message \<Rightarrow> string \<Rightarrow> 's \<Rightarrow> 's"
    and Done :: "string \<Rightarrow> string \<Rightarrow> 's \<Rightarrow> 's"
    and CancelAll :: "string \<Rightarrow> 's \<Rightarrow> 's"
    and armed :: "'s \<Rightarrow> string \<Rightarrow> string \<Rightarrow> bool"
    and inv :: "'s \<Rightarrow> bool"
    and good :: "string \<Rightarrow> bool"
  assumes Track_inv: "inv s \<Longrightarrow> good i \<Longrightarrow> inv (Track now m i s)"
    and Done_inv: "inv s \<Longrightarrow> good i \<Longrightarrow> inv (Done j i s)"
    and CancelAll_inv: "inv s \<Longrightarrow> good i \<Longrightarrow> inv (CancelAll i s)"
    and Track_armed: "inv s \<Longrightarrow> good i \<Longrightarrow> good i' \<Longrightarrow>
      armed (Track now m i s) i' j' \<longleftrightarrow> armed s i' j' \<or> needs_ack m \<and> i' = i \<and> j' = m_MsgId m"
    and Done_armed: "inv s \<Longrightarrow> good i \<Longrightarrow> good i' \<Longrightarrow> armed (Done j i s) i' j' \<longleftrightarrow> armed s i' j' \<and> \<not> (i' = i \<and> j' = j)"
    and CancelAll_armed: "inv s \<Longrightarrow> good i \<Longrightarrow> good i' \<Longrightarrow> armed (CancelAll i s) i' j' \<longleftrightarrow> armed s i' j' \<and> i' \<noteq> i"
begin

lemma track_then_done: "inv s \<Longrightarrow> good i \<Longrightarrow> \<not> armed (Done (m_MsgId m) i (Track now m i s)) i (m_MsgId m)"
  by (simp add: Done_armed Track_inv)

lemma nothing_armed_after_CancelAll: "inv s \<Longrightarrow> good i \<Longrightarrow> \<not> armed (CancelAll i s) i j"
  by (simp add: CancelAll_armed)

lemma track_all:
  "inv s \<Longrightarrow> good i \<Longrightarrow>
     inv (fold (\<lambda>m. Track now m i) ms s)
   \<and> (good i' \<longrightarrow> (armed (fold (\<lambda>m. Track now m i) ms s) i' j' \<longleftrightarrow>
        armed s i' j' \<or> i' = i \<and> (\<exists>m \<in> set ms. needs_ack m \<and> m_MsgId m = j')))"
  by (induction ms arbitrary: s) (auto simp: Track_inv Track_armed)

end

definition armed :: "Scanner \<Rightarrow> string \<Rightarrow> string \<Rightarrow> bool" where
  "armed s i j \<longleftrightarrow> sharded_pending (sc_timer s) (ackKey i j) \<noteq> None"

definition tracked :: "Scanner \<Rightarrow> string \<Rightarrow> string \<Rightarrow> bool" where
  "tracked s i j \<longleftrightarrow> idx_get (sc_sessAcks s) i j \<noteq> None"

text \<open>Every armed timer is in the index.\<close>

definition scanner_ok :: "Scanner \<Rightarrow> bool" where
  "scanner_ok s \<longleftrightarrow> sharded_ok (sc_timer s) \<and> idx_wf (sc_sessAcks s)
     \<and> (\<forall>i j. hexid i \<longrightarrow> armed s i j \<longrightarrow> tracked s i j)"

lemma ack_task_valid [simp]: "task_error (ack_task now i j s) = None" "tk_Key (ack_task now i j s) = ackKey i j"
  by (simp_all add: task_error_def ack_task_def ackKey_def)

lemma Track_pending:
  assumes "sharded_ok (sc_timer s)" and "needs_ack m"
  shows "sharded_ok (sc_timer (Scanner_Track now m i s))"
    and "sharded_pending (sc_timer (Scanner_Track now m i s)) =
      (sharded_pending (sc_timer s))(ackKey i (m_MsgId m) \<mapsto> default_due now (ack_task now i (m_MsgId m) s))"
proof -
  have "ack_task now i j (s\<lparr>sc_sessAcks := x\<rparr>) = ack_task now i j s" for j x by (simp add: ack_task_def)
  then show "sharded_ok (sc_timer (Scanner_Track now m i s))"
    "sharded_pending (sc_timer (Scanner_Track now m i s)) =
      (sharded_pending (sc_timer s))(ackKey i (m_MsgId m) \<mapsto> default_due now (ack_task now i (m_MsgId m) s))"
    using assms by (simp_all add: Scanner_Track_def sharded.Schedule_inv sharded.Schedule_pend)
qed

lemma Track_armed:
  assumes "sharded_ok (sc_timer s)" and "hexid i" and "hexid i'"
  shows "armed (Scanner_Track now m i s) i' j' \<longleftrightarrow> armed s i' j' \<or> needs_ack m \<and> i' = i \<and> j' = m_MsgId m"
proof (cases "needs_ack m")
  case True
  then show ?thesis using assms by (auto simp: armed_def Track_pending ackKey_inject)
qed (simp add: Scanner_Track_def)

lemma Track_tracked: "tracked (Scanner_Track now m i s) i' j' \<longleftrightarrow> tracked s i' j' \<or> needs_ack m \<and> i' = i \<and> j' = m_MsgId m"
  by (auto simp: tracked_def Scanner_Track_def Let_def)

lemma Done_parts:
  assumes "sharded_ok (sc_timer s)"
  shows "sharded_ok (sc_timer (Scanner_Done j i s))"
    and "hexid i \<Longrightarrow> hexid i' \<Longrightarrow> armed (Scanner_Done j i s) i' j' \<longleftrightarrow> armed s i' j' \<and> \<not> (i' = i \<and> j' = j)"
    and "tracked (Scanner_Done j i s) i' j' \<longleftrightarrow> tracked s i' j' \<and> \<not> (i' = i \<and> j' = j)"
  using assms
  by (auto simp: Scanner_Done_def Let_def armed_def tracked_def sharded.Cancel_inv sharded.Cancel_pend ackKey_inject)

lemma CancelAll_parts:
  assumes "sharded_ok (sc_timer s)"
  shows "sharded_ok (sc_timer (Scanner_CancelAll i s))"
    and "hexid i \<Longrightarrow> hexid i' \<Longrightarrow>
      armed (Scanner_CancelAll i s) i' j' \<longleftrightarrow> armed s i' j' \<and> \<not> (i' = i \<and> tracked s i j')"
    and "tracked (Scanner_CancelAll i s) i' j' \<longleftrightarrow> tracked s i' j' \<and> i' \<noteq> i"
proof -
  define msgs where "msgs = (case gm_get (sc_sessAcks s) i of None \<Rightarrow> [] | Some m \<Rightarrow> gm_keys m)"
  have timer: "sc_timer (Scanner_CancelAll i s) = fold (\<lambda>k t. snd (sharded_Cancel ack_junk k t)) (map (ackKey i) msgs) (sc_timer s)"
    by (simp add: Scanner_CancelAll_def msgs_def Let_def)
  note all = sharded.cancel_all [OF assms, of ack_junk "map (ackKey i) msgs", folded timer]
  have msgs: "j \<in> set msgs \<longleftrightarrow> tracked s i j" for j
    by (auto simp: msgs_def tracked_def idx_get_def gm_keys_iff split: option.splits)
  show "sharded_ok (sc_timer (Scanner_CancelAll i s))" using all by simp
  show "armed (Scanner_CancelAll i s) i' j' \<longleftrightarrow> armed s i' j' \<and> \<not> (i' = i \<and> tracked s i j')"
    if "hexid i" "hexid i'"
    using all that by (auto simp: armed_def msgs ackKey_inject)
  show "tracked (Scanner_CancelAll i s) i' j' \<longleftrightarrow> tracked s i' j' \<and> i' \<noteq> i"
    by (simp add: tracked_def Scanner_CancelAll_def Let_def idx_get_def)
qed

lemma idx_wf_del: "idx_wf m \<Longrightarrow> idx_wf (gm_del m a)"
  by (auto simp: idx_wf_def split: if_splits)

lemma sc_sessAcks_wf:
  "idx_wf (sc_sessAcks s) \<Longrightarrow> idx_wf (sc_sessAcks (Scanner_Track now m i s))"
  "idx_wf (sc_sessAcks s) \<Longrightarrow> idx_wf (sc_sessAcks (Scanner_Done j i s))"
  "idx_wf (sc_sessAcks s) \<Longrightarrow> idx_wf (sc_sessAcks (Scanner_CancelAll i s))"
  by (simp_all add: Scanner_Track_def Scanner_Done_def Scanner_CancelAll_def Let_def idx_wf_del)

interpretation sc: acker Scanner_Track Scanner_Done Scanner_CancelAll armed scanner_ok hexid
proof
  fix s :: Scanner and i i' j j' now m
  assume ok: "scanner_ok s" and g: "hexid i"
  then have sh: "sharded_ok (sc_timer s)" and wf: "idx_wf (sc_sessAcks s)"
    and sub: "hexid i \<Longrightarrow> armed s i j \<Longrightarrow> tracked s i j" for i j
    by (simp_all add: scanner_ok_def)
  have sh': "sharded_ok (sc_timer (Scanner_Track now m i s))"
    using Track_pending(1) [OF sh] sh by (cases "needs_ack m") (simp_all add: Scanner_Track_def)
  show "scanner_ok (Scanner_Track now m i s)"
    using sh' wf sub g by (auto simp: scanner_ok_def sc_sessAcks_wf Track_armed [OF sh g] Track_tracked)
  show "scanner_ok (Scanner_Done j i s)"
    using wf sub g by (auto simp: scanner_ok_def sc_sessAcks_wf Done_parts [OF sh])
  show "scanner_ok (Scanner_CancelAll i s)"
    using wf sub g by (auto simp: scanner_ok_def sc_sessAcks_wf CancelAll_parts [OF sh])
  show "armed (Scanner_Track now m i s) i' j' \<longleftrightarrow> armed s i' j' \<or> needs_ack m \<and> i' = i \<and> j' = m_MsgId m"
    if "hexid i'" using Track_armed [OF sh g that] .
  show "armed (Scanner_Done j i s) i' j' \<longleftrightarrow> armed s i' j' \<and> \<not> (i' = i \<and> j' = j)"
    if "hexid i'" using Done_parts(2) [OF sh g that] .
  show "armed (Scanner_CancelAll i s) i' j' \<longleftrightarrow> armed s i' j' \<and> i' \<noteq> i"
    if "hexid i'" using CancelAll_parts(2) [OF sh g that] sub [OF g] by auto
qed

section \<open>Properties\<close>

datatype ack_op = OpTrack time Message string | OpDone string string | OpCancelAll string

fun ack_exec :: "ack_op \<Rightarrow> Scanner \<Rightarrow> Scanner" where
  "ack_exec (OpTrack now m i) s = Scanner_Track now m i s"
| "ack_exec (OpDone j i) s = Scanner_Done j i s"
| "ack_exec (OpCancelAll i) s = Scanner_CancelAll i s"

fun ack_spec :: "ack_op \<Rightarrow> (string \<times> string) set \<Rightarrow> (string \<times> string) set" where
  "ack_spec (OpTrack now m i) A = (if needs_ack m then insert (i, m_MsgId m) A else A)"
| "ack_spec (OpDone j i) A = A - {(i, j)}"
| "ack_spec (OpCancelAll i) A = {p \<in> A. fst p \<noteq> i}"

fun ack_op_ok :: "ack_op \<Rightarrow> bool" where
  "ack_op_ok (OpTrack now m i) = hexid i"
| "ack_op_ok (OpDone j i) = hexid i"
| "ack_op_ok (OpCancelAll i) = hexid i"

lemma ack_exec_simulates:
  assumes "scanner_ok s" and "ack_op_ok op" and "\<And>i j. hexid i \<Longrightarrow> armed s i j \<longleftrightarrow> (i, j) \<in> A"
  shows "scanner_ok (ack_exec op s) \<and> (\<forall>i j. hexid i \<longrightarrow> (armed (ack_exec op s) i j \<longleftrightarrow> (i, j) \<in> ack_spec op A))"
  using assms
  by (cases op)
     (auto simp: sc.Track_inv sc.Done_inv sc.CancelAll_inv sc.Track_armed sc.Done_armed sc.CancelAll_armed)

lemma ack_execs_simulate:
  assumes "scanner_ok s" and "list_all ack_op_ok ops" and "\<And>i j. hexid i \<Longrightarrow> armed s i j \<longleftrightarrow> (i, j) \<in> A"
  shows "scanner_ok (fold ack_exec ops s) \<and>
    (\<forall>i j. hexid i \<longrightarrow> (armed (fold ack_exec ops s) i j \<longleftrightarrow> (i, j) \<in> fold ack_spec ops A))"
  using assms
proof (induction ops arbitrary: s A)
  case (Cons op ops)
  have "scanner_ok (ack_exec op s)" and "\<And>i j. hexid i \<Longrightarrow> armed (ack_exec op s) i j \<longleftrightarrow> (i, j) \<in> ack_spec op A"
    using ack_exec_simulates [of s op A] Cons.prems by auto
  with Cons.IH [of "ack_exec op s" "ack_spec op A"] Cons.prems(2) show ?case by simp
qed simp

lemma NewScanner_ok:
  assumes "n < 2 ^ 32"
  shows "scanner_ok (NewScanner (NewScheduler ack_junk n) t)"
    and "\<not> armed (NewScanner (NewScheduler ack_junk n) t) i j"
  using NewScheduler_ok [OF assms, of ack_junk] by (simp_all add: scanner_ok_def NewScanner_def armed_def)

text \<open>
  C6. The scanner keeps exactly the right timers. After any sequence of \<open>Track\<close>, \<open>Done\<close> and
  \<open>CancelAll\<close> calls on a fresh scanner with any number of shards, a timer is armed for a message of a
  session exactly when the message was tracked as at-least-once and neither acknowledged nor
  cancelled since.
\<close>

theorem scanner_timers_exact:
  assumes "n < 2 ^ 32" and "list_all ack_op_ok ops" and "hexid i"
  shows "armed (fold ack_exec ops (NewScanner (NewScheduler ack_junk n) t)) i j \<longleftrightarrow> (i, j) \<in> fold ack_spec ops {}"
  using ack_execs_simulate [OF NewScanner_ok(1) [OF assms(1)] assms(2), where A = "{}"] NewScanner_ok(2) [OF assms(1)] assms(3)
  by simp

definition sample_msg :: "string \<Rightarrow> Message" where
  "sample_msg j = (new_Message FrameType_BUSINESS)\<lparr>m_MsgId := j,
     m_Delivery := Some \<lparr>d_AckId = None, d_Qos = QosClass_AT_LEAST_ONCE, d_Offline = True\<rparr>\<rparr>"

lemma sample_msg_simps [simp]: "needs_ack (sample_msg j)" "m_MsgId (sample_msg j) = j"
  by (simp_all add: needs_ack_def sample_msg_def)

theorem scanner_timers_exact_witness:
  "(let s = fold ack_exec [OpTrack 7 (sample_msg ''m1'') ''aa'', OpTrack 8 (sample_msg ''m2'') ''aa'', OpDone ''m1'' ''aa'']
              (NewScanner (NewScheduler ack_junk 0) 0)
    in armed s ''aa'' ''m2'' \<and> \<not> armed s ''aa'' ''m1'')"
proof -
  let ?ops = "[OpTrack 7 (sample_msg ''m1'') ''aa'', OpTrack 8 (sample_msg ''m2'') ''aa'', OpDone ''m1'' ''aa'']"
  have n: "(0::int) < 2 ^ 32" and ops: "list_all ack_op_ok ?ops" and h: "hexid ''aa''" by (simp_all add: hexid_def)
  show ?thesis
    using scanner_timers_exact [OF n ops h, of 0 "''m2''"] scanner_timers_exact [OF n ops h, of 0 "''m1''"]
    by (simp add: Let_def)
qed

text \<open>
  The retry timer of a message that timed out escapes \<open>CancelAll\<close>. \<open>handleTimeout\<close> removes the
  index entry after its callback has tracked the message again, so that the new timer is armed
  but not indexed, and closing the session does not cancel it.
\<close>

theorem retry_timer_escapes_CancelAll:
  fixes now :: time
  assumes "scanner_ok s" and "sc_onTimeout s" and "hexid i" and "needs_ack m"
    and "tk_Payload task = \<lparr>tp_SessID = i, tp_MsgID = m_MsgId m\<rparr>"
  defines "s' \<equiv> Scanner_handleTimeout id id (\<lambda>i j. Scanner_Track now m i) task s"
  shows "armed s' i (m_MsgId m) \<and> \<not> tracked s' i (m_MsgId m) \<and> armed (Scanner_CancelAll i s') i (m_MsgId m)"
proof -
  let ?t = "Scanner_Track now m i s"
  have s': "s' = ?t\<lparr>sc_sessAcks := idx_drop (sc_sessAcks ?t) i (m_MsgId m)\<rparr>"
    using assms(2,5) by (simp add: s'_def Scanner_handleTimeout_def Let_def)
  have "scanner_ok ?t" using sc.Track_inv assms(1,3) by blast
  then have sh: "sharded_ok (sc_timer s')" by (simp add: s' scanner_ok_def)
  have a: "armed s' i (m_MsgId m)"
    using sc.Track_armed [OF assms(1,3,3)] assms(4) by (simp add: s' armed_def)
  moreover have "\<not> tracked s' i (m_MsgId m)" by (simp add: s' tracked_def)
  ultimately show ?thesis using CancelAll_parts(2) [OF sh assms(3,3)] by simp
qed

theorem retry_timer_escapes_CancelAll_witness:
  "(let s = SetTimeoutHandler (NewScanner (NewScheduler ack_junk 4) 0);
        s1 = Scanner_Track 7 (sample_msg ''m1'') ''aa'' s;
        s2 = Scanner_handleTimeout id id (\<lambda>i j. Scanner_Track 9 (sample_msg ''m1'') i) (ack_task 7 ''aa'' ''m1'' s) s1
    in armed s2 ''aa'' ''m1'' \<and> armed (Scanner_CancelAll ''aa'' s2) ''aa'' ''m1'')"
proof -
  let ?s = "SetTimeoutHandler (NewScanner (NewScheduler ack_junk 4) 0)"
  let ?s1 = "Scanner_Track 7 (sample_msg ''m1'') ''aa'' ?s"
  have h: "hexid ''aa''" by (simp add: hexid_def)
  have "scanner_ok ?s"
    using NewScanner_ok [of 4 0] by (simp add: SetTimeoutHandler_def scanner_ok_def armed_def tracked_def)
  then have ok: "scanner_ok ?s1" by (rule sc.Track_inv [OF _ h])
  have cb: "sc_onTimeout ?s1" by (simp add: Scanner_Track_def SetTimeoutHandler_def Let_def)
  have p: "tk_Payload (ack_task 7 ''aa'' ''m1'' ?s) = \<lparr>tp_SessID = ''aa'', tp_MsgID = m_MsgId (sample_msg ''m1'')\<rparr>"
    by (simp add: ack_task_def)
  show ?thesis
    using retry_timer_escapes_CancelAll [OF ok cb h _ p, of 9] by (simp add: Let_def)
qed

end
