(* ===== verification/Offline_Storage.thy ===== *)
theory Offline_Storage
  imports Proto Timer_Heap
begin

text \<open>
  The offline store of the gateway (\<open>worker/storage/mysql.go\<close>, \<open>worker/storage/model\<close>): the row
  type and the methods of \<open>MySQLStore\<close>, the only implementation of \<open>types.OfflineStore\<close> in the
  tree and the one that the bootstrap wires in. The database is outside the tree; it is a record
  of the queries that the code issues, each a function on the database's own state.
\<close>

record OfflineMessageModel =
  om_MsgID :: string
  om_UserID :: string
  om_DeviceID :: string
  om_FromUserID :: string
  om_MsgType :: int
  om_RoomType :: int
  om_Payload :: bytes
  om_SeqID :: int
  om_DeliveredAt :: "time option"

definition zero_OfflineMessageModel :: OfflineMessageModel where
  "zero_OfflineMessageModel = \<lparr>om_MsgID = '''', om_UserID = '''', om_DeviceID = '''', om_FromUserID = '''', om_MsgType = 0,
     om_RoomType = 0, om_Payload = [], om_SeqID = 0, om_DeliveredAt = None\<rparr>"

record 'd gorm =
  gd_Create :: "OfflineMessageModel \<Rightarrow> 'd \<Rightarrow> bool \<times> 'd"
  gd_FindAfter :: "string \<Rightarrow> 64 word \<Rightarrow> 'd \<Rightarrow> OfflineMessageModel list option"
  gd_Delete :: "OfflineMessageModel \<Rightarrow> 'd \<Rightarrow> bool \<times> 'd"
  gd_SetDelivered :: "string \<Rightarrow> time \<Rightarrow> 'd \<Rightarrow> bool \<times> 'd"  \<comment> \<open>\<open>UPDATE ... SET delivered\_at WHERE msg\_id\<close>\<close>
  gd_CountUndelivered :: "string \<Rightarrow> 'd \<Rightarrow> nat option"

text \<open>
  The row that \<open>Store\<close> creates is the zero value: no field of the message is copied into it.
\<close>

definition MySQLStore_Store :: "'d gorm \<Rightarrow> Message \<Rightarrow> 'd \<Rightarrow> bool \<times> 'd" where
  "MySQLStore_Store D msg d = gd_Create D zero_OfflineMessageModel d"

definition MySQLStore_Fetch :: "'d gorm \<Rightarrow> string \<Rightarrow> 64 word \<Rightarrow> 'd \<Rightarrow> Message list option" where
  "MySQLStore_Fetch D userID afterSeq d =
     map_option (map (\<lambda>_. new_Message (FrameType_OTHER 0))) (gd_FindAfter D userID afterSeq d)"

definition MySQLStore_Delete :: "'d gorm \<Rightarrow> string \<Rightarrow> 'd \<Rightarrow> bool \<times> 'd" where
  "MySQLStore_Delete D msgID d = gd_Delete D (zero_OfflineMessageModel\<lparr>om_MsgID := msgID\<rparr>) d"

definition MySQLStore_MarkDelivered :: "'d gorm \<Rightarrow> time \<Rightarrow> string \<Rightarrow> 'd \<Rightarrow> bool \<times> 'd" where
  "MySQLStore_MarkDelivered D now msgID d = gd_SetDelivered D msgID now d"

definition MySQLStore_Count :: "'d gorm \<Rightarrow> string \<Rightarrow> 'd \<Rightarrow> nat option" where
  "MySQLStore_Count D userID d = gd_CountUndelivered D userID d"

text \<open>
  What the store keeps of a message: every two messages leave the same database behind, and all
  that is ever fetched is empty.
\<close>

lemma MySQLStore_keeps_nothing:
  "MySQLStore_Store D m d = MySQLStore_Store D m' d"
  "MySQLStore_Fetch D u q d = Some ms \<Longrightarrow> x \<in> set ms \<Longrightarrow> m_Body x = None \<and> m_MsgId x = ''''"
  by (auto simp: MySQLStore_Store_def MySQLStore_Fetch_def new_Message_def)

end
