(* ===== verification/Gateway_State.thy ===== *)
theory Gateway_State
  imports Local_Router Ack_Scanner Offline_Storage
begin

text \<open>
  The state of one gateway node: the message store, the connections, the sessions, and the
  components they share (router, ACK scanner, worker pools, registries, offline store). Objects
  that the code reaches through pointers live in stores indexed by references; a method is a
  function on this state, in the panic monad of \<open>Go_Prelude\<close> where it can panic.

  The types of \<open>session/session.go\<close>, \<open>session/ports.go\<close> and \<open>worker/pool.go\<close> are declared here
  because sessions and workers refer to each other.
\<close>

section \<open>Sessions\<close>

datatype SessState = SessAuthenticating | SessActive | SessSuspended | SessClosed

record pendingEntry =
  pn_msg :: mref
  pn_retryCount :: int
  pn_firstSentAt :: time
  pn_lastRetryAt :: time

text \<open>
  Of the dependencies it matters which pointers are nil. The local router is always injected;
  the components themselves are in the gateway state.
\<close>

record Deps =
  dp_Worker :: bool
  dp_Offline :: bool
  dp_Acker :: bool
  dp_MaxRetries :: int

record Session =
  se_sessionID :: string
  se_AppID :: string
  se_userID :: string
  se_deviceID :: string
  se_DeviceType :: string
  se_BizCode :: string
  se_conn :: "cref option"
  se_rooms :: "(string, unit) gomap"
  se_topics :: "(string, unit) gomap"
  se_lastDeliveredSeq :: "64 word"
  se_state :: SessState
  se_suspendedAt :: int
  se_pendingAcks :: "(string, pendingEntry) gomap"
  se_deps :: Deps
  se_connCount :: nat
  se_once :: bool

section \<open>Worker pools\<close>

record UpstreamJob =
  uj_Sess :: sref
  uj_Msg :: mref

record PoolConfig =
  pc_BizCode :: string
  pc_UpstreamWorkers :: int
  pc_UpstreamChanCap :: int
  pc_DownstreamWorkers :: int
  pc_DownstreamChanCap :: int
  pc_OfflineStore :: bool  \<comment> \<open>not nil\<close>

record WorkerPool =
  wp_cfg :: PoolConfig
  wp_upstreamCh :: "UpstreamJob chan"
  wp_downstreamCh :: "mref chan"
  wp_ctxDone :: bool

section \<open>The node\<close>

record world =
  wd_now :: time
  wd_heap :: msgheap
  wd_conns :: "cref \<Rightarrow> Connection"
  wd_nextConn :: cref
  wd_sess :: "sref \<Rightarrow> Session"
  wd_nextSess :: sref
  wd_router :: LocalRouter
  wd_scanner :: Scanner
  wd_storeCalls :: "Message list"  \<comment> \<open>the messages that \<open>Store\<close> has been called with, oldest first\<close>
  wd_offlineRows :: "OfflineMessageModel list"  \<comment> \<open>the rows that these calls have created\<close>
  wd_offlineErr :: bool  \<comment> \<open>the database currently refuses to create rows\<close>
  wd_pools :: "(string, WorkerPool) gomap"
  wd_sessions :: "(string, sref) gomap"
  wd_userIndex :: "(string, (string, sref) gomap) gomap"
  wd_connReg :: ConnRegistry
  wd_sent :: "Message list"  \<comment> \<open>messages accepted by the upstream sender\<close>

definition msg_of :: "world \<Rightarrow> mref \<Rightarrow> Message" where
  "msg_of w r = mh_obj (wd_heap w) r"

definition sid_of :: "world \<Rightarrow> sref \<Rightarrow> string" where
  "sid_of w s = se_sessionID (wd_sess w s)"

definition did_of :: "world \<Rightarrow> sref \<Rightarrow> string" where
  "did_of w s = se_deviceID (wd_sess w s)"

definition upd_sess :: "sref \<Rightarrow> (Session \<Rightarrow> Session) \<Rightarrow> world \<Rightarrow> world" where
  "upd_sess s f w = w\<lparr>wd_sess := (wd_sess w)(s := f (wd_sess w s))\<rparr>"

definition upd_conn :: "cref \<Rightarrow> (Connection \<Rightarrow> Connection) \<Rightarrow> world \<Rightarrow> world" where
  "upd_conn c f w = w\<lparr>wd_conns := (wd_conns w)(c := f (wd_conns w c))\<rparr>"

definition upd_msg :: "mref \<Rightarrow> (Message \<Rightarrow> Message) \<Rightarrow> world \<Rightarrow> world" where
  "upd_msg r f w = w\<lparr>wd_heap := msg_update r f (wd_heap w)\<rparr>"

definition new_msg :: "Message \<Rightarrow> world \<Rightarrow> mref \<times> world" where
  "new_msg m w = (case msg_alloc m (wd_heap w) of (r, h) \<Rightarrow> (r, w\<lparr>wd_heap := h\<rparr>))"

text \<open>\<open>conn.Submit(msg)\<close>\<close>

definition world_conn_Submit :: "cref \<Rightarrow> mref \<Rightarrow> world \<Rightarrow> bool \<times> world" where
  "world_conn_Submit c msg w =
     (case conn_Submit msg (wd_conns w c, wd_heap w) of
        (ok, c', h') \<Rightarrow> (ok, w\<lparr>wd_conns := (wd_conns w)(c := c'), wd_heap := h'\<rparr>))"

text \<open>
  \<open>offline.Store(ctx, msg)\<close>, of the store that is wired in, \<open>MySQLStore\<close>; the result tells whether
  an error came back. The call is recorded with the message it was given; the row that it
  creates is the zero value, whatever the message.
\<close>

definition offline_Store :: "mref \<Rightarrow> world \<Rightarrow> bool \<times> world" where
  "offline_Store msg w =
     (wd_offlineErr w,
      w\<lparr>wd_storeCalls := wd_storeCalls w @ [msg_of w msg],
        wd_offlineRows := wd_offlineRows w @ (if wd_offlineErr w then [] else [zero_OfflineMessageModel])\<rparr>)"

text \<open>It is the method of \<open>Offline_Storage\<close>, on a database that appends the rows it is given.\<close>

lemma offline_Store_is_MySQLStore:
  assumes "\<And>m rows. gd_Create D m rows = (if wd_offlineErr w then (False, rows) else (True, rows @ [m]))"
  shows "MySQLStore_Store D (msg_of w msg) (wd_offlineRows w)
    = (\<not> fst (offline_Store msg w), wd_offlineRows (snd (offline_Store msg w)))"
  by (simp add: MySQLStore_Store_def offline_Store_def assms)

lemma upd_sess_fields [simp]:
  "wd_now (upd_sess s f w) = wd_now w" "wd_heap (upd_sess s f w) = wd_heap w"
  "wd_conns (upd_sess s f w) = wd_conns w" "wd_nextConn (upd_sess s f w) = wd_nextConn w"
  "wd_nextSess (upd_sess s f w) = wd_nextSess w" "wd_router (upd_sess s f w) = wd_router w"
  "wd_scanner (upd_sess s f w) = wd_scanner w" "wd_storeCalls (upd_sess s f w) = wd_storeCalls w"
  "wd_offlineRows (upd_sess s f w) = wd_offlineRows w"
  "wd_offlineErr (upd_sess s f w) = wd_offlineErr w" "wd_pools (upd_sess s f w) = wd_pools w"
  "wd_sessions (upd_sess s f w) = wd_sessions w" "wd_userIndex (upd_sess s f w) = wd_userIndex w"
  "wd_connReg (upd_sess s f w) = wd_connReg w" "wd_sent (upd_sess s f w) = wd_sent w"
  "wd_sess (upd_sess s f w) s' = (if s' = s then f (wd_sess w s) else wd_sess w s')"
  "msg_of (upd_sess s f w) r = msg_of w r"
  by (simp_all add: upd_sess_def msg_of_def)

lemma upd_msg_fields [simp]:
  "wd_now (upd_msg r f w) = wd_now w" "wd_sess (upd_msg r f w) = wd_sess w"
  "wd_conns (upd_msg r f w) = wd_conns w" "wd_router (upd_msg r f w) = wd_router w"
  "wd_scanner (upd_msg r f w) = wd_scanner w" "wd_storeCalls (upd_msg r f w) = wd_storeCalls w"
  "wd_offlineRows (upd_msg r f w) = wd_offlineRows w"
  "wd_offlineErr (upd_msg r f w) = wd_offlineErr w" "wd_pools (upd_msg r f w) = wd_pools w"
  "wd_sessions (upd_msg r f w) = wd_sessions w" "wd_userIndex (upd_msg r f w) = wd_userIndex w"
  "wd_connReg (upd_msg r f w) = wd_connReg w" "wd_sent (upd_msg r f w) = wd_sent w"
  "msg_of (upd_msg r f w) r' = (if r' = r then f (msg_of w r) else msg_of w r')"
  by (simp_all add: upd_msg_def msg_of_def)

lemma upd_conn_fields [simp]:
  "wd_now (upd_conn c f w) = wd_now w" "wd_sess (upd_conn c f w) = wd_sess w"
  "wd_heap (upd_conn c f w) = wd_heap w" "wd_router (upd_conn c f w) = wd_router w"
  "wd_scanner (upd_conn c f w) = wd_scanner w" "wd_storeCalls (upd_conn c f w) = wd_storeCalls w"
  "wd_offlineRows (upd_conn c f w) = wd_offlineRows w"
  "wd_offlineErr (upd_conn c f w) = wd_offlineErr w" "wd_pools (upd_conn c f w) = wd_pools w"
  "wd_sessions (upd_conn c f w) = wd_sessions w" "wd_userIndex (upd_conn c f w) = wd_userIndex w"
  "wd_connReg (upd_conn c f w) = wd_connReg w" "wd_sent (upd_conn c f w) = wd_sent w"
  "wd_conns (upd_conn c f w) c' = (if c' = c then f (wd_conns w c) else wd_conns w c')"
  "msg_of (upd_conn c f w) r = msg_of w r"
  by (simp_all add: upd_conn_def msg_of_def)

lemma world_conn_Submit_fields:
  assumes "world_conn_Submit c m w = (ok, w')"
  shows "wd_now w' = wd_now w" "wd_sess w' = wd_sess w" "wd_router w' = wd_router w"
    "wd_scanner w' = wd_scanner w" "wd_storeCalls w' = wd_storeCalls w" "wd_offlineErr w' = wd_offlineErr w"
    "wd_sessions w' = wd_sessions w" "wd_userIndex w' = wd_userIndex w" "wd_pools w' = wd_pools w"
    "c' \<noteq> c \<Longrightarrow> wd_conns w' c' = wd_conns w c'"
    "r \<noteq> m \<Longrightarrow> msg_of w' r = msg_of w r"
    "m_Delivery (msg_of w' m) = m_Delivery (msg_of w m)" "m_MsgId (msg_of w' m) = m_MsgId (msg_of w m)"
    "m_Headers (msg_of w' m) = m_Headers (msg_of w m)" "wd_offlineRows w' = wd_offlineRows w"
  using assms
  by (auto simp: world_conn_Submit_def conn_Submit_def Let_def msg_of_def split: if_splits send_result.splits)

lemma world_conn_Submit_active:
  assumes ok: "conn_ok (wd_conns w c)" and act: "conn_IsActive (wd_conns w c)" and r: "world_conn_Submit c m w = (b, w')"
  shows "b \<longleftrightarrow> length (ch_buf (cn_writeCh (wd_conns w c))) < WriteChannelSize"
    and "ch_buf (cn_writeCh (wd_conns w' c)) = ch_buf (cn_writeCh (wd_conns w c)) @ (if b then [m] else [])"
    and "conn_ok (wd_conns w' c)" and "conn_IsActive (wd_conns w' c)"
    and "m_SeqId (msg_of w' m) = cn_nextSendSeq (wd_conns w c) + 1"
    and "cn_nextSendSeq (wd_conns w' c) = cn_nextSendSeq (wd_conns w c) + 1"
  using r act conn_ok_Submit [OF ok, of m "wd_heap w"]
  by (auto simp: world_conn_Submit_def conn_Submit_cases [OF ok] Let_def msg_of_def conn_IsActive_def split: if_splits)

lemma world_conn_Submit_inactive:
  "\<not> conn_IsActive (wd_conns w c) \<Longrightarrow> world_conn_Submit c m w = (False, w)"
  by (simp add: world_conn_Submit_def conn_Submit_def)

lemma new_msg_fields [simp]:
  "fst (new_msg m w) = mh_next (wd_heap w)"
  "wd_sess (snd (new_msg m w)) = wd_sess w" "wd_conns (snd (new_msg m w)) = wd_conns w"
  "wd_router (snd (new_msg m w)) = wd_router w" "wd_scanner (snd (new_msg m w)) = wd_scanner w"
  "wd_now (snd (new_msg m w)) = wd_now w" "wd_storeCalls (snd (new_msg m w)) = wd_storeCalls w"
  "wd_pools (snd (new_msg m w)) = wd_pools w" "wd_offlineErr (snd (new_msg m w)) = wd_offlineErr w"
  "msg_of (snd (new_msg m w)) r = (if r = mh_next (wd_heap w) then m else msg_of w r)"
  "wd_offlineRows (snd (new_msg m w)) = wd_offlineRows w"
  by (simp_all add: new_msg_def msg_of_def msg_alloc_def)

section \<open>A concrete node for the examples\<close>

definition sample_session :: Session where
  "sample_session =
     \<lparr>se_sessionID = ''aa'', se_AppID = ''app'', se_userID = ''u'', se_deviceID = ''d'', se_DeviceType = ''ios'',
      se_BizCode = ''im'', se_conn = Some 0, se_rooms = [(''r'', ())], se_topics = [], se_lastDeliveredSeq = 0,
      se_state = SessActive, se_suspendedAt = 0, se_pendingAcks = [],
      se_deps = \<lparr>dp_Worker = True, dp_Offline = True, dp_Acker = True, dp_MaxRetries = 0\<rparr>,
      se_connCount = 0, se_once = False\<rparr>"

definition sample_world :: world where
  "sample_world =
     \<lparr>wd_now = unixEpoch, wd_heap = \<lparr>mh_obj = (\<lambda>_. sample_msg ''m1''), mh_next = 5\<rparr>,
      wd_conns = (\<lambda>_. sample_conn), wd_nextConn = 1, wd_sess = (\<lambda>_. sample_session), wd_nextSess = 1,
      wd_router = NewLocalRouter,
      wd_scanner = SetTimeoutHandler (NewScanner (NewScheduler ack_junk 4) 0),
      wd_storeCalls = [], wd_offlineRows = [], wd_offlineErr = False, wd_pools = [], wd_sessions = [], wd_userIndex = [], wd_connReg = [],
      wd_sent = []\<rparr>"

lemma sample_world_fields [simp]:
  "wd_conns sample_world c = sample_conn" "wd_sess sample_world s = sample_session"
  "msg_of sample_world r = sample_msg ''m1''" "wd_offlineErr sample_world = False" "wd_storeCalls sample_world = []" "wd_offlineRows sample_world = []"
  "wd_router sample_world = NewLocalRouter" "wd_pools sample_world = []"
  "wd_sessions sample_world = []" "wd_userIndex sample_world = []" "wd_now sample_world = unixEpoch"
  by (simp_all add: sample_world_def msg_of_def)

lemma sample_conn_fields [simp]:
  "ch_buf (cn_writeCh sample_conn) = []" "conn_ok sample_conn" "conn_IsActive sample_conn" "cn_nextSendSeq sample_conn = 0"
  using sample_conn_ok by (simp_all add: sample_conn_def conn_Activate_def newConnection_def make_chan_def)

lemma scanner_ok_SetTimeoutHandler [simp]: "scanner_ok (SetTimeoutHandler s) = scanner_ok s"
  by (simp add: SetTimeoutHandler_def scanner_ok_def armed_def tracked_def)

lemma sample_scanner_ok [simp]: "scanner_ok (wd_scanner sample_world)"
  by (simp add: sample_world_def NewScanner_ok)

lemma hexid_aa [simp]: "hexid ''aa''"
  by (simp add: hexid_def)

end
