(* ===== verification/Worker_Pool.thy ===== *)
theory Worker_Pool
  imports Gateway_State
begin

text \<open>
  The entry points of \<open>gateway/internal/worker\<close> (\<open>manager.go\<close> and the submission half of
  \<open>pool.go\<close>): one pool with two bounded queues per business code. The worker goroutines that
  empty the queues are in \<open>Worker_Loops\<close>, after sessions and the downlink chain.

  A send on a closed channel panics in Go even inside a \<open>select\<close> with a default branch, so that a
  submission after \<open>Stop\<close> panics.
\<close>

datatype upstream_error = ErrUnknownBizCode | ErrPoolFull | Empty_biz_code

text \<open>The capacities of the configuration are not used; both channels hold 100 jobs.\<close>

definition newWorkerPool :: "PoolConfig \<Rightarrow> WorkerPool" where
  "newWorkerPool cfg =
     \<lparr>wp_cfg = cfg, wp_upstreamCh = make_chan 100, wp_downstreamCh = make_chan 100, wp_ctxDone = False\<rparr>"

definition AddPool :: "PoolConfig \<Rightarrow> world \<Rightarrow> world" where
  "AddPool cfg w = w\<lparr>wd_pools := gm_set (wd_pools w) (pc_BizCode cfg) (newWorkerPool cfg)\<rparr>"

definition GetPool :: "string \<Rightarrow> world \<Rightarrow> WorkerPool option" where
  "GetPool bizCode w = gm_get (wd_pools w) bizCode"

definition set_pool :: "string \<Rightarrow> WorkerPool \<Rightarrow> world \<Rightarrow> world" where
  "set_pool biz p w = w\<lparr>wd_pools := gm_set (wd_pools w) biz p\<rparr>"

definition pool_SubmitUpstream :: "UpstreamJob \<Rightarrow> WorkerPool \<Rightarrow> (WorkerPool, upstream_error option) res" where
  "pool_SubmitUpstream job p =
     (case try_send job (wp_upstreamCh p) of
        Sent ch \<Rightarrow> Ret None (p\<lparr>wp_upstreamCh := ch\<rparr>)
      | Full \<Rightarrow> Ret (Some ErrPoolFull) p
      | SendPanic \<Rightarrow> Panic p)"

definition pool_SubmitDownstream :: "mref \<Rightarrow> WorkerPool \<Rightarrow> (WorkerPool, bool) res" where
  "pool_SubmitDownstream msg p =
     (case try_send msg (wp_downstreamCh p) of
        Sent ch \<Rightarrow> Ret True (p\<lparr>wp_downstreamCh := ch\<rparr>)
      | Full \<Rightarrow> Ret False p
      | SendPanic \<Rightarrow> Panic p)"

text \<open>Running a pool operation on the pool of a business code.\<close>

definition on_pool :: "string \<Rightarrow> WorkerPool \<Rightarrow> (WorkerPool \<Rightarrow> (WorkerPool, 'a) res) \<Rightarrow> (world, 'a) go" where
  "on_pool biz p f w =
     (case f p of
        Ret a p' \<Rightarrow> Ret a (set_pool biz p' w)
      | Panic p' \<Rightarrow> Panic (set_pool biz p' w))"

definition mgr_SubmitUpstream :: "string \<Rightarrow> sref \<Rightarrow> mref \<Rightarrow> (world, upstream_error option) go" where
  "mgr_SubmitUpstream bizCode sess msg w =
     (case gm_get (wd_pools w) bizCode of
        None \<Rightarrow> Ret (Some ErrUnknownBizCode) w
      | Some pool \<Rightarrow> on_pool bizCode pool (pool_SubmitUpstream \<lparr>uj_Sess = sess, uj_Msg = msg\<rparr>) w)"

definition mgr_SubmitDownstream :: "string \<Rightarrow> mref \<Rightarrow> (world, bool) go" where
  "mgr_SubmitDownstream bizCode msg w =
     (case GetPool bizCode w of
        None \<Rightarrow> Ret False w
      | Some pool \<Rightarrow> on_pool bizCode pool (pool_SubmitDownstream msg) w)"

text \<open>\<open>cancel(); close(upstreamCh); close(downstreamCh)\<close>; closing a closed channel panics.\<close>

definition pool_Stop :: "WorkerPool \<Rightarrow> (WorkerPool, unit) res" where
  "pool_Stop p =
     (let p1 = p\<lparr>wp_ctxDone := True\<rparr>
      in if ch_closed (wp_upstreamCh p1) then Panic p1
         else
           (let p2 = p1\<lparr>wp_upstreamCh := (wp_upstreamCh p1)\<lparr>ch_closed := True\<rparr>\<rparr>
            in if ch_closed (wp_downstreamCh p2) then Panic p2
               else Ret () (p2\<lparr>wp_downstreamCh := (wp_downstreamCh p2)\<lparr>ch_closed := True\<rparr>\<rparr>)))"

fun mgr_Stop_pools :: "(string \<times> WorkerPool) list \<Rightarrow> (world, unit) go" where
  "mgr_Stop_pools [] w = Ret () w"
| "mgr_Stop_pools ((biz, p) # ps) w = bindG (on_pool biz p pool_Stop) (\<lambda>_. mgr_Stop_pools ps) w"

definition mgr_Stop :: "(world, unit) go" where
  "mgr_Stop w = mgr_Stop_pools (wd_pools w) w"

section \<open>Invariant\<close>

definition pool_ok :: "WorkerPool \<Rightarrow> bool" where
  "pool_ok p \<longleftrightarrow> ch_cap (wp_upstreamCh p) = 100 \<and> chan_bounded (wp_upstreamCh p) \<and> ch_cap (wp_downstreamCh p) = 100
     \<and> chan_bounded (wp_downstreamCh p) \<and> (ch_closed (wp_upstreamCh p) \<longrightarrow> wp_ctxDone p)
     \<and> (ch_closed (wp_downstreamCh p) \<longrightarrow> wp_ctxDone p)"

definition pools_ok :: "world \<Rightarrow> bool" where
  "pools_ok w \<longleftrightarrow> gm_wf (wd_pools w) \<and> (\<forall>b p. gm_get (wd_pools w) b = Some p \<longrightarrow> pool_ok p)"

lemma pool_ok_new [simp]: "pool_ok (newWorkerPool cfg)"
  by (simp add: pool_ok_def newWorkerPool_def make_chan_def chan_bounded_def)

lemma pools_ok_AddPool: "pools_ok w \<Longrightarrow> pools_ok (AddPool cfg w)"
  by (auto simp: pools_ok_def AddPool_def split: if_splits)

lemma pools_ok_set: "pools_ok w \<Longrightarrow> pool_ok p \<Longrightarrow> pools_ok (set_pool b p w)"
  by (auto simp: pools_ok_def set_pool_def split: if_splits)

lemma pool_ok_submit:
  "pool_ok p \<Longrightarrow> pool_ok (res_state (pool_SubmitUpstream j p))"
  "pool_ok p \<Longrightarrow> pool_ok (res_state (pool_SubmitDownstream m p))"
  by (auto simp: pool_ok_def pool_SubmitUpstream_def pool_SubmitDownstream_def try_send_def chan_bounded_def)

lemma pools_ok_SubmitUpstream: "pools_ok w \<Longrightarrow> pools_ok (res_state (mgr_SubmitUpstream b s m w))"
  using pool_ok_submit(1)
  by (auto simp: mgr_SubmitUpstream_def on_pool_def pools_ok_def split: option.split res.split)
     (metis pool_ok_submit(1) pools_ok_def pools_ok_set res_state.simps)+

text \<open>
  Submitting upstream is bounded and isolated. A running pool accepts a job exactly while fewer
  than 100 wait, appends it at the end, and answers ErrPoolFull otherwise; an unknown business
  code is an error; no other pool is touched.
\<close>

theorem SubmitUpstream_isolated:
  assumes "pools_ok w"
    and "\<And>p. gm_get (wd_pools w) biz = Some p \<Longrightarrow> \<not> ch_closed (wp_upstreamCh p)"
  shows "\<exists>err w'. mgr_SubmitUpstream biz s m w = Ret err w'
    \<and> (case gm_get (wd_pools w) biz of
         None \<Rightarrow> err = Some ErrUnknownBizCode \<and> w' = w
       | Some p \<Rightarrow>
           (let q = ch_buf (wp_upstreamCh p) in
              err = (if length q < 100 then None else Some ErrPoolFull)
            \<and> (\<exists>p'. gm_get (wd_pools w') biz = Some p'
                  \<and> ch_buf (wp_upstreamCh p') = (if length q < 100 then q @ [\<lparr>uj_Sess = s, uj_Msg = m\<rparr>] else q)
                  \<and> ch_buf (wp_downstreamCh p') = ch_buf (wp_downstreamCh p))))
    \<and> (\<forall>b. b \<noteq> biz \<longrightarrow> gm_get (wd_pools w') b = gm_get (wd_pools w) b)"
proof (cases "gm_get (wd_pools w) biz")
  case None
  then show ?thesis by (simp add: mgr_SubmitUpstream_def)
next
  case (Some p)
  then have "pool_ok p" and "\<not> ch_closed (wp_upstreamCh p)" using assms by (auto simp: pools_ok_def)
  then show ?thesis
    using Some by (simp add: mgr_SubmitUpstream_def on_pool_def pool_SubmitUpstream_def try_send_def pool_ok_def set_pool_def)
qed

lemma mgr_Stop_pools_keys:
  "mgr_Stop_pools ps w = Ret () w' \<Longrightarrow> biz \<in> fst ` set ps \<Longrightarrow>
     \<exists>p. gm_get (wd_pools w') biz = Some p \<and> ch_closed (wp_upstreamCh p) \<and> ch_closed (wp_downstreamCh p)"
proof (induction ps arbitrary: w)
  case (Cons bp ps)
  obtain b p where bp: "bp = (b, p)" by (cases bp)
  from Cons.prems(1) obtain p' where s: "pool_Stop p = Ret () p'" and r: "mgr_Stop_pools ps (set_pool b p' w) = Ret () w'"
    by (auto simp: bp bindG_def on_pool_def split: res.splits)
  show ?case
  proof (cases "biz \<in> fst ` set ps")
    case True
    then show ?thesis using Cons.IH [OF r] by simp
  next
    case False
    have keep: "mgr_Stop_pools qs v = Ret () v' \<Longrightarrow> biz \<notin> fst ` set qs \<Longrightarrow> gm_get (wd_pools v') biz = gm_get (wd_pools v) biz" for qs v v'
      by (induction qs arbitrary: v) (auto simp: bindG_def on_pool_def set_pool_def split: res.splits)
    have "ch_closed (wp_upstreamCh p') \<and> ch_closed (wp_downstreamCh p')"
      using s by (auto simp: pool_Stop_def Let_def split: if_splits)
    moreover have "biz = b" using Cons.prems(2) False bp by simp
    ultimately show ?thesis using keep [OF r False] by (simp add: set_pool_def)
  qed
qed simp

definition sample_pool_world :: world where
  "sample_pool_world =
     AddPool \<lparr>pc_BizCode = ''im'', pc_UpstreamWorkers = 1, pc_UpstreamChanCap = 1, pc_DownstreamWorkers = 1,
       pc_DownstreamChanCap = 1, pc_OfflineStore = True\<rparr> sample_world"

lemma sample_pool_world_ok: "pools_ok sample_pool_world"
  unfolding sample_pool_world_def by (rule pools_ok_AddPool) (simp add: pools_ok_def gm_wf_def)

lemma sample_pool_world_im:
  "\<exists>p. gm_get (wd_pools sample_pool_world) ''im'' = Some p \<and> \<not> ch_closed (wp_upstreamCh p) \<and> ch_buf (wp_upstreamCh p) = []"
  by (simp add: sample_pool_world_def AddPool_def newWorkerPool_def make_chan_def)

theorem SubmitUpstream_isolated_witness:
  "\<exists>w'. mgr_SubmitUpstream ''im'' 0 3 sample_pool_world = Ret None w'
     \<and> (\<exists>p'. gm_get (wd_pools w') ''im'' = Some p' \<and> ch_buf (wp_upstreamCh p') = [\<lparr>uj_Sess = 0, uj_Msg = 3\<rparr>])"
proof -
  obtain p where p: "gm_get (wd_pools sample_pool_world) ''im'' = Some p" "\<not> ch_closed (wp_upstreamCh p)"
    "ch_buf (wp_upstreamCh p) = []" using sample_pool_world_im by blast
  show ?thesis
    using SubmitUpstream_isolated [OF sample_pool_world_ok, of "''im''" 0 3] p by (auto simp: Let_def)
qed

text \<open>
  After \<open>Stop\<close> a submission for a known business code panics: the channel is closed, and a send
  on a closed channel panics whether or not the \<open>select\<close> has a default branch.
\<close>

theorem SubmitUpstream_after_Stop_panics:
  assumes "mgr_Stop w = Ret () w'" and "gm_get (wd_pools w) biz = Some p"
  shows "panicked (mgr_SubmitUpstream biz s m w') \<and> panicked (mgr_SubmitDownstream biz m w')"
proof -
  have "biz \<in> fst ` set (wd_pools w)" using gm_get_SomeD [OF assms(2)] by force
  from mgr_Stop_pools_keys [OF assms(1) [unfolded mgr_Stop_def] this] show ?thesis
    by (auto simp: mgr_SubmitUpstream_def mgr_SubmitDownstream_def GetPool_def on_pool_def pool_SubmitUpstream_def
        pool_SubmitDownstream_def try_send_def)
qed

theorem SubmitUpstream_after_Stop_panics_witness:
  "\<exists>w'. mgr_Stop sample_pool_world = Ret () w' \<and> panicked (mgr_SubmitUpstream ''im'' 0 3 w')"
proof -
  have "\<exists>w'. mgr_Stop sample_pool_world = Ret () w'"
    by (simp add: mgr_Stop_def sample_pool_world_def AddPool_def gm_set_def bindG_def on_pool_def pool_Stop_def
        newWorkerPool_def make_chan_def Let_def)
  then show ?thesis
    using SubmitUpstream_after_Stop_panics [of sample_pool_world _ "''im''"] sample_pool_world_im by blast
qed

end
