(* ===== verification/Session.thy ===== *)
theory Session
  imports Worker_Pool
begin

text \<open>
  \<open>gateway/internal/session/session.go\<close>: the logical session that survives its connections. Every
  method is a function on the gateway state; \<open>s\<close> is the receiver.
\<close>

definition NewSession :: "string \<Rightarrow> string \<Rightarrow> string \<Rightarrow> string \<Rightarrow> string \<Rightarrow> string \<Rightarrow> Deps \<Rightarrow> Session" where
  "NewSession sessionID userID deviceID appID deviceType bizCode deps =
     \<lparr>se_sessionID = sessionID, se_AppID = appID, se_userID = userID, se_deviceID = deviceID,
      se_DeviceType = deviceType, se_BizCode = bizCode, se_conn = None, se_rooms = [], se_topics = [],
      se_lastDeliveredSeq = 0, se_state = SessAuthenticating, se_suspendedAt = 0, se_pendingAcks = [],
      se_deps = deps, se_connCount = 0, se_once = False\<rparr>"

definition sess_IsActive :: "sref \<Rightarrow> world \<Rightarrow> bool" where
  "sess_IsActive s w \<longleftrightarrow> se_state (wd_sess w s) = SessActive"

section \<open>Delivery\<close>

text \<open>\<open>msg.Delivery\<close> is dereferenced without a check.\<close>

definition sess_handleUndelivered :: "sref \<Rightarrow> mref \<Rightarrow> (world, unit) go" where
  "sess_handleUndelivered s msg w =
     (case m_Delivery (msg_of w msg) of
        None \<Rightarrow> Panic w
      | Some d \<Rightarrow>
          if \<not> d_Offline d \<or> \<not> dp_Offline (se_deps (wd_sess w s)) then Ret () w
          else if d_Qos d = QosClass_AT_MOST_ONCE then Ret () w
          else Ret () (snd (offline_Store msg w)))"

text \<open>\<open>s.deps.Acker.Track(msg, s)\<close>\<close>

definition acker_Track :: "sref \<Rightarrow> mref \<Rightarrow> world \<Rightarrow> world" where
  "acker_Track s msg w =
     w\<lparr>wd_scanner := Scanner_Track (wd_now w) (msg_of w msg) (sid_of w s) (wd_scanner w)\<rparr>"

definition record_pending :: "sref \<Rightarrow> mref \<Rightarrow> world \<Rightarrow> world" where
  "record_pending s msg w =
     upd_sess s (\<lambda>x. x\<lparr>se_pendingAcks := gm_set (se_pendingAcks x) (m_MsgId (msg_of w msg))
       \<lparr>pn_msg = msg, pn_retryCount = 0, pn_firstSentAt = wd_now w, pn_lastRetryAt = wd_now w\<rparr>\<rparr>) w"

definition sess_Submit :: "sref \<Rightarrow> mref \<Rightarrow> (world, bool) go" where
  "sess_Submit s msg w =
     (case se_conn (wd_sess w s) of
        None \<Rightarrow> bindG (sess_handleUndelivered s msg) (\<lambda>_. retG False) w
      | Some c \<Rightarrow>
          if \<not> conn_IsActive (wd_conns w c)
          then bindG (sess_handleUndelivered s msg) (\<lambda>_. retG False) w
          else
            (case world_conn_Submit c msg w of
               (ok, w1) \<Rightarrow>
                 if ok then
                   (let w2 = upd_sess s (\<lambda>x. x\<lparr>se_lastDeliveredSeq := m_SeqId (msg_of w1 msg)\<rparr>) w1
                    in if dp_Acker (se_deps (wd_sess w2 s)) \<and> needs_ack (msg_of w2 msg)
                       then Ret True (acker_Track s msg (record_pending s msg w2))
                       else Ret True w2)
                 else bindG (sess_handleUndelivered s msg) (\<lambda>_. retG False) w1))"

definition sess_Ack :: "sref \<Rightarrow> string \<Rightarrow> world \<Rightarrow> world" where
  "sess_Ack s msgID w =
     (let w1 = upd_sess s (\<lambda>x. x\<lparr>se_pendingAcks := gm_del (se_pendingAcks x) msgID\<rparr>) w
      in if dp_Acker (se_deps (wd_sess w1 s))
         then w1\<lparr>wd_scanner := Scanner_Done msgID (sid_of w1 s) (wd_scanner w1)\<rparr>
         else w1)"

text \<open>\<open>s.deps.Worker\<close> may be nil.\<close>

definition sess_SubmitUpstream :: "sref \<Rightarrow> mref \<Rightarrow> (world, upstream_error option) go" where
  "sess_SubmitUpstream s msg w =
     (let biz0 = m_BizCode (msg_of w msg);
          biz = (if biz0 = '''' then se_BizCode (wd_sess w s) else biz0)
      in if biz = '''' then Ret (Some Empty_biz_code) w
         else if \<not> dp_Worker (se_deps (wd_sess w s)) then Panic w
         else mgr_SubmitUpstream biz s msg w)"

section \<open>Attaching and detaching a connection\<close>

text \<open>One step of the \<open>Range\<close> over the pending acknowledgements.\<close>

definition flush_pending :: "sref \<Rightarrow> cref \<Rightarrow> string \<Rightarrow> world \<Rightarrow> world" where
  "flush_pending s c k w =
     (case gm_get (se_pendingAcks (wd_sess w s)) k of
        None \<Rightarrow> w
      | Some entry \<Rightarrow>
          (let entry' = entry\<lparr>pn_retryCount := pn_retryCount entry + 1, pn_lastRetryAt := wd_now w\<rparr>;
               w1 = upd_sess s (\<lambda>x. x\<lparr>se_pendingAcks := gm_set (se_pendingAcks x) k entry'\<rparr>) w;
               w2 = upd_msg (pn_msg entry) (set_header ''x-retry-count'' (Itoa (pn_retryCount entry'))) w1;
               w3 = snd (world_conn_Submit c (pn_msg entry) w2)
           in if dp_Acker (se_deps (wd_sess w3 s)) then acker_Track s (pn_msg entry) w3 else w3))"

definition sess_AttachConn :: "sref \<Rightarrow> cref \<Rightarrow> world \<Rightarrow> 64 word \<times> world" where
  "sess_AttachConn s c w =
     (let w1 = upd_sess s (\<lambda>x. x\<lparr>se_conn := Some c, se_state := SessActive, se_suspendedAt := 0\<rparr>) w;
          rooms = gm_keys (se_rooms (wd_sess w1 s));
          topics = gm_keys (se_topics (wd_sess w1 s));
          w2 = w1\<lparr>wd_router := fold (\<lambda>t. Subscribe (sid_of w1) t s) topics
                                  (fold (\<lambda>r. JoinRoom (sid_of w1) r s) rooms (wd_router w1))\<rparr>;
          w3 = fold (flush_pending s c) (gm_keys (se_pendingAcks (wd_sess w2 s))) w2
      in (se_lastDeliveredSeq (wd_sess w3 s), w3))"

definition sess_DetachConn :: "sref \<Rightarrow> world \<Rightarrow> world" where
  "sess_DetachConn s w =
     (let old = se_conn (wd_sess w s);
          w1 = upd_sess s (\<lambda>x. x\<lparr>se_conn := None\<rparr>) w;
          w2 = (if old = None then w1 else w1\<lparr>wd_router := UnregisterAll (sid_of w1) s (wd_router w1)\<rparr>)
      in upd_sess s (\<lambda>x. x\<lparr>se_state := SessSuspended, se_suspendedAt := UnixMilli (wd_now w2)\<rparr>) w2)"

section \<open>Subscriptions\<close>

definition withConn :: "sref \<Rightarrow> (world \<Rightarrow> world) \<Rightarrow> world \<Rightarrow> world" where
  "withConn s fn w = (if se_conn (wd_sess w s) = None then w else fn w)"

definition sess_JoinRoom :: "sref \<Rightarrow> string \<Rightarrow> world \<Rightarrow> world" where
  "sess_JoinRoom s roomID w =
     withConn s (\<lambda>w. w\<lparr>wd_router := JoinRoom (sid_of w) roomID s (wd_router w)\<rparr>)
       (upd_sess s (\<lambda>x. x\<lparr>se_rooms := gm_set (se_rooms x) roomID ()\<rparr>) w)"

definition sess_LeaveRoom :: "sref \<Rightarrow> string \<Rightarrow> world \<Rightarrow> world" where
  "sess_LeaveRoom s roomID w =
     withConn s (\<lambda>w. w\<lparr>wd_router := LeaveRoom (sid_of w) roomID s (wd_router w)\<rparr>)
       (upd_sess s (\<lambda>x. x\<lparr>se_rooms := gm_del (se_rooms x) roomID\<rparr>) w)"

definition sess_Subscribe :: "sref \<Rightarrow> string \<Rightarrow> world \<Rightarrow> world" where
  "sess_Subscribe s topic w =
     withConn s (\<lambda>w. w\<lparr>wd_router := Subscribe (sid_of w) topic s (wd_router w)\<rparr>)
       (upd_sess s (\<lambda>x. x\<lparr>se_topics := gm_set (se_topics x) topic ()\<rparr>) w)"

definition sess_Unsubscribe :: "sref \<Rightarrow> string \<Rightarrow> world \<Rightarrow> world" where
  "sess_Unsubscribe s topic w =
     withConn s (\<lambda>w. w\<lparr>wd_router := Unsubscribe (sid_of w) topic s (wd_router w)\<rparr>)
       (upd_sess s (\<lambda>x. x\<lparr>se_topics := gm_del (se_topics x) topic\<rparr>) w)"

section \<open>Closing\<close>

text \<open>The body runs once. \<open>se_conn\<close> is left as it is.\<close>

definition sess_Close :: "sref \<Rightarrow> KickRequest option \<Rightarrow> world \<Rightarrow> world" where
  "sess_Close s kick w =
     (if se_once (wd_sess w s) then w
      else
        (let w1 = upd_sess s (\<lambda>x. x\<lparr>se_once := True, se_state := SessClosed\<rparr>) w;
             w2 = (case se_conn (wd_sess w1 s) of
                     None \<Rightarrow> w1
                   | Some c \<Rightarrow> (let v = upd_conn c (conn_Close kick) w1
                                in v\<lparr>wd_router := UnregisterAll (sid_of v) s (wd_router v)\<rparr>));
             w3 = w2\<lparr>wd_router := UnregisterSession (se_userID (wd_sess w2 s)) (se_deviceID (wd_sess w2 s)) (wd_router w2)\<rparr>;
             w4 = (if dp_Acker (se_deps (wd_sess w3 s))
                   then w3\<lparr>wd_scanner := Scanner_CancelAll (sid_of w3 s) (wd_scanner w3)\<rparr> else w3)
         in upd_sess s (\<lambda>x. x\<lparr>se_pendingAcks := []\<rparr>) w4))"

section \<open>Accessors\<close>

definition PendingAckSnapshot :: "sref \<Rightarrow> world \<Rightarrow> (string, pendingEntry) gomap" where
  "PendingAckSnapshot s w = fold (\<lambda>(k, v) m. gm_set m k v) (se_pendingAcks (wd_sess w s)) []"

definition GetPendingAck :: "sref \<Rightarrow> string \<Rightarrow> world \<Rightarrow> pendingEntry option" where
  "GetPendingAck s msgID w = gm_get (se_pendingAcks (wd_sess w s)) msgID"

definition RemovePendingAck :: "sref \<Rightarrow> string \<Rightarrow> world \<Rightarrow> world" where
  "RemovePendingAck s msgID w = upd_sess s (\<lambda>x. x\<lparr>se_pendingAcks := gm_del (se_pendingAcks x) msgID\<rparr>) w"

definition GetConnCount :: "sref \<Rightarrow> world \<Rightarrow> nat" where
  "GetConnCount s w = se_connCount (wd_sess w s)"

section \<open>What the operations leave alone\<close>

lemma sid_of_upd_sess [simp]:
  "(\<And>x. se_sessionID (f x) = se_sessionID x) \<Longrightarrow> sid_of (upd_sess s f w) = sid_of w"
  by (simp add: sid_of_def fun_eq_iff)

lemma sid_of_same: "wd_sess w' = wd_sess w \<Longrightarrow> sid_of w' = sid_of w"
  by (simp add: sid_of_def fun_eq_iff)

lemma sid_of_record [simp]: "sid_of (record_pending s m w) = sid_of w"
  by (simp add: record_pending_def)

lemma acker_Track_fields [simp]:
  "wd_sess (acker_Track s m w) = wd_sess w" "wd_conns (acker_Track s m w) = wd_conns w"
  "wd_router (acker_Track s m w) = wd_router w" "wd_heap (acker_Track s m w) = wd_heap w"
  "wd_storeCalls (acker_Track s m w) = wd_storeCalls w" "wd_now (acker_Track s m w) = wd_now w"
  "msg_of (acker_Track s m w) = msg_of w" "wd_pools (acker_Track s m w) = wd_pools w"
  "wd_sessions (acker_Track s m w) = wd_sessions w" "wd_userIndex (acker_Track s m w) = wd_userIndex w"
  "wd_scanner (acker_Track s m w) = Scanner_Track (wd_now w) (msg_of w m) (sid_of w s) (wd_scanner w)"
  "wd_offlineRows (acker_Track s m w) = wd_offlineRows w"
  by (simp_all add: acker_Track_def msg_of_def fun_eq_iff)

lemma record_pending_fields [simp]:
  "wd_conns (record_pending s m w) = wd_conns w" "wd_router (record_pending s m w) = wd_router w"
  "wd_scanner (record_pending s m w) = wd_scanner w" "wd_storeCalls (record_pending s m w) = wd_storeCalls w"
  "wd_now (record_pending s m w) = wd_now w" "msg_of (record_pending s m w) = msg_of w"
  "se_pendingAcks (wd_sess (record_pending s m w) s) = gm_set (se_pendingAcks (wd_sess w s)) (m_MsgId (msg_of w m))
     \<lparr>pn_msg = m, pn_retryCount = 0, pn_firstSentAt = wd_now w, pn_lastRetryAt = wd_now w\<rparr>"
  "se_conn (wd_sess (record_pending s m w) s') = se_conn (wd_sess w s')"
  "se_deps (wd_sess (record_pending s m w) s') = se_deps (wd_sess w s')"
  "wd_offlineRows (record_pending s m w) = wd_offlineRows w"
  by (simp_all add: record_pending_def fun_eq_iff)

lemma offline_Store_fields [simp]:
  "wd_sess (snd (offline_Store m w)) = wd_sess w" "wd_conns (snd (offline_Store m w)) = wd_conns w"
  "wd_scanner (snd (offline_Store m w)) = wd_scanner w" "wd_router (snd (offline_Store m w)) = wd_router w"
  "msg_of (snd (offline_Store m w)) = msg_of w"
  by (simp_all add: offline_Store_def msg_of_def fun_eq_iff)

lemma handleUndelivered_stores:
  assumes "m_Delivery (msg_of w m) = Some d" and "d_Offline d" and "d_Qos d = QosClass_AT_LEAST_ONCE"
    and "dp_Offline (se_deps (wd_sess w s))"
  shows "sess_handleUndelivered s m w = Ret () (snd (offline_Store m w))"
  using assms
  by (simp add: sess_handleUndelivered_def QosClass_AT_LEAST_ONCE_def QosClass_AT_MOST_ONCE_def)

lemma sess_Submit_offline:
  assumes "se_conn (wd_sess w s) = None \<or> (\<exists>c. se_conn (wd_sess w s) = Some c \<and> \<not> conn_IsActive (wd_conns w c))"
  shows "sess_Submit s m w = bindG (sess_handleUndelivered s m) (\<lambda>_. retG False) w"
  using assms by (auto simp: sess_Submit_def)

lemma sess_Submit_active:
  assumes "se_conn (wd_sess w s) = Some c" and "conn_IsActive (wd_conns w c)" and "world_conn_Submit c m w = (ok, w1)"
  shows "sess_Submit s m w =
    (if ok then
       (let w2 = upd_sess s (\<lambda>x. x\<lparr>se_lastDeliveredSeq := m_SeqId (msg_of w1 m)\<rparr>) w1
        in if dp_Acker (se_deps (wd_sess w2 s)) \<and> needs_ack (msg_of w2 m)
           then Ret True (acker_Track s m (record_pending s m w2)) else Ret True w2)
     else bindG (sess_handleUndelivered s m) (\<lambda>_. retG False) w1)"
  using assms by (simp add: sess_Submit_def)

section \<open>Properties\<close>

text \<open>
  C2. What \<open>Submit\<close> does with an at-least-once message that may be stored offline. On a session with
  an ACK scanner and an offline store it returns, and either answers true, with the message at the
  end of the connection's write queue, recorded as pending and its ACK timer armed, or answers
  false, having called \<open>Store\<close> with the message exactly once. Of that call the database has, when
  it does not refuse, one more row, with no value set (\<open>MySQLStore.Store\<close> copies nothing of the message),
  and otherwise nothing: so a message that \<open>Submit\<close> answers false for is handed to the store,
  but the store that is wired in does not keep it.
\<close>

theorem QoS1_submit_queued_or_handed_to_store:
  assumes deliv: "m_Delivery (msg_of w m) = Some d" "d_Offline d" "d_Qos d = QosClass_AT_LEAST_ONCE"
    and deps: "dp_Offline (se_deps (wd_sess w s))" "dp_Acker (se_deps (wd_sess w s))"
    and ok: "scanner_ok (wd_scanner w)" "hexid (sid_of w s)"
      "\<And>c. se_conn (wd_sess w s) = Some c \<Longrightarrow> conn_ok (wd_conns w c)"
  shows "\<exists>b w'. sess_Submit s m w = Ret b w' \<and>
    (if b then
       (\<exists>c. se_conn (wd_sess w s) = Some c
          \<and> ch_buf (cn_writeCh (wd_conns w' c)) = ch_buf (cn_writeCh (wd_conns w c)) @ [m])
       \<and> (\<exists>e. gm_get (se_pendingAcks (wd_sess w' s)) (m_MsgId (msg_of w m)) = Some e \<and> pn_msg e = m)
       \<and> armed (wd_scanner w') (sid_of w s) (m_MsgId (msg_of w m))
       \<and> wd_storeCalls w' = wd_storeCalls w \<and> wd_offlineRows w' = wd_offlineRows w
     else wd_storeCalls w' = wd_storeCalls w @ [msg_of w' m]
       \<and> wd_offlineRows w' = wd_offlineRows w @ (if wd_offlineErr w then [] else [zero_OfflineMessageModel]))"
proof (cases "\<exists>c. se_conn (wd_sess w s) = Some c \<and> conn_IsActive (wd_conns w c)")
  case False
  then have "sess_Submit s m w = bindG (sess_handleUndelivered s m) (\<lambda>_. retG False) w"
    by (intro sess_Submit_offline) (cases "se_conn (wd_sess w s)"; simp)
  then show ?thesis
    using handleUndelivered_stores [OF deliv deps(1)] by (auto simp: bindG_def retG_def msg_of_def offline_Store_def)
next
  case True
  then obtain c where c: "se_conn (wd_sess w s) = Some c" "conn_IsActive (wd_conns w c)" by blast
  obtain b w1 where r: "world_conn_Submit c m w = (b, w1)" by (cases "world_conn_Submit c m w")
  note f = world_conn_Submit_fields [OF r]
  note sub = sess_Submit_active [OF c r]
  show ?thesis
  proof (cases b)
    case False
    then have "sess_Submit s m w = bindG (sess_handleUndelivered s m) (\<lambda>_. retG False) w1" using sub by simp
    moreover have "sess_handleUndelivered s m w1 = Ret () (snd (offline_Store m w1))"
      by (rule handleUndelivered_stores) (use deliv deps in \<open>simp_all add: f\<close>)
    ultimately show ?thesis by (auto simp: bindG_def retG_def f(5,6,15) msg_of_def offline_Store_def)
  next
    case b: True
    let ?w2 = "upd_sess s (\<lambda>x. x\<lparr>se_lastDeliveredSeq := m_SeqId (msg_of w1 m)\<rparr>) w1"
    let ?w' = "acker_Track s m (record_pending s m ?w2)"
    have na: "needs_ack (msg_of w1 m)" using deliv f(12) by (simp add: needs_ack_def)
    then have "sess_Submit s m w = Ret True ?w'" using sub b deps(2) by (simp add: Let_def f(2))
    moreover have "ch_buf (cn_writeCh (wd_conns ?w' c)) = ch_buf (cn_writeCh (wd_conns w c)) @ [m]"
      using world_conn_Submit_active(2) [OF ok(3) [OF c(1)] c(2) r] b by simp
    moreover have "armed (wd_scanner ?w') (sid_of w s) (m_MsgId (msg_of w m))"
      using sc.Track_armed [OF ok(1) ok(2) ok(2)] na by (simp add: f(4,13) sid_of_same [OF f(2)])
    moreover have "wd_storeCalls ?w' = wd_storeCalls w" "wd_offlineRows ?w' = wd_offlineRows w" by (simp_all add: f(5,15))
    ultimately show ?thesis using c(1) by (auto simp: f(13))
  qed
qed

theorem QoS1_submit_queued_or_handed_to_store_witness:
  "(case sess_Submit 0 3 sample_world of
      Ret b w' \<Rightarrow> b \<and> ch_buf (cn_writeCh (wd_conns w' 0)) = [3] \<and> armed (wd_scanner w') ''aa'' ''m1''
    | Panic _ \<Rightarrow> False)
   \<and> (case sess_Submit 0 3 (upd_sess 0 (\<lambda>x. x\<lparr>se_conn := None\<rparr>) sample_world) of
        Ret b w' \<Rightarrow> \<not> b \<and> wd_storeCalls w' = [sample_msg ''m1''] \<and> wd_offlineRows w' = [zero_OfflineMessageModel]
      | Panic _ \<Rightarrow> False)"
proof -
  let ?d = "\<lparr>d_AckId = None, d_Qos = QosClass_AT_LEAST_ONCE, d_Offline = True\<rparr>"
  let ?v = "upd_sess 0 (\<lambda>x. x\<lparr>se_conn := None\<rparr>) sample_world"
  have d: "m_Delivery (sample_msg ''m1'') = Some ?d" by (simp add: sample_msg_def)
  have sid: "sid_of sample_world 0 = ''aa''" by (simp add: sid_of_def sample_session_def)
  have c: "se_conn sample_session = Some 0" by (simp add: sample_session_def)
  have deps: "dp_Offline (se_deps sample_session)" "dp_Acker (se_deps sample_session)" by (simp_all add: sample_session_def)
  have act: "\<exists>w'. sess_Submit 0 3 sample_world = Ret True w'"
    using world_conn_Submit_active(1) [of sample_world 0 3]
    by (cases "world_conn_Submit 0 3 sample_world") (simp add: sess_Submit_def c Let_def WriteChannelSize_def)
  have off: "\<exists>w'. sess_Submit 0 3 ?v = Ret False w' \<and> msg_of w' 3 = sample_msg ''m1''"
    using handleUndelivered_stores [of ?v 3 ?d 0] d deps
    by (simp add: sess_Submit_def bindG_def retG_def offline_Store_def) (simp add: msg_of_def upd_sess_def sample_world_def)
  show ?thesis
    using QoS1_submit_queued_or_handed_to_store [of sample_world 3 ?d 0] QoS1_submit_queued_or_handed_to_store [of ?v 3 ?d 0] act off d deps sid c
    by auto
qed

text \<open>The flush of pending messages does not touch the router or the sessions' identity.\<close>

lemma flush_pending_keeps:
  "wd_router (flush_pending s c k w) = wd_router w"
  "sid_of (flush_pending s c k w) = sid_of w"
  "se_conn (wd_sess (flush_pending s c k w) s') = se_conn (wd_sess w s')"
  "se_state (wd_sess (flush_pending s c k w) s') = se_state (wd_sess w s')"
  "se_once (wd_sess (flush_pending s c k w) s') = se_once (wd_sess w s')"
proof -
  have "wd_router (flush_pending s c k w) = wd_router w \<and> sid_of (flush_pending s c k w) = sid_of w
    \<and> se_conn (wd_sess (flush_pending s c k w) s') = se_conn (wd_sess w s')
    \<and> se_state (wd_sess (flush_pending s c k w) s') = se_state (wd_sess w s')
    \<and> se_once (wd_sess (flush_pending s c k w) s') = se_once (wd_sess w s')"
  proof (cases "gm_get (se_pendingAcks (wd_sess w s)) k")
    case (Some e)
    let ?e = "e\<lparr>pn_retryCount := pn_retryCount e + 1, pn_lastRetryAt := wd_now w\<rparr>"
    let ?w2 = "upd_msg (pn_msg e) (set_header ''x-retry-count'' (Itoa (pn_retryCount ?e)))
        (upd_sess s (\<lambda>x. x\<lparr>se_pendingAcks := gm_set (se_pendingAcks x) k ?e\<rparr>) w)"
    obtain b w3 where r: "world_conn_Submit c (pn_msg e) ?w2 = (b, w3)" by (cases "world_conn_Submit c (pn_msg e) ?w2")
    note f = world_conn_Submit_fields [OF r]
    show ?thesis using Some r by (simp add: flush_pending_def Let_def f(2,3) sid_of_def fun_eq_iff)
  qed (simp add: flush_pending_def)
  then show "wd_router (flush_pending s c k w) = wd_router w" "sid_of (flush_pending s c k w) = sid_of w"
    "se_conn (wd_sess (flush_pending s c k w) s') = se_conn (wd_sess w s')"
    "se_state (wd_sess (flush_pending s c k w) s') = se_state (wd_sess w s')"
    "se_once (wd_sess (flush_pending s c k w) s') = se_once (wd_sess w s')" by blast+
qed

lemma flush_all_keeps:
  "wd_router (fold (flush_pending s c) ks w) = wd_router w \<and> sid_of (fold (flush_pending s c) ks w) = sid_of w
   \<and> se_conn (wd_sess (fold (flush_pending s c) ks w) s') = se_conn (wd_sess w s')
   \<and> se_state (wd_sess (fold (flush_pending s c) ks w) s') = se_state (wd_sess w s')
   \<and> se_once (wd_sess (fold (flush_pending s c) ks w) s') = se_once (wd_sess w s')"
  by (induction ks arbitrary: w) (simp_all add: flush_pending_keeps)

lemma AttachConn_parts:
  fixes s c w
  defines "w' \<equiv> snd (sess_AttachConn s c w)"
  shows "wd_router w' = fold (\<lambda>t. Subscribe (sid_of w) t s) (gm_keys (se_topics (wd_sess w s)))
      (fold (\<lambda>r. JoinRoom (sid_of w) r s) (gm_keys (se_rooms (wd_sess w s))) (wd_router w))"
    and "sid_of w' = sid_of w" and "se_conn (wd_sess w' s) = Some c" and "se_state (wd_sess w' s) = SessActive"
    and "se_once (wd_sess w' s) = se_once (wd_sess w s)"
  unfolding w'_def sess_AttachConn_def Let_def
  by (simp_all add: flush_all_keeps) (simp add: sid_of_def fun_eq_iff)

lemma DetachConn_parts:
  fixes s w
  defines "w' \<equiv> sess_DetachConn s w"
  shows "wd_router w' = (if se_conn (wd_sess w s) = None then wd_router w else UnregisterAll (sid_of w) s (wd_router w))"
    and "sid_of w' = sid_of w" and "se_conn (wd_sess w' s) = None" and "se_state (wd_sess w' s) = SessSuspended"
    and "se_rooms (wd_sess w' s) = se_rooms (wd_sess w s)" and "se_topics (wd_sess w' s) = se_topics (wd_sess w s)"
    and "se_pendingAcks (wd_sess w' s) = se_pendingAcks (wd_sess w s)"
  unfolding w'_def sess_DetachConn_def Let_def
  by (simp_all add: sid_of_def fun_eq_iff)

text \<open>
  C12. Subscriptions survive a reconnect. When a session loses its connection and attaches another
  one, the router afterwards lists it in exactly the rooms and topics of its subscription set,
  and the memberships of every other session are as before. Between the two, while it is
  suspended, it is listed nowhere.
\<close>

theorem reconnect_restores_subscriptions:
  fixes c' :: cref
  assumes "se_conn (wd_sess w s) = Some c"
  defines "w1 \<equiv> sess_DetachConn s w" and "w2 \<equiv> snd (sess_AttachConn s c' (sess_DetachConn s w))"
  shows "idx_get (lr_rooms (wd_router w1)) k (sid_of w s) = None
    \<and> idx_get (lr_topics (wd_router w1)) k (sid_of w s) = None
    \<and> idx_get (lr_rooms (wd_router w2)) k i =
      (if i = sid_of w s then (if k \<in> set (gm_keys (se_rooms (wd_sess w s))) then Some s else None)
       else idx_get (lr_rooms (wd_router w)) k i)
    \<and> idx_get (lr_topics (wd_router w2)) k i =
      (if i = sid_of w s then (if k \<in> set (gm_keys (se_topics (wd_sess w s))) then Some s else None)
       else idx_get (lr_topics (wd_router w)) k i)"
proof -
  note d = DetachConn_parts [of s w]
  have r1: "wd_router (sess_DetachConn s w) = UnregisterAll (sid_of w) s (wd_router w)" using assms(1) d(1) by simp
  have r2: "wd_router w2 = lr.rejoin (sid_of w) (gm_keys (se_rooms (wd_sess w s))) (gm_keys (se_topics (wd_sess w s))) s
      (UnregisterAll (sid_of w) s (wd_router w))"
    unfolding w2_def AttachConn_parts(1) d(2) r1 d(5,6) lr.rejoin_def ..
  show ?thesis
    unfolding r2 lr.rejoin_after_unregister by (simp add: w1_def r1 lr.unreg_rooms lr.unreg_topics)
qed

theorem reconnect_restores_subscriptions_witness:
  "idx_get (lr_rooms (wd_router (snd (sess_AttachConn 0 7 (sess_DetachConn 0 sample_world))))) ''r'' ''aa'' = Some 0"
  using reconnect_restores_subscriptions [of sample_world 0 0 "''r''" 7 "''aa''"]
  by (simp add: sample_session_def sid_of_def gm_keys_def)

text \<open>
  \<open>Ack\<close> stops the retries of a message: it is no longer pending and no timer is armed for it; the
  other timers stay.
\<close>

theorem Ack_stops_retry:
  fixes j :: string
  assumes "scanner_ok (wd_scanner w)" and "hexid (sid_of w s)" and "dp_Acker (se_deps (wd_sess w s))" and "hexid i"
  defines "w' \<equiv> sess_Ack s j w"
  shows "gm_get (se_pendingAcks (wd_sess w' s)) j = None
       \<and> (armed (wd_scanner w') i j' \<longleftrightarrow> armed (wd_scanner w) i j' \<and> \<not> (i = sid_of w s \<and> j' = j))"
  using sc.Done_armed [OF assms(1,2,4), of j j'] assms(3)
  by (simp add: w'_def sess_Ack_def Let_def sid_of_def)

theorem Ack_stops_retry_witness:
  "\<not> armed (wd_scanner (sess_Ack 0 ''m1'' (acker_Track 0 3 sample_world))) ''aa'' ''m1''
   \<and> armed (wd_scanner (acker_Track 0 3 sample_world)) ''aa'' ''m1''"
proof -
  let ?w = "acker_Track 0 3 sample_world"
  have sid: "sid_of sample_world 0 = ''aa''" "sid_of ?w 0 = ''aa''" by (simp_all add: sid_of_def sample_session_def)
  have ok: "scanner_ok (wd_scanner ?w)" using sc.Track_inv [of "wd_scanner sample_world"] by (simp add: sid)
  have dep: "dp_Acker (se_deps (wd_sess ?w 0))" by (simp add: sample_session_def)
  show ?thesis
    using Ack_stops_retry [OF ok, of 0 "''aa''" "''m1''" "''m1''"] dep sid
      sc.Track_armed [of "wd_scanner sample_world" "''aa''" "''aa''" unixEpoch "sample_msg ''m1''" "''m1''"]
    by simp
qed

lemma sess_Close_parts:
  fixes kick :: "KickRequest option"
  assumes "\<not> se_once (wd_sess w s)" and "dp_Acker (se_deps (wd_sess w s))"
  defines "w' \<equiv> sess_Close s kick w"
  shows "se_state (wd_sess w' s) = SessClosed" and "se_once (wd_sess w' s)"
    and "se_conn (wd_sess w' s) = se_conn (wd_sess w s)" and "se_pendingAcks (wd_sess w' s) = []"
    and "wd_scanner w' = Scanner_CancelAll (sid_of w s) (wd_scanner w)" and "sid_of w' = sid_of w"
    and "lr_deviceConn (wd_router w') = gm_del (lr_deviceConn (wd_router w)) (se_deviceID (wd_sess w s))"
    and "wd_sessions w' = wd_sessions w" and "wd_userIndex w' = wd_userIndex w" and "wd_conns w' = wd_conns w"
  using assms
  by (simp_all add: sess_Close_def Let_def UnregisterSession_def UnregisterAll_def sid_of_def fun_eq_iff conn_Close_def
      split: option.split)

text \<open>
  Closing a session cancels every ACK timer the scanner has indexed for it, forgets its pending
  messages and its device, and happens once: a second \<open>Close\<close> changes nothing.
\<close>

theorem Close_cancels_timers:
  fixes kick :: "KickRequest option"
  assumes "scanner_ok (wd_scanner w)" and "hexid (sid_of w s)" and "\<not> se_once (wd_sess w s)"
    and "dp_Acker (se_deps (wd_sess w s))"
  defines "w' \<equiv> sess_Close s kick w"
  shows "se_state (wd_sess w' s) = SessClosed \<and> \<not> armed (wd_scanner w') (sid_of w s) j
       \<and> se_pendingAcks (wd_sess w' s) = []
       \<and> gm_get (lr_deviceConn (wd_router w')) (se_deviceID (wd_sess w s)) = None
       \<and> sess_Close s kick' w' = w'"
proof -
  note p = sess_Close_parts [OF assms(3,4), of kick, folded w'_def]
  have "\<not> armed (wd_scanner w') (sid_of w s) j"
    unfolding p(5) by (rule sc.nothing_armed_after_CancelAll [OF assms(1,2)])
  moreover have "sess_Close s kick' w' = w'" using p(2) by (simp add: sess_Close_def)
  ultimately show ?thesis using p by simp
qed

theorem Close_cancels_timers_witness:
  "\<not> armed (wd_scanner (sess_Close 0 None (acker_Track 0 3 sample_world))) ''aa'' ''m1''
   \<and> se_state (wd_sess (sess_Close 0 None (acker_Track 0 3 sample_world)) 0) = SessClosed"
proof -
  let ?w = "acker_Track 0 3 sample_world"
  have sid: "sid_of sample_world 0 = ''aa''" "sid_of ?w 0 = ''aa''" by (simp_all add: sid_of_def sample_session_def)
  have ok: "scanner_ok (wd_scanner ?w)" using sc.Track_inv [of "wd_scanner sample_world"] by (simp add: sid)
  show ?thesis
    using Close_cancels_timers [OF ok, of 0 None "''m1''"] sid by (simp add: sample_session_def)
qed

text \<open>
  A closed session is not closed for good. After \<open>Close\<close>, attaching a connection makes the
  session active again, and from then on \<open>Close\<close> has no effect, because its \<open>sync.Once\<close> is spent:
  the session stays active whatever it is told.
\<close>

theorem closed_session_reopens_and_cannot_be_closed:
  fixes c :: cref and kick :: "KickRequest option"
  assumes "\<not> se_once (wd_sess w s)" and "dp_Acker (se_deps (wd_sess w s))"
  defines "w2 \<equiv> snd (sess_AttachConn s c (sess_Close s kick w))"
  shows "sess_IsActive s w2 \<and> sess_Close s kick' w2 = w2"
proof -
  have "se_once (wd_sess w2 s)"
    unfolding w2_def AttachConn_parts(5) by (rule sess_Close_parts(2) [OF assms(1,2)])
  then show ?thesis by (simp add: sess_Close_def sess_IsActive_def w2_def AttachConn_parts(4))
qed

theorem closed_session_reopens_and_cannot_be_closed_witness:
  "sess_IsActive 0 (sess_Close 0 None (snd (sess_AttachConn 0 7 (sess_Close 0 None sample_world))))"
  using closed_session_reopens_and_cannot_be_closed [of sample_world 0 7 None None] by (simp add: sample_session_def)

lemma flush_pending_inactive:
  assumes "\<not> conn_IsActive (wd_conns w c)"
  shows "wd_conns (flush_pending s c k w) = wd_conns w"
  using assms
  by (simp add: flush_pending_def Let_def world_conn_Submit_inactive split: option.split)

lemma AttachConn_handshaking_conns:
  assumes "cn_state (wd_conns w c) = ConnHandshaking"
  shows "wd_conns (snd (sess_AttachConn s c w)) = wd_conns w"
proof -
  have "\<not> conn_IsActive (wd_conns v c) \<Longrightarrow> wd_conns (fold (flush_pending s c) ks v) = wd_conns v" for ks v
    by (induction ks arbitrary: v) (simp_all add: flush_pending_inactive)
  then show ?thesis using assms by (simp add: sess_AttachConn_def Let_def conn_IsActive_def)
qed

text \<open>
  The flush on reconnect delivers nothing. \<open>AttachConn\<close> runs while the new connection is still in
  the handshake, so that \<open>conn.Submit\<close> refuses every pending message and the connection's write
  queue is left as it was.
\<close>

theorem AttachConn_flush_delivers_nothing:
  assumes "cn_state (wd_conns w c) = ConnHandshaking"
  shows "wd_conns (snd (sess_AttachConn s c w)) = wd_conns w"
  by (rule AttachConn_handshaking_conns [OF assms])

theorem AttachConn_flush_delivers_nothing_witness:
  "(let w = sample_world\<lparr>wd_conns := (\<lambda>_. newConnection 0)\<rparr>
    in ch_buf (cn_writeCh (wd_conns (snd (sess_AttachConn 0 0 (record_pending 0 3 w))) 0)) = [])"
proof -
  let ?w = "record_pending 0 3 (sample_world\<lparr>wd_conns := (\<lambda>_. newConnection 0)\<rparr>)"
  have h: "cn_state (wd_conns ?w 0) = ConnHandshaking" by (simp add: newConnection_def)
  show ?thesis
    unfolding Let_def AttachConn_flush_delivers_nothing [OF h, of 0] by (simp add: newConnection_def make_chan_def)
qed

end
