(* ===== verification/Session_Registry.thy ===== *)
theory Session_Registry
  imports Session
begin

text \<open>
  \<open>gateway/internal/session/registry.go\<close>: the two indexes of sessions and the callback of the ACK
  scanner. \<open>crypto/sha256\<close> is the argument \<open>sha\<close>; \<open>hex.EncodeToString\<close> is written out. The body of
  \<open>gc\<close> is commented out in the source, so it is the identity.
\<close>

definition hex_char :: "8 word \<Rightarrow> char" where
  "hex_char n = (if n < 10 then char_of (48 + unat n) else char_of (87 + unat n))"

definition hex_EncodeToString :: "bytes \<Rightarrow> string" where
  "hex_EncodeToString bs = concat (map (\<lambda>b. [hex_char (drop_bit 4 b), hex_char (and b 15)]) bs)"

definition computeSessionID :: "(bytes \<Rightarrow> bytes) \<Rightarrow> string \<Rightarrow> string \<Rightarrow> string" where
  "computeSessionID sha userID deviceID =
     hex_EncodeToString (take 16 (sha (map of_char (userID @ '':'' @ deviceID))))"

definition lookup_user :: "string \<Rightarrow> string \<Rightarrow> world \<Rightarrow> sref option" where
  "lookup_user userID deviceID w = idx_get (wd_userIndex w) userID deviceID"

text \<open>
  The fast path under the read lock and the double check under the write lock look at the same
  map; the second look is a second call of \<open>lookup_user\<close>. \<open>deps\<close> are the registry's dependencies;
  the scanner is injected when there is one.
\<close>

definition reg_GetOrCreate ::
    "(bytes \<Rightarrow> bytes) \<Rightarrow> Deps \<Rightarrow> bool \<Rightarrow> string \<Rightarrow> string \<Rightarrow> string \<Rightarrow> string \<Rightarrow> string \<Rightarrow> world \<Rightarrow> (sref \<times> bool) \<times> world" where
  "reg_GetOrCreate sha regDeps hasScanner userID deviceID appID deviceType bizCode w =
     (let sessionID = computeSessionID sha userID deviceID
      in case lookup_user userID deviceID w of
           Some sess \<Rightarrow> ((sess, False), w)
         | None \<Rightarrow>
             (case lookup_user userID deviceID w of
                Some sess \<Rightarrow> ((sess, False), w)
              | None \<Rightarrow>
                  (let deps = (if hasScanner then regDeps\<lparr>dp_Acker := True\<rparr> else regDeps);
                       sess = wd_nextSess w
                   in ((sess, True),
                       w\<lparr>wd_sess := (wd_sess w)(sess := NewSession sessionID userID deviceID appID deviceType bizCode deps),
                         wd_nextSess := Suc sess,
                         wd_sessions := gm_set (wd_sessions w) sessionID sess,
                         wd_userIndex := idx_put (wd_userIndex w) userID deviceID sess\<rparr>))))"

text \<open>
  The two critical sections apart: between the first look, under the read lock, and the second
  section, under the write lock, other goroutines may have created the session. The definition
  above is the call that nobody interferes with. Whoever comes second finds the session of the
  first: of any number of callers that have all missed on the fast path, the first creates the session
  and every later one returns it.
\<close>

definition reg_create_locked ::
    "(bytes \<Rightarrow> bytes) \<Rightarrow> Deps \<Rightarrow> bool \<Rightarrow> string \<Rightarrow> string \<Rightarrow> string \<Rightarrow> string \<Rightarrow> string \<Rightarrow> world \<Rightarrow> (sref \<times> bool) \<times> world" where
  "reg_create_locked sha regDeps hasScanner userID deviceID appID deviceType bizCode w =
     (case lookup_user userID deviceID w of
        Some sess \<Rightarrow> ((sess, False), w)
      | None \<Rightarrow>
          (let sessionID = computeSessionID sha userID deviceID;
               deps = (if hasScanner then regDeps\<lparr>dp_Acker := True\<rparr> else regDeps);
               sess = wd_nextSess w
           in ((sess, True),
               w\<lparr>wd_sess := (wd_sess w)(sess := NewSession sessionID userID deviceID appID deviceType bizCode deps),
                 wd_nextSess := Suc sess,
                 wd_sessions := gm_set (wd_sessions w) sessionID sess,
                 wd_userIndex := idx_put (wd_userIndex w) userID deviceID sess\<rparr>)))"

lemma reg_GetOrCreate_sections:
  "reg_GetOrCreate sha regDeps hs u d a dt b w =
     (case lookup_user u d w of Some sess \<Rightarrow> ((sess, False), w) | None \<Rightarrow> reg_create_locked sha regDeps hs u d a dt b w)"
  by (simp add: reg_GetOrCreate_def reg_create_locked_def Let_def split: option.split)

lemma GetOrCreate_race:
  assumes "reg_create_locked sha regDeps hs u d a dt b w = ((s, new), w1)" and "lookup_user u d w2 = lookup_user u d w1"
  shows "reg_create_locked sha regDeps hs u d a' dt' b' w2 = ((s, False), w2)"
  using assms by (auto simp: reg_create_locked_def Let_def lookup_user_def split: option.splits)

definition reg_GetAllByUser :: "string \<Rightarrow> world \<Rightarrow> sref list option" where
  "reg_GetAllByUser userID w = map_option gm_vals (gm_get (wd_userIndex w) userID)"

definition reg_Count :: "world \<Rightarrow> nat" where
  "reg_Count w = length (wd_sessions w)"

definition reg_gc :: "world \<Rightarrow> world" where
  "reg_gc w = w"

text \<open>\<open>GCLoop\<close>: an event is a tick of the ticker or the end of the context.\<close>

fun reg_GCLoop :: "bool list \<Rightarrow> world \<Rightarrow> loop_result \<times> world" where
  "reg_GCLoop [] w = (LoopBlocked, w)"
| "reg_GCLoop (ctxDone # events) w = (if ctxDone then (LoopReturned, w) else reg_GCLoop events (reg_gc w))"

text \<open>No session is ever collected.\<close>

lemma GCLoop_collects_nothing: "snd (reg_GCLoop events w) = w"
  by (induction events) (simp_all add: reg_gc_def)

definition effective_maxRetries :: "Session \<Rightarrow> int" where
  "effective_maxRetries s = (if dp_MaxRetries (se_deps s) \<le> 0 then 5 else dp_MaxRetries (se_deps s))"

lemma effective_maxRetries_pending [simp]: "effective_maxRetries (x\<lparr>se_pendingAcks := p\<rparr>) = effective_maxRetries x"
  by (simp add: effective_maxRetries_def)

text \<open>\<open>hasScanner\<close> is \<open>sr.ackScanner != nil\<close>.\<close>

definition reg_handleAckTimeout :: "bool \<Rightarrow> string \<Rightarrow> string \<Rightarrow> (world, unit) go" where
  "reg_handleAckTimeout hasScanner sessID msgID w =
     (case gm_get (wd_sessions w) sessID of
        None \<Rightarrow> Ret () w
      | Some s \<Rightarrow>
          (case gm_get (se_pendingAcks (wd_sess w s)) msgID of
             None \<Rightarrow> Ret () w
           | Some entry0 \<Rightarrow>
               (let entry = entry0\<lparr>pn_retryCount := pn_retryCount entry0 + 1\<rparr>;
                    w1 = upd_sess s (\<lambda>x. x\<lparr>se_pendingAcks := gm_set (se_pendingAcks x) msgID entry\<rparr>) w;
                    msg = pn_msg entry
                in if pn_retryCount entry > effective_maxRetries (wd_sess w1 s) then
                     (let w2 = upd_sess s (\<lambda>x. x\<lparr>se_pendingAcks := gm_del (se_pendingAcks x) msgID\<rparr>) w1
                      in if dp_Offline (se_deps (wd_sess w2 s))
                            \<and> (case m_Delivery (msg_of w2 msg) of None \<Rightarrow> False | Some d \<Rightarrow> d_Offline d)
                         then Ret () (snd (offline_Store msg w2))
                         else Ret () w2)
                   else
                     (let w2 = upd_sess s (\<lambda>x. x\<lparr>se_pendingAcks := gm_set (se_pendingAcks x) msgID (entry\<lparr>pn_lastRetryAt := wd_now w1\<rparr>)\<rparr>) w1;
                          w3 = upd_msg msg (set_header ''x-retry-count'' (Itoa (pn_retryCount entry))) w2
                      in bindG (sess_Submit s msg)
                           (\<lambda>ok. if ok \<and> hasScanner then modG (acker_Track s msg) else retG ()) w3))))"

section \<open>The registry's indexes agree\<close>

text \<open>Every session reachable from an index was allocated and is where its own fields say.\<close>

definition registry_ok :: "(bytes \<Rightarrow> bytes) \<Rightarrow> world \<Rightarrow> bool" where
  "registry_ok sha w \<longleftrightarrow> gm_wf (wd_sessions w) \<and> idx_wf (wd_userIndex w)
     \<and> (\<forall>u d s. idx_get (wd_userIndex w) u d = Some s \<longrightarrow>
          s < wd_nextSess w \<and> se_userID (wd_sess w s) = u \<and> se_deviceID (wd_sess w s) = d
          \<and> se_sessionID (wd_sess w s) = computeSessionID sha u d)
     \<and> (\<forall>i s. gm_get (wd_sessions w) i = Some s \<longrightarrow>
          idx_get (wd_userIndex w) (se_userID (wd_sess w s)) (se_deviceID (wd_sess w s)) = Some s
          \<and> se_sessionID (wd_sess w s) = i)"

lemma hex_char_colon: "n < 16 \<Longrightarrow> hex_char n \<noteq> CHR '':''"
proof -
  assume "n < 16"
  then have "unat n < 16" by (simp add: word_less_nat_alt)
  moreover have "n < 10 \<longleftrightarrow> unat n < 10" by (simp add: word_less_nat_alt)
  ultimately show ?thesis by (auto simp: hex_char_def char_of_eq_iff take_bit_eq_mod)
qed

lemma nibbles_small: "drop_bit 4 (b :: 8 word) < 16" "and (b :: 8 word) 15 < 16"
proof -
  have "unat b < 2 ^ 8" using unsigned_less [of b, where 'a = nat] by simp
  then have "drop_bit 4 (unat b) < 16" and "take_bit 8 (unat b) = unat b"
    by (simp_all add: drop_bit_eq_div take_bit_nat_eq_self)
  then show "drop_bit 4 b < 16" by (simp add: word_less_nat_alt unsigned_drop_bit_eq)
  have "(15 :: 8 word) = mask 4" by (simp add: mask_eq_exp_minus_1)
  then have "and b 15 = take_bit 4 b" by (simp add: take_bit_eq_mask)
  then show "and b 15 < 16" using take_bit_nat_less_exp [of 4 "unat b"] by (simp add: word_less_nat_alt unsigned_take_bit_eq)
qed

lemma hexid_computeSessionID [simp]: "hexid (computeSessionID sha u d)"
proof -
  have ne: "CHR '':'' \<noteq> hex_char (drop_bit 4 b)" "CHR '':'' \<noteq> hex_char (and b 15)" for b :: "8 word"
    using hex_char_colon [OF nibbles_small(1), of b] hex_char_colon [OF nibbles_small(2), of b] by metis+
  have "CHR '':'' \<notin> set (hex_EncodeToString bs)" for bs
    by (induction bs) (simp_all add: hex_EncodeToString_def ne)
  then show ?thesis by (simp add: computeSessionID_def hexid_def)
qed

lemma GetOrCreate_cases:
  "reg_GetOrCreate sha rd hs u d a t b w =
     (case lookup_user u d w of
        Some s \<Rightarrow> ((s, False), w)
      | None \<Rightarrow>
          ((wd_nextSess w, True),
           w\<lparr>wd_sess := (wd_sess w)(wd_nextSess w := NewSession (computeSessionID sha u d) u d a t b
                (if hs then rd\<lparr>dp_Acker := True\<rparr> else rd)),
             wd_nextSess := Suc (wd_nextSess w),
             wd_sessions := gm_set (wd_sessions w) (computeSessionID sha u d) (wd_nextSess w),
             wd_userIndex := idx_put (wd_userIndex w) u d (wd_nextSess w)\<rparr>))"
  by (simp add: reg_GetOrCreate_def Let_def split: option.split)

lemma registry_ok_GetOrCreate:
  assumes ok: "registry_ok sha w" and r: "reg_GetOrCreate sha rd hs u d a t b w = ((s, new), w')"
  shows "registry_ok sha w'"
proof (cases "lookup_user u d w")
  case None
  have idx: "\<And>u d s. idx_get (wd_userIndex w) u d = Some s \<Longrightarrow>
      s < wd_nextSess w \<and> se_userID (wd_sess w s) = u \<and> se_deviceID (wd_sess w s) = d
      \<and> se_sessionID (wd_sess w s) = computeSessionID sha u d"
    and ses: "\<And>i s. gm_get (wd_sessions w) i = Some s \<Longrightarrow>
      idx_get (wd_userIndex w) (se_userID (wd_sess w s)) (se_deviceID (wd_sess w s)) = Some s \<and> se_sessionID (wd_sess w s) = i"
    using ok by (auto simp: registry_ok_def)
  have w': "w' = w\<lparr>wd_sess := (wd_sess w)(wd_nextSess w := NewSession (computeSessionID sha u d) u d a t b
                (if hs then rd\<lparr>dp_Acker := True\<rparr> else rd)),
             wd_nextSess := Suc (wd_nextSess w),
             wd_sessions := gm_set (wd_sessions w) (computeSessionID sha u d) (wd_nextSess w),
             wd_userIndex := idx_put (wd_userIndex w) u d (wd_nextSess w)\<rparr>"
    using r None by (auto simp: GetOrCreate_cases)
  have 1: "s' < wd_nextSess w' \<and> se_userID (wd_sess w' s') = u' \<and> se_deviceID (wd_sess w' s') = d'
      \<and> se_sessionID (wd_sess w' s') = computeSessionID sha u' d'"
    if "idx_get (wd_userIndex w') u' d' = Some s'" for u' d' s'
    using that idx [of u' d' s'] by (auto simp: w' NewSession_def less_Suc_eq split: if_splits)
  have 2: "idx_get (wd_userIndex w') (se_userID (wd_sess w' s')) (se_deviceID (wd_sess w' s')) = Some s' \<and> se_sessionID (wd_sess w' s') = i"
    if "gm_get (wd_sessions w') i = Some s'" for i s'
  proof (cases "i = computeSessionID sha u d")
    case True
    then show ?thesis using that by (simp add: w' NewSession_def)
  next
    case False
    then have old: "gm_get (wd_sessions w) i = Some s'" using that by (simp add: w')
    note o = ses [OF old]
    have "s' < wd_nextSess w" using idx o by blast
    moreover have "\<not> (se_userID (wd_sess w s') = u \<and> se_deviceID (wd_sess w s') = d)"
      using o None by (auto simp: lookup_user_def)
    ultimately show ?thesis using o by (auto simp: w')
  qed
  have "gm_wf (wd_sessions w')" "idx_wf (wd_userIndex w')" using ok by (simp_all add: registry_ok_def w')
  with 1 2 show ?thesis unfolding registry_ok_def by blast
next
  case (Some s0)
  then show ?thesis using r ok by (simp add: GetOrCreate_cases)
qed

section \<open>Properties\<close>



lemma ack_timeout_step:
  assumes s: "gm_get (wd_sessions w) i = Some s" "sid_of w s = i" "hexid i" "sharded_ok (sc_timer (wd_scanner w))"
    and e: "gm_get (se_pendingAcks (wd_sess w s)) j = Some e" "pn_retryCount e < effective_maxRetries (wd_sess w s)"
    and m: "needs_ack (msg_of w (pn_msg e))" "m_MsgId (msg_of w (pn_msg e)) = j"
    and c: "se_conn (wd_sess w s) = Some c" "conn_IsActive (wd_conns w c)" "conn_ok (wd_conns w c)"
      "length (ch_buf (cn_writeCh (wd_conns w c))) < WriteChannelSize" "dp_Acker (se_deps (wd_sess w s))"
  shows "\<exists>w' e'. reg_handleAckTimeout True i j w = Ret () w'
    \<and> gm_get (se_pendingAcks (wd_sess w' s)) j = Some e' \<and> pn_msg e' = pn_msg e \<and> pn_retryCount e' = 0
    \<and> armed (wd_scanner w') i j \<and> wd_storeCalls w' = wd_storeCalls w
    \<and> get_header (msg_of w' (pn_msg e)) ''x-retry-count'' = Itoa (pn_retryCount e + 1)
    \<and> ch_buf (cn_writeCh (wd_conns w' c)) = ch_buf (cn_writeCh (wd_conns w c)) @ [pn_msg e]
    \<and> wd_sessions w' = wd_sessions w \<and> sid_of w' s = i \<and> sharded_ok (sc_timer (wd_scanner w'))
    \<and> needs_ack (msg_of w' (pn_msg e)) \<and> m_MsgId (msg_of w' (pn_msg e)) = j
    \<and> se_conn (wd_sess w' s) = Some c \<and> conn_IsActive (wd_conns w' c) \<and> conn_ok (wd_conns w' c)
    \<and> dp_Acker (se_deps (wd_sess w' s))"
proof -
  let ?m = "pn_msg e" and ?n = "pn_retryCount e + 1"
  define w3 where "w3 = upd_msg ?m (set_header ''x-retry-count'' (Itoa ?n))
    (upd_sess s (\<lambda>x. x\<lparr>se_pendingAcks := gm_set (se_pendingAcks x) j (e\<lparr>pn_retryCount := ?n, pn_lastRetryAt := wd_now w\<rparr>)\<rparr>)
      (upd_sess s (\<lambda>x. x\<lparr>se_pendingAcks := gm_set (se_pendingAcks x) j (e\<lparr>pn_retryCount := ?n\<rparr>)\<rparr>) w))"
  have h: "reg_handleAckTimeout True i j w =
      bindG (sess_Submit s ?m) (\<lambda>ok. if ok then modG (acker_Track s ?m) else retG ()) w3"
    using s(1) e by (simp add: reg_handleAckTimeout_def Let_def w3_def cong: if_cong)
  have f3: "wd_conns w3 = wd_conns w" "wd_scanner w3 = wd_scanner w" "wd_storeCalls w3 = wd_storeCalls w"
      "se_conn (wd_sess w3 s) = Some c" "dp_Acker (se_deps (wd_sess w3 s))" "sid_of w3 s = i"
      "msg_of w3 ?m = set_header ''x-retry-count'' (Itoa ?n) (msg_of w ?m)"
    using c s by (simp_all add: w3_def sid_of_def)
  obtain b w4 where r: "world_conn_Submit c ?m w3 = (b, w4)" by (cases "world_conn_Submit c ?m w3")
  note f4 = world_conn_Submit_fields [OF r]
  note act = world_conn_Submit_active [OF _ _ r, unfolded f3(1), OF c(3,2)]
  have b: "b" using act(1) c(4) by simp
  let ?w5 = "upd_sess s (\<lambda>x. x\<lparr>se_lastDeliveredSeq := m_SeqId (msg_of w4 ?m)\<rparr>) w4"
  let ?w6 = "acker_Track s ?m (record_pending s ?m ?w5)"
  have na: "needs_ack (msg_of w4 ?m)" using m(1) f4(12) by (simp add: needs_ack_def f3(7))
  have sub: "sess_Submit s ?m w3 = Ret True ?w6"
    using sess_Submit_active [OF f3(4) _ r] c(2) b f3(1,5) na by (simp add: Let_def f4(2))
  have res: "reg_handleAckTimeout True i j w = Ret () (acker_Track s ?m ?w6)"
    by (simp add: h bindG_def sub modG_def)
  have sid: "sid_of w4 s = i" using sid_of_same [OF f4(2)] f3(6) by simp
  have id: "m_MsgId (msg_of w4 ?m) = j" using f4(13) m(2) by (simp add: f3(7))
  let ?s1 = "Scanner_Track (wd_now w4) (msg_of w4 ?m) i (wd_scanner w4)"
  have track: "sharded_ok (sc_timer (Scanner_Track t x i y))" if "sharded_ok (sc_timer y)" for t x y
    using Track_pending(1) [OF that] that by (cases "needs_ack x") (simp_all add: Scanner_Track_def)
  have ok1: "sharded_ok (sc_timer ?s1)" using track s(4) by (simp add: f4(4) f3(2))
  have sid6: "sid_of ?w6 s = i" using sid by (simp add: sid_of_def record_pending_def)
  have "armed (wd_scanner (acker_Track s ?m ?w6)) i j"
    using Track_armed [OF ok1 s(3) s(3)] na id by (simp add: sid sid6)
  moreover have "get_header (msg_of w4 ?m) ''x-retry-count'' = Itoa ?n"
    using f4(14) by (simp add: get_header_def f3(7) set_header_def)
  moreover have "sharded_ok (sc_timer (wd_scanner (acker_Track s ?m ?w6)))"
    using track [OF ok1] by (simp add: sid sid6)
  moreover have "se_conn (wd_sess w4 s) = Some c" "dp_Acker (se_deps (wd_sess w4 s))" "wd_sessions w4 = wd_sessions w"
    using f3(4,5) by (simp_all add: f4(2,7) w3_def)
  ultimately show ?thesis
    unfolding res using id act(2-4) b na sid by (simp add: f4(5) f3(3) record_pending_def sid_of_def)
qed

text \<open>
  A message that is never acknowledged is retried for ever. As long as the connection takes it,
  an ACK timeout resends the message and replaces its pending entry by a fresh one with retry
  count 0 and an armed timer, so the count never exceeds one, the header always reads 1 more than
  a count that was reset, and the branch that gives up and stores the message offline is never taken.
\<close>

theorem ack_timeout_resets_retry_count:
  assumes s: "gm_get (wd_sessions w) i = Some s" "sid_of w s = i" "hexid i" "scanner_ok (wd_scanner w)"
    and e: "gm_get (se_pendingAcks (wd_sess w s)) j = Some e" "pn_retryCount e < effective_maxRetries (wd_sess w s)"
    and m: "needs_ack (msg_of w (pn_msg e))" "m_MsgId (msg_of w (pn_msg e)) = j"
    and c: "se_conn (wd_sess w s) = Some c" "conn_IsActive (wd_conns w c)" "conn_ok (wd_conns w c)"
      "length (ch_buf (cn_writeCh (wd_conns w c))) < WriteChannelSize" "dp_Acker (se_deps (wd_sess w s))"
  shows "\<exists>w' e'. reg_handleAckTimeout True i j w = Ret () w'
    \<and> gm_get (se_pendingAcks (wd_sess w' s)) j = Some e' \<and> pn_msg e' = pn_msg e \<and> pn_retryCount e' = 0
    \<and> armed (wd_scanner w') i j \<and> wd_storeCalls w' = wd_storeCalls w
    \<and> get_header (msg_of w' (pn_msg e)) ''x-retry-count'' = Itoa (pn_retryCount e + 1)
    \<and> ch_buf (cn_writeCh (wd_conns w' c)) = ch_buf (cn_writeCh (wd_conns w c)) @ [pn_msg e]"
proof -
  have "sharded_ok (sc_timer (wd_scanner w))" using s(4) by (simp add: scanner_ok_def)
  from ack_timeout_step [OF s(1-3) this e m c] show ?thesis by blast
qed

text \<open>
  \<open>Scanner.handleTimeout\<close> with the registry's callback, which \<open>NewRegistry\<close> has set: after the callback
  the scanner removes the message from its index, also when the callback has tracked it again.
\<close>

definition drop_tracked :: "string \<Rightarrow> string \<Rightarrow> world \<Rightarrow> world" where
  "drop_tracked i j w = w\<lparr>wd_scanner := (wd_scanner w)\<lparr>sc_sessAcks := idx_drop (sc_sessAcks (wd_scanner w)) i j\<rparr>\<rparr>"

definition ack_timeout :: "string \<Rightarrow> string \<Rightarrow> (world, unit) go" where
  "ack_timeout i j = bindG (reg_handleAckTimeout True i j) (\<lambda>_. modG (drop_tracked i j))"

lemma drop_tracked_fields [simp]:
  "wd_sess (drop_tracked i j w) = wd_sess w" "wd_conns (drop_tracked i j w) = wd_conns w"
  "msg_of (drop_tracked i j w) = msg_of w" "sid_of (drop_tracked i j w) = sid_of w"
  "wd_sessions (drop_tracked i j w) = wd_sessions w" "wd_storeCalls (drop_tracked i j w) = wd_storeCalls w"
  "sc_timer (wd_scanner (drop_tracked i j w)) = sc_timer (wd_scanner w)"
  "armed (wd_scanner (drop_tracked i j w)) i' j' = armed (wd_scanner w) i' j'"
  by (simp_all add: drop_tracked_def msg_of_def sid_of_def armed_def fun_eq_iff)

lemma ack_timeout_is_handleTimeout:
  assumes "reg_handleAckTimeout True i j w = Ret () w'" and "sc_onTimeout (wd_scanner w)"
    and "tk_Payload task = \<lparr>tp_SessID = i, tp_MsgID = j\<rparr>"
  shows "ack_timeout i j w = Ret () (Scanner_handleTimeout wd_scanner (\<lambda>f w. w\<lparr>wd_scanner := f (wd_scanner w)\<rparr>)
     (\<lambda>_ _ _. w') task w)"
  using assms by (simp add: ack_timeout_def bindG_def modG_def drop_tracked_def Scanner_handleTimeout_def Let_def)

text \<open>Timeouts of one message, one after the other.\<close>

fun ack_timeouts :: "nat \<Rightarrow> string \<Rightarrow> string \<Rightarrow> (world, unit) go" where
  "ack_timeouts 0 i j w = Ret () w"
| "ack_timeouts (Suc n) i j w = bindG (ack_timeout i j) (\<lambda>_. ack_timeouts n i j) w"

lemma effective_maxRetries_pos: "0 < effective_maxRetries x"
  by (simp add: effective_maxRetries_def)

lemma ack_timeouts_repeat:
  assumes s: "gm_get (wd_sessions w) i = Some s" "sid_of w s = i" "hexid i" "sharded_ok (sc_timer (wd_scanner w))"
    and e: "gm_get (se_pendingAcks (wd_sess w s)) j = Some e" "pn_retryCount e < effective_maxRetries (wd_sess w s)"
    and m: "needs_ack (msg_of w (pn_msg e))" "m_MsgId (msg_of w (pn_msg e)) = j"
    and c: "se_conn (wd_sess w s) = Some c" "conn_IsActive (wd_conns w c)" "conn_ok (wd_conns w c)"
      "length (ch_buf (cn_writeCh (wd_conns w c))) + Suc n \<le> WriteChannelSize" "dp_Acker (se_deps (wd_sess w s))"
  shows "\<exists>w' e'. ack_timeouts (Suc n) i j w = Ret () w'
    \<and> ch_buf (cn_writeCh (wd_conns w' c)) = ch_buf (cn_writeCh (wd_conns w c)) @ replicate (Suc n) (pn_msg e)
    \<and> gm_get (se_pendingAcks (wd_sess w' s)) j = Some e' \<and> pn_msg e' = pn_msg e \<and> pn_retryCount e' = 0
    \<and> armed (wd_scanner w') i j \<and> wd_storeCalls w' = wd_storeCalls w"
  using assms
proof (induction n arbitrary: w e)
  case 0
  then have "length (ch_buf (cn_writeCh (wd_conns w c))) < WriteChannelSize" by simp
  from ack_timeout_step [OF "0.prems"(1-11) this "0.prems"(13)] obtain w1 e1 where
    w1: "reg_handleAckTimeout True i j w = Ret () w1" "gm_get (se_pendingAcks (wd_sess w1 s)) j = Some e1" "pn_msg e1 = pn_msg e"
      "pn_retryCount e1 = 0" "armed (wd_scanner w1) i j" "wd_storeCalls w1 = wd_storeCalls w"
      "ch_buf (cn_writeCh (wd_conns w1 c)) = ch_buf (cn_writeCh (wd_conns w c)) @ [pn_msg e]" by blast
  then have "ack_timeouts (Suc 0) i j w = Ret () (drop_tracked i j w1)"
    by (simp add: ack_timeout_def bindG_def modG_def)
  with w1 show ?case by (intro exI [of _ "drop_tracked i j w1"] exI [of _ e1]) simp
next
  case (Suc n)
  then have "length (ch_buf (cn_writeCh (wd_conns w c))) < WriteChannelSize" by simp
  from ack_timeout_step [OF Suc.prems(1-11) this Suc.prems(13)] obtain w0 e1 where
    w0: "reg_handleAckTimeout True i j w = Ret () w0" "gm_get (se_pendingAcks (wd_sess w0 s)) j = Some e1" "pn_msg e1 = pn_msg e"
      "pn_retryCount e1 = 0" "wd_storeCalls w0 = wd_storeCalls w"
      "ch_buf (cn_writeCh (wd_conns w0 c)) = ch_buf (cn_writeCh (wd_conns w c)) @ [pn_msg e]"
    and k: "wd_sessions w0 = wd_sessions w" "sid_of w0 s = i" "sharded_ok (sc_timer (wd_scanner w0))" "needs_ack (msg_of w0 (pn_msg e))"
      "m_MsgId (msg_of w0 (pn_msg e)) = j" "se_conn (wd_sess w0 s) = Some c" "conn_IsActive (wd_conns w0 c)" "conn_ok (wd_conns w0 c)"
      "dp_Acker (se_deps (wd_sess w0 s))" by blast
  let ?w1 = "drop_tracked i j w0"
  have t: "ack_timeout i j w = Ret () ?w1" using w0(1) by (simp add: ack_timeout_def bindG_def modG_def)
  have "length (ch_buf (cn_writeCh (wd_conns ?w1 c))) + Suc n \<le> WriteChannelSize" using Suc.prems(12) w0(6) by simp
  then obtain w' e' where "ack_timeouts (Suc n) i j ?w1 = Ret () w'"
    "ch_buf (cn_writeCh (wd_conns w' c)) = ch_buf (cn_writeCh (wd_conns ?w1 c)) @ replicate (Suc n) (pn_msg e1)"
    "gm_get (se_pendingAcks (wd_sess w' s)) j = Some e'" "pn_msg e' = pn_msg e1" "pn_retryCount e' = 0"
    "armed (wd_scanner w') i j" "wd_storeCalls w' = wd_storeCalls ?w1"
    using Suc.IH [of ?w1 e1] Suc.prems(1,3) k w0(2-4) effective_maxRetries_pos by auto
  moreover have "ack_timeouts (Suc (Suc n)) i j w = ack_timeouts (Suc n) i j ?w1"
    by (simp only: ack_timeouts.simps(2) [of "Suc n"] bindG_def t res.case)
  ultimately show ?case using w0 by (intro exI [of _ w'] exI [of _ e']) simp
qed

text \<open>
  C13. An unacknowledged message is sent again at every timeout, without limit. As long as the connection lives and its queue
  has room, after any number of timeouts the message has been queued once for each of them, it is still
  pending, with a retry count of zero, and its timer is armed; nothing is stored offline, whatever the
  configured number of retries.
\<close>

theorem unacknowledged_retried_without_limit:
  assumes s: "gm_get (wd_sessions w) i = Some s" "sid_of w s = i" "hexid i" "scanner_ok (wd_scanner w)"
    and e: "gm_get (se_pendingAcks (wd_sess w s)) j = Some e" "pn_retryCount e < effective_maxRetries (wd_sess w s)"
    and m: "needs_ack (msg_of w (pn_msg e))" "m_MsgId (msg_of w (pn_msg e)) = j"
    and c: "se_conn (wd_sess w s) = Some c" "conn_IsActive (wd_conns w c)" "conn_ok (wd_conns w c)"
      "length (ch_buf (cn_writeCh (wd_conns w c))) + Suc n \<le> WriteChannelSize" "dp_Acker (se_deps (wd_sess w s))"
  shows "\<exists>w' e'. ack_timeouts (Suc n) i j w = Ret () w'
    \<and> ch_buf (cn_writeCh (wd_conns w' c)) = ch_buf (cn_writeCh (wd_conns w c)) @ replicate (Suc n) (pn_msg e)
    \<and> gm_get (se_pendingAcks (wd_sess w' s)) j = Some e' \<and> pn_msg e' = pn_msg e \<and> pn_retryCount e' = 0
    \<and> armed (wd_scanner w') i j \<and> wd_storeCalls w' = wd_storeCalls w"
proof -
  have "sharded_ok (sc_timer (wd_scanner w))" using s(4) by (simp add: scanner_ok_def)
  from ack_timeouts_repeat [OF s(1-3) this e m c] show ?thesis .
qed

theorem ack_timeout_resets_retry_count_witness:
  "(let w = (record_pending 0 3 sample_world)\<lparr>wd_sessions := [(''aa'', 0)]\<rparr>
    in case reg_handleAckTimeout True ''aa'' ''m1'' w of
         Ret u w' \<Rightarrow> (\<exists>e'. gm_get (se_pendingAcks (wd_sess w' 0)) ''m1'' = Some e' \<and> pn_retryCount e' = 0)
                   \<and> armed (wd_scanner w') ''aa'' ''m1'' \<and> wd_storeCalls w' = []
       | Panic _ \<Rightarrow> False)"
proof -
  let ?w = "(record_pending 0 3 sample_world)\<lparr>wd_sessions := [(''aa'', 0)]\<rparr>"
  let ?e = "\<lparr>pn_msg = 3, pn_retryCount = 0, pn_firstSentAt = unixEpoch, pn_lastRetryAt = unixEpoch\<rparr>"
  have e: "gm_get (se_pendingAcks (wd_sess ?w 0)) ''m1'' = Some ?e" by simp
  have s: "gm_get (wd_sessions ?w) ''aa'' = Some 0" "sid_of ?w 0 = ''aa''" "scanner_ok (wd_scanner ?w)"
    "wd_storeCalls ?w = []" "se_conn (wd_sess ?w 0) = Some 0" "dp_Acker (se_deps (wd_sess ?w 0))"
    "effective_maxRetries (wd_sess ?w 0) = 5" "msg_of ?w 3 = sample_msg ''m1''" "wd_conns ?w 0 = sample_conn"
    by (simp_all add: gm_get_def sid_of_def record_pending_def sample_session_def effective_maxRetries_def msg_of_def)
       (simp add: sample_world_def upd_sess_def)
  show ?thesis
    using ack_timeout_resets_retry_count [OF s(1,2) hexid_aa s(3) e _ _ _ s(5)] s
    by (auto simp: WriteChannelSize_def Let_def)
qed

theorem unacknowledged_retried_without_limit_witness:
  "(let w = (record_pending 0 3 sample_world)\<lparr>wd_sessions := [(''aa'', 0)]\<rparr>
    in \<exists>w'. ack_timeouts 100 ''aa'' ''m1'' w = Ret () w' \<and> ch_buf (cn_writeCh (wd_conns w' 0)) = replicate 100 3)"
proof -
  let ?w = "(record_pending 0 3 sample_world)\<lparr>wd_sessions := [(''aa'', 0)]\<rparr>"
  let ?e = "\<lparr>pn_msg = 3, pn_retryCount = 0, pn_firstSentAt = unixEpoch, pn_lastRetryAt = unixEpoch\<rparr>"
  have e: "gm_get (se_pendingAcks (wd_sess ?w 0)) ''m1'' = Some ?e" by simp
  have s: "gm_get (wd_sessions ?w) ''aa'' = Some 0" "sid_of ?w 0 = ''aa''" "scanner_ok (wd_scanner ?w)"
    "se_conn (wd_sess ?w 0) = Some 0" "dp_Acker (se_deps (wd_sess ?w 0))"
    "effective_maxRetries (wd_sess ?w 0) = 5" "msg_of ?w 3 = sample_msg ''m1''" "wd_conns ?w 0 = sample_conn" "ch_buf (cn_writeCh sample_conn) = []"
    by (simp_all add: gm_get_def sid_of_def record_pending_def sample_session_def effective_maxRetries_def msg_of_def)
       (simp_all add: sample_world_def upd_sess_def)
  have n: "Suc 99 = 100" by simp
  show ?thesis
    using unacknowledged_retried_without_limit [OF s(1,2) hexid_aa s(3) e _ _ _ s(4), of 99, unfolded n] s
    by (auto simp: WriteChannelSize_def Let_def simp del: ack_timeouts.simps replicate_Suc)
qed

end
