(* ===== verification/Pipeline.thy ===== *)
theory Pipeline
  imports Session_Registry
begin

text \<open>
  \<open>gateway/internal/pipeline/pipeline.go\<close>: the middleware chain. \<open>Chain.Run\<close> keeps the index of the
  next stage in a variable that the closure \<open>run\<close> shares with every stage, so the index is part of
  the state a stage runs in. The nesting of \<open>run\<close> is bounded by the number of stages, because each
  call increments the index before it runs a stage; that bound is the fuel of \<open>chain_run\<close>, and
  running out of it is a panic that the theorems exclude.
\<close>

record BaseCtx =
  bc_TraceID :: string
  bc_Aborted :: bool
  bc_AbortReason :: string
  bc_ReceivedAt :: time

definition new_BaseCtx :: "time \<Rightarrow> BaseCtx" where
  "new_BaseCtx now = \<lparr>bc_TraceID = '''', bc_Aborted = False, bc_AbortReason = '''', bc_ReceivedAt = now\<rparr>"

definition Abort :: "string \<Rightarrow> 'x BaseCtx_scheme \<Rightarrow> 'x BaseCtx_scheme" where
  "Abort reason b = b\<lparr>bc_Aborted := True, bc_AbortReason := reason\<rparr>"

text \<open>
  The map \<open>Values\<close> of the context; \<open>None\<close> is the nil map, which \<open>Set\<close> replaces and \<open>Get\<close> reads as empty. No
  stage uses it, so it is kept beside the context.
\<close>

type_synonym 'v ctx_values = "(string, 'v) gomap option"

definition ctx_Set :: "string \<Rightarrow> 'v \<Rightarrow> 'v ctx_values \<Rightarrow> 'v ctx_values" where
  "ctx_Set key v vals = Some (gm_set (case vals of None \<Rightarrow> [] | Some m \<Rightarrow> m) key v)"

definition ctx_Get :: "string \<Rightarrow> 'v ctx_values \<Rightarrow> 'v option" where
  "ctx_Get key vals = (case vals of None \<Rightarrow> None | Some m \<Rightarrow> gm_get m key)"

lemma ctx_Get_Set: "ctx_Get k (ctx_Set key v vals) = (if k = key then Some v else ctx_Get k vals)"
  by (cases vals) (simp_all add: ctx_Get_def ctx_Set_def gm_get_def gm_set_def update_conv')

text \<open>The state of a running chain: the closure's index, the context object, the node.\<close>

record 'c pstate =
  ps_idx :: nat
  ps_ctx :: 'c
  ps_w :: world

type_synonym 'c stage = "('c pstate, unit) go \<Rightarrow> ('c pstate, unit) go"

primrec chain_run :: "nat \<Rightarrow> 'c stage list \<Rightarrow> ('c pstate, unit) go" where
  "chain_run 0 stages s = (if ps_idx s < length stages then Panic s else Ret () s)"
| "chain_run (Suc fuel) stages s =
     (if ps_idx s < length stages
      then (stages ! ps_idx s) (chain_run fuel stages) (s\<lparr>ps_idx := Suc (ps_idx s)\<rparr>)
      else Ret () s)"

definition Chain_Run :: "'c stage list \<Rightarrow> 'c \<Rightarrow> world \<Rightarrow> ('c pstate, unit) res" where
  "Chain_Run stages ctx w = chain_run (length stages) stages \<lparr>ps_idx = 0, ps_ctx = ctx, ps_w = w\<rparr>"

definition NewChain :: "'c stage list \<Rightarrow> 'c stage list" where
  "NewChain stages = stages"

definition Chain_Append :: "'c stage list \<Rightarrow> 'c stage list \<Rightarrow> 'c stage list" where
  "Chain_Append c stages = c @ stages"

section \<open>Building stages\<close>

definition on_w :: "(world, 'a) go \<Rightarrow> ('c pstate, 'a) go" where
  "on_w m s = (case m (ps_w s) of Ret a w \<Rightarrow> Ret a (s\<lparr>ps_w := w\<rparr>) | Panic w \<Rightarrow> Panic (s\<lparr>ps_w := w\<rparr>))"

definition mod_ctx :: "('c \<Rightarrow> 'c) \<Rightarrow> ('c pstate, unit) go" where
  "mod_ctx f = modG (\<lambda>s. s\<lparr>ps_ctx := f (ps_ctx s)\<rparr>)"

definition mod_w :: "(world \<Rightarrow> world) \<Rightarrow> ('c pstate, unit) go" where
  "mod_w f = modG (\<lambda>s. s\<lparr>ps_w := f (ps_w s)\<rparr>)"

text \<open>\<open>func(ctx, next) { defer func() { if recover() != nil { h } }(); next() }\<close>\<close>

definition recover_stage :: "('c pstate, unit) go \<Rightarrow> 'c stage" where
  "recover_stage h next = recoverG next h"

lemma chain_run_at:
  "ps_idx s = i \<Longrightarrow> i < length stages \<Longrightarrow>
     chain_run (Suc fuel) stages s = (stages ! i) (chain_run fuel stages) (s\<lparr>ps_idx := Suc i\<rparr>)"
  by simp

lemma chain_run_end: "length stages \<le> ps_idx s \<Longrightarrow> chain_run fuel stages s = Ret () s"
  by (cases fuel) auto

text \<open>
  If the first stage is the recovering one, a chain never panics, provided the handler does not.
\<close>

lemma Chain_Run_recovers:
  assumes "stages ! 0 = recover_stage h" and "stages \<noteq> []" and "\<And>s. \<not> panicked (h s)"
  shows "\<not> panicked (Chain_Run stages ctx w)"
proof -
  obtain n where n: "length stages = Suc n" using assms(2) by (cases stages) auto
  let ?s = "\<lparr>ps_idx = 0, ps_ctx = ctx, ps_w = w\<rparr>"
  have "Chain_Run stages ctx w = recoverG (chain_run n stages) h (?s\<lparr>ps_idx := 1\<rparr>)"
    using n assms(1) by (simp add: Chain_Run_def recover_stage_def)
  then show ?thesis using assms(3) by (simp add: recoverG_def split: res.split)
qed

end
