(* ===== verification/Uplink.thy ===== *)
theory Uplink
  imports Pipeline
begin

text \<open>
  \<open>gateway/internal/pipeline/uplink/stages.go\<close>: the chain a business message passes on its way from the
  client to the worker pool. The rate limiter is an argument (\<open>None\<close> is a nil limiter).

  \<open>UplinkCtx\<close> embeds \<open>BaseCtx\<close> and declares a field \<open>ReceivedAt\<close> of its own, so that \<open>ctx.ReceivedAt\<close>
  is that field and not the embedded one; \<open>ChainAdapter.Run\<close> fills only the embedded one.
\<close>

record UplinkCtx = BaseCtx +
  uc_Session :: sref
  uc_Conn :: cref
  uc_Message :: "mref option"
  uc_ReceivedAt :: time

type_synonym ustage = "UplinkCtx stage"
type_synonym ustate = "UplinkCtx pstate"

type_synonym RateLimiter = "string \<Rightarrow> string \<Rightarrow> bool"

definition error_reply :: "string \<Rightarrow> string option \<Rightarrow> int \<Rightarrow> string \<Rightarrow> Message" where
  "error_reply traceID ackID code text =
     (new_Message FrameType_ERROR)\<lparr>m_TraceId := Some traceID,
       m_Delivery := Some (empty_Delivery\<lparr>d_AckId := ackID\<rparr>), m_Body := Some (ErrorPayload code text)\<rparr>"

text \<open>\<open>ReplyError\<close> allocates a message and submits it; the result of \<open>Submit\<close> is ignored.\<close>

definition submit_new :: "cref \<Rightarrow> Message \<Rightarrow> world \<Rightarrow> world" where
  "submit_new c m w = (case new_msg m w of (r, w1) \<Rightarrow> snd (world_conn_Submit c r w1))"

definition ReplyError :: "int \<Rightarrow> string \<Rightarrow> (ustate, unit) go" where
  "ReplyError code text =
     modG (\<lambda>s. let c = ps_ctx s
               in s\<lparr>ps_w := submit_new (uc_Conn c)
                      (error_reply (bc_TraceID c) (map_option (\<lambda>m. m_MsgId (msg_of (ps_w s) m)) (uc_Message c)) code text)
                      (ps_w s)\<rparr>)"

definition uctx_Abort :: "string \<Rightarrow> (ustate, unit) go" where
  "uctx_Abort reason = mod_ctx (Abort reason)"

text \<open>The deferred function reads \<open>ctx.Message.MsgId\<close> for its log line.\<close>

definition RecoverStage_handler :: "(ustate, unit) go" where
  "RecoverStage_handler s =
     (case uc_Message (ps_ctx s) of
        None \<Rightarrow> Panic s
      | Some _ \<Rightarrow> thenG (ReplyError 5000 ''internal error'') (uctx_Abort ''panic'') s)"

definition RecoverStage :: ustage where
  "RecoverStage = recover_stage RecoverStage_handler"

definition ValidateStage :: ustage where
  "ValidateStage next s =
     (case uc_Message (ps_ctx s) of
        None \<Rightarrow> uctx_Abort ''nil message'' s
      | Some r \<Rightarrow>
          (let msg = msg_of (ps_w s) r
           in if m_MsgId msg = '''' then
                thenG (ReplyError 4001 ''msg_id is required'') (uctx_Abort ''missing msg_id'') s
              else if IsExpired (UnixMilli (wd_now (ps_w s))) (m_ExpireAt msg) then uctx_Abort ''expired'' s
              else if \<not> conn_IsActive (wd_conns (ps_w s) (uc_Conn (ps_ctx s))) then
                thenG (ReplyError 4010 ''connection not active'') (uctx_Abort ''not active'') s
              else next s))"

definition RateLimitStage :: "RateLimiter option \<Rightarrow> ustage" where
  "RateLimitStage limiter next s =
     (case limiter of
        None \<Rightarrow> next s
      | Some Allow \<Rightarrow>
          (case uc_Message (ps_ctx s) of
             None \<Rightarrow> Panic s
           | Some r \<Rightarrow>
               if \<not> Allow (se_userID (wd_sess (ps_w s) (uc_Session (ps_ctx s)))) (m_BizCode (msg_of (ps_w s) r)) then
                 thenG (ReplyError 4290 ''rate limit exceeded'') (uctx_Abort ''rate limited'') s
               else next s))"

text \<open>\<open>fmt.Sprintf("gw-%d-%s", time.Now().UnixNano(), msg.MsgId[:8])\<close>; the slice panics on a shorter string.\<close>

definition generated_trace :: "time \<Rightarrow> string \<Rightarrow> string" where
  "generated_trace now msgID = ''gw-'' @ Itoa (now - unixEpoch) @ ''-'' @ take 8 msgID"

definition TraceStage :: ustage where
  "TraceStage next s =
     (case uc_Message (ps_ctx s) of
        None \<Rightarrow> Panic s
      | Some r \<Rightarrow>
          (let msg = msg_of (ps_w s) r
           in case m_TraceId msg of
                None \<Rightarrow> Panic s
              | Some t \<Rightarrow>
                  if t = '''' then
                    if length (m_MsgId msg) < 8 then Panic s
                    else
                      (let t' = generated_trace (wd_now (ps_w s)) (m_MsgId msg)
                       in next (s\<lparr>ps_w := upd_msg r (\<lambda>m. m\<lparr>m_TraceId := Some t'\<rparr>) (ps_w s),
                                  ps_ctx := (ps_ctx s)\<lparr>bc_TraceID := t'\<rparr>\<rparr>))
                  else next (s\<lparr>ps_ctx := (ps_ctx s)\<lparr>bc_TraceID := t\<rparr>\<rparr>)))"

text \<open>The stage only logs after \<open>next\<close> has returned; the log reads \<open>ctx.Message\<close>.\<close>

definition MetricsStage :: ustage where
  "MetricsStage next =
     thenG next (\<lambda>s. case uc_Message (ps_ctx s) of None \<Rightarrow> Panic s | Some _ \<Rightarrow> Ret () s)"

definition upstream_error_text :: "upstream_error \<Rightarrow> string" where
  "upstream_error_text e =
     (case e of
        ErrUnknownBizCode \<Rightarrow> ''ErrUnknownBizCode''
      | ErrPoolFull \<Rightarrow> ''worker: pool channel full''
      | Empty_biz_code \<Rightarrow> ''session: empty biz_code'')"

definition enrich :: "Connection \<Rightarrow> UplinkCtx \<Rightarrow> Message \<Rightarrow> Message" where
  "enrich c ctx m =
     (let m1 = set_header ''x-trace-id'' (bc_TraceID ctx)
                 (set_header ''x-gw-recv-ts'' (Itoa (UnixMilli (uc_ReceivedAt ctx)))
                   (set_header ''x-device-type'' (cn_DeviceType c)
                     (set_header ''x-conn-id'' (cn_ConnID c) m)))
      in if m_From m1 = None
         then m1\<lparr>m_From := Some \<lparr>rt_Type = RouteTargetType_CONNECTION, rt_Key = m_BizCode m1 @ '':'' @ cn_UserID c\<rparr>\<rparr>
         else m1)"

definition SubmitStage :: ustage where
  "SubmitStage next s =
     (case uc_Message (ps_ctx s) of
        None \<Rightarrow> Panic s
      | Some r \<Rightarrow>
          (let ctx = ps_ctx s;
               s1 = s\<lparr>ps_w := upd_msg r (enrich (wd_conns (ps_w s) (uc_Conn ctx)) ctx) (ps_w s)\<rparr>
           in bindG (on_w (sess_SubmitUpstream (uc_Session ctx) r))
                (\<lambda>err. case err of
                         None \<Rightarrow> next
                       | Some e \<Rightarrow> thenG (ReplyError 5001 (''upstream unavailable: '' @ upstream_error_text e))
                                         (uctx_Abort ''submit failed'')) s1))"

definition BuildChain :: "RateLimiter option \<Rightarrow> ustage list" where
  "BuildChain limiter =
     NewChain [RecoverStage, ValidateStage, RateLimitStage limiter, TraceStage, MetricsStage, SubmitStage]"

text \<open>\<open>ReceivedAt\<close> of the outer struct keeps its zero value.\<close>

definition new_UplinkCtx :: "time \<Rightarrow> sref \<Rightarrow> cref \<Rightarrow> mref option \<Rightarrow> UplinkCtx" where
  "new_UplinkCtx now sess conn msg =
     \<lparr>bc_TraceID = '''', bc_Aborted = False, bc_AbortReason = '''', bc_ReceivedAt = now,
      uc_Session = sess, uc_Conn = conn, uc_Message = msg, uc_ReceivedAt = 0\<rparr>"

definition uplink_Run :: "RateLimiter option \<Rightarrow> sref \<Rightarrow> cref \<Rightarrow> mref option \<Rightarrow> world \<Rightarrow> (ustate, unit) res" where
  "uplink_Run limiter sess conn msg w =
     Chain_Run (BuildChain limiter) (new_UplinkCtx (wd_now w) sess conn msg) w"

section \<open>Running the chain\<close>

lemmas stage_defs = RecoverStage_def ValidateStage_def RateLimitStage_def TraceStage_def MetricsStage_def SubmitStage_def

lemma length_BuildChain [simp]: "length (BuildChain l) = 6"
  by (simp add: BuildChain_def NewChain_def)

lemma BuildChain_nth:
  "BuildChain l ! 0 = RecoverStage" "BuildChain l ! 1 = ValidateStage" "BuildChain l ! 2 = RateLimitStage l"
  "BuildChain l ! 3 = TraceStage" "BuildChain l ! 4 = MetricsStage" "BuildChain l ! 5 = SubmitStage"
  by (simp_all add: BuildChain_def NewChain_def)

text \<open>The chain is the nesting of its stages, each run with the index after its own.\<close>

lemma chain_step_Recover:
  "ps_idx s = 0 \<Longrightarrow> chain_run 6 (BuildChain l) s = RecoverStage (chain_run 5 (BuildChain l)) (s\<lparr>ps_idx := 1\<rparr>)"
  using chain_run_at [of s 0 "BuildChain l" 5] by (simp add: BuildChain_nth numeral_eq_Suc)

lemma chain_step_Validate:
  "ps_idx s = 1 \<Longrightarrow> chain_run 5 (BuildChain l) s = ValidateStage (chain_run 4 (BuildChain l)) (s\<lparr>ps_idx := 2\<rparr>)"
  using chain_run_at [of s 1 "BuildChain l" 4] by (simp add: BuildChain_def NewChain_def numeral_eq_Suc)

lemma chain_step_RateLimit:
  "ps_idx s = 2 \<Longrightarrow> chain_run 4 (BuildChain l) s = RateLimitStage l (chain_run 3 (BuildChain l)) (s\<lparr>ps_idx := 3\<rparr>)"
  using chain_run_at [of s 2 "BuildChain l" 3] by (simp add: BuildChain_def NewChain_def numeral_eq_Suc)

lemma chain_step_Trace:
  "ps_idx s = 3 \<Longrightarrow> chain_run 3 (BuildChain l) s = TraceStage (chain_run 2 (BuildChain l)) (s\<lparr>ps_idx := 4\<rparr>)"
  using chain_run_at [of s 3 "BuildChain l" 2] by (simp add: BuildChain_def NewChain_def numeral_eq_Suc)

lemma chain_step_Metrics:
  "ps_idx s = 4 \<Longrightarrow> chain_run 2 (BuildChain l) s = MetricsStage (chain_run 1 (BuildChain l)) (s\<lparr>ps_idx := 5\<rparr>)"
  using chain_run_at [of s 4 "BuildChain l" 1] by (simp add: BuildChain_def NewChain_def numeral_eq_Suc)

lemma chain_step_Submit:
  "ps_idx s = 5 \<Longrightarrow> chain_run 1 (BuildChain l) s = SubmitStage (chain_run 0 (BuildChain l)) (s\<lparr>ps_idx := 6\<rparr>)"
  using chain_run_at [of s 5 "BuildChain l" 0] by (simp add: BuildChain_def NewChain_def numeral_eq_Suc)

lemmas chain_unfold = chain_step_Recover chain_step_Validate chain_step_RateLimit chain_step_Trace chain_step_Metrics chain_step_Submit

section \<open>No stage loses the message\<close>

abbreviation message_kept :: "(ustate, 'a) go \<Rightarrow> bool" where
  "message_kept m \<equiv> \<forall>s. uc_Message (ps_ctx (res_state (m s))) = uc_Message (ps_ctx s)"

lemma kept_ReplyError [simp]: "uc_Message (ps_ctx (res_state (ReplyError c t s))) = uc_Message (ps_ctx s)"
  by (simp add: ReplyError_def modG_def Let_def)

lemma kept_Abort [simp]: "uc_Message (ps_ctx (res_state (uctx_Abort r s))) = uc_Message (ps_ctx s)"
  by (simp add: uctx_Abort_def mod_ctx_def modG_def Abort_def)

lemma total_ReplyError: "\<exists>s'. ReplyError c t s = Ret () s' \<and> ps_ctx s' = ps_ctx s"
  by (simp add: ReplyError_def modG_def Let_def)

lemma total_Abort: "\<exists>s'. uctx_Abort r s = Ret () s' \<and> ps_w s' = ps_w s \<and> uc_Message (ps_ctx s') = uc_Message (ps_ctx s)"
  by (simp add: uctx_Abort_def mod_ctx_def modG_def Abort_def)

lemma kept_reply_abort [simp]:
  "uc_Message (ps_ctx (res_state (thenG (ReplyError c t) (uctx_Abort r) s))) = uc_Message (ps_ctx s)"
  by (simp add: thenG_def bindG_def ReplyError_def uctx_Abort_def mod_ctx_def modG_def Abort_def Let_def)

lemma total_reply_abort: "\<not> panicked (thenG (ReplyError c t) (uctx_Abort r) s)"
  by (simp add: thenG_def bindG_def ReplyError_def uctx_Abort_def mod_ctx_def modG_def)

lemma kept_on_w: "ps_ctx (res_state (on_w m s)) = ps_ctx s"
  by (simp add: on_w_def split: res.split)

lemma kept_bindG:
  assumes "uc_Message (ps_ctx (res_state (m s))) = uc_Message (ps_ctx s)" and "\<And>x. message_kept (f x)"
  shows "uc_Message (ps_ctx (res_state (bindG m f s))) = uc_Message (ps_ctx s)"
  using assms by (cases "m s") (simp_all add: bindG_def)

lemma kept_stages:
  assumes n: "message_kept next"
  shows "message_kept (ValidateStage next)" "message_kept (RateLimitStage l next)" "message_kept (TraceStage next)"
    "message_kept (MetricsStage next)" "message_kept (SubmitStage next)" "message_kept (RecoverStage next)"
proof -
  have h: "message_kept RecoverStage_handler" by (simp add: RecoverStage_handler_def split: option.split)
  show "message_kept (ValidateStage next)" "message_kept (RateLimitStage l next)" "message_kept (TraceStage next)"
    using n by (simp_all add: ValidateStage_def RateLimitStage_def TraceStage_def Let_def split: option.split)
  show "message_kept (MetricsStage next)"
    unfolding MetricsStage_def thenG_def using n by (intro allI kept_bindG) (simp_all split: option.split)
  show "message_kept (RecoverStage next)"
  proof
    fix s
    have "uc_Message (ps_ctx (res_state (next s))) = uc_Message (ps_ctx s)" using n by blast
    then show "uc_Message (ps_ctx (res_state (RecoverStage next s))) = uc_Message (ps_ctx s)"
      using h by (cases "next s") (simp_all add: RecoverStage_def recover_stage_def recoverG_def)
  qed
  have k: "message_kept (case err of None \<Rightarrow> next | Some e \<Rightarrow> thenG (ReplyError 5001 (t e)) (uctx_Abort r))" for err t r
    using n by (simp split: option.split)
  show "message_kept (SubmitStage next)"
  proof
    fix s
    show "uc_Message (ps_ctx (res_state (SubmitStage next s))) = uc_Message (ps_ctx s)"
    proof (cases "uc_Message (ps_ctx s)")
      case (Some r)
      let ?s = "s\<lparr>ps_w := upd_msg r (enrich (wd_conns (ps_w s) (uc_Conn (ps_ctx s))) (ps_ctx s)) (ps_w s)\<rparr>"
      have "uc_Message (ps_ctx (res_state (SubmitStage next s))) = uc_Message (ps_ctx ?s)"
        unfolding SubmitStage_def Let_def Some option.case
        by (rule kept_bindG [OF _ k]) (simp add: kept_on_w)
      then show ?thesis by simp
    qed (simp add: SubmitStage_def)
  qed
qed

lemma kept_chain: "message_kept (chain_run fuel (BuildChain l))"
proof (induction fuel)
  case (Suc fuel)
  have "set (BuildChain l) = {RecoverStage, ValidateStage, RateLimitStage l, TraceStage, MetricsStage, SubmitStage}"
    by (simp add: BuildChain_def NewChain_def)
  then have "message_kept ((BuildChain l ! i) (chain_run fuel (BuildChain l)))" if "i < 6" for i
    using nth_mem [of i "BuildChain l"] that kept_stages [OF Suc] by auto
  then show ?case by simp
qed simp

section \<open>Properties\<close>

lemma uplink_never_panics_aux: "\<not> panicked (uplink_Run limiter sess conn msg w)"
proof -
  let ?s = "\<lparr>ps_idx = 0, ps_ctx = new_UplinkCtx (wd_now w) sess conn msg, ps_w = w\<rparr>"
  let ?next = "chain_run 5 (BuildChain limiter)"
  have r: "uplink_Run limiter sess conn msg w = recoverG ?next RecoverStage_handler (?s\<lparr>ps_idx := 1\<rparr>)"
    by (simp add: uplink_Run_def Chain_Run_def chain_step_Recover RecoverStage_def recover_stage_def)
  show ?thesis
  proof (cases "?next (?s\<lparr>ps_idx := 1\<rparr>)")
    case (Ret u s')
    then show ?thesis by (simp add: r recoverG_def)
  next
    case (Panic s')
    have "msg \<noteq> None"
    proof
      assume "msg = None"
      with Panic show False
        by (simp add: chain_step_Validate ValidateStage_def new_UplinkCtx_def uctx_Abort_def mod_ctx_def modG_def)
    qed
    moreover have "uc_Message (ps_ctx s') = msg"
      using kept_chain [of 5 limiter, THEN spec, of "?s\<lparr>ps_idx := 1\<rparr>"] Panic by (simp add: new_UplinkCtx_def)
    ultimately show ?thesis
      using Panic total_reply_abort by (auto simp: r recoverG_def RecoverStage_handler_def)
  qed
qed

text \<open>
  C25. No message can crash the read loop through the uplink chain: for every message (also none), in
  every state of the node and for every rate limiter, running the chain returns.
\<close>

theorem uplink_never_panics: "\<not> panicked (uplink_Run limiter sess conn msg w)"
  by (rule uplink_never_panics_aux)

definition limiter_allows :: "RateLimiter option \<Rightarrow> string \<Rightarrow> string \<Rightarrow> bool" where
  "limiter_allows l u b = (case l of None \<Rightarrow> True | Some Allow \<Rightarrow> Allow u b)"

definition effective_biz :: "sref \<Rightarrow> mref \<Rightarrow> world \<Rightarrow> string" where
  "effective_biz s r w = (if m_BizCode (msg_of w r) = '''' then se_BizCode (wd_sess w s) else m_BizCode (msg_of w r))"

definition traced_ctx :: "time \<Rightarrow> sref \<Rightarrow> cref \<Rightarrow> mref \<Rightarrow> string \<Rightarrow> UplinkCtx" where
  "traced_ctx now s c r t = (new_UplinkCtx now s c (Some r))\<lparr>bc_TraceID := t\<rparr>"

lemma enrich_fields [simp]:
  "m_BizCode (enrich c x m) = m_BizCode m" "m_MsgId (enrich c x m) = m_MsgId m" "m_TraceId (enrich c x m) = m_TraceId m"
  "m_Delivery (enrich c x m) = m_Delivery m"
  by (simp_all add: enrich_def Let_def)

text \<open>Up to the submission, a valid message with a trace identifier passes unchanged.\<close>

lemma uplink_reaches_submit:
  assumes "m_MsgId (msg_of w r) \<noteq> ''''" and "\<not> IsExpired (UnixMilli (wd_now w)) (m_ExpireAt (msg_of w r))"
    and "conn_IsActive (wd_conns w c)" and "m_TraceId (msg_of w r) = Some t" and "t \<noteq> ''''"
    and "limiter_allows l (se_userID (wd_sess w s)) (m_BizCode (msg_of w r))"
  shows "uplink_Run l s c (Some r) w =
    recoverG (MetricsStage (SubmitStage (chain_run 0 (BuildChain l)) \<circ> (\<lambda>s. s\<lparr>ps_idx := 6\<rparr>))) RecoverStage_handler
      \<lparr>ps_idx = 5, ps_ctx = traced_ctx (wd_now w) s c r t, ps_w = w\<rparr>"
proof -
  let ?x = "new_UplinkCtx (wd_now w) s c (Some r)"
  have x: "uc_Message ?x = Some r" "uc_Conn ?x = c" "uc_Session ?x = s" by (simp_all add: new_UplinkCtx_def)
  let ?s = "\<lambda>i. \<lparr>ps_idx = i, ps_ctx = ?x, ps_w = w\<rparr>"
  let ?C = "BuildChain l"
  have v: "ValidateStage (chain_run 4 ?C) (?s 2) = chain_run 4 ?C (?s 2)"
    using assms(1-3) x by (simp add: ValidateStage_def)
  have rl: "RateLimitStage l (chain_run 3 ?C) (?s 3) = chain_run 3 ?C (?s 3)"
    using assms(6) x by (cases l) (simp_all add: RateLimitStage_def limiter_allows_def)
  have tr: "TraceStage (chain_run 2 ?C) (?s 4) =
      chain_run 2 ?C \<lparr>ps_idx = 4, ps_ctx = traced_ctx (wd_now w) s c r t, ps_w = w\<rparr>"
    using assms(4,5) x by (simp add: TraceStage_def traced_ctx_def)
  have me: "chain_run 2 ?C \<lparr>ps_idx = 4, ps_ctx = traced_ctx (wd_now w) s c r t, ps_w = w\<rparr> =
      MetricsStage (SubmitStage (chain_run 0 ?C) \<circ> (\<lambda>s. s\<lparr>ps_idx := 6\<rparr>))
        \<lparr>ps_idx = 5, ps_ctx = traced_ctx (wd_now w) s c r t, ps_w = w\<rparr>"
    by (simp add: chain_step_Metrics MetricsStage_def thenG_def bindG_def chain_step_Submit del: One_nat_def chain_run.simps)
  have "chain_run 5 ?C (?s 1) = MetricsStage (SubmitStage (chain_run 0 ?C) \<circ> (\<lambda>s. s\<lparr>ps_idx := 6\<rparr>))
        \<lparr>ps_idx = 5, ps_ctx = traced_ctx (wd_now w) s c r t, ps_w = w\<rparr>"
    by (simp add: chain_step_Validate v chain_step_RateLimit rl chain_step_Trace tr me)
  moreover have "uplink_Run l s c (Some r) w = recoverG (chain_run 5 ?C) RecoverStage_handler (?s 1)"
    by (simp add: uplink_Run_def Chain_Run_def chain_step_Recover RecoverStage_def recover_stage_def)
  moreover have "MetricsStage (SubmitStage (chain_run 0 ?C) \<circ> (\<lambda>s. s\<lparr>ps_idx := 6\<rparr>)) \<lparr>ps_idx = 5, ps_ctx = traced_ctx (wd_now w) s c r t, ps_w = w\<rparr> = X
      \<Longrightarrow> recoverG (MetricsStage (SubmitStage (chain_run 0 ?C) \<circ> (\<lambda>s. s\<lparr>ps_idx := 6\<rparr>))) RecoverStage_handler
        \<lparr>ps_idx = 5, ps_ctx = traced_ctx (wd_now w) s c r t, ps_w = w\<rparr>
      = (case X of Ret a s' \<Rightarrow> Ret a s' | Panic s' \<Rightarrow> RecoverStage_handler s')" for X
    by (simp add: recoverG_def)
  ultimately show ?thesis by (simp add: recoverG_def)
qed

lemma uplink_accepted:
  assumes valid: "m_MsgId (msg_of w r) \<noteq> ''''" "\<not> IsExpired (UnixMilli (wd_now w)) (m_ExpireAt (msg_of w r))"
      "conn_IsActive (wd_conns w c)" "m_TraceId (msg_of w r) = Some t" "t \<noteq> ''''"
      "limiter_allows l (se_userID (wd_sess w s)) (m_BizCode (msg_of w r))"
    and biz: "effective_biz s r w \<noteq> ''''" "dp_Worker (se_deps (wd_sess w s))"
    and pool: "gm_get (wd_pools w) (effective_biz s r w) = Some p" "\<not> ch_closed (wp_upstreamCh p)"
      "length (ch_buf (wp_upstreamCh p)) < ch_cap (wp_upstreamCh p)"
  shows "uplink_Run l s c (Some r) w =
    Ret () \<lparr>ps_idx = 6, ps_ctx = traced_ctx (wd_now w) s c r t,
      ps_w = set_pool (effective_biz s r w)
        (p\<lparr>wp_upstreamCh := (wp_upstreamCh p)\<lparr>ch_buf := ch_buf (wp_upstreamCh p) @ [\<lparr>uj_Sess = s, uj_Msg = r\<rparr>]\<rparr>\<rparr>)
        (upd_msg r (enrich (wd_conns w c) (traced_ctx (wd_now w) s c r t)) w)\<rparr>"
proof -
  let ?x = "traced_ctx (wd_now w) s c r t"
  have x: "uc_Message ?x = Some r" "uc_Conn ?x = c" "uc_Session ?x = s" by (simp_all add: traced_ctx_def new_UplinkCtx_def)
  let ?w1 = "upd_msg r (enrich (wd_conns w c) ?x) w"
  have sub: "sess_SubmitUpstream s r ?w1 = Ret None (set_pool (effective_biz s r w)
        (p\<lparr>wp_upstreamCh := (wp_upstreamCh p)\<lparr>ch_buf := ch_buf (wp_upstreamCh p) @ [\<lparr>uj_Sess = s, uj_Msg = r\<rparr>]\<rparr>\<rparr>) ?w1)"
    using biz pool
    by (cases "m_BizCode (msg_of w r) = ''''")
       (simp_all add: sess_SubmitUpstream_def Let_def effective_biz_def mgr_SubmitUpstream_def on_pool_def
        pool_SubmitUpstream_def try_send_def)
  show ?thesis
    unfolding uplink_reaches_submit [OF valid]
    by (simp add: recoverG_def MetricsStage_def thenG_def bindG_def SubmitStage_def x Let_def on_w_def sub chain_run_end)
qed

text \<open>
  C24. A valid business message reaches its worker pool. If the message has an identifier, has not
  expired and carries a trace identifier, the connection is active, the limiter allows it and the
  pool of its business code (or of the session's, when it names none) has room, then the chain
  appends exactly one job for it to that pool, stamps the message with the connection's identity
  and the trace identifier, fills in the sender if it was missing, and sends the client nothing.
\<close>

theorem uplink_forwards_to_pool:
  assumes valid: "m_MsgId (msg_of w r) \<noteq> ''''" "\<not> IsExpired (UnixMilli (wd_now w)) (m_ExpireAt (msg_of w r))"
      "conn_IsActive (wd_conns w c)" "m_TraceId (msg_of w r) = Some t" "t \<noteq> ''''"
      "limiter_allows l (se_userID (wd_sess w s)) (m_BizCode (msg_of w r))"
    and biz: "effective_biz s r w \<noteq> ''''" "dp_Worker (se_deps (wd_sess w s))"
    and pool: "gm_get (wd_pools w) (effective_biz s r w) = Some p" "\<not> ch_closed (wp_upstreamCh p)"
      "length (ch_buf (wp_upstreamCh p)) < ch_cap (wp_upstreamCh p)"
  shows "\<exists>s' p'. uplink_Run l s c (Some r) w = Ret () s' \<and> \<not> bc_Aborted (ps_ctx s')
    \<and> gm_get (wd_pools (ps_w s')) (effective_biz s r w) = Some p'
    \<and> ch_buf (wp_upstreamCh p') = ch_buf (wp_upstreamCh p) @ [\<lparr>uj_Sess = s, uj_Msg = r\<rparr>]
    \<and> wd_conns (ps_w s') = wd_conns w
    \<and> get_header (msg_of (ps_w s') r) ''x-conn-id'' = cn_ConnID (wd_conns w c)
    \<and> get_header (msg_of (ps_w s') r) ''x-trace-id'' = t
    \<and> (m_From (msg_of w r) = None \<longrightarrow>
         m_From (msg_of (ps_w s') r) =
           Some \<lparr>rt_Type = RouteTargetType_CONNECTION, rt_Key = m_BizCode (msg_of w r) @ '':'' @ cn_UserID (wd_conns w c)\<rparr>)"
  unfolding uplink_accepted [OF valid biz pool]
  by (simp add: traced_ctx_def new_UplinkCtx_def set_pool_def msg_of_def upd_msg_def enrich_def Let_def)
     (simp add: get_header_def set_header_def)

text \<open>
  The receive timestamp that the gateway stamps on an upstream message is always the same
  constant, the millisecond value of Go's zero time: the stage reads the outer \<open>ReceivedAt\<close>, the
  adapter sets the embedded one.
\<close>

theorem uplink_recv_ts_is_zero_time:
  assumes valid: "m_MsgId (msg_of w r) \<noteq> ''''" "\<not> IsExpired (UnixMilli (wd_now w)) (m_ExpireAt (msg_of w r))"
      "conn_IsActive (wd_conns w c)" "m_TraceId (msg_of w r) = Some t" "t \<noteq> ''''"
      "limiter_allows l (se_userID (wd_sess w s)) (m_BizCode (msg_of w r))"
    and biz: "effective_biz s r w \<noteq> ''''" "dp_Worker (se_deps (wd_sess w s))"
    and pool: "gm_get (wd_pools w) (effective_biz s r w) = Some p" "\<not> ch_closed (wp_upstreamCh p)"
      "length (ch_buf (wp_upstreamCh p)) < ch_cap (wp_upstreamCh p)"
  shows "\<exists>s'. uplink_Run l s c (Some r) w = Ret () s'
    \<and> get_header (msg_of (ps_w s') r) ''x-gw-recv-ts'' = Itoa (- 62135596800000)"
proof -
  have z: "UnixMilli 0 = - 62135596800000" by (simp add: UnixMilli_def unixEpoch_def Second_def Millisecond_def)
  show ?thesis
    unfolding uplink_accepted [OF valid biz pool]
    by (simp add: traced_ctx_def new_UplinkCtx_def set_pool_def msg_of_def upd_msg_def enrich_def Let_def z)
       (simp add: get_header_def set_header_def)
qed

definition sample_uplink :: world where
  "sample_uplink = AddPool \<lparr>pc_BizCode = ''im'', pc_UpstreamWorkers = 1, pc_UpstreamChanCap = 1, pc_DownstreamWorkers = 1,
       pc_DownstreamChanCap = 1, pc_OfflineStore = True\<rparr>
     (upd_msg 3 (\<lambda>m. m\<lparr>m_TraceId := Some ''t''\<rparr>) sample_world)"

lemma sample_uplink_facts:
  "m_MsgId (msg_of sample_uplink 3) \<noteq> ''''" "\<not> IsExpired (UnixMilli (wd_now sample_uplink)) (m_ExpireAt (msg_of sample_uplink 3))"
  "conn_IsActive (wd_conns sample_uplink 0)" "m_TraceId (msg_of sample_uplink 3) = Some ''t''" "''t'' \<noteq> ''''"
  "limiter_allows None (se_userID (wd_sess sample_uplink 0)) (m_BizCode (msg_of sample_uplink 3))"
  "effective_biz 0 3 sample_uplink \<noteq> ''''" "dp_Worker (se_deps (wd_sess sample_uplink 0))"
  "\<exists>p. gm_get (wd_pools sample_uplink) (effective_biz 0 3 sample_uplink) = Some p \<and> \<not> ch_closed (wp_upstreamCh p)
     \<and> length (ch_buf (wp_upstreamCh p)) < ch_cap (wp_upstreamCh p)"
proof -
  have m: "msg_of sample_uplink 3 = (sample_msg ''m1'')\<lparr>m_TraceId := Some ''t''\<rparr>"
    "wd_sess sample_uplink 0 = sample_session" "wd_conns sample_uplink 0 = sample_conn"
    by (simp_all add: sample_uplink_def AddPool_def msg_of_def upd_msg_def sample_world_def)
  show "m_MsgId (msg_of sample_uplink 3) \<noteq> ''''" "conn_IsActive (wd_conns sample_uplink 0)"
    "m_TraceId (msg_of sample_uplink 3) = Some ''t''" "''t'' \<noteq> ''''" by (simp_all add: m)
  show "\<not> IsExpired (UnixMilli (wd_now sample_uplink)) (m_ExpireAt (msg_of sample_uplink 3))"
    by (simp add: m IsExpired_def sample_msg_def new_Message_def)
  show "limiter_allows None (se_userID (wd_sess sample_uplink 0)) (m_BizCode (msg_of sample_uplink 3))"
    by (simp add: limiter_allows_def)
  have b: "effective_biz 0 3 sample_uplink = ''im''"
    by (simp add: effective_biz_def m sample_msg_def new_Message_def sample_session_def)
  then show "effective_biz 0 3 sample_uplink \<noteq> ''''" by simp
  show "dp_Worker (se_deps (wd_sess sample_uplink 0))" by (simp add: m sample_session_def)
  show "\<exists>p. gm_get (wd_pools sample_uplink) (effective_biz 0 3 sample_uplink) = Some p \<and> \<not> ch_closed (wp_upstreamCh p)
     \<and> length (ch_buf (wp_upstreamCh p)) < ch_cap (wp_upstreamCh p)"
    unfolding b by (simp add: sample_uplink_def AddPool_def newWorkerPool_def make_chan_def)
qed

theorem uplink_forwards_to_pool_witness:
  "\<exists>s'. uplink_Run None 0 0 (Some 3) sample_uplink = Ret () s' \<and> \<not> bc_Aborted (ps_ctx s')
     \<and> get_header (msg_of (ps_w s') 3) ''x-trace-id'' = ''t''"
proof -
  note f = sample_uplink_facts
  obtain p where p: "gm_get (wd_pools sample_uplink) (effective_biz 0 3 sample_uplink) = Some p"
    "\<not> ch_closed (wp_upstreamCh p)" "length (ch_buf (wp_upstreamCh p)) < ch_cap (wp_upstreamCh p)" using f(9) by blast
  from uplink_forwards_to_pool [OF f(1-8) p] show ?thesis by blast
qed

theorem uplink_recv_ts_is_zero_time_witness:
  "\<exists>s'. uplink_Run None 0 0 (Some 3) sample_uplink = Ret () s'
     \<and> get_header (msg_of (ps_w s') 3) ''x-gw-recv-ts'' = Itoa (- 62135596800000)"
proof -
  note f = sample_uplink_facts
  obtain p where p: "gm_get (wd_pools sample_uplink) (effective_biz 0 3 sample_uplink) = Some p"
    "\<not> ch_closed (wp_upstreamCh p)" "length (ch_buf (wp_upstreamCh p)) < ch_cap (wp_upstreamCh p)" using f(9) by blast
  show ?thesis by (rule uplink_recv_ts_is_zero_time [OF f(1-8) p])
qed

text \<open>
  A client that sends a short message identifier without a trace identifier gets an internal
  error: cutting the identifier to eight characters panics, the recovery answers code 5000 and
  nothing is forwarded.
\<close>

theorem uplink_short_msgid_is_internal_error:
  assumes "m_MsgId (msg_of w r) \<noteq> ''''" and "length (m_MsgId (msg_of w r)) < 8"
    and "\<not> IsExpired (UnixMilli (wd_now w)) (m_ExpireAt (msg_of w r))"
    and "conn_IsActive (wd_conns w c)" and "m_TraceId (msg_of w r) = Some '''' \<or> m_TraceId (msg_of w r) = None"
    and "limiter_allows l (se_userID (wd_sess w s)) (m_BizCode (msg_of w r))"
  shows "\<exists>s'. uplink_Run l s c (Some r) w = Ret () s' \<and> bc_AbortReason (ps_ctx s') = ''panic''
    \<and> wd_pools (ps_w s') = wd_pools w
    \<and> ps_w s' = submit_new c (error_reply '''' (Some (m_MsgId (msg_of w r))) 5000 ''internal error'') w"
proof -
  let ?x = "new_UplinkCtx (wd_now w) s c (Some r)"
  have x: "uc_Message ?x = Some r" "uc_Conn ?x = c" "uc_Session ?x = s" "bc_TraceID ?x = ''''" by (simp_all add: new_UplinkCtx_def)
  let ?s = "\<lambda>i. \<lparr>ps_idx = i, ps_ctx = ?x, ps_w = w\<rparr>"
  let ?C = "BuildChain l"
  have v: "ValidateStage (chain_run 4 ?C) (?s 2) = chain_run 4 ?C (?s 2)"
    using assms(1,3,4) x by (simp add: ValidateStage_def)
  have rl: "RateLimitStage l (chain_run 3 ?C) (?s 3) = chain_run 3 ?C (?s 3)"
    using assms(6) x by (cases l) (simp_all add: RateLimitStage_def limiter_allows_def)
  have tr: "TraceStage (chain_run 2 ?C) (?s 4) = Panic (?s 4)"
    using assms(2,5) x by (auto simp: TraceStage_def Let_def)
  have "uplink_Run l s c (Some r) w = RecoverStage_handler (?s 4)"
    by (simp add: uplink_Run_def Chain_Run_def chain_step_Recover RecoverStage_def recover_stage_def recoverG_def
        chain_step_Validate v chain_step_RateLimit rl chain_step_Trace tr)
  moreover have "wd_pools (submit_new c m w) = wd_pools w" for m
    using world_conn_Submit_fields(9) [of c "mh_next (wd_heap w)" "snd (new_msg m w)"]
    by (simp add: submit_new_def split: prod.splits) (metis fst_conv new_msg_fields(1,8) prod.collapse snd_conv)
  ultimately show ?thesis
    by (simp add: RecoverStage_handler_def x thenG_def bindG_def ReplyError_def uctx_Abort_def mod_ctx_def modG_def Abort_def Let_def)
qed

theorem uplink_short_msgid_is_internal_error_witness:
  "\<exists>s'. uplink_Run None 0 0 (Some 3) sample_world = Ret () s' \<and> bc_AbortReason (ps_ctx s') = ''panic''"
proof -
  have m: "m_TraceId (sample_msg ''m1'') = None" "m_ExpireAt (sample_msg ''m1'') = 0"
    by (simp_all add: sample_msg_def new_Message_def)
  show ?thesis
    using uplink_short_msgid_is_internal_error [of sample_world 3 0 None 0] m
    by (auto simp: IsExpired_def limiter_allows_def)
qed

end
