(* ===== verification/Auth_Server.thy ===== *)
theory Auth_Server
  imports Session_Registry
begin

text \<open>
  \<open>auth/internal/server/server.go\<close>: the service that issues and validates tokens. The state is the
  \<open>sync.Map\<close> from tokens to their data. An HTTP handler is a function of the decoded request
  (\<open>None\<close> is a body that does not parse), the clock and, for \<open>handleToken\<close>, what \<open>rand.Read\<close>
  returns. An empty string fails \<open>binding:"required"\<close>.
\<close>

record TokenInfo =
  ti_Token :: string
  ti_UserID :: string
  ti_DeviceID :: string
  ti_AppID :: string
  ti_Gateway :: string
  ti_Protocol :: string
  ti_ExpireAt :: time
  ti_CreatedAt :: time

type_synonym AuthServer = "(string, TokenInfo) gomap"

record token_request =
  tq_DeviceID :: string
  tq_UserID :: string
  tq_AppID :: string

datatype token_response =
    TokenBadRequest
  | TokenInternalError
  | TokenOK string string string int int  \<comment> \<open>token, gateway, protocol, heartbeat, expire\_at\<close>

definition Hour :: int where
  "Hour = 3600 * Second"

definition generateToken :: "bytes option \<Rightarrow> string option" where
  "generateToken random = map_option hex_EncodeToString random"

definition handleToken :: "token_request option \<Rightarrow> bytes option \<Rightarrow> time \<Rightarrow> AuthServer \<Rightarrow> token_response \<times> AuthServer" where
  "handleToken body random now tokens =
     (case body of
        None \<Rightarrow> (TokenBadRequest, tokens)
      | Some req \<Rightarrow>
          if tq_DeviceID req = '''' \<or> tq_UserID req = '''' then (TokenBadRequest, tokens)
          else
            (case generateToken random of
               None \<Rightarrow> (TokenInternalError, tokens)
             | Some token \<Rightarrow>
                 (let expireAt = now + 24 * Hour;
                      info = \<lparr>ti_Token = token, ti_UserID = tq_UserID req, ti_DeviceID = tq_DeviceID req, ti_AppID = tq_AppID req,
                              ti_Gateway = ''127.0.0.1:8089'', ti_Protocol = ''tcp'', ti_ExpireAt = expireAt, ti_CreatedAt = now\<rparr>
                  in (TokenOK token (ti_Gateway info) (ti_Protocol info) 30 ((expireAt - unixEpoch) div Second),
                      gm_set tokens token info))))"

text \<open>The JSON answer of \<open>handleValidate\<close>; an absent field decodes to the zero value.\<close>

record AuthResponse =
  ar_Code :: int
  ar_Msg :: string
  ar_Valid :: bool
  ar_UserID :: string
  ar_DeviceID :: string

definition invalid_response :: "int \<Rightarrow> string \<Rightarrow> AuthResponse" where
  "invalid_response code msg = \<lparr>ar_Code = code, ar_Msg = msg, ar_Valid = False, ar_UserID = '''', ar_DeviceID = ''''\<rparr>"

definition handleValidate :: "string option \<Rightarrow> time \<Rightarrow> AuthServer \<Rightarrow> AuthResponse \<times> AuthServer" where
  "handleValidate body now tokens =
     (case body of
        None \<Rightarrow> (invalid_response (- 1) ''bad request'', tokens)
      | Some token \<Rightarrow>
          if token = '''' then (invalid_response (- 1) ''bad request'', tokens)
          else
            (case gm_get tokens token of
               None \<Rightarrow> (invalid_response 401 ''token not found'', tokens)
             | Some info \<Rightarrow>
                 if now > ti_ExpireAt info then (invalid_response 401 ''token expired'', gm_del tokens token)
                 else (\<lparr>ar_Code = 0, ar_Msg = ''ok'', ar_Valid = True, ar_UserID = ti_UserID info, ar_DeviceID = ti_DeviceID info\<rparr>, tokens)))"

text \<open>One tick of the cleaner: \<open>Range\<close> over the entries, deleting the expired ones.\<close>

definition cleanExpiredTokens_tick :: "time \<Rightarrow> AuthServer \<Rightarrow> AuthServer" where
  "cleanExpiredTokens_tick now tokens =
     fold (\<lambda>(key, info) m. if now > ti_ExpireAt info then gm_del m key else m) tokens tokens"

section \<open>Sequences of requests\<close>

datatype auth_op =
    IssueToken "token_request option" "bytes option" time
  | ValidateToken "string option" time
  | CleanTokens time

fun auth_step :: "auth_op \<Rightarrow> AuthServer \<Rightarrow> AuthServer" where
  "auth_step (IssueToken body random now) tokens = snd (handleToken body random now tokens)"
| "auth_step (ValidateToken body now) tokens = snd (handleValidate body now tokens)"
| "auth_step (CleanTokens now) tokens = cleanExpiredTokens_tick now tokens"

fun op_time :: "auth_op \<Rightarrow> time" where
  "op_time (IssueToken body random now) = now"
| "op_time (ValidateToken body now) = now"
| "op_time (CleanTokens now) = now"

definition issues :: "string \<Rightarrow> auth_op \<Rightarrow> bool" where
  "issues token x \<longleftrightarrow> (\<exists>body random now. x = IssueToken body random now \<and> generateToken random = Some token)"

section \<open>Lemmas\<close>

lemma clean_fold_get:
  "gm_get (fold (\<lambda>(key, info) m. if now > ti_ExpireAt info then gm_del m key else m) xs m) k =
     (if \<exists>info. (k, info) \<in> set xs \<and> now > ti_ExpireAt info then None else gm_get m k)"
  by (induction xs arbitrary: m) auto

lemma cleanExpiredTokens_get:
  assumes "gm_wf tokens"
  shows "gm_get (cleanExpiredTokens_tick now tokens) k =
    (case gm_get tokens k of None \<Rightarrow> None | Some info \<Rightarrow> if now > ti_ExpireAt info then None else Some info)"
proof -
  have "(k, info) \<in> set tokens \<longleftrightarrow> gm_get tokens k = Some info" for info
    using assms gm_get_mem gm_get_SomeD by metis
  then show ?thesis by (simp add: cleanExpiredTokens_tick_def clean_fold_get split: option.split)
qed

lemma clean_wf: "gm_wf tokens \<Longrightarrow> gm_wf (cleanExpiredTokens_tick now tokens)"
proof -
  have "gm_wf m \<Longrightarrow> gm_wf (fold (\<lambda>(key, info) m. if now > ti_ExpireAt info then gm_del m key else m) xs m)" for xs m
    by (induction xs arbitrary: m) auto
  then show "gm_wf tokens \<Longrightarrow> ?thesis" by (simp add: cleanExpiredTokens_tick_def)
qed

lemma auth_step_wf: "gm_wf tokens \<Longrightarrow> gm_wf (auth_step x tokens)"
  by (cases x) (auto simp: handleToken_def handleValidate_def Let_def clean_wf split: option.split)

text \<open>A step keeps a token that has not expired at the step's time, and no step revives one.\<close>

lemma auth_step_keeps:
  assumes "gm_wf tokens" and "gm_get tokens k = Some info" and "op_time x \<le> ti_ExpireAt info" and "\<not> issues k x"
  shows "gm_get (auth_step x tokens) k = Some info"
proof (cases x)
  case (IssueToken body random now)
  then show ?thesis
    using assms by (auto simp: handleToken_def Let_def issues_def split: option.split)
next
  case (ValidateToken body now)
  then show ?thesis using assms by (auto simp: handleValidate_def split: option.split)
next
  case (CleanTokens now)
  then show ?thesis using assms by (simp add: cleanExpiredTokens_get)
qed

lemma auth_step_no_revive:
  assumes "gm_wf tokens" and "\<not> issues k x" and "gm_get (auth_step x tokens) k = Some info"
  shows "gm_get tokens k = Some info"
proof (cases x)
  case (IssueToken body random now)
  then show ?thesis
    using assms by (auto simp: handleToken_def Let_def issues_def split: option.splits if_splits)
next
  case (ValidateToken body now)
  then show ?thesis using assms by (auto simp: handleValidate_def split: option.splits if_splits)
next
  case (CleanTokens now)
  then show ?thesis using assms by (auto simp: cleanExpiredTokens_get split: option.splits if_splits)
qed

lemma auth_run_keeps:
  assumes "gm_wf tokens" and "gm_get tokens k = Some info" and "\<forall>x\<in>set xs. op_time x \<le> ti_ExpireAt info \<and> \<not> issues k x"
  shows "gm_get (fold auth_step xs tokens) k = Some info"
  using assms by (induction xs arbitrary: tokens) (auto simp: auth_step_keeps auth_step_wf)

lemma auth_run_no_revive:
  assumes "gm_wf tokens" and "\<forall>x\<in>set xs. \<not> issues k x" and "gm_get (fold auth_step xs tokens) k = Some info'"
  shows "gm_get tokens k = Some info'"
  using assms
proof (induction xs arbitrary: tokens)
  case (Cons x xs)
  then have "gm_get (auth_step x tokens) k = Some info'" by (simp add: auth_step_wf)
  then show ?case using Cons.prems auth_step_no_revive by auto
qed simp

lemma handleToken_issued:
  assumes "handleToken (Some req) random now tokens = (TokenOK token g pr hb ex, tokens')"
  shows "generateToken random = Some token" and "tq_UserID req \<noteq> ''''" and "tq_DeviceID req \<noteq> ''''"
    and "\<exists>info. gm_get tokens' token = Some info \<and> ti_UserID info = tq_UserID req \<and> ti_DeviceID info = tq_DeviceID req
       \<and> ti_ExpireAt info = now + 24 * Hour"
    and "gm_wf tokens \<Longrightarrow> gm_wf tokens'"
  using assms by (auto simp: handleToken_def Let_def split: option.splits if_splits)

text \<open>
  What a validation of an issued token answers after any number of further requests and cleaner
  ticks: the identity it was issued for until 24 hours have passed, and a refusal afterwards.
\<close>

lemma issued_token_validates:
  assumes issue: "handleToken (Some req) random t0 tokens = (TokenOK token g pr hb ex, tokens')" and wf: "gm_wf tokens"
    and run: "\<forall>x\<in>set xs. op_time x \<le> now \<and> \<not> issues token x" and ne: "token \<noteq> ''''"
  shows "fst (handleValidate (Some token) now (fold auth_step xs tokens')) =
     (if now \<le> t0 + 24 * Hour
      then \<lparr>ar_Code = 0, ar_Msg = ''ok'', ar_Valid = True, ar_UserID = tq_UserID req, ar_DeviceID = tq_DeviceID req\<rparr>
      else invalid_response 401 (case gm_get (fold auth_step xs tokens') token of None \<Rightarrow> ''token not found'' | Some _ \<Rightarrow> ''token expired''))"
proof -
  from handleToken_issued [OF issue] wf obtain info where i: "gm_get tokens' token = Some info" "ti_UserID info = tq_UserID req"
    "ti_DeviceID info = tq_DeviceID req" "ti_ExpireAt info = t0 + 24 * Hour" and wf': "gm_wf tokens'" by blast
  show ?thesis
  proof (cases "now \<le> t0 + 24 * Hour")
    case True
    then have "\<forall>x\<in>set xs. op_time x \<le> ti_ExpireAt info \<and> \<not> issues token x" using run i(4) by auto
    from auth_run_keeps [OF wf' i(1) this] show ?thesis using True ne i by (simp add: handleValidate_def)
  next
    case False
    have "gm_get (fold auth_step xs tokens') token = Some info' \<Longrightarrow> info' = info" for info'
      using auth_run_no_revive [OF wf', of xs token info'] run i(1) by auto
    then show ?thesis using False ne i(4) by (auto simp: handleValidate_def split: option.split)
  qed
qed

end
