(* ===== verification/Handlers.thy ===== *)
theory Handlers
  imports Uplink Auth_Server
begin

text \<open>
  \<open>gateway/internal/access/handler\<close>: the table from frame types to handlers, the handlers, and the
  client of the authentication service. A handler runs in the goroutine that reads the connection,
  which has no recovery: a panic here ends the process.
\<close>

section \<open>The handlers\<close>

definition HeartbeatHandler_Handle :: "sref \<Rightarrow> cref \<Rightarrow> mref \<Rightarrow> (world, unit) go" where
  "HeartbeatHandler_Handle sess conn msg w =
     (if m_Type (msg_of w msg) \<noteq> FrameType_PING
      then Ret () (submit_new conn ((new_Message FrameType_ERROR)\<lparr>m_Body := Some (Text ''invalid message type'')\<rparr>) w)
      else Ret () (submit_new conn ((new_Message FrameType_PONG)\<lparr>m_Body := Some (Text ''pong'')\<rparr>) w))"

text \<open>\<open>msg.TraceContext\<close> is dereferenced without a check.\<close>

definition LogoutHandler_Handle :: "sref \<Rightarrow> cref \<Rightarrow> mref \<Rightarrow> (world, unit) go" where
  "LogoutHandler_Handle sess conn msg w =
     (case m_TraceId (msg_of w msg) of
        None \<Rightarrow> Panic w
      | Some t \<Rightarrow>
          (let resp = (new_Message FrameType_KICK)\<lparr>m_MsgId := m_MsgId (msg_of w msg), m_TraceId := Some t,
                         m_Body := Some (Raw [])\<rparr>;
               w1 = submit_new conn resp w
           in Ret () (sess_Close sess (Some \<lparr>kr_Code = 0, kr_Reason = ''client logout''\<rparr>) w1)))"

definition UpstreamHandler_Handle :: "RateLimiter option \<Rightarrow> sref \<Rightarrow> cref \<Rightarrow> mref \<Rightarrow> (world, unit) go" where
  "UpstreamHandler_Handle limiter sess conn msg w =
     (case uplink_Run limiter sess conn (Some msg) w of
        Ret _ s \<Rightarrow> Ret () (ps_w s)
      | Panic s \<Rightarrow> Panic (ps_w s))"

text \<open>The fallback that \<open>NewRegistry\<close> has commented out; \<open>num\<close> is the numeric value of a frame type.\<close>

definition replyError :: "cref \<Rightarrow> Message \<Rightarrow> int \<Rightarrow> string \<Rightarrow> world \<Rightarrow> world" where
  "replyError conn ref code text w =
     (let q = [CHR 0x22];
          body = ''{'' @ q @ ''code'' @ q @ '':'' @ Itoa code @ '','' @ q @ ''message'' @ q @ '':'' @ q @ text @ q @ ''}''
      in submit_new conn ((new_Message FrameType_ERROR)\<lparr>m_MsgId := m_MsgId ref, m_Body := Some (Text body)\<rparr>) w)"

definition defaultFallback :: "(FrameType \<Rightarrow> int) \<Rightarrow> sref \<Rightarrow> cref \<Rightarrow> mref \<Rightarrow> world \<Rightarrow> world" where
  "defaultFallback num sess conn msg w =
     replyError conn (msg_of w msg) 4002 (''unsupported signal type '' @ Itoa (num (m_Type (msg_of w msg)))) w"

section \<open>The registry\<close>

datatype MsgHandler = HeartbeatHandler | LogoutHandler | UpstreamHandler "RateLimiter option"

fun Handle :: "MsgHandler \<Rightarrow> sref \<Rightarrow> cref \<Rightarrow> mref \<Rightarrow> (world, unit) go" where
  "Handle HeartbeatHandler = HeartbeatHandler_Handle"
| "Handle LogoutHandler = LogoutHandler_Handle"
| "Handle (UpstreamHandler limiter) = UpstreamHandler_Handle limiter"

record ImplRegistry =
  ir_handlers :: "(FrameType, MsgHandler) gomap"
  ir_fallback :: "MsgHandler option"

definition NewRegistry :: ImplRegistry where
  "NewRegistry = \<lparr>ir_handlers = [], ir_fallback = None\<rparr>"

definition Register :: "FrameType \<Rightarrow> MsgHandler \<Rightarrow> ImplRegistry \<Rightarrow> ImplRegistry" where
  "Register msgType handler r = r\<lparr>ir_handlers := gm_set (ir_handlers r) msgType handler\<rparr>"

definition Build :: "RateLimiter option \<Rightarrow> ImplRegistry" where
  "Build limiter =
     Register FrameType_BUSINESS (UpstreamHandler limiter)
       (Register FrameType_KICK LogoutHandler (Register FrameType_PING HeartbeatHandler NewRegistry))"

text \<open>The result tells whether an error is returned.\<close>

definition Dispatch :: "ImplRegistry \<Rightarrow> sref \<Rightarrow> cref \<Rightarrow> mref \<Rightarrow> (world, bool) go" where
  "Dispatch r sess conn msg w =
     (case gm_get (ir_handlers r) (m_Type (msg_of w msg)) of
        None \<Rightarrow>
          (case ir_fallback r of
             None \<Rightarrow> Panic w
           | Some h \<Rightarrow> bindG (Handle h sess conn msg) (\<lambda>_. retG True) w)
      | Some h \<Rightarrow> bindG (Handle h sess conn msg) (\<lambda>_. retG False) w)"

section \<open>The authentication client\<close>

datatype http_outcome = PostFailed string | BadJSON string | Answer AuthResponse

datatype verify_error = CallAuthFailed string | DecodeFailed string | TokenInvalid string

text \<open>\<open>post url token\<close> is the HTTP exchange; the status code is not looked at.\<close>

definition validateToken :: "(string \<Rightarrow> string \<Rightarrow> http_outcome) \<Rightarrow> string \<Rightarrow> string \<Rightarrow> (verify_error, AuthResponse) result" where
  "validateToken post authAddr token =
     (case post (''http://'' @ authAddr @ ''/v1/auth/validate'') token of
        PostFailed e \<Rightarrow> Inl (CallAuthFailed e)
      | BadJSON e \<Rightarrow> Inl (DecodeFailed e)
      | Answer r \<Rightarrow> Inr r)"

definition Verify :: "(string \<Rightarrow> string \<Rightarrow> http_outcome) \<Rightarrow> string \<Rightarrow> string \<Rightarrow> (verify_error, string \<times> string) result" where
  "Verify post authAddr token =
     bindE (validateToken post authAddr token) (\<lambda>authResp.
       if \<not> ar_Valid authResp then Inl (TokenInvalid (ar_Msg authResp))
       else Inr (ar_UserID authResp, ar_DeviceID authResp))"

section \<open>Lemmas\<close>

lemma Build_handlers:
  "gm_get (ir_handlers (Build l)) t =
     (if t = FrameType_BUSINESS then Some (UpstreamHandler l)
      else if t = FrameType_KICK then Some LogoutHandler
      else if t = FrameType_PING then Some HeartbeatHandler else None)"
  "ir_fallback (Build l) = None"
  by (simp_all add: Build_def Register_def NewRegistry_def)

lemma submit_new_appends:
  assumes "conn_ok (wd_conns w c)" and "conn_IsActive (wd_conns w c)"
    and "length (ch_buf (cn_writeCh (wd_conns w c))) < WriteChannelSize"
  shows "\<exists>r. ch_buf (cn_writeCh (wd_conns (submit_new c m w) c)) = ch_buf (cn_writeCh (wd_conns w c)) @ [r]
      \<and> msg_of (submit_new c m w) r = m\<lparr>m_SeqId := cn_nextSendSeq (wd_conns w c) + 1\<rparr>"
    and "wd_sess (submit_new c m w) = wd_sess w" and "wd_pools (submit_new c m w) = wd_pools w"
    and "wd_router (submit_new c m w) = wd_router w"
    and "c' \<noteq> c \<Longrightarrow> wd_conns (submit_new c m w) c' = wd_conns w c'"
proof -
  obtain r w1 where n: "new_msg m w = (r, w1)" by (cases "new_msg m w")
  have w1: "w1 = snd (new_msg m w)" and r: "r = mh_next (wd_heap w)" using n new_msg_fields(1) [of m w] by simp_all
  obtain b w2 where s: "world_conn_Submit c r w1 = (b, w2)" by (cases "world_conn_Submit c r w1")
  have e: "submit_new c m w = w2" by (simp add: submit_new_def n s)
  have c: "wd_conns w1 = wd_conns w" "msg_of w1 r = m" "wd_sess w1 = wd_sess w" "wd_pools w1 = wd_pools w" "wd_router w1 = wd_router w"
    unfolding w1 r by simp_all
  note f = world_conn_Submit_fields [OF s] and a = world_conn_Submit_active [OF _ _ s, unfolded c(1), OF assms(1,2)]
  have "msg_of w2 r = m\<lparr>m_SeqId := cn_nextSendSeq (wd_conns w c) + 1\<rparr>"
    using s assms(2) c by (auto simp: world_conn_Submit_def conn_Submit_def Let_def msg_of_def split: if_splits send_result.splits)
  then show "\<exists>r. ch_buf (cn_writeCh (wd_conns (submit_new c m w) c)) = ch_buf (cn_writeCh (wd_conns w c)) @ [r]
      \<and> msg_of (submit_new c m w) r = m\<lparr>m_SeqId := cn_nextSendSeq (wd_conns w c) + 1\<rparr>"
    using a(1,2) assms(3) e by auto
  show "wd_sess (submit_new c m w) = wd_sess w" "wd_pools (submit_new c m w) = wd_pools w" "wd_router (submit_new c m w) = wd_router w"
    "c' \<noteq> c \<Longrightarrow> wd_conns (submit_new c m w) c' = wd_conns w c'"
    using e f c by simp_all
qed

section \<open>Properties\<close>

text \<open>
  A ping is answered with a pong: on an active connection whose write queue has room, dispatching
  a PING frame returns without error, appends one PONG frame to that connection's queue, numbered
  with the connection's next sequence number, and changes no session, pool, router entry or other
  connection.
\<close>

theorem ping_is_answered:
  assumes "m_Type (msg_of w m) = FrameType_PING" and "conn_ok (wd_conns w c)" and "conn_IsActive (wd_conns w c)"
    and "length (ch_buf (cn_writeCh (wd_conns w c))) < WriteChannelSize"
  shows "\<exists>w' r. Dispatch (Build l) s c m w = Ret False w'
    \<and> ch_buf (cn_writeCh (wd_conns w' c)) = ch_buf (cn_writeCh (wd_conns w c)) @ [r]
    \<and> m_Type (msg_of w' r) = FrameType_PONG \<and> m_SeqId (msg_of w' r) = cn_nextSendSeq (wd_conns w c) + 1
    \<and> wd_sess w' = wd_sess w \<and> wd_pools w' = wd_pools w \<and> wd_router w' = wd_router w
    \<and> (\<forall>c'. c' \<noteq> c \<longrightarrow> wd_conns w' c' = wd_conns w c')"
proof -
  let ?m = "(new_Message FrameType_PONG)\<lparr>m_Body := Some (Text ''pong'')\<rparr>"
  have "Dispatch (Build l) s c m w = Ret False (submit_new c ?m w)"
    using assms(1) by (simp add: Dispatch_def Build_handlers HeartbeatHandler_Handle_def bindG_def retG_def)
  then show ?thesis
    using submit_new_appends(1) [OF assms(2-4), of ?m] submit_new_appends(2-5) [where m = ?m, OF assms(2-4)]
    by (auto simp: new_Message_def)
qed

text \<open>
  Exactly these frames end the process, on whatever connection they arrive: a frame of any type
  other than PING, KICK and BUSINESS, for which no handler is registered while the fallback is nil, and
  a logout (KICK) frame without a trace context. A ping and a business frame never do.
\<close>

theorem unregistered_frame_type_panics:
  "panicked (Dispatch (Build l) s c m w) \<longleftrightarrow>
     m_Type (msg_of w m) \<notin> {FrameType_PING, FrameType_KICK, FrameType_BUSINESS}
     \<or> (m_Type (msg_of w m) = FrameType_KICK \<and> m_TraceId (msg_of w m) = None)"
proof -
  have "\<exists>a s'. uplink_Run l s c (Some m) w = Ret a s'"
    using uplink_never_panics_aux [of l s c "Some m" w] by (simp add: res_split_panicked)
  then show ?thesis
    by (auto simp: Dispatch_def Build_handlers bindG_def retG_def HeartbeatHandler_Handle_def LogoutHandler_Handle_def
        UpstreamHandler_Handle_def Let_def split: option.split)
qed

theorem ping_is_answered_witness:
  "\<exists>w' r. Dispatch (Build None) 0 0 3 (upd_msg 3 (\<lambda>m. m\<lparr>m_Type := FrameType_PING\<rparr>) sample_world) = Ret False w'
     \<and> ch_buf (cn_writeCh (wd_conns w' 0)) = [r] \<and> m_Type (msg_of w' r) = FrameType_PONG"
  using ping_is_answered [of "upd_msg 3 (\<lambda>m. m\<lparr>m_Type := FrameType_PING\<rparr>) sample_world" 3 0 None 0]
  by (auto simp: WriteChannelSize_def)

theorem unregistered_frame_type_panics_witness:
  "panicked (Dispatch (Build None) 0 0 3 (upd_msg 3 (\<lambda>m. m\<lparr>m_Type := FrameType_HANDSHAKE\<rparr>) sample_world))
   \<and> \<not> panicked (Dispatch (Build None) 0 0 3 (upd_msg 3 (\<lambda>m. m\<lparr>m_Type := FrameType_PING\<rparr>) sample_world))"
  using unregistered_frame_type_panics [of None 0 0 3 "upd_msg 3 (\<lambda>m. m\<lparr>m_Type := FrameType_HANDSHAKE\<rparr>) sample_world"]
    unregistered_frame_type_panics [of None 0 0 3 "upd_msg 3 (\<lambda>m. m\<lparr>m_Type := FrameType_PING\<rparr>) sample_world"]
  by simp

end
