(* ===== verification/Dist_Router.thy ===== *)
theory Dist_Router
  imports Connection
begin

text \<open>
  \<open>gateway/internal/router/distributed.go\<close>: the routes that tell other nodes where a user is. Redis is
  a service outside the tree: the client is a record of the commands the code issues, on a state of
  an unknown type, and \<open>redis_laws\<close> says what the code relies on. A pipeline either applies its
  commands in order or fails as a whole; \<open>fails\<close> is what \<open>Exec\<close> reports.
\<close>

definition RedisKeyExpireTime :: int where
  "RedisKeyExpireTime = 120 * Second"

definition GatewayRedis_User :: string where
  "GatewayRedis_User = ''gateway:user:''"

definition GatewayRedis_Device :: string where
  "GatewayRedis_Device = ''gateway:device:''"

definition GatewayRedis_Nodes :: string where
  "GatewayRedis_Nodes = ''gateway:nodes''"

record 'r redis =
  rd_Set :: "string \<Rightarrow> string \<Rightarrow> int \<Rightarrow> 'r \<Rightarrow> 'r"
  rd_Expire :: "string \<Rightarrow> int \<Rightarrow> 'r \<Rightarrow> 'r"
  rd_Del :: "string \<Rightarrow> 'r \<Rightarrow> 'r"
  rd_SAdd :: "string \<Rightarrow> string \<Rightarrow> 'r \<Rightarrow> 'r"
  rd_Get :: "string \<Rightarrow> 'r \<Rightarrow> string option"

record DistributedRouter =
  dr_gatewayAddr :: string

definition RegisterUser :: "'r redis \<Rightarrow> DistributedRouter \<Rightarrow> bool \<Rightarrow> string \<Rightarrow> string \<Rightarrow> 'r \<Rightarrow> bool \<times> 'r" where
  "RegisterUser R dr fails userID deviceID r =
     (if fails then (False, r)
      else (True, rd_SAdd R GatewayRedis_Nodes (dr_gatewayAddr dr)
                    (rd_Set R (GatewayRedis_Device @ deviceID) (dr_gatewayAddr dr) RedisKeyExpireTime
                      (rd_Set R (GatewayRedis_User @ userID) (dr_gatewayAddr dr) RedisKeyExpireTime r))))"

definition Refresh :: "'r redis \<Rightarrow> bool \<Rightarrow> string \<Rightarrow> string \<Rightarrow> 'r \<Rightarrow> bool \<times> 'r" where
  "Refresh R fails userID deviceID r =
     (if fails then (False, r)
      else (True, rd_Expire R (GatewayRedis_Device @ deviceID) RedisKeyExpireTime
                    (rd_Expire R (GatewayRedis_User @ userID) RedisKeyExpireTime r)))"

definition UnregisterUser :: "'r redis \<Rightarrow> bool \<Rightarrow> string \<Rightarrow> string \<Rightarrow> 'r \<Rightarrow> bool \<times> 'r" where
  "UnregisterUser R fails userID deviceID r =
     (if fails then (False, r)
      else (True, rd_Del R (GatewayRedis_Device @ deviceID) (rd_Del R (GatewayRedis_User @ userID) r)))"

definition GetNodeByUserID :: "'r redis \<Rightarrow> string \<Rightarrow> 'r \<Rightarrow> string option" where
  "GetNodeByUserID R userID r = rd_Get R (GatewayRedis_User @ userID) r"

definition GetNodeByDeviceID :: "'r redis \<Rightarrow> string \<Rightarrow> 'r \<Rightarrow> string option" where
  "GetNodeByDeviceID R deviceID r = rd_Get R (GatewayRedis_Device @ deviceID) r"

text \<open>What the documentation of the commands says, for reads within the time to live.\<close>

definition redis_laws :: "'r redis \<Rightarrow> bool" where
  "redis_laws R \<longleftrightarrow>
     (\<forall>k v ttl r k'. 0 < ttl \<longrightarrow> rd_Get R k' (rd_Set R k v ttl r) = (if k' = k then Some v else rd_Get R k' r))
   \<and> (\<forall>k r k'. rd_Get R k' (rd_Del R k r) = (if k' = k then None else rd_Get R k' r))
   \<and> (\<forall>k ttl r k'. 0 < ttl \<longrightarrow> rd_Get R k' (rd_Expire R k ttl r) = rd_Get R k' r)
   \<and> (\<forall>k v r k'. k' \<noteq> k \<longrightarrow> rd_Get R k' (rd_SAdd R k v r) = rd_Get R k' r)"

lemma redis_keys_distinct [simp]:
  "GatewayRedis_User @ u \<noteq> GatewayRedis_Device @ d" "GatewayRedis_Device @ d \<noteq> GatewayRedis_User @ u"
  "GatewayRedis_User @ u \<noteq> GatewayRedis_Nodes" "GatewayRedis_Device @ d \<noteq> GatewayRedis_Nodes"
  by (simp_all add: GatewayRedis_User_def GatewayRedis_Device_def GatewayRedis_Nodes_def)

lemma RedisKeyExpireTime_pos [simp]: "0 < RedisKeyExpireTime"
  by (simp add: RedisKeyExpireTime_def Second_def)

lemma RegisterUser_route:
  assumes "redis_laws R"
  shows "GetNodeByUserID R u (snd (RegisterUser R dr False userID deviceID r)) =
      (if u = userID then Some (dr_gatewayAddr dr) else GetNodeByUserID R u r)"
    and "GetNodeByDeviceID R d (snd (RegisterUser R dr False userID deviceID r)) =
      (if d = deviceID then Some (dr_gatewayAddr dr) else GetNodeByDeviceID R d r)"
  using assms by (simp_all add: RegisterUser_def GetNodeByUserID_def GetNodeByDeviceID_def redis_laws_def)

lemma UnregisterUser_route:
  assumes "redis_laws R"
  shows "GetNodeByUserID R u (snd (UnregisterUser R False userID deviceID r)) = (if u = userID then None else GetNodeByUserID R u r)"
    and "GetNodeByDeviceID R d (snd (UnregisterUser R False userID deviceID r)) = (if d = deviceID then None else GetNodeByDeviceID R d r)"
  using assms by (simp_all add: UnregisterUser_def GetNodeByUserID_def GetNodeByDeviceID_def redis_laws_def)

lemma Refresh_route:
  assumes "redis_laws R"
  shows "GetNodeByUserID R u (snd (Refresh R b userID deviceID r)) = GetNodeByUserID R u r"
  using assms by (simp add: Refresh_def GetNodeByUserID_def redis_laws_def)

text \<open>
  A user with two devices loses the route when one of them disconnects. After both devices have
  registered, the user's route leads to the node of the later one; unregistering either device
  deletes the user's route, although the route of the other device is still there.
\<close>

theorem unregister_drops_other_device_route:
  assumes "redis_laws R" and "d1 \<noteq> d2"
    and "r2 = snd (RegisterUser R drB False u d2 (snd (RegisterUser R drA False u d1 r)))"
  shows "GetNodeByUserID R u r2 = Some (dr_gatewayAddr drB)
    \<and> GetNodeByUserID R u (snd (UnregisterUser R False u d1 r2)) = None
    \<and> GetNodeByDeviceID R d2 (snd (UnregisterUser R False u d1 r2)) = Some (dr_gatewayAddr drB)"
  using assms by (simp add: RegisterUser_route UnregisterUser_route)

text \<open>A map from keys to values obeys the laws.\<close>

definition map_redis :: "(string \<rightharpoonup> string) redis" where
  "map_redis = \<lparr>rd_Set = (\<lambda>k v ttl r. r(k \<mapsto> v)), rd_Expire = (\<lambda>k ttl r. r), rd_Del = (\<lambda>k r. r(k := None)),
     rd_SAdd = (\<lambda>k v r. r), rd_Get = (\<lambda>k r. r k)\<rparr>"

lemma map_redis_laws: "redis_laws map_redis"
  by (simp add: redis_laws_def map_redis_def)

theorem unregister_drops_other_device_route_witness:
  "(let r = snd (RegisterUser map_redis \<lparr>dr_gatewayAddr = ''b''\<rparr> False ''u'' ''d2''
              (snd (RegisterUser map_redis \<lparr>dr_gatewayAddr = ''a''\<rparr> False ''u'' ''d1'' Map.empty)))
    in GetNodeByUserID map_redis ''u'' r = Some ''b''
     \<and> GetNodeByUserID map_redis ''u'' (snd (UnregisterUser map_redis False ''u'' ''d1'' r)) = None)"
  using unregister_drops_other_device_route [OF map_redis_laws, of "''d1''" "''d2''" _ "\<lparr>dr_gatewayAddr = ''b''\<rparr>" "''u''"
      "\<lparr>dr_gatewayAddr = ''a''\<rparr>" Map.empty, OF _ refl]
  by (simp add: Let_def)

end
