(* ===== verification/Downlink.thy ===== *)
theory Downlink
  imports Pipeline
begin

text \<open>
  \<open>gateway/internal/pipeline/downlink/stages.go\<close>: the chain that takes a message from the worker pool
  to the write queues of the sessions it is addressed to. The resolver is the node's local router;
  whether an offline store is configured is an argument of the chain. \<open>FilterStage\<close> reuses the slice
  that \<open>Resolve\<close> allocated for it, which nobody else reads, so that the aliasing is not visible.
\<close>

record FanOutResult =
  fo_Total :: nat
  fo_Sent :: nat
  fo_Dropped :: nat
  fo_Offline :: nat

record DownlinkCtx = BaseCtx +
  dc_Message :: "mref option"
  dc_TargetSessions :: "sref list"
  dc_FanOutResult :: FanOutResult

type_synonym dstate = "DownlinkCtx pstate"
type_synonym dstage = "DownlinkCtx stage"

definition zero_FanOutResult :: FanOutResult where
  "zero_FanOutResult = \<lparr>fo_Total = 0, fo_Sent = 0, fo_Dropped = 0, fo_Offline = 0\<rparr>"

definition new_DownlinkCtx :: "time \<Rightarrow> mref option \<Rightarrow> DownlinkCtx" where
  "new_DownlinkCtx now msg =
     \<lparr>bc_TraceID = '''', bc_Aborted = False, bc_AbortReason = '''', bc_ReceivedAt = now,
      dc_Message = msg, dc_TargetSessions = [], dc_FanOutResult = zero_FanOutResult\<rparr>"

definition dctx_Abort :: "string \<Rightarrow> (dstate, unit) go" where
  "dctx_Abort reason = mod_ctx (Abort reason)"

definition safeGetMsgID :: "world \<Rightarrow> mref option \<Rightarrow> string" where
  "safeGetMsgID w msg = (case msg of None \<Rightarrow> ''<nil>'' | Some r \<Rightarrow> m_MsgId (msg_of w r))"

definition dl_RecoverStage :: dstage where
  "dl_RecoverStage = recover_stage (dctx_Abort ''panic'')"

text \<open>The message is checked for nil; its \<open>TraceContext\<close> is not.\<close>

definition dl_ValidateStage :: dstage where
  "dl_ValidateStage next s =
     (case dc_Message (ps_ctx s) of
        None \<Rightarrow> dctx_Abort ''nil message'' s
      | Some r \<Rightarrow>
          (let msg = msg_of (ps_w s) r
           in case m_To msg of
                None \<Rightarrow> dctx_Abort ''empty To'' s
              | Some _ \<Rightarrow>
                  if IsExpired (UnixMilli (wd_now (ps_w s))) (m_ExpireAt msg) then dctx_Abort ''expired'' s
                  else
                    (case m_TraceId msg of
                       None \<Rightarrow> Panic s
                     | Some t \<Rightarrow> next (s\<lparr>ps_ctx := (ps_ctx s)\<lparr>bc_TraceID := t\<rparr>\<rparr>))))"

definition RouteStage :: dstage where
  "RouteStage next s =
     (case dc_Message (ps_ctx s) of
        None \<Rightarrow> Panic s
      | Some r \<Rightarrow>
          (case m_To (msg_of (ps_w s) r) of
             None \<Rightarrow> Panic s
           | Some to \<Rightarrow>
               (case Resolve (rt_Key to) (wd_router (ps_w s)) of
                  None \<Rightarrow>
                    next (s\<lparr>ps_ctx := (ps_ctx s)\<lparr>dc_FanOutResult := (dc_FanOutResult (ps_ctx s))\<lparr>fo_Offline := 1\<rparr>,
                                                dc_TargetSessions := []\<rparr>\<rparr>)
                | Some sessions \<Rightarrow> next (s\<lparr>ps_ctx := (ps_ctx s)\<lparr>dc_TargetSessions := sessions\<rparr>\<rparr>))))"

definition filter_targets :: "world \<Rightarrow> string \<Rightarrow> sref list \<Rightarrow> sref list" where
  "filter_targets w excludeID sessions =
     filter (\<lambda>s. sess_IsActive s w \<and> \<not> (excludeID \<noteq> '''' \<and> sid_of w s = excludeID)) sessions"

definition FilterStage :: dstage where
  "FilterStage next s =
     (if dc_TargetSessions (ps_ctx s) = [] then next s
      else
        (case dc_Message (ps_ctx s) of
           None \<Rightarrow> Panic s
         | Some r \<Rightarrow>
             next (s\<lparr>ps_ctx := (ps_ctx s)\<lparr>dc_TargetSessions :=
               filter_targets (ps_w s) (get_header (msg_of (ps_w s) r) ''x-exclude-conn'') (dc_TargetSessions (ps_ctx s))\<rparr>\<rparr>)))"

text \<open>
  The loop over the targets. After a refused submission \<open>msg.Delivery.Offline\<close> is read without a nil
  check; the message is stored for the first three refusals.
\<close>

fun fanout_loop :: "bool \<Rightarrow> mref \<Rightarrow> sref list \<Rightarrow> FanOutResult \<Rightarrow> (world, FanOutResult) go" where
  "fanout_loop store msg [] result w = Ret result w"
| "fanout_loop store msg (sess # rest) result w =
     bindG (sess_Submit sess msg)
       (\<lambda>ok w1.
          if ok then fanout_loop store msg rest (result\<lparr>fo_Sent := Suc (fo_Sent result)\<rparr>) w1
          else
            (let result' = result\<lparr>fo_Dropped := Suc (fo_Dropped result)\<rparr>
             in case m_Delivery (msg_of w1 msg) of
                  None \<Rightarrow> Panic w1
                | Some d \<Rightarrow>
                    fanout_loop store msg rest result'
                      (if d_Offline d \<and> store \<and> fo_Dropped result' \<le> 3 then snd (offline_Store msg w1) else w1)))
       w"

definition FanOutStage :: "bool \<Rightarrow> dstage" where
  "FanOutStage store next s =
     (case dc_Message (ps_ctx s) of
        None \<Rightarrow> Panic s
      | Some r \<Rightarrow>
          if fo_Offline (dc_FanOutResult (ps_ctx s)) > 0 then
            (case m_Delivery (msg_of (ps_w s) r) of
               None \<Rightarrow> Panic s
             | Some d \<Rightarrow>
                 next (if d_Offline d \<and> d_Qos d \<ge> QosClass_AT_LEAST_ONCE \<and> store
                       then s\<lparr>ps_w := snd (offline_Store r (ps_w s))\<rparr> else s))
          else
            bindG (on_w (fanout_loop store r (dc_TargetSessions (ps_ctx s))
                           (zero_FanOutResult\<lparr>fo_Total := length (dc_TargetSessions (ps_ctx s))\<rparr>)))
              (\<lambda>result s1. next (s1\<lparr>ps_ctx := (ps_ctx s1)\<lparr>dc_FanOutResult := result\<rparr>\<rparr>)) s)"

text \<open>After \<open>next\<close> the stage logs fields of the message.\<close>

definition dl_MetricsStage :: dstage where
  "dl_MetricsStage next =
     thenG next (\<lambda>s. if fo_Total (dc_FanOutResult (ps_ctx s)) > 0 \<or> fo_Offline (dc_FanOutResult (ps_ctx s)) > 0
                     then (case dc_Message (ps_ctx s) of None \<Rightarrow> Panic s | Some _ \<Rightarrow> Ret () s)
                     else Ret () s)"

definition dl_BuildChain :: "bool \<Rightarrow> dstage list" where
  "dl_BuildChain store =
     NewChain [dl_RecoverStage, dl_ValidateStage, RouteStage, FilterStage, FanOutStage store, dl_MetricsStage]"

definition downlink_Run :: "bool \<Rightarrow> mref option \<Rightarrow> world \<Rightarrow> (dstate, unit) res" where
  "downlink_Run store msg w = Chain_Run (dl_BuildChain store) (new_DownlinkCtx (wd_now w) msg) w"

section \<open>Running the chain\<close>

lemma length_dl_BuildChain [simp]: "length (dl_BuildChain b) = 6"
  by (simp add: dl_BuildChain_def NewChain_def)

lemma dl_chain_steps:
  "ps_idx s = 0 \<Longrightarrow> chain_run 6 (dl_BuildChain b) s = dl_RecoverStage (chain_run 5 (dl_BuildChain b)) (s\<lparr>ps_idx := 1\<rparr>)"
  "ps_idx s = 1 \<Longrightarrow> chain_run 5 (dl_BuildChain b) s = dl_ValidateStage (chain_run 4 (dl_BuildChain b)) (s\<lparr>ps_idx := 2\<rparr>)"
  "ps_idx s = 2 \<Longrightarrow> chain_run 4 (dl_BuildChain b) s = RouteStage (chain_run 3 (dl_BuildChain b)) (s\<lparr>ps_idx := 3\<rparr>)"
  "ps_idx s = 3 \<Longrightarrow> chain_run 3 (dl_BuildChain b) s = FilterStage (chain_run 2 (dl_BuildChain b)) (s\<lparr>ps_idx := 4\<rparr>)"
  "ps_idx s = 4 \<Longrightarrow> chain_run 2 (dl_BuildChain b) s = FanOutStage b (chain_run 1 (dl_BuildChain b)) (s\<lparr>ps_idx := 5\<rparr>)"
  "ps_idx s = 5 \<Longrightarrow> chain_run 1 (dl_BuildChain b) s = dl_MetricsStage (chain_run 0 (dl_BuildChain b)) (s\<lparr>ps_idx := 6\<rparr>)"
  using chain_run_at [of s 0 "dl_BuildChain b" 5] chain_run_at [of s 1 "dl_BuildChain b" 4]
    chain_run_at [of s 2 "dl_BuildChain b" 3] chain_run_at [of s 3 "dl_BuildChain b" 2]
    chain_run_at [of s 4 "dl_BuildChain b" 1] chain_run_at [of s 5 "dl_BuildChain b" 0]
  by (simp_all add: dl_BuildChain_def NewChain_def numeral_eq_Suc)

lemma dl_Metrics_end:
  "ps_idx s = 5 \<Longrightarrow> dc_Message (ps_ctx s) = Some r \<Longrightarrow> chain_run 1 (dl_BuildChain b) s = Ret () (s\<lparr>ps_idx := 6\<rparr>)"
  by (simp only: dl_chain_steps dl_MetricsStage_def thenG_def bindG_def)
     (simp add: chain_run_end)

lemma downlink_never_panics_aux: "\<not> panicked (downlink_Run store msg w)"
  unfolding downlink_Run_def
  by (rule Chain_Run_recovers [of _ "dctx_Abort ''panic''"])
     (simp_all add: dl_BuildChain_def NewChain_def dl_RecoverStage_def dctx_Abort_def mod_ctx_def modG_def)

text \<open>
  Nothing that arrives from the message queue can crash a downstream worker: for every message
  (also none, and with any of its pointer fields nil) and in every state of the node the downlink
  chain returns.
\<close>

theorem downlink_never_panics: "\<not> panicked (downlink_Run store msg w)"
  by (rule downlink_never_panics_aux)

section \<open>Fan-out\<close>

definition has_room :: "world \<Rightarrow> sref \<Rightarrow> bool" where
  "has_room w s =
     (case se_conn (wd_sess w s) of
        None \<Rightarrow> False
      | Some c \<Rightarrow> conn_IsActive (wd_conns w c) \<and> length (ch_buf (cn_writeCh (wd_conns w c))) < WriteChannelSize)"

text \<open>What one submission does to the write queues: at most the session's own connection changes.\<close>

lemma handleUndelivered_total:
  assumes "m_Delivery (msg_of w m) = Some d"
  shows "\<exists>w'. sess_handleUndelivered s m w = Ret () w' \<and> wd_conns w' = wd_conns w \<and> wd_sess w' = wd_sess w
    \<and> msg_of w' = msg_of w"
  using assms by (simp add: sess_handleUndelivered_def)

definition queue_step :: "mref \<Rightarrow> sref \<Rightarrow> world \<Rightarrow> world \<Rightarrow> bool" where
  "queue_step m s w w' \<longleftrightarrow>
     (\<forall>s'. se_conn (wd_sess w' s') = se_conn (wd_sess w s'))
   \<and> m_Delivery (msg_of w' m) = m_Delivery (msg_of w m)
   \<and> (\<forall>c. se_conn (wd_sess w s) \<noteq> Some c \<longrightarrow> wd_conns w' c = wd_conns w c)
   \<and> (\<forall>c. se_conn (wd_sess w s) = Some c \<longrightarrow>
        ch_buf (cn_writeCh (wd_conns w' c)) = ch_buf (cn_writeCh (wd_conns w c)) @ (if has_room w s then [m] else []))"

lemma sess_Submit_queue_step:
  assumes d: "m_Delivery (msg_of w m) = Some d"
    and ok: "\<And>c. se_conn (wd_sess w s) = Some c \<Longrightarrow> conn_ok (wd_conns w c)"
  shows "\<exists>w'. sess_Submit s m w = Ret (has_room w s) w' \<and> queue_step m s w w'"
proof (cases "\<exists>c. se_conn (wd_sess w s) = Some c \<and> conn_IsActive (wd_conns w c)")
  case False
  then have "sess_Submit s m w = bindG (sess_handleUndelivered s m) (\<lambda>_. retG False) w" and "\<not> has_room w s"
    by (auto intro!: sess_Submit_offline simp: has_room_def split: option.splits)
  then show ?thesis
    using handleUndelivered_total [OF d, of s] by (auto simp: bindG_def retG_def queue_step_def)
next
  case True
  then obtain c where c: "se_conn (wd_sess w s) = Some c" and act: "conn_IsActive (wd_conns w c)" by blast
  obtain b w1 where r: "world_conn_Submit c m w = (b, w1)" by (cases "world_conn_Submit c m w")
  note f = world_conn_Submit_fields [OF r] and a = world_conn_Submit_active [OF ok [OF c] act r]
  have b: "b = has_room w s" using a(1) act by (simp add: has_room_def c)
  have q: "queue_step m s w w1" using f a(2) b c by (auto simp: queue_step_def)
  have q': "queue_step m s w w2" if "\<And>s'. se_conn (wd_sess w2 s') = se_conn (wd_sess w1 s')"
      "msg_of w2 = msg_of w1" "wd_conns w2 = wd_conns w1" for w2
    using q that by (simp add: queue_step_def)
  have d1: "m_Delivery (msg_of w1 m) = Some d" using d f by simp
  show ?thesis
  proof (cases b)
    case True
    then show ?thesis
      unfolding sess_Submit_active [OF c act r] b [symmetric]
      by (auto simp: Let_def fun_eq_iff intro!: q')
  next
    case False
    then show ?thesis
      using handleUndelivered_total [OF d1, of s] unfolding sess_Submit_active [OF c act r] b [symmetric]
      by (auto simp: bindG_def retG_def intro!: q')
  qed
qed

text \<open>Targets that can be served independently: distinct sessions on distinct, sound connections.\<close>

definition independent :: "world \<Rightarrow> sref list \<Rightarrow> bool" where
  "independent w targets \<longleftrightarrow>
     distinct targets
   \<and> (\<forall>s\<in>set targets. \<forall>c. se_conn (wd_sess w s) = Some c \<longrightarrow> conn_ok (wd_conns w c))
   \<and> (\<forall>s\<in>set targets. \<forall>s'\<in>set targets. \<forall>c. se_conn (wd_sess w s) = Some c \<and> se_conn (wd_sess w s') = Some c \<longrightarrow> s = s')"

lemma independent_step:
  assumes i: "independent w (s # rest)" and q: "queue_step m s w w'"
  shows "independent w' rest" and "s' \<in> set rest \<Longrightarrow> has_room w' s' = has_room w s'"
    and "s' \<in> set rest \<Longrightarrow> se_conn (wd_sess w s') = Some c \<Longrightarrow> wd_conns w' c = wd_conns w c"
proof -
  have other: "wd_conns w' c = wd_conns w c" if "s' \<in> set rest" "se_conn (wd_sess w s') = Some c" for s' c
    using i q that unfolding independent_def queue_step_def by (metis distinct.simps(2) list.set_intros(1,2))
  then show "s' \<in> set rest \<Longrightarrow> se_conn (wd_sess w s') = Some c \<Longrightarrow> wd_conns w' c = wd_conns w c" .
  have conn: "se_conn (wd_sess w' x) = se_conn (wd_sess w x)" for x using q by (simp add: queue_step_def)
  show "independent w' rest" using i other by (simp add: independent_def conn)
  show "s' \<in> set rest \<Longrightarrow> has_room w' s' = has_room w s'"
    using other [of s'] by (simp add: has_room_def conn split: option.split)
qed

definition queues_after :: "mref \<Rightarrow> sref list \<Rightarrow> world \<Rightarrow> world \<Rightarrow> bool" where
  "queues_after m targets w w' \<longleftrightarrow>
     (\<forall>s\<in>set targets. \<forall>c. se_conn (wd_sess w s) = Some c \<longrightarrow>
        ch_buf (cn_writeCh (wd_conns w' c)) = ch_buf (cn_writeCh (wd_conns w c)) @ (if has_room w s then [m] else []))
   \<and> (\<forall>c. (\<forall>s\<in>set targets. se_conn (wd_sess w s) \<noteq> Some c) \<longrightarrow> wd_conns w' c = wd_conns w c)"

lemma queues_after_Cons:
  assumes i: "independent w (s # rest)" and q: "queue_step m s w w1" and r: "queues_after m rest w1 w'"
  shows "queues_after m (s # rest) w w'"
proof -
  have conn: "se_conn (wd_sess w1 x) = se_conn (wd_sess w x)" for x using q by (simp add: queue_step_def)
  note st = independent_step [OF i q]
  have fr: "wd_conns w' c = wd_conns w1 c" if "\<forall>s\<in>set rest. se_conn (wd_sess w s) \<noteq> Some c" for c
    using r that by (simp add: queues_after_def conn)
  have head: "ch_buf (cn_writeCh (wd_conns w' c)) = ch_buf (cn_writeCh (wd_conns w c)) @ (if has_room w s then [m] else [])"
    if "se_conn (wd_sess w s) = Some c" for c
  proof -
    have "\<forall>x\<in>set rest. se_conn (wd_sess w x) \<noteq> Some c"
      using i that unfolding independent_def by (metis distinct.simps(2) list.set_intros(1,2))
    from fr [OF this] show ?thesis using q that by (simp add: queue_step_def)
  qed
  have tail: "ch_buf (cn_writeCh (wd_conns w' c)) = ch_buf (cn_writeCh (wd_conns w c)) @ (if has_room w x then [m] else [])"
    if "x \<in> set rest" "se_conn (wd_sess w x) = Some c" for x c
    using r that st(2,3) by (simp add: queues_after_def conn)
  have "wd_conns w' c = wd_conns w c" if "\<forall>x\<in>set (s # rest). se_conn (wd_sess w x) \<noteq> Some c" for c
    using that fr [of c] q by (simp add: queue_step_def)
  with head tail show ?thesis by (auto simp: queues_after_def)
qed

lemma fanout_loop_isolated:
  assumes "m_Delivery (msg_of w m) = Some d" and "independent w targets"
  shows "\<exists>w'. fanout_loop store m targets res w =
      Ret (res\<lparr>fo_Sent := fo_Sent res + length (filter (has_room w) targets),
               fo_Dropped := fo_Dropped res + length (filter (\<lambda>s. \<not> has_room w s) targets)\<rparr>) w'
    \<and> queues_after m targets w w'"
  using assms
proof (induction targets arbitrary: w res)
  case Nil
  then show ?case by (simp add: queues_after_def)
next
  case (Cons s rest)
  have ok: "se_conn (wd_sess w s) = Some c \<Longrightarrow> conn_ok (wd_conns w c)" for c
    using Cons.prems(2) by (simp add: independent_def)
  obtain w1 where w1: "sess_Submit s m w = Ret (has_room w s) w1" and q: "queue_step m s w w1"
    using sess_Submit_queue_step [OF Cons.prems(1) ok] by blast
  have d1: "m_Delivery (msg_of w1 m) = Some d" using q Cons.prems(1) by (simp add: queue_step_def)
  define w2 where "w2 = (if \<not> has_room w s \<and> d_Offline d \<and> store \<and> fo_Dropped res < 3 then snd (offline_Store m w1) else w1)"
  have q2: "queue_step m s w w2" using q by (simp add: w2_def queue_step_def)
  have d2: "m_Delivery (msg_of w2 m) = Some d" using d1 by (simp add: w2_def)
  note st = independent_step [OF Cons.prems(2) q2]
  let ?res = "if has_room w s then res\<lparr>fo_Sent := Suc (fo_Sent res)\<rparr> else res\<lparr>fo_Dropped := Suc (fo_Dropped res)\<rparr>"
  have "fanout_loop store m (s # rest) res w = fanout_loop store m rest ?res w2"
    using d1 by (simp add: bindG_def w1 w2_def Let_def)
  moreover obtain w' where w': "fanout_loop store m rest ?res w2 =
      Ret (?res\<lparr>fo_Sent := fo_Sent ?res + length (filter (has_room w2) rest),
                fo_Dropped := fo_Dropped ?res + length (filter (\<lambda>s. \<not> has_room w2 s) rest)\<rparr>) w'"
      and r: "queues_after m rest w2 w'"
    using Cons.IH [OF d2 st(1), of ?res] by blast
  moreover have "filter (has_room w2) rest = filter (has_room w) rest"
    "filter (\<lambda>s. \<not> has_room w2 s) rest = filter (\<lambda>s. \<not> has_room w s) rest"
    using st(2) by (auto intro: filter_cong)
  ultimately show ?case using queues_after_Cons [OF Cons.prems(2) q2 r] by (simp add: add_ac)
qed

lemma downlink_Run_body:
  "downlink_Run store msg w =
     recoverG (chain_run 5 (dl_BuildChain store)) (dctx_Abort ''panic'') \<lparr>ps_idx = 1, ps_ctx = new_DownlinkCtx (wd_now w) msg, ps_w = w\<rparr>"
  by (simp add: downlink_Run_def Chain_Run_def dl_chain_steps dl_RecoverStage_def recover_stage_def)

text \<open>A valid message passes the first two stages and is routed.\<close>

lemma downlink_routed:
  assumes "m_To (msg_of w m) = Some to" and "\<not> IsExpired (UnixMilli (wd_now w)) (m_ExpireAt (msg_of w m))"
    and "m_TraceId (msg_of w m) = Some t"
  shows "chain_run 5 (dl_BuildChain store) \<lparr>ps_idx = 1, ps_ctx = new_DownlinkCtx (wd_now w) (Some m), ps_w = w\<rparr> =
    (let x = (new_DownlinkCtx (wd_now w) (Some m))\<lparr>bc_TraceID := t\<rparr>
     in case Resolve (rt_Key to) (wd_router w) of
          None \<Rightarrow> FanOutStage store (chain_run 1 (dl_BuildChain store))
                    \<lparr>ps_idx = 5, ps_ctx = x\<lparr>dc_FanOutResult := zero_FanOutResult\<lparr>fo_Offline := 1\<rparr>\<rparr>, ps_w = w\<rparr>
        | Some sessions \<Rightarrow> FanOutStage store (chain_run 1 (dl_BuildChain store))
            \<lparr>ps_idx = 5, ps_ctx = x\<lparr>dc_TargetSessions :=
               filter_targets w (get_header (msg_of w m) ''x-exclude-conn'') sessions\<rparr>, ps_w = w\<rparr>)"
proof -
  have f: "filter_targets w e [] = []" for e by (simp add: filter_targets_def)
  show ?thesis
    using assms
    by (cases "Resolve (rt_Key to) (wd_router w)")
       (simp_all add: dl_chain_steps dl_ValidateStage_def RouteStage_def FilterStage_def new_DownlinkCtx_def Let_def f
          del: One_nat_def chain_run.simps)
qed

lemma downlink_fanout:
  assumes valid: "m_To (msg_of w m) = Some to" "\<not> IsExpired (UnixMilli (wd_now w)) (m_ExpireAt (msg_of w m))"
      "m_TraceId (msg_of w m) = Some t" "m_Delivery (msg_of w m) = Some d"
    and resolved: "Resolve (rt_Key to) (wd_router w) = Some sessions"
    and targets: "T = filter_targets w (get_header (msg_of w m) ''x-exclude-conn'') sessions" "independent w T"
  shows "\<exists>s'. downlink_Run store (Some m) w = Ret () s' \<and> \<not> bc_Aborted (ps_ctx s')
    \<and> dc_FanOutResult (ps_ctx s') =
        \<lparr>fo_Total = length T, fo_Sent = length (filter (has_room w) T),
         fo_Dropped = length (filter (\<lambda>s. \<not> has_room w s) T), fo_Offline = 0\<rparr>
    \<and> (\<forall>s\<in>set T. \<forall>c. se_conn (wd_sess w s) = Some c \<longrightarrow>
         ch_buf (cn_writeCh (wd_conns (ps_w s') c)) =
           ch_buf (cn_writeCh (wd_conns w c)) @ (if has_room w s then [m] else []))
    \<and> (\<forall>c. (\<forall>s\<in>set T. se_conn (wd_sess w s) \<noteq> Some c) \<longrightarrow> wd_conns (ps_w s') c = wd_conns w c)
    \<and> fanout_loop store m T (zero_FanOutResult\<lparr>fo_Total := length T\<rparr>) w = Ret (dc_FanOutResult (ps_ctx s')) (ps_w s')"
proof -
  let ?x = "(new_DownlinkCtx (wd_now w) (Some m))\<lparr>bc_TraceID := t, dc_TargetSessions := T\<rparr>"
  obtain w' where f: "fanout_loop store m T (zero_FanOutResult\<lparr>fo_Total := length T\<rparr>) w =
      Ret \<lparr>fo_Total = length T, fo_Sent = length (filter (has_room w) T),
         fo_Dropped = length (filter (\<lambda>s. \<not> has_room w s) T), fo_Offline = 0\<rparr> w'" and q: "queues_after m T w w'"
    using fanout_loop_isolated [OF valid(4) targets(2), of store "zero_FanOutResult\<lparr>fo_Total := length T\<rparr>"]
    by (auto simp: zero_FanOutResult_def)
  have "FanOutStage store (chain_run 1 (dl_BuildChain store)) \<lparr>ps_idx = 5, ps_ctx = ?x, ps_w = w\<rparr> =
      Ret () \<lparr>ps_idx = 6, ps_ctx = ?x\<lparr>dc_FanOutResult := \<lparr>fo_Total = length T, fo_Sent = length (filter (has_room w) T),
         fo_Dropped = length (filter (\<lambda>s. \<not> has_room w s) T), fo_Offline = 0\<rparr>\<rparr>, ps_w = w'\<rparr>"
    by (simp add: FanOutStage_def new_DownlinkCtx_def zero_FanOutResult_def [symmetric] bindG_def on_w_def f dl_Metrics_end
        del: One_nat_def chain_run.simps)
       (simp add: zero_FanOutResult_def)
  with q show ?thesis
    unfolding downlink_Run_body recoverG_def downlink_routed [OF valid(1-3)]
    by (simp add: resolved targets(1) [symmetric] Let_def queues_after_def new_DownlinkCtx_def f)
qed

text \<open>
  C3. A message for an address with sessions on this node reaches exactly the sessions that may have
  it, each independently of the others. The targets are the resolved sessions that are active and
  not the excluded one. Each target with an active connection that has room gets the message once, at
  the end of its write queue; a full or inactive one is left as it is and does not disturb the rest;
  no other connection is touched; and the result counts every target once, as sent or as dropped.
\<close>

theorem downlink_fanout_isolated:
  assumes valid: "m_To (msg_of w m) = Some to" "\<not> IsExpired (UnixMilli (wd_now w)) (m_ExpireAt (msg_of w m))"
      "m_TraceId (msg_of w m) = Some t" "m_Delivery (msg_of w m) = Some d"
    and resolved: "Resolve (rt_Key to) (wd_router w) = Some sessions"
    and excluded: "x = get_header (msg_of w m) ''x-exclude-conn''"
    and targets: "T = filter (\<lambda>s. se_state (wd_sess w s) = SessActive \<and> \<not> (x \<noteq> '''' \<and> sid_of w s = x)) sessions" "independent w T"
  shows "\<exists>s'. downlink_Run store (Some m) w = Ret () s' \<and> \<not> bc_Aborted (ps_ctx s')
    \<and> dc_FanOutResult (ps_ctx s') =
        \<lparr>fo_Total = length T, fo_Sent = length (filter (has_room w) T),
         fo_Dropped = length (filter (\<lambda>s. \<not> has_room w s) T), fo_Offline = 0\<rparr>
    \<and> (\<forall>s\<in>set T. \<forall>c. se_conn (wd_sess w s) = Some c \<longrightarrow>
         ch_buf (cn_writeCh (wd_conns (ps_w s') c)) =
           ch_buf (cn_writeCh (wd_conns w c)) @ (if has_room w s then [m] else []))
    \<and> (\<forall>c. (\<forall>s\<in>set T. se_conn (wd_sess w s) \<noteq> Some c) \<longrightarrow> wd_conns (ps_w s') c = wd_conns w c)"
proof -
  have "T = filter_targets w (get_header (msg_of w m) ''x-exclude-conn'') sessions"
    by (simp add: targets(1) filter_targets_def sess_IsActive_def excluded)
  from downlink_fanout [OF valid resolved this targets(2), of store] show ?thesis by blast
qed

text \<open>
  A message for an address without sessions on this node is kept: if it asks for offline storage
  with at-least-once delivery and the pool has a store that accepts, it is stored exactly once, the
  result says offline, and no connection changes.
\<close>

theorem downlink_offline_stored_once:
  assumes valid: "m_To (msg_of w m) = Some to" "\<not> IsExpired (UnixMilli (wd_now w)) (m_ExpireAt (msg_of w m))"
      "m_TraceId (msg_of w m) = Some t"
    and d: "m_Delivery (msg_of w m) = Some d" "d_Offline d" "d_Qos d \<ge> QosClass_AT_LEAST_ONCE"
    and "Resolve (rt_Key to) (wd_router w) = None" and "\<not> wd_offlineErr w"
  shows "\<exists>s'. downlink_Run True (Some m) w = Ret () s' \<and> \<not> bc_Aborted (ps_ctx s')
    \<and> fo_Offline (dc_FanOutResult (ps_ctx s')) = 1
    \<and> ps_w s' = w\<lparr>wd_storeCalls := wd_storeCalls w @ [msg_of w m],
                  wd_offlineRows := wd_offlineRows w @ [zero_OfflineMessageModel]\<rparr>"
  unfolding downlink_Run_body recoverG_def downlink_routed [OF valid]
  using assms(4-)
  by (simp add: Let_def FanOutStage_def new_DownlinkCtx_def offline_Store_def dl_Metrics_end
      del: One_nat_def chain_run.simps)

text \<open>
  A message that a client cannot take is stored twice: once by \<open>Session.Submit\<close>, which hands every
  refused at-least-once message to the offline store, and once more by the fan-out stage, which
  does the same after \<open>Submit\<close> has answered false.
\<close>

theorem fanout_refused_stored_twice:
  assumes d: "m_Delivery (msg_of w m) = Some d" "d_Offline d" "d_Qos d = QosClass_AT_LEAST_ONCE"
    and s: "dp_Offline (se_deps (wd_sess w s))" "\<not> wd_offlineErr w"
    and off: "se_conn (wd_sess w s) = None \<or> (\<exists>c. se_conn (wd_sess w s) = Some c \<and> \<not> conn_IsActive (wd_conns w c))"
  shows "\<exists>r w'. fanout_loop True m [s] zero_FanOutResult w = Ret r w' \<and> fo_Dropped r = 1
    \<and> wd_storeCalls w' = wd_storeCalls w @ [msg_of w m, msg_of w m]"
proof -
  let ?w1 = "snd (offline_Store m w)"
  have "sess_Submit s m w = Ret False ?w1"
    unfolding sess_Submit_offline [OF off] bindG_def handleUndelivered_stores [OF d s(1)] by (simp add: retG_def)
  moreover have "msg_of ?w1 m = msg_of w m" by (simp add: msg_of_def offline_Store_def)
  ultimately show ?thesis
    using d s by (simp add: bindG_def Let_def zero_FanOutResult_def offline_Store_def)
qed

section \<open>Witnesses\<close>

definition sample_downmsg :: Message where
  "sample_downmsg = (sample_msg ''m1'')\<lparr>m_TraceId := Some ''t'', m_To := Some \<lparr>rt_Type = RouteTargetType_CONNECTION, rt_Key = ''r''\<rparr>,
     m_Delivery := Some (empty_Delivery\<lparr>d_Offline := True, d_Qos := QosClass_AT_LEAST_ONCE\<rparr>)\<rparr>"

definition sample_down :: world where
  "sample_down = upd_msg 3 (\<lambda>_. sample_downmsg) (sample_world\<lparr>wd_router := JoinRoom (\<lambda>_. ''aa'') ''r'' 0 NewLocalRouter\<rparr>)"

lemma sample_down_fields:
  "msg_of sample_down 3 = sample_downmsg" "wd_sess sample_down = (\<lambda>_. sample_session)" "wd_conns sample_down = (\<lambda>_. sample_conn)"
  "wd_offlineErr sample_down = False" "wd_storeCalls sample_down = []"
  by (simp_all add: sample_down_def sample_world_def)

lemma sample_downmsg_fields:
  "m_To sample_downmsg = Some \<lparr>rt_Type = RouteTargetType_CONNECTION, rt_Key = ''r''\<rparr>"
  "\<not> IsExpired now (m_ExpireAt sample_downmsg)" "m_TraceId sample_downmsg = Some ''t''"
  "m_Delivery sample_downmsg = Some (empty_Delivery\<lparr>d_Offline := True, d_Qos := QosClass_AT_LEAST_ONCE\<rparr>)"
  "get_header sample_downmsg ''x-exclude-conn'' = ''''"
  by (simp_all add: sample_downmsg_def sample_msg_def new_Message_def IsExpired_def get_header_def)

theorem downlink_fanout_isolated_witness:
  "\<exists>s'. downlink_Run True (Some 3) sample_down = Ret () s' \<and> ch_buf (cn_writeCh (wd_conns (ps_w s') 0)) = [3]"
proof -
  note f = sample_down_fields sample_downmsg_fields
  have r: "Resolve ''r'' (wd_router sample_down) = Some [0]"
    by (simp add: sample_down_def Resolve_def members_of_def JoinRoom_def NewLocalRouter_def idx_put_def gm_set_def gm_get_def gm_vals_def Let_def)
  have t: "se_state sample_session = SessActive" "independent sample_down [0]" "has_room sample_down 0"
    by (simp_all add: independent_def has_room_def f sample_session_def WriteChannelSize_def)
  have "\<exists>s'. downlink_Run True (Some 3) sample_down = Ret () s' \<and> \<not> bc_Aborted (ps_ctx s') \<and> (\<forall>s\<in>set [0]. \<forall>c. se_conn (wd_sess sample_down s) = Some c \<longrightarrow>
         ch_buf (cn_writeCh (wd_conns (ps_w s') c)) =
           ch_buf (cn_writeCh (wd_conns sample_down c)) @ (if has_room sample_down s then [3] else []))"
    using downlink_fanout_isolated [of sample_down 3, unfolded f(1), OF f(6) f(7) f(8) f(9), of "[0]" "''''" "[0]" True] r t f(2,10) by auto
  then show ?thesis using t(3) by (auto simp: f sample_session_def)
qed

theorem downlink_offline_stored_once_witness:
  "\<exists>s'. downlink_Run True (Some 3) (sample_down\<lparr>wd_router := NewLocalRouter\<rparr>) = Ret () s' \<and> wd_storeCalls (ps_w s') = [sample_downmsg]"
proof -
  let ?w = "sample_down\<lparr>wd_router := NewLocalRouter\<rparr>"
  have f: "msg_of ?w 3 = sample_downmsg" "wd_offlineErr ?w = False" "wd_storeCalls ?w = []"
    using sample_down_fields by (simp_all add: msg_of_def)
  note g = sample_downmsg_fields
  show ?thesis
    using downlink_offline_stored_once [of ?w 3, unfolded f(1), OF g(1) g(2) g(3) g(4)] f
    by (auto simp: Resolve_def members_of_def NewLocalRouter_def gm_get_def Let_def)
qed

theorem fanout_refused_stored_twice_witness:
  "\<exists>r w'. fanout_loop True 3 [0] zero_FanOutResult (upd_sess 0 (\<lambda>x. x\<lparr>se_conn := None\<rparr>) sample_down) = Ret r w'
     \<and> wd_storeCalls w' = [sample_downmsg, sample_downmsg]"
  using fanout_refused_stored_twice [of "upd_sess 0 (\<lambda>x. x\<lparr>se_conn := None\<rparr>) sample_down" 3
      "empty_Delivery\<lparr>d_Offline := True, d_Qos := QosClass_AT_LEAST_ONCE\<rparr>" 0]
    sample_down_fields sample_downmsg_fields
  by (auto simp: sample_session_def)

end
