(* ===== verification/Factory.thy ===== *)
theory Factory
  imports Handlers Dist_Router Downlink
begin

text \<open>
  \<open>gateway/internal/access/connruntime/factory.go\<close>: the life of one connection, from the handshake
  over the wiring of connection, session, routers and registries to the cleanup. The state is the
  node together with the state of the routing service.

  What the outside world answers is in \<open>handshake_env\<close> and \<open>conn_env\<close>: the transport's results, the
  answer of the authentication service, the unmarshalling of the handshake payload, the generated
  connection identifier and, once the connection runs, the sequence of turns of its two loops and
  of what other goroutines do to it.
\<close>

record HandshakeRequest =
  hq_Token :: string
  hq_AppId :: string
  hq_DeviceType :: string

record authInfo =
  ai_userID :: string
  ai_deviceID :: string
  ai_appID :: string
  ai_deviceType :: string
  ai_bizCode :: string
  ai_connID :: string

record FactoryDeps =
  fd_Codec :: FrameCodec
  fd_HandlerReg :: ImplRegistry
  fd_sha :: "bytes \<Rightarrow> bytes"  \<comment> \<open>of the session registry\<close>
  fd_sessDeps :: Deps
  fd_hasScanner :: bool
  fd_DistRouter :: DistributedRouter
  fd_HeartbeatTimeout :: int
  fd_MaxBodySize :: "32 word"

record handshake_env =
  he_deadlineErr :: bool
  he_Read :: "bytes option"
  he_unmarshal :: "payload option \<Rightarrow> HandshakeRequest option"
  he_Verify :: "string \<Rightarrow> (verify_error, string \<times> string) result"
  he_uuid :: string

datatype handshake_error =
    SetDeadlineFailed
  | ReadRequestFailed
  | DecodeRequestFailed codec_error
  | ExpectedHandshake FrameType
  | UnmarshalPayloadFailed
  | EmptyToken
  | AuthVerifyFailed verify_error

definition doHandshake :: "Message codec_lib \<Rightarrow> handshake_env \<Rightarrow> (handshake_error, authInfo \<times> Message) result" where
  "doHandshake L e =
     (if he_deadlineErr e then Inl SetDeadlineFailed
      else
        (case he_Read e of
           None \<Rightarrow> Inl ReadRequestFailed
         | Some raw \<Rightarrow>
             bindE (wrapE DecodeRequestFailed (FrameCodec_Decode L raw)) (\<lambda>msg.
               if m_Type msg \<noteq> FrameType_HANDSHAKE then Inl (ExpectedHandshake (m_Type msg))
               else
                 (case he_unmarshal e (m_Body msg) of
                    None \<Rightarrow> Inl UnmarshalPayloadFailed
                  | Some req \<Rightarrow>
                      if hq_Token req = '''' then Inl EmptyToken
                      else
                        bindE (wrapE AuthVerifyFailed (he_Verify e (hq_Token req))) (\<lambda>(userID, deviceID).
                          Inr (\<lparr>ai_userID = userID, ai_deviceID = deviceID, ai_appID = hq_AppId req,
                                ai_deviceType = hq_DeviceType req, ai_bizCode = m_BizCode msg, ai_connID = he_uuid e\<rparr>, msg))))))"

text \<open>The frame \<open>sendRawKick\<close> hands to the transport; an encoding error leaves it empty.\<close>

definition ERR_HANDSHAKE_FAILED :: int where
  "ERR_HANDSHAKE_FAILED = 1002"

definition sendRawKick :: "Message codec_lib \<Rightarrow> FrameCodec \<Rightarrow> int \<Rightarrow> string \<Rightarrow> bytes" where
  "sendRawKick L fc code reason =
     (case FrameCodec_Encode L fc ((new_Message FrameType_KICK)\<lparr>m_Body := Some (KickPayload \<lparr>kr_Code = code, kr_Reason = reason\<rparr>)\<rparr>) of
        Inl _ \<Rightarrow> []
      | Inr data \<Rightarrow> data)"

text \<open>\<open>ref.TraceContext\<close> is dereferenced without a check. The result tells whether writing failed.\<close>

definition sendAuthResponse ::
    "Message codec_lib \<Rightarrow> FactoryDeps \<Rightarrow> bool \<Rightarrow> cref \<Rightarrow> Message \<Rightarrow> string \<Rightarrow> 64 word \<Rightarrow> (world, bool) go" where
  "sendAuthResponse L f fail c ref sessionID lastSeq w =
     (case m_TraceId ref of
        None \<Rightarrow> Panic w
      | Some t \<Rightarrow>
          (let payload = \<lparr>hr_Success = True, hr_SessionId = sessionID, hr_HeartbeatInterval = fd_HeartbeatTimeout f div Second,
                          hr_MaxBodySize = uint (fd_MaxBodySize f), hr_ReplayFrom = lastSeq + 1\<rparr>;
               resp = (new_Message FrameType_HANDSHAKE_ACK)\<lparr>m_MsgId := m_MsgId ref, m_TraceId := Some t,
                         m_Body := Some (HandshakePayload payload)\<rparr>
           in case encodeAndWrite L (fd_Codec f) fail resp (wd_conns w c) of
                (err, c') \<Rightarrow> Ret (err \<noteq> None) (upd_conn c (\<lambda>_. c') w)))"

section \<open>Wiring\<close>

definition conn_for :: "authInfo \<Rightarrow> time \<Rightarrow> Connection" where
  "conn_for ai now = (newConnection now)\<lparr>cn_ConnID := ai_connID ai, cn_UserID := ai_userID ai, cn_AppID := ai_appID ai,
     cn_DeviceID := ai_deviceID ai, cn_DeviceType := ai_deviceType ai, cn_BizCode := ai_bizCode ai\<rparr>"

text \<open>Steps 3 to 5: build the connection, attach it, register the session and close what was kicked.\<close>

definition attach_and_register :: "authInfo \<Rightarrow> sref \<Rightarrow> world \<Rightarrow> (cref \<times> 64 word) \<times> world" where
  "attach_and_register ai s w =
     (let c = wd_nextConn w;
          w1 = w\<lparr>wd_conns := (wd_conns w)(c := conn_for ai (wd_now w)), wd_nextConn := Suc c\<rparr>
      in case sess_AttachConn s c w1 of
           (lastSeq, w2) \<Rightarrow>
             (case RegisterSession (sid_of w2) (did_of w2) (ai_userID ai) (ai_deviceID ai) s (wd_router w2) of
                (kicked, router) \<Rightarrow>
                  (let w3 = w2\<lparr>wd_router := router\<rparr>;
                       w4 = (case kicked of
                               None \<Rightarrow> w3
                             | Some k \<Rightarrow> sess_Close k (Some \<lparr>kr_Code = 4011, kr_Reason = ''replaced by new login''\<rparr>) w3)
                   in ((c, lastSeq), w4))))"

text \<open>
  What happens to a running connection: a turn of the read loop with what the transport answers, a
  turn of the write loop with the choice of its \<open>select\<close> and the transport's answers, a message that
  another goroutine submits, the end of the context.
\<close>

datatype conn_event = ReadTurn read_env | WriteTurn bool "bool list" | Submitted mref | CtxDone

record conn_env =
  ce_handshake :: handshake_env
  ce_regFails :: bool  \<comment> \<open>the routing service, when the user is registered\<close>
  ce_writeFails :: bool  \<comment> \<open>the transport, when the response is written\<close>
  ce_events :: "conn_event list"
  ce_unregFails :: bool  \<comment> \<open>the routing service, when the user is unregistered\<close>

datatype conn_result =
    HandshakeRefused bytes  \<comment> \<open>the kick frame written before closing\<close>
  | ConnRejected
  | ResponseFailed
  | StillRunning sref cref
  | ConnFinished sref cref

type_synonym 'r node = "world \<times> 'r"

definition close_transport :: "cref \<Rightarrow> world \<Rightarrow> world" where
  "close_transport c w = upd_conn c (\<lambda>x. x\<lparr>cn_tp_closed := True\<rparr>) w"

text \<open>Steps 2 to 9. \<open>Inl\<close> is an early return.\<close>

definition establish ::
    "Message codec_lib \<Rightarrow> 'r redis \<Rightarrow> FactoryDeps \<Rightarrow> conn_env \<Rightarrow> authInfo \<Rightarrow> Message \<Rightarrow> ('r node, conn_result + sref \<times> cref) go" where
  "establish L R f e ai authReq n =
     (case reg_GetOrCreate (fd_sha f) (fd_sessDeps f) (fd_hasScanner f) (ai_userID ai) (ai_deviceID ai) (ai_appID ai)
             (ai_deviceType ai) (ai_bizCode ai) (fst n) of
        ((s, isNew), w1) \<Rightarrow>
          (case attach_and_register ai s w1 of
             ((c, lastSeq), w2) \<Rightarrow>
               (let r1 = snd (RegisterUser R (fd_DistRouter f) (ce_regFails e) (ai_userID ai) (ai_deviceID ai) (snd n))
                in case RegisterConn (cn_ConnID (wd_conns w2 c)) c (wd_connReg w2) of
                     (False, _) \<Rightarrow> Ret (Inl ConnRejected) (close_transport c (sess_DetachConn s w2), r1)
                   | (True, reg) \<Rightarrow>
                       (let w3 = upd_conn c conn_Activate (w2\<lparr>wd_connReg := reg\<rparr>)
                        in case sendAuthResponse L f (ce_writeFails e) c authReq (sid_of w3 s) lastSeq w3 of
                             Panic w4 \<Rightarrow> Panic (w4, r1)
                           | Ret True w4 \<Rightarrow>
                               (let w5 = sess_DetachConn s w4;
                                    w6 = w5\<lparr>wd_connReg := UnregisterConn (cn_ConnID (wd_conns w5 c)) (wd_connReg w5)\<rparr>
                                in Ret (Inl ResponseFailed) (close_transport c w6, r1))
                           | Ret False w4 \<Rightarrow> Ret (Inr (s, c)) (w4, r1)))))"

section \<open>Serving\<close>

text \<open>
  \<open>Run\<close>: the read loop with \<open>onMessage\<close> bound to \<open>Dispatch\<close>, beside the write loop, which is a goroutine of
  its own. \<open>Run\<close> returns when the read loop has returned and then \<open>writeLoopDone\<close> is closed; the result tells
  which of the two loops have returned. A loop that has returned takes no further turns.
\<close>

fun serve :: "Message codec_lib \<Rightarrow> FrameCodec \<Rightarrow> ImplRegistry \<Rightarrow> sref \<Rightarrow> cref \<Rightarrow> bool \<Rightarrow> bool \<Rightarrow> conn_event list \<Rightarrow> (world, bool \<times> bool) go" where
  "serve L fc reg s c rdone wdone [] w = Ret (rdone, wdone) w"
| "serve L fc reg s c rdone wdone (ReadTurn e # es) w =
     (if rdone then serve L fc reg s c rdone wdone es w
      else
        (case readLoop_turn L e (wd_conns w c) of
           (act, c') \<Rightarrow>
             (let w1 = (upd_conn c (\<lambda>_. c') w)\<lparr>wd_now := re_now e\<rparr>
              in case act of
                   ReadExit \<Rightarrow> serve L fc reg s c True wdone es w1
                 | ReadSkip \<Rightarrow> serve L fc reg s c rdone wdone es w1
                 | ReadDeliver msg \<Rightarrow>
                     (case new_msg msg w1 of
                        (r, w2) \<Rightarrow> bindG (Dispatch reg s c r) (\<lambda>_. serve L fc reg s c rdone wdone es) w2))))"
| "serve L fc reg s c rdone wdone (WriteTurn pickDone fails # es) w =
     (if wdone then serve L fc reg s c rdone wdone es w
      else
        (case writeLoop_turn L fc (wd_heap w) pickDone fails (wd_conns w c) of
           (r, c') \<Rightarrow> serve L fc reg s c rdone (r = LoopReturned) es (upd_conn c (\<lambda>_. c') w)))"
| "serve L fc reg s c rdone wdone (Submitted m # es) w =
     serve L fc reg s c rdone wdone es (snd (world_conn_Submit c m w))"
| "serve L fc reg s c rdone wdone (CtxDone # es) w =
     serve L fc reg s c rdone wdone es (upd_conn c (\<lambda>x. x\<lparr>cn_ctxDone := True\<rparr>) w)"

definition onClose :: "'r redis \<Rightarrow> bool \<Rightarrow> sref \<Rightarrow> cref \<Rightarrow> 'r node \<Rightarrow> 'r node" where
  "onClose R unregFails s c n =
     (let w1 = sess_DetachConn s (fst n);
          w2 = w1\<lparr>wd_connReg := UnregisterConn (cn_ConnID (wd_conns w1 c)) (wd_connReg w1)\<rparr>;
          w3 = w2\<lparr>wd_router := UnregisterAll (sid_of w2) s (wd_router w2)\<rparr>
      in (w3, snd (UnregisterUser R unregFails (cn_UserID (wd_conns w3 c)) (cn_DeviceID (wd_conns w3 c)) (snd n))))"

text \<open>Steps 10 to 12: run the connection; \<open>onClose\<close> follows the deferred block when both loops have returned.\<close>

definition run_connection ::
    "Message codec_lib \<Rightarrow> 'r redis \<Rightarrow> FactoryDeps \<Rightarrow> conn_env \<Rightarrow> sref \<Rightarrow> cref \<Rightarrow> ('r node, conn_result) go" where
  "run_connection L R f e s c n =
     (case serve L (fd_Codec f) (fd_HandlerReg f) s c False False (ce_events e) (fst n) of
        Panic w \<Rightarrow> Panic (w, snd n)
      | Ret (rdone, wdone) w \<Rightarrow>
          if rdone \<and> wdone
          then Ret (ConnFinished s c) (onClose R (ce_unregFails e) s c (upd_conn c Run_deferred w, snd n))
          else Ret (StillRunning s c) (w, snd n))"

definition CreateAndRun ::
    "Message codec_lib \<Rightarrow> 'r redis \<Rightarrow> FactoryDeps \<Rightarrow> (handshake_error \<Rightarrow> string) \<Rightarrow> conn_env \<Rightarrow> ('r node, conn_result) go" where
  "CreateAndRun L R f errText e n =
     (case doHandshake L (ce_handshake e) of
        Inl err \<Rightarrow> Ret (HandshakeRefused (sendRawKick L (fd_Codec f) ERR_HANDSHAKE_FAILED (errText err))) n
      | Inr (ai, authReq) \<Rightarrow>
          bindG (establish L R f e ai authReq)
            (\<lambda>est n1.
               case est of
                 Inl early \<Rightarrow> Ret early n1
               | Inr (s, c) \<Rightarrow> run_connection L R f e s c n1) n)"

section \<open>What attaching leaves alone\<close>

lemma same_pending: "\<exists>p. (x :: Session) = x\<lparr>se_pendingAcks := p\<rparr>"
  by (rule exI [of _ "se_pendingAcks x"]) simp

lemma flush_pending_sess:
  "\<exists>p. wd_sess (flush_pending s c k w) s' = (wd_sess w s')\<lparr>se_pendingAcks := p\<rparr>"
  "wd_connReg (flush_pending s c k w) = wd_connReg w"
proof -
  have "(\<exists>p. wd_sess (flush_pending s c k w) s' = (wd_sess w s')\<lparr>se_pendingAcks := p\<rparr>)
      \<and> wd_connReg (flush_pending s c k w) = wd_connReg w"
  proof (cases "gm_get (se_pendingAcks (wd_sess w s)) k")
    case None
    then show ?thesis by (simp add: flush_pending_def same_pending)
  next
    case (Some e)
    let ?e = "e\<lparr>pn_retryCount := pn_retryCount e + 1, pn_lastRetryAt := wd_now w\<rparr>"
    let ?w1 = "upd_sess s (\<lambda>x. x\<lparr>se_pendingAcks := gm_set (se_pendingAcks x) k ?e\<rparr>) w"
    let ?w2 = "upd_msg (pn_msg e) (set_header ''x-retry-count'' (Itoa (pn_retryCount ?e))) ?w1"
    obtain b w3 where r: "world_conn_Submit c (pn_msg e) ?w2 = (b, w3)" by (cases "world_conn_Submit c (pn_msg e) ?w2")
    have reg: "wd_connReg w3 = wd_connReg w" using r by (auto simp: world_conn_Submit_def split: prod.splits)
    have sess: "wd_sess w3 = wd_sess ?w1" using world_conn_Submit_fields(2) [OF r] by simp
    have tr: "wd_connReg (acker_Track s m v) = wd_connReg v" for m v by (simp add: acker_Track_def)
    have "flush_pending s c k w = (if dp_Acker (se_deps (wd_sess w3 s)) then acker_Track s (pn_msg e) w3 else w3)"
      using Some r by (simp add: flush_pending_def Let_def)
    moreover have "\<exists>p. wd_sess ?w1 s' = (wd_sess w s')\<lparr>se_pendingAcks := p\<rparr>"
      by (cases "s' = s") (auto intro: exI [of _ "se_pendingAcks (wd_sess w s')"])
    ultimately show ?thesis using reg sess tr by simp
  qed
  then show "\<exists>p. wd_sess (flush_pending s c k w) s' = (wd_sess w s')\<lparr>se_pendingAcks := p\<rparr>"
    "wd_connReg (flush_pending s c k w) = wd_connReg w" by blast+
qed

lemma flush_all_sess:
  "(\<exists>p. wd_sess (fold (flush_pending s c) ks w) s' = (wd_sess w s')\<lparr>se_pendingAcks := p\<rparr>)
   \<and> wd_connReg (fold (flush_pending s c) ks w) = wd_connReg w"
proof (induction ks arbitrary: w)
  case Nil
  show ?case by (simp add: same_pending)
next
  case (Cons k ks)
  obtain p q where "wd_sess (flush_pending s c k w) s' = (wd_sess w s')\<lparr>se_pendingAcks := p\<rparr>"
    "wd_sess (fold (flush_pending s c) ks (flush_pending s c k w)) s' = (wd_sess (flush_pending s c k w) s')\<lparr>se_pendingAcks := q\<rparr>"
    using flush_pending_sess(1) [of s c k w s'] Cons.IH [of "flush_pending s c k w"] by blast
  then show ?case using Cons.IH [of "flush_pending s c k w"] flush_pending_sess(2) by auto
qed

lemma AttachConn_identity:
  fixes s c w
  defines "w' \<equiv> snd (sess_AttachConn s c w)"
  shows "se_userID (wd_sess w' x) = se_userID (wd_sess w x)" "se_deviceID (wd_sess w' x) = se_deviceID (wd_sess w x)"
    "se_deps (wd_sess w' x) = se_deps (wd_sess w x)" "wd_connReg w' = wd_connReg w"
proof -
  let ?w1 = "upd_sess s (\<lambda>x. x\<lparr>se_conn := Some c, se_state := SessActive, se_suspendedAt := 0\<rparr>) w"
  let ?w2 = "?w1\<lparr>wd_router := fold (\<lambda>t. Subscribe (sid_of ?w1) t s) (gm_keys (se_topics (wd_sess ?w1 s)))
                       (fold (\<lambda>r. JoinRoom (sid_of ?w1) r s) (gm_keys (se_rooms (wd_sess ?w1 s))) (wd_router ?w1))\<rparr>"
  have w': "w' = fold (flush_pending s c) (gm_keys (se_pendingAcks (wd_sess ?w2 s))) ?w2"
    by (simp add: w'_def sess_AttachConn_def Let_def)
  obtain p where p: "wd_sess w' x = (wd_sess ?w2 x)\<lparr>se_pendingAcks := p\<rparr>" and r: "wd_connReg w' = wd_connReg ?w2"
    unfolding w' using flush_all_sess [of s c _ ?w2 x] by blast
  show "se_userID (wd_sess w' x) = se_userID (wd_sess w x)" "se_deviceID (wd_sess w' x) = se_deviceID (wd_sess w x)"
    "se_deps (wd_sess w' x) = se_deps (wd_sess w x)" "wd_connReg w' = wd_connReg w"
    by (simp_all add: p r)
qed

lemma rejoin_keeps_users:
  "lr_deviceConn (fold (\<lambda>t. Subscribe f t s) ts (fold (\<lambda>r. JoinRoom f r s) rs router)) = lr_deviceConn router"
  "lr_userConns (fold (\<lambda>t. Subscribe f t s) ts (fold (\<lambda>r. JoinRoom f r s) rs router)) = lr_userConns router"
proof -
  have j: "lr_deviceConn (fold (\<lambda>r. JoinRoom f r s) rs x) = lr_deviceConn x \<and> lr_userConns (fold (\<lambda>r. JoinRoom f r s) rs x) = lr_userConns x" for x
    by (induction rs arbitrary: x) (simp_all add: JoinRoom_def)
  have t: "lr_deviceConn (fold (\<lambda>t. Subscribe f t s) ts x) = lr_deviceConn x \<and> lr_userConns (fold (\<lambda>t. Subscribe f t s) ts x) = lr_userConns x" for x
    by (induction ts arbitrary: x) (simp_all add: Subscribe_def)
  show "lr_deviceConn (fold (\<lambda>t. Subscribe f t s) ts (fold (\<lambda>r. JoinRoom f r s) rs router)) = lr_deviceConn router"
    "lr_userConns (fold (\<lambda>t. Subscribe f t s) ts (fold (\<lambda>r. JoinRoom f r s) rs router)) = lr_userConns router"
    using j t by simp_all
qed

text \<open>The node after steps 3 to 5, before a kicked session is closed.\<close>

definition attached :: "authInfo \<Rightarrow> sref \<Rightarrow> world \<Rightarrow> world" where
  "attached ai s w =
     (let c = wd_nextConn w;
          w2 = snd (sess_AttachConn s c (w\<lparr>wd_conns := (wd_conns w)(c := conn_for ai (wd_now w)), wd_nextConn := Suc c\<rparr>))
      in w2\<lparr>wd_router := snd (RegisterSession (sid_of w2) (did_of w2) (ai_userID ai) (ai_deviceID ai) s (wd_router w2))\<rparr>)"

lemma attached_parts:
  fixes ai s w
  defines "w' \<equiv> attached ai s w"
  shows "se_state (wd_sess w' s) = SessActive" "se_conn (wd_sess w' s) = Some (wd_nextConn w)"
    "se_userID (wd_sess w' s) = se_userID (wd_sess w s)" "se_deviceID (wd_sess w' s) = se_deviceID (wd_sess w s)"
    "se_once (wd_sess w' s) = se_once (wd_sess w s)" "se_deps (wd_sess w' s) = se_deps (wd_sess w s)"
    "wd_conns w' (wd_nextConn w) = conn_for ai (wd_now w)" "wd_connReg w' = wd_connReg w"
    "idx_get (lr_userConns (wd_router w')) (ai_userID ai) (se_deviceID (wd_sess w s)) = Some s"
    "lr_deviceConn (wd_router w') = gm_set (lr_deviceConn (wd_router w)) (se_deviceID (wd_sess w s)) s"
proof -
  let ?c = "wd_nextConn w"
  let ?w1 = "w\<lparr>wd_conns := (wd_conns w)(?c := conn_for ai (wd_now w)), wd_nextConn := Suc ?c\<rparr>"
  note a = AttachConn_parts [of s ?c ?w1] and i = AttachConn_identity [of s ?c ?w1]
  have h: "cn_state (wd_conns ?w1 ?c) = ConnHandshaking" by (simp add: conn_for_def newConnection_def)
  note k = AttachConn_handshaking_conns [OF h, of s]
  have d: "did_of (snd (sess_AttachConn s ?c ?w1)) s = se_deviceID (wd_sess w s)" by (simp add: did_of_def i)
  show "se_state (wd_sess w' s) = SessActive" "se_conn (wd_sess w' s) = Some (wd_nextConn w)"
    "se_userID (wd_sess w' s) = se_userID (wd_sess w s)" "se_deviceID (wd_sess w' s) = se_deviceID (wd_sess w s)"
    "se_once (wd_sess w' s) = se_once (wd_sess w s)" "se_deps (wd_sess w' s) = se_deps (wd_sess w s)"
    "wd_conns w' (wd_nextConn w) = conn_for ai (wd_now w)" "wd_connReg w' = wd_connReg w"
    by (simp_all add: w'_def attached_def Let_def a i k)
  show "idx_get (lr_userConns (wd_router w')) (ai_userID ai) (se_deviceID (wd_sess w s)) = Some s"
    "lr_deviceConn (wd_router w') = gm_set (lr_deviceConn (wd_router w)) (se_deviceID (wd_sess w s)) s"
    by (simp_all add: w'_def attached_def Let_def RegisterSession_def d a(1) rejoin_keeps_users idx_get_put)
qed

lemma attach_and_register_kicked:
  "\<exists>lastSeq. attach_and_register ai s w =
     ((wd_nextConn w, lastSeq),
      case gm_get (lr_deviceConn (wd_router w)) (se_deviceID (wd_sess w s)) of
        Some old \<Rightarrow> if sid_of w old = sid_of w s
                    then sess_Close old (Some \<lparr>kr_Code = 4011, kr_Reason = ''replaced by new login''\<rparr>) (attached ai s w)
                    else attached ai s w
      | None \<Rightarrow> attached ai s w)"
proof -
  let ?c = "wd_nextConn w"
  let ?w1 = "w\<lparr>wd_conns := (wd_conns w)(?c := conn_for ai (wd_now w)), wd_nextConn := Suc ?c\<rparr>"
  obtain lastSeq w2 where r: "sess_AttachConn s ?c ?w1 = (lastSeq, w2)" by (cases "sess_AttachConn s ?c ?w1")
  then have w2: "w2 = snd (sess_AttachConn s ?c ?w1)" by simp
  have f: "sid_of w2 = sid_of w" "did_of w2 s = se_deviceID (wd_sess w s)"
    "lr_deviceConn (wd_router w2) = lr_deviceConn (wd_router w)"
    unfolding w2 by (simp_all add: AttachConn_parts did_of_def AttachConn_identity rejoin_keeps_users) (simp add: sid_of_def fun_eq_iff)
  show ?thesis
    by (simp add: attach_and_register_def attached_def Let_def r RegisterSession_def f split: option.split)
qed

text \<open>What a successful \<open>establish\<close> has done.\<close>

lemma establish_ok:
  assumes "establish L R f e ai req n = Ret (Inr (s, c)) n'"
  obtains isNew w1 lastSeq w2 wire where
    "reg_GetOrCreate (fd_sha f) (fd_sessDeps f) (fd_hasScanner f) (ai_userID ai) (ai_deviceID ai) (ai_appID ai)
       (ai_deviceType ai) (ai_bizCode ai) (fst n) = ((s, isNew), w1)"
    "attach_and_register ai s w1 = ((c, lastSeq), w2)"
    "fst n' = upd_conn c (\<lambda>_. (conn_Activate (wd_conns w2 c))\<lparr>cn_wire := wire\<rparr>)
       (w2\<lparr>wd_connReg := gm_set (wd_connReg w2) (cn_ConnID (wd_conns w2 c)) c\<rparr>)"
proof -
  obtain s0 isNew w1 where g: "reg_GetOrCreate (fd_sha f) (fd_sessDeps f) (fd_hasScanner f) (ai_userID ai) (ai_deviceID ai) (ai_appID ai)
       (ai_deviceType ai) (ai_bizCode ai) (fst n) = ((s0, isNew), w1)" by (metis prod.exhaust)
  obtain c0 lastSeq w2 where a: "attach_and_register ai s0 w1 = ((c0, lastSeq), w2)" by (metis prod.exhaust)
  let ?w3 = "upd_conn c0 conn_Activate (w2\<lparr>wd_connReg := gm_set (wd_connReg w2) (cn_ConnID (wd_conns w2 c0)) c0\<rparr>)"
  have "s0 = s \<and> c0 = c \<and> sendAuthResponse L f (ce_writeFails e) c0 req (sid_of ?w3 s0) lastSeq ?w3 = Ret False (fst n')"
    using assms by (auto simp: establish_def g a Let_def RegisterConn_def split: if_splits res.splits bool.splits)
  then have eq: "s0 = s" "c0 = c" and r: "sendAuthResponse L f (ce_writeFails e) c req (sid_of ?w3 s) lastSeq ?w3 = Ret False (fst n')" by auto
  have "\<exists>wire. fst n' = upd_conn c (\<lambda>_. (conn_Activate (wd_conns w2 c))\<lparr>cn_wire := wire\<rparr>)
       (w2\<lparr>wd_connReg := gm_set (wd_connReg w2) (cn_ConnID (wd_conns w2 c)) c\<rparr>)"
    using r eq by (auto simp: sendAuthResponse_def Let_def encodeAndWrite_def upd_conn_def split: option.splits prod.splits sum.splits if_splits)
      (rule exI, erule sym)
  with g a eq that show ?thesis by blast
qed

lemma sess_Close_conns: "wd_conns (sess_Close s kick w) = wd_conns w"
  by (simp add: sess_Close_def Let_def conn_Close_def fun_eq_iff split: option.split)

text \<open>A verified client with a connection identifier, a trace context and a working transport always gets through.\<close>

lemma establish_returns:
  assumes "ai_connID ai \<noteq> ''''" and "m_TraceId req = Some t" and "\<not> ce_writeFails e"
    and enc: "\<And>m. \<exists>d. FrameCodec_Encode L (fd_Codec f) m = Inr d"
  shows "\<exists>s c n'. establish L R f e ai req n = Ret (Inr (s, c)) n'"
proof -
  obtain s isNew w1 where g: "reg_GetOrCreate (fd_sha f) (fd_sessDeps f) (fd_hasScanner f) (ai_userID ai) (ai_deviceID ai) (ai_appID ai)
       (ai_deviceType ai) (ai_bizCode ai) (fst n) = ((s, isNew), w1)" by (metis prod.exhaust)
  obtain c lastSeq w2 where a: "attach_and_register ai s w1 = ((c, lastSeq), w2)" by (metis prod.exhaust)
  have "wd_conns w2 c = conn_for ai (wd_now w1)"
    using a attach_and_register_kicked [of ai s w1] attached_parts(7) [of ai s w1]
    by (auto simp: sess_Close_conns split: option.splits if_splits)
  then have "cn_ConnID (wd_conns w2 c) \<noteq> ''''" using assms(1) by (simp add: conn_for_def)
  moreover have "\<exists>w'. sendAuthResponse L f (ce_writeFails e) c req sid lastSeq w = Ret False w'" for sid w
  proof -
    obtain d where "FrameCodec_Encode L (fd_Codec f) ((new_Message FrameType_HANDSHAKE_ACK)\<lparr>m_MsgId := m_MsgId req, m_TraceId := Some t,
        m_Body := Some (HandshakePayload \<lparr>hr_Success = True, hr_SessionId = sid, hr_HeartbeatInterval = fd_HeartbeatTimeout f div Second,
          hr_MaxBodySize = uint (fd_MaxBodySize f), hr_ReplayFrom = lastSeq + 1\<rparr>)\<rparr>) = Inr d" using enc by blast
    then show ?thesis using assms(2,3) by (simp add: sendAuthResponse_def encodeAndWrite_def)
  qed
  then obtain w' where "sendAuthResponse L f (ce_writeFails e) c req
      (sid_of (upd_conn c conn_Activate (w2\<lparr>wd_connReg := gm_set (wd_connReg w2) (cn_ConnID (wd_conns w2 c)) c\<rparr>)) s) lastSeq
      (upd_conn c conn_Activate (w2\<lparr>wd_connReg := gm_set (wd_connReg w2) (cn_ConnID (wd_conns w2 c)) c\<rparr>)) = Ret False w'" by blast
  ultimately show ?thesis by (simp add: establish_def g a Let_def RegisterConn_def)
qed

section \<open>Identities\<close>

text \<open>No step of the set-up changes the user or the device of a session that exists.\<close>

definition same_identity :: "world \<Rightarrow> world \<Rightarrow> bool" where
  "same_identity w w' \<longleftrightarrow> wd_userIndex w' = wd_userIndex w
     \<and> (\<forall>s. se_userID (wd_sess w' s) = se_userID (wd_sess w s) \<and> se_deviceID (wd_sess w' s) = se_deviceID (wd_sess w s))"

lemma same_identity_trans: "same_identity w w1 \<Longrightarrow> same_identity w1 w' \<Longrightarrow> same_identity w w'"
  by (simp add: same_identity_def)

lemma sess_DetachConn_identity: "same_identity w (sess_DetachConn s w)" "wd_conns (sess_DetachConn s w) = wd_conns w"
  by (simp_all add: same_identity_def sess_DetachConn_def Let_def)

lemma sess_Close_identity: "same_identity w (sess_Close s k w)"
  by (simp add: same_identity_def sess_Close_def Let_def split: option.split)

lemma flush_pending_index: "wd_userIndex (flush_pending s c k w) = wd_userIndex w"
proof (cases "gm_get (se_pendingAcks (wd_sess w s)) k")
  case (Some e)
  let ?e = "e\<lparr>pn_retryCount := pn_retryCount e + 1, pn_lastRetryAt := wd_now w\<rparr>"
  let ?w2 = "upd_msg (pn_msg e) (set_header ''x-retry-count'' (Itoa (pn_retryCount ?e)))
      (upd_sess s (\<lambda>x. x\<lparr>se_pendingAcks := gm_set (se_pendingAcks x) k ?e\<rparr>) w)"
  obtain b w3 where r: "world_conn_Submit c (pn_msg e) ?w2 = (b, w3)" by (cases "world_conn_Submit c (pn_msg e) ?w2")
  show ?thesis using Some r world_conn_Submit_fields(8) [OF r] by (simp add: flush_pending_def Let_def)
qed (simp add: flush_pending_def)

lemma AttachConn_keeps_identity: "same_identity w (snd (sess_AttachConn s c w))"
proof -
  have "wd_userIndex (fold (flush_pending s c) ks v) = wd_userIndex v" for ks v
    by (induction ks arbitrary: v) (simp_all add: flush_pending_index)
  then have "wd_userIndex (snd (sess_AttachConn s c w)) = wd_userIndex w" by (simp add: sess_AttachConn_def Let_def)
  then show ?thesis by (simp add: same_identity_def AttachConn_identity)
qed

lemma attach_and_register_identity:
  assumes "attach_and_register ai s w = ((c, lastSeq), w')"
  shows "same_identity w w'" "c = wd_nextConn w" "wd_conns w' = (wd_conns w)(c := conn_for ai (wd_now w))"
proof -
  let ?c = "wd_nextConn w"
  let ?w1 = "w\<lparr>wd_conns := (wd_conns w)(?c := conn_for ai (wd_now w)), wd_nextConn := Suc ?c\<rparr>"
  have "same_identity w (attached ai s w)"
    using AttachConn_keeps_identity [of ?w1 s ?c] by (simp add: attached_def Let_def same_identity_def)
  moreover have "cn_state (wd_conns ?w1 ?c) = ConnHandshaking" by (simp add: conn_for_def newConnection_def)
  then have "wd_conns (attached ai s w) = (wd_conns w)(?c := conn_for ai (wd_now w))"
    by (simp add: attached_def Let_def AttachConn_handshaking_conns)
  moreover have "w' = attached ai s w \<or> (\<exists>old k. w' = sess_Close old k (attached ai s w))" and "c = ?c"
    using attach_and_register_kicked [of ai s w] assms by (auto split: option.splits if_splits)
  ultimately show "same_identity w w'" "c = ?c" "wd_conns w' = (wd_conns w)(c := conn_for ai (wd_now w))"
    by (auto simp: sess_Close_conns intro: same_identity_trans sess_Close_identity)
qed

lemma sendAuthResponse_conn:
  assumes "sendAuthResponse L f fail c req sid lastSeq w = Ret b w'"
  shows "\<exists>wire. w' = upd_conn c (\<lambda>x. x\<lparr>cn_wire := wire\<rparr>) w"
proof -
  have "\<exists>wire. snd (encodeAndWrite L fc fail m x) = x\<lparr>cn_wire := wire\<rparr>" for fc m and x :: Connection
    by (auto simp: encodeAndWrite_def split: sum.split intro: exI [of _ "cn_wire x"])
  then show ?thesis using assms
    by (auto simp: sendAuthResponse_def Let_def upd_conn_def split: option.splits prod.splits) (metis snd_conv)+
qed

text \<open>What \<open>establish\<close> has done to the identities in the node, however it ends.\<close>

lemma establish_identity:
  assumes est: "establish L R f e ai req n = Ret est n'" and ok: "registry_ok (fd_sha f) (fst n)"
  shows "\<exists>s. lookup_user (ai_userID ai) (ai_deviceID ai) (fst n') = Some s
    \<and> se_userID (wd_sess (fst n') s) = ai_userID ai \<and> se_deviceID (wd_sess (fst n') s) = ai_deviceID ai
    \<and> cn_UserID (wd_conns (fst n') (wd_nextConn (fst n))) = ai_userID ai
    \<and> cn_DeviceID (wd_conns (fst n') (wd_nextConn (fst n))) = ai_deviceID ai
    \<and> (\<forall>s'. s' \<noteq> s \<longrightarrow> se_userID (wd_sess (fst n') s') = se_userID (wd_sess (fst n) s')
                     \<and> se_deviceID (wd_sess (fst n') s') = se_deviceID (wd_sess (fst n) s'))
    \<and> (\<forall>c'. c' \<noteq> wd_nextConn (fst n) \<longrightarrow> wd_conns (fst n') c' = wd_conns (fst n) c')
    \<and> (case est of Inl _ \<Rightarrow> True | Inr sc \<Rightarrow> sc = (s, wd_nextConn (fst n)))"
proof -
  obtain s isNew w1 where g: "reg_GetOrCreate (fd_sha f) (fd_sessDeps f) (fd_hasScanner f) (ai_userID ai) (ai_deviceID ai) (ai_appID ai)
       (ai_deviceType ai) (ai_bizCode ai) (fst n) = ((s, isNew), w1)" by (metis prod.exhaust)
  have w1: "lookup_user (ai_userID ai) (ai_deviceID ai) w1 = Some s" "se_userID (wd_sess w1 s) = ai_userID ai"
      "se_deviceID (wd_sess w1 s) = ai_deviceID ai" "wd_conns w1 = wd_conns (fst n)" "wd_nextConn w1 = wd_nextConn (fst n)"
    and others: "s' \<noteq> s \<Longrightarrow> wd_sess w1 s' = wd_sess (fst n) s'" for s'
    using g ok by (auto simp: reg_GetOrCreate_def Let_def lookup_user_def NewSession_def registry_ok_def split: option.splits)
  obtain c lastSeq w2 where a: "attach_and_register ai s w1 = ((c, lastSeq), w2)" by (metis prod.exhaust)
  note id2 = attach_and_register_identity [OF a]
  have act: "cn_UserID (conn_Activate x) = cn_UserID x" "cn_DeviceID (conn_Activate x) = cn_DeviceID x" for x
    by (simp_all add: conn_Activate_def)
  have "same_identity w2 (fst n') \<and> cn_UserID (wd_conns (fst n') c) = ai_userID ai \<and> cn_DeviceID (wd_conns (fst n') c) = ai_deviceID ai
      \<and> (\<forall>c'. c' \<noteq> c \<longrightarrow> wd_conns (fst n') c' = wd_conns w2 c') \<and> (case est of Inl _ \<Rightarrow> True | Inr sc \<Rightarrow> sc = (s, c))"
  proof (cases "RegisterConn (cn_ConnID (wd_conns w2 c)) c (wd_connReg w2)")
    case (Pair okc reg)
    have k: "cn_UserID (wd_conns w2 c) = ai_userID ai" "cn_DeviceID (wd_conns w2 c) = ai_deviceID ai"
      by (simp_all add: id2(3) conn_for_def)
    show ?thesis
    proof (cases okc)
      case False
      then show ?thesis using est k sess_DetachConn_identity [where w = w2 and s = s]
        by (auto simp: establish_def g a Pair Let_def close_transport_def same_identity_def)
    next
      case True
      let ?w3 = "upd_conn c conn_Activate (w2\<lparr>wd_connReg := reg\<rparr>)"
      obtain b w4 where r: "sendAuthResponse L f (ce_writeFails e) c req (sid_of ?w3 s) lastSeq ?w3 = Ret b w4"
        using est True by (auto simp: establish_def g a Pair Let_def split: res.splits)
      obtain wire where w4: "w4 = upd_conn c (\<lambda>x. x\<lparr>cn_wire := wire\<rparr>) ?w3" using sendAuthResponse_conn [OF r] by blast
      show ?thesis using est k sess_DetachConn_identity [where w = w4 and s = s]
        by (cases b) (auto simp: establish_def g a Pair Let_def True r close_transport_def same_identity_def w4 act)
    qed
  qed
  then show ?thesis using w1 others id2 by (auto simp: same_identity_def lookup_user_def intro!: exI [of _ s])
qed

section \<open>Properties\<close>

text \<open>
  C14. Only a verified client changes the node, and it enters under the identity the authentication
  service gave. A connection whose handshake is refused leaves the node as it was. In every other
  case the first frame decoded to a handshake whose non-empty token the service accepted for a user
  \<open>u\<close> and a device \<open>d\<close>; the node is then set up for that identity: the new connection carries \<open>u\<close>
  and \<open>d\<close>, the session registry leads from \<open>u\<close> and \<open>d\<close> to a session that belongs to \<open>u\<close> and \<open>d\<close>, no
  other session changes its identity, no other connection changes at all; and the connection is
  either turned away there or run with that session.
\<close>

theorem only_verified_clients_enter:
  assumes "CreateAndRun L R f errText e n = Ret res n'" and "registry_ok (fd_sha f) (fst n)"
  shows "(\<exists>frame. res = HandshakeRefused frame \<and> n' = n)
    \<or> (\<exists>raw msg req u d n1 s c. c = wd_nextConn (fst n)
         \<and> he_Read (ce_handshake e) = Some raw \<and> FrameCodec_Decode L raw = Inr msg
         \<and> m_Type msg = FrameType_HANDSHAKE \<and> he_unmarshal (ce_handshake e) (m_Body msg) = Some req
         \<and> hq_Token req \<noteq> '''' \<and> he_Verify (ce_handshake e) (hq_Token req) = Inr (u, d)
         \<and> cn_UserID (wd_conns (fst n1) c) = u \<and> cn_DeviceID (wd_conns (fst n1) c) = d
         \<and> lookup_user u d (fst n1) = Some s
         \<and> se_userID (wd_sess (fst n1) s) = u \<and> se_deviceID (wd_sess (fst n1) s) = d
         \<and> (\<forall>s'. s' \<noteq> s \<longrightarrow> se_userID (wd_sess (fst n1) s') = se_userID (wd_sess (fst n) s')
                          \<and> se_deviceID (wd_sess (fst n1) s') = se_deviceID (wd_sess (fst n) s'))
         \<and> (\<forall>c'. c' \<noteq> c \<longrightarrow> wd_conns (fst n1) c' = wd_conns (fst n) c')
         \<and> ((res = ConnRejected \<or> res = ResponseFailed) \<and> n' = n1 \<or> run_connection L R f e s c n1 = Ret res n'))"
proof (cases "doHandshake L (ce_handshake e)")
  case (Inl err)
  then show ?thesis using assms by (auto simp: CreateAndRun_def)
next
  case (Inr p)
  obtain ai msg where p: "p = (ai, msg)" by (cases p)
  obtain raw req where hs: "he_Read (ce_handshake e) = Some raw" "FrameCodec_Decode L raw = Inr msg"
    "m_Type msg = FrameType_HANDSHAKE" "he_unmarshal (ce_handshake e) (m_Body msg) = Some req"
    "hq_Token req \<noteq> ''''" "he_Verify (ce_handshake e) (hq_Token req) = Inr (ai_userID ai, ai_deviceID ai)"
    using Inr unfolding p by (auto simp: doHandshake_def bindE_Inr_iff split: if_splits option.splits)
  obtain est n1 where est: "establish L R f e ai msg n = Ret est n1"
    and rest: "(case est of Inl early \<Rightarrow> Ret early n1 | Inr (s, c) \<Rightarrow> run_connection L R f e s c n1) = Ret res n'"
    using assms(1) by (auto simp: CreateAndRun_def Inr p bindG_def split: res.splits)
  have early: "x = ConnRejected \<or> x = ResponseFailed" if "est = Inl x" for x
    using est that by (auto simp: establish_def Let_def split: prod.splits bool.splits res.splits)
  obtain s where s: "lookup_user (ai_userID ai) (ai_deviceID ai) (fst n1) = Some s"
      "se_userID (wd_sess (fst n1) s) = ai_userID ai" "se_deviceID (wd_sess (fst n1) s) = ai_deviceID ai"
      "cn_UserID (wd_conns (fst n1) (wd_nextConn (fst n))) = ai_userID ai"
      "cn_DeviceID (wd_conns (fst n1) (wd_nextConn (fst n))) = ai_deviceID ai"
      "\<forall>s'. s' \<noteq> s \<longrightarrow> se_userID (wd_sess (fst n1) s') = se_userID (wd_sess (fst n) s')
                     \<and> se_deviceID (wd_sess (fst n1) s') = se_deviceID (wd_sess (fst n) s')"
      "\<forall>c'. c' \<noteq> wd_nextConn (fst n) \<longrightarrow> wd_conns (fst n1) c' = wd_conns (fst n) c'"
      "case est of Inl _ \<Rightarrow> True | Inr sc \<Rightarrow> sc = (s, wd_nextConn (fst n))"
    using establish_identity [OF est assms(2)] by blast
  have "(res = ConnRejected \<or> res = ResponseFailed) \<and> n' = n1 \<or> run_connection L R f e s (wd_nextConn (fst n)) n1 = Ret res n'"
    using rest early s(8) by (cases est) auto
  with hs s(1-7) show ?thesis by blast
qed

text \<open>
  C23. A first login wires everything up. When a device is new to the node and \<open>establish\<close> succeeds,
  the session is active, belongs to the verified user and device and is attached to the new
  connection; the connection is active, carries that identity and is in the connection registry;
  and the router leads from the user to the session.
\<close>

theorem first_login_is_routed:
  assumes "establish L R f e ai req n = Ret (Inr (s, c)) n'"
    and "lookup_user (ai_userID ai) (ai_deviceID ai) (fst n) = None"
    and "gm_get (lr_deviceConn (wd_router (fst n))) (ai_deviceID ai) = None"
  shows "sess_IsActive s (fst n') \<and> se_userID (wd_sess (fst n') s) = ai_userID ai \<and> se_deviceID (wd_sess (fst n') s) = ai_deviceID ai
    \<and> se_conn (wd_sess (fst n') s) = Some c
    \<and> conn_IsActive (wd_conns (fst n') c) \<and> cn_UserID (wd_conns (fst n') c) = ai_userID ai
    \<and> cn_DeviceID (wd_conns (fst n') c) = ai_deviceID ai
    \<and> GetConn (ai_connID ai) (wd_connReg (fst n')) = Some c
    \<and> idx_get (lr_userConns (wd_router (fst n'))) (ai_userID ai) (ai_deviceID ai) = Some s"
proof -
  from assms(1) obtain isNew w1 lastSeq w2 wire where
    g: "reg_GetOrCreate (fd_sha f) (fd_sessDeps f) (fd_hasScanner f) (ai_userID ai) (ai_deviceID ai) (ai_appID ai)
       (ai_deviceType ai) (ai_bizCode ai) (fst n) = ((s, isNew), w1)"
    and a: "attach_and_register ai s w1 = ((c, lastSeq), w2)"
    and n': "fst n' = upd_conn c (\<lambda>_. (conn_Activate (wd_conns w2 c))\<lparr>cn_wire := wire\<rparr>)
       (w2\<lparr>wd_connReg := gm_set (wd_connReg w2) (cn_ConnID (wd_conns w2 c)) c\<rparr>)" by (rule establish_ok)
  have s1: "se_userID (wd_sess w1 s) = ai_userID ai" "se_deviceID (wd_sess w1 s) = ai_deviceID ai" "wd_router w1 = wd_router (fst n)"
    using g assms(2) by (auto simp: reg_GetOrCreate_def Let_def NewSession_def)
  have w2: "w2 = attached ai s w1" and c: "c = wd_nextConn w1"
    using attach_and_register_kicked [of ai s w1] a assms(3) by (auto simp: s1)
  note p = attached_parts [of ai s w1]
  have k: "wd_conns w2 c = conn_for ai (wd_now w1)" using p w2 c by simp
  show ?thesis
    using p s1 w2 c k
    by (simp add: n' sess_IsActive_def conn_IsActive_def conn_Activate_def GetConn_def conn_for_def newConnection_def)
qed

text \<open>
  A reconnecting client is cut off by its own login. When the session of a returning device is
  still the one the router holds for that device (it is: only closing a session removes it), the
  router reports the session itself as the one to kick, and the factory closes it right after it has
  attached the new connection. The client has an active connection, but its session is closed,
  the downlink filter drops it, and the router no longer leads from the user to this device.
\<close>

theorem relogin_closes_the_session_just_attached:
  assumes "establish L R f e ai req n = Ret (Inr (s, c)) n'"
    and known: "lookup_user (ai_userID ai) (ai_deviceID ai) (fst n) = Some s0"
      "se_deviceID (wd_sess (fst n) s0) = ai_deviceID ai" "se_userID (wd_sess (fst n) s0) = ai_userID ai"
      "gm_get (lr_deviceConn (wd_router (fst n))) (ai_deviceID ai) = Some s0"
    and fresh: "\<not> se_once (wd_sess (fst n) s0)" and "dp_Acker (se_deps (wd_sess (fst n) s0))"
  shows "s = s0 \<and> se_conn (wd_sess (fst n') s) = Some c \<and> conn_IsActive (wd_conns (fst n') c)
    \<and> se_state (wd_sess (fst n') s) = SessClosed \<and> s \<notin> set (filter_targets (fst n') x targets)
    \<and> idx_get (lr_userConns (wd_router (fst n'))) (ai_userID ai) (ai_deviceID ai) = None"
proof -
  from assms(1) obtain isNew w1 lastSeq w2 wire where
    g: "reg_GetOrCreate (fd_sha f) (fd_sessDeps f) (fd_hasScanner f) (ai_userID ai) (ai_deviceID ai) (ai_appID ai)
       (ai_deviceType ai) (ai_bizCode ai) (fst n) = ((s, isNew), w1)"
    and a: "attach_and_register ai s w1 = ((c, lastSeq), w2)"
    and n': "fst n' = upd_conn c (\<lambda>_. (conn_Activate (wd_conns w2 c))\<lparr>cn_wire := wire\<rparr>)
       (w2\<lparr>wd_connReg := gm_set (wd_connReg w2) (cn_ConnID (wd_conns w2 c)) c\<rparr>)" by (rule establish_ok)
  have s: "s = s0" and w1: "w1 = fst n" using g known(1) by (auto simp: reg_GetOrCreate_def Let_def)
  let ?k = "Some \<lparr>kr_Code = 4011, kr_Reason = ''replaced by new login''\<rparr>"
  let ?a = "attached ai s w1"
  have w2: "w2 = sess_Close s ?k ?a" and c: "c = wd_nextConn w1"
    using attach_and_register_kicked [of ai s w1] a known(4) by (auto simp: s w1 known)
  note p = attached_parts [of ai s w1]
  have o: "\<not> se_once (wd_sess ?a s)" "dp_Acker (se_deps (wd_sess ?a s))" using fresh assms(7) p by (simp_all add: s w1)
  note q = sess_Close_parts [OF o, of ?k]
  have idx: "idx_get (lr_userConns (wd_router w2)) (ai_userID ai) (ai_deviceID ai) = None"
    using o p known by (simp add: w2 sess_Close_def Let_def UnregisterSession_def s w1 split: option.split)
  have k: "wd_conns w2 c = conn_for ai (wd_now w1)" using q p c w2 by simp
  show ?thesis
    using p q s c k idx w2
    by (simp add: n' conn_IsActive_def conn_Activate_def conn_for_def newConnection_def filter_targets_def sess_IsActive_def)
qed

text \<open>
  A lost connection suspends its session and keeps its state. After \<open>onClose\<close> the session is
  suspended without a connection, is listed in no room and no topic, and is out of the connection
  registry, while its subscriptions and pending messages are kept for the reconnect.
\<close>

theorem onClose_suspends:
  "let w = fst n; w' = fst (onClose R b s c n) in
     se_state (wd_sess w' s) = SessSuspended \<and> se_conn (wd_sess w' s) = None
   \<and> GetConn (cn_ConnID (wd_conns w c)) (wd_connReg w') = None
   \<and> idx_get (lr_rooms (wd_router w')) k (sid_of w s) = None \<and> idx_get (lr_topics (wd_router w')) k (sid_of w s) = None
   \<and> se_rooms (wd_sess w' s) = se_rooms (wd_sess w s) \<and> se_topics (wd_sess w' s) = se_topics (wd_sess w s)
   \<and> se_pendingAcks (wd_sess w' s) = se_pendingAcks (wd_sess w s)"
proof -
  define w where "w = fst n"
  note p = DetachConn_parts [of s w]
  have d: "wd_conns (sess_DetachConn s w) = wd_conns w" by (simp add: sess_DetachConn_def Let_def)
  have sid: "sid_of (v\<lparr>wd_connReg := x\<rparr>) = sid_of v" for v :: world and x by (simp add: sid_of_def fun_eq_iff)
  have u: "idx_get (lr_rooms (UnregisterAll (sid_of w) s r)) k (sid_of w s) = None"
    "idx_get (lr_topics (UnregisterAll (sid_of w) s r)) k (sid_of w s) = None" for r
    by (simp_all add: UnregisterAll_def)
  show ?thesis
    using p by (simp add: onClose_def Let_def w_def [symmetric] GetConn_def UnregisterConn_def d sid u)
qed

section \<open>Losing the client\<close>

text \<open>A connection with nothing to write, whose context lives.\<close>

definition conn_idle :: "Connection \<Rightarrow> bool" where
  "conn_idle c \<longleftrightarrow> conn_ok c \<and> conn_IsActive c \<and> \<not> cn_ctxDone c \<and> ch_buf (cn_writeCh c) = []"

definition own_turn :: "conn_event \<Rightarrow> bool" where
  "own_turn x \<longleftrightarrow> (case x of ReadTurn _ \<Rightarrow> True | WriteTurn _ _ \<Rightarrow> True | _ \<Rightarrow> False)"

lemma upd_conn_same [simp]: "upd_conn c (\<lambda>_. wd_conns w c) w = w"
  by (simp add: upd_conn_def)

text \<open>When the read loop is gone and there is nothing to write, no turn of the loops changes anything.\<close>

lemma serve_idle_turns:
  "conn_idle (wd_conns w c) \<Longrightarrow> list_all own_turn es \<Longrightarrow>
     serve L fc reg s c True False (es @ rest) w = serve L fc reg s c True False rest w"
proof (induction es)
  case (Cons x es)
  have "writeLoop_turn L fc h p fs (wd_conns w c) = (LoopBlocked, wd_conns w c)" for h p fs
    using Cons.prems(1) by (simp add: conn_idle_def writeLoop_turn_def recv_def conn_ok_def)
  with Cons show ?case by (cases x) (simp_all add: own_turn_def)
qed simp

lemma establish_attached:
  assumes "establish L R f e ai req n = Ret (Inr (s, c)) n'"
  shows "conn_idle (wd_conns (fst n') c)" "se_conn (wd_sess (fst n') s) = Some c"
proof -
  from assms obtain isNew w1 lastSeq w2 wire where
    a: "attach_and_register ai s w1 = ((c, lastSeq), w2)"
    and n': "fst n' = upd_conn c (\<lambda>_. (conn_Activate (wd_conns w2 c))\<lparr>cn_wire := wire\<rparr>)
       (w2\<lparr>wd_connReg := gm_set (wd_connReg w2) (cn_ConnID (wd_conns w2 c)) c\<rparr>)" by (rule establish_ok)
  have k: "wd_conns w2 c = conn_for ai (wd_now w1)" using attach_and_register_identity(3) [OF a] by simp
  show "conn_idle (wd_conns (fst n') c)"
    by (simp add: n' k conn_idle_def conn_Activate_def conn_for_def newConnection_def conn_IsActive_def conn_ok_def
        make_chan_def chan_bounded_def WriteChannelSize_def)
  have "se_conn (wd_sess (sess_Close x kick v) y) = se_conn (wd_sess v y)" for x y kick v
    by (simp add: sess_Close_def Let_def split: option.split)
  then show "se_conn (wd_sess (fst n') s) = Some c"
    using attach_and_register_kicked [of ai s w1] a attached_parts(2) [of ai s w1]
    by (auto simp: n' split: option.splits if_splits)
qed


section \<open>Witnesses\<close>

definition login_lib :: "Message codec_lib" where
  "login_lib = sample_lib\<lparr>proto_Unmarshal := (\<lambda>b. Inr ((new_Message FrameType_HANDSHAKE)\<lparr>m_TraceId := Some ''t''\<rparr>))\<rparr>"

definition login_deps :: FactoryDeps where
  "login_deps = \<lparr>fd_Codec = DefaultConfig, fd_HandlerReg = Build None, fd_sha = id,
     fd_sessDeps = \<lparr>dp_Worker = False, dp_Offline = True, dp_Acker = True, dp_MaxRetries = 0\<rparr>, fd_hasScanner = True,
     fd_DistRouter = \<lparr>dr_gatewayAddr = ''gw''\<rparr>, fd_HeartbeatTimeout = 30 * Second, fd_MaxBodySize = 2097152\<rparr>"

definition login_env :: conn_env where
  "login_env = \<lparr>ce_handshake = \<lparr>he_deadlineErr = False, he_Read = Some [34],
       he_unmarshal = (\<lambda>_. Some \<lparr>hq_Token = ''tok'', hq_AppId = ''app'', hq_DeviceType = ''ios''\<rparr>),
       he_Verify = (\<lambda>_. Inr (''u'', ''d'')), he_uuid = ''c1''\<rparr>,
     ce_regFails = False, ce_writeFails = False, ce_events = [], ce_unregFails = False\<rparr>"

definition login_info :: authInfo where
  "login_info = \<lparr>ai_userID = ''u'', ai_deviceID = ''d'', ai_appID = ''app'', ai_deviceType = ''ios'', ai_bizCode = '''', ai_connID = ''c1''\<rparr>"

definition login_msg :: Message where
  "login_msg = (new_Message FrameType_HANDSHAKE)\<lparr>m_TraceId := Some ''t''\<rparr>"

lemma login_encodes: "\<exists>d. FrameCodec_Encode login_lib (fd_Codec login_deps) m = Inr d"
  by (simp add: FrameCodec_Encode_def login_lib_def login_deps_def DefaultConfig_def codec_marshal_def codec_compress_def
      sample_lib_def codec_ids)

lemma login_establishes: "\<exists>s c n'. establish login_lib map_redis login_deps login_env login_info login_msg n = Ret (Inr (s, c)) n'"
  by (rule establish_returns [OF _ _ _ login_encodes]) (simp_all add: login_info_def login_msg_def login_env_def new_Message_def)

lemma login_handshake: "doHandshake login_lib (ce_handshake login_env) = Inr (login_info, login_msg)"
proof -
  have "FrameCodec_Decode login_lib [34] = Inr login_msg"
    by (simp add: FrameCodec_Decode_def login_lib_def sample_lib_def login_msg_def frameCodecByte_CodecType_def
        frameCodecByte_CompressAlgo_def codec_decompress_def codec_unmarshal_def codec_ids Let_def)
  then show ?thesis by (simp add: doHandshake_def login_env_def login_info_def login_msg_def new_Message_def)
qed

theorem only_verified_clients_enter_witness:
  "\<exists>s n' n1. CreateAndRun login_lib map_redis login_deps (\<lambda>_. '''') login_env (sample_world, Map.empty) = Ret (StillRunning s 1) n'
     \<and> run_connection login_lib map_redis login_deps login_env s 1 n1 = Ret (StillRunning s 1) n'
     \<and> cn_UserID (wd_conns (fst n1) 1) = ''u'' \<and> cn_DeviceID (wd_conns (fst n1) 1) = ''d''
     \<and> lookup_user ''u'' ''d'' (fst n1) = Some s \<and> se_userID (wd_sess (fst n1) s) = ''u''"
proof -
  obtain s c n' where e: "establish login_lib map_redis login_deps login_env login_info login_msg (sample_world, Map.empty) = Ret (Inr (s, c)) n'"
    using login_establishes by blast
  have ok: "registry_ok (fd_sha login_deps) (fst (sample_world, Map.empty))" by (simp add: registry_ok_def)
  have "(s, c) = (s, wd_nextConn sample_world)" using establish_identity [OF e ok] by auto
  then have c: "c = 1" by (simp add: sample_world_def)
  have "ce_events login_env = []" by (simp add: login_env_def)
  then have r: "CreateAndRun login_lib map_redis login_deps (\<lambda>_. '''') login_env (sample_world, Map.empty) = Ret (StillRunning s 1) n'"
    using e by (simp add: CreateAndRun_def login_handshake bindG_def run_connection_def c)
  have v: "he_Verify (ce_handshake login_env) t = Inr (u, d) \<longleftrightarrow> u = ''u'' \<and> d = ''d''" for t u d by (auto simp: login_env_def)
  have n: "wd_nextConn (fst (sample_world, Map.empty :: string \<Rightarrow> string option)) = 1" by (simp add: sample_world_def)
  have run: "s' = s" if "run_connection login_lib map_redis login_deps login_env s' 1 n1 = Ret (StillRunning s 1) n'" for s' n1
    using that by (auto simp: run_connection_def split: res.splits if_splits)
  show ?thesis using only_verified_clients_enter [OF r ok] r run unfolding v n by fastforce
qed

theorem first_login_is_routed_witness:
  "\<exists>s c n'. establish login_lib map_redis login_deps login_env login_info login_msg (sample_world, Map.empty) = Ret (Inr (s, c)) n'
     \<and> idx_get (lr_userConns (wd_router (fst n'))) ''u'' ''d'' = Some s"
proof -
  obtain s c n' where e: "establish login_lib map_redis login_deps login_env login_info login_msg (sample_world, Map.empty) = Ret (Inr (s, c)) n'"
    using login_establishes by blast
  show ?thesis
    using first_login_is_routed [OF e] e by (auto simp: login_info_def lookup_user_def NewLocalRouter_def)
qed


definition relogin_world :: world where
  "relogin_world = sample_world\<lparr>wd_userIndex := [(''u'', [(''d'', 0)])],
     wd_router := NewLocalRouter\<lparr>lr_deviceConn := [(''d'', 0)]\<rparr>\<rparr>"

theorem relogin_closes_the_session_just_attached_witness:
  "\<exists>c n'. establish login_lib map_redis login_deps login_env login_info login_msg (relogin_world, Map.empty) = Ret (Inr (0, c)) n'
     \<and> conn_IsActive (wd_conns (fst n') c) \<and> se_state (wd_sess (fst n') 0) = SessClosed"
proof -
  obtain s c n' where e: "establish login_lib map_redis login_deps login_env login_info login_msg (relogin_world, Map.empty) = Ret (Inr (s, c)) n'"
    using login_establishes by blast
  show ?thesis
    using relogin_closes_the_session_just_attached [OF e, of 0] e
    by (auto simp: login_info_def lookup_user_def relogin_world_def idx_get_def gm_get_def sample_session_def)
qed

end
