(* ===== verification/Worker_Loops.thy ===== *)
theory Worker_Loops
  imports Uplink Downlink
begin

text \<open>
  The worker goroutines of \<open>gateway/internal/worker/pool.go\<close>. A turn of a loop is a function on the
  node; what the turn cannot decide is its argument: which ready branch \<open>select\<close> takes, and what the
  upstream sender answers (\<open>None\<close> is success, \<open>Some\<close> an error text). \<open>wd_sent\<close> records what the
  sender has accepted.

  Receiving from a closed and drained channel yields a job whose message is nil at once, so that
  after \<open>Stop\<close> both branches of the \<open>select\<close> are ready.
\<close>

definition ERR_UPSTREAM_SEND_FAILED :: int where
  "ERR_UPSTREAM_SEND_FAILED = 4001"

definition upstream_error_reply :: "string \<Rightarrow> string \<Rightarrow> Message" where
  "upstream_error_reply msgID err =
     (new_Message FrameType_ERROR)\<lparr>m_TraceId := Some msgID, m_Delivery := Some (empty_Delivery\<lparr>d_AckId := Some msgID\<rparr>),
       m_Body := Some (ErrorPayload ERR_UPSTREAM_SEND_FAILED (''upstream send failed: '' @ err))\<rparr>"

text \<open>The body of the receive branch of \<open>upstreamWorker\<close>.\<close>

definition upstream_job :: "string option \<Rightarrow> UpstreamJob \<Rightarrow> (world, unit) go" where
  "upstream_job outcome job w =
     (let msg = msg_of w (uj_Msg job)
      in if IsExpired (UnixMilli (wd_now w)) (m_ExpireAt msg) then Ret () w
         else
           (case outcome of
              None \<Rightarrow> Ret () (w\<lparr>wd_sent := wd_sent w @ [msg]\<rparr>)
            | Some err \<Rightarrow>
                (case new_msg (upstream_error_reply (m_MsgId msg) err) w of
                   (r, w1) \<Rightarrow> bindG (sess_Submit (uj_Sess job) r) (\<lambda>_. retG ()) w1)))"

definition upstreamWorker_turn :: "string \<Rightarrow> bool \<Rightarrow> string option \<Rightarrow> (world, loop_result) go" where
  "upstreamWorker_turn biz pickDone outcome w =
     (case gm_get (wd_pools w) biz of
        None \<Rightarrow> Ret LoopReturned w
      | Some p \<Rightarrow>
          if wp_ctxDone p \<and> (pickDone \<or> recv (wp_upstreamCh p) = Blocked) then Ret LoopReturned w
          else
            (case recv (wp_upstreamCh p) of
               Blocked \<Rightarrow> Ret LoopBlocked w
             | RecvZero \<Rightarrow> Panic w
             | Received job ch \<Rightarrow>
                 bindG (upstream_job outcome job) (\<lambda>_. retG LoopContinues)
                   (set_pool biz (p\<lparr>wp_upstreamCh := ch\<rparr>) w)))"

definition downstreamWorker_turn :: "string \<Rightarrow> bool \<Rightarrow> (world, loop_result) go" where
  "downstreamWorker_turn biz pickDone w =
     (case gm_get (wd_pools w) biz of
        None \<Rightarrow> Ret LoopReturned w
      | Some p \<Rightarrow>
          (let run = (\<lambda>msg v. case downlink_Run (pc_OfflineStore (wp_cfg p)) msg v of
                                Ret _ s \<Rightarrow> Ret LoopContinues (ps_w s)
                              | Panic s \<Rightarrow> Panic (ps_w s))
           in if wp_ctxDone p \<and> (pickDone \<or> recv (wp_downstreamCh p) = Blocked) then Ret LoopReturned w
              else
                (case recv (wp_downstreamCh p) of
                   Blocked \<Rightarrow> Ret LoopBlocked w
                 | RecvZero \<Rightarrow> run None w
                 | Received m ch \<Rightarrow> run (Some m) (set_pool biz (p\<lparr>wp_downstreamCh := ch\<rparr>) w))))"

text \<open>A worker runs one turn after the other until it returns or blocks.\<close>

fun upstreamWorker :: "string \<Rightarrow> (bool \<times> string option) list \<Rightarrow> (world, loop_result) go" where
  "upstreamWorker biz [] w = Ret LoopContinues w"
| "upstreamWorker biz ((pickDone, outcome) # rest) w =
     bindG (upstreamWorker_turn biz pickDone outcome)
       (\<lambda>r. if r = LoopContinues then upstreamWorker biz rest else retG r) w"

fun downstreamWorker :: "string \<Rightarrow> bool list \<Rightarrow> (world, loop_result) go" where
  "downstreamWorker biz [] w = Ret LoopContinues w"
| "downstreamWorker biz (pickDone # rest) w =
     bindG (downstreamWorker_turn biz pickDone)
       (\<lambda>r. if r = LoopContinues then downstreamWorker biz rest else retG r) w"

section \<open>What a submission leaves alone\<close>

lemma handleUndelivered_frame:
  assumes "m_Delivery (msg_of w m) = Some d"
  shows "\<exists>w'. sess_handleUndelivered s m w = Ret () w' \<and> msg_of w' = msg_of w
    \<and> wd_pools w' = wd_pools w \<and> wd_now w' = wd_now w \<and> wd_sent w' = wd_sent w \<and> mh_next (wd_heap w') = mh_next (wd_heap w)"
  using assms by (simp add: sess_handleUndelivered_def offline_Store_def msg_of_def fun_eq_iff)

lemma world_conn_Submit_frame:
  assumes "world_conn_Submit c m w = (ok, w')"
  shows "wd_sent w' = wd_sent w" "mh_next (wd_heap w') = mh_next (wd_heap w)"
  using assms by (auto simp: world_conn_Submit_def conn_Submit_def Let_def split: if_splits send_result.splits)

definition frame :: "mref \<Rightarrow> world \<Rightarrow> world \<Rightarrow> bool" where
  "frame m w w' \<longleftrightarrow> wd_pools w' = wd_pools w \<and> wd_now w' = wd_now w \<and> wd_sent w' = wd_sent w
     \<and> mh_next (wd_heap w') = mh_next (wd_heap w) \<and> (\<forall>r. r \<noteq> m \<longrightarrow> msg_of w' r = msg_of w r)"

lemma sess_Submit_frame:
  assumes d: "m_Delivery (msg_of w m) = Some d"
  shows "\<exists>b w'. sess_Submit s m w = Ret b w' \<and> frame m w w'"
proof (cases "\<exists>c. se_conn (wd_sess w s) = Some c \<and> conn_IsActive (wd_conns w c)")
  case False
  then have "sess_Submit s m w = bindG (sess_handleUndelivered s m) (\<lambda>_. retG False) w"
    by (intro sess_Submit_offline) (cases "se_conn (wd_sess w s)"; simp)
  then show ?thesis using handleUndelivered_frame [OF d, of s] by (auto simp: bindG_def retG_def frame_def)
next
  case True
  then obtain c where c: "se_conn (wd_sess w s) = Some c" and act: "conn_IsActive (wd_conns w c)" by blast
  obtain b w1 where r: "world_conn_Submit c m w = (b, w1)" by (cases "world_conn_Submit c m w")
  note f = world_conn_Submit_fields [OF r] world_conn_Submit_frame [OF r]
  have fr: "frame m w w1" using f by (simp add: frame_def)
  have fr2: "frame m w v" if "frame m w1 v" for v using fr that by (simp add: frame_def)
  have d1: "m_Delivery (msg_of w1 m) = Some d" using d f by simp
  have up: "frame m w1 (upd_sess s g w1)" for g by (simp add: frame_def)
  have tr: "frame m v (acker_Track s m (record_pending s m v))" for v
    by (simp add: frame_def acker_Track_def record_pending_def upd_sess_def msg_of_def)
  show ?thesis
  proof (cases b)
    case True
    have "frame m w1 (acker_Track s m (record_pending s m (upd_sess s g w1)))" for g
      using up [of g] tr [of "upd_sess s g w1"] by (simp add: frame_def)
    with True up show ?thesis unfolding sess_Submit_active [OF c act r] by (auto simp: Let_def intro!: fr2)
  next
    case False
    obtain w2 where h: "sess_handleUndelivered s m w1 = Ret () w2" and "frame m w1 w2"
      using handleUndelivered_frame [OF d1, of s] by (auto simp: frame_def)
    then have "frame m w w2" by (intro fr2)
    then show ?thesis using False h unfolding sess_Submit_active [OF c act r] by (auto simp: bindG_def retG_def)
  qed
qed

section \<open>Properties\<close>

text \<open>
  The jobs of a queue with the sender's answers, kept where the message has not expired and the
  sender accepts.
\<close>

definition accepted :: "world \<Rightarrow> UpstreamJob list \<Rightarrow> string option list \<Rightarrow> Message list" where
  "accepted w jobs outcomes =
     map (\<lambda>(j, a). msg_of w (uj_Msg j))
       (filter (\<lambda>(j, a). \<not> IsExpired (UnixMilli (wd_now w)) (m_ExpireAt (msg_of w (uj_Msg j))) \<and> a = None) (zip jobs outcomes))"

lemma upstream_job_frame:
  assumes "uj_Msg job < mh_next (wd_heap w)"
  shows "\<exists>w'. upstream_job outcome job w = Ret () w' \<and> wd_pools w' = wd_pools w \<and> wd_now w' = wd_now w
    \<and> wd_sent w' = wd_sent w @ accepted w [job] [outcome]
    \<and> mh_next (wd_heap w') \<ge> mh_next (wd_heap w) \<and> (\<forall>r < mh_next (wd_heap w). msg_of w' r = msg_of w r)"
proof (cases "IsExpired (UnixMilli (wd_now w)) (m_ExpireAt (msg_of w (uj_Msg job)))")
  case True
  then show ?thesis by (simp add: upstream_job_def accepted_def)
next
  case False
  show ?thesis
  proof (cases outcome)
    case None
    with False show ?thesis by (simp add: upstream_job_def accepted_def msg_of_def)
  next
    case (Some err)
    let ?e = "upstream_error_reply (m_MsgId (msg_of w (uj_Msg job))) err"
    obtain r w1 where n: "new_msg ?e w = (r, w1)" by (cases "new_msg ?e w")
    have r: "r = mh_next (wd_heap w)" using new_msg_fields(1) [of ?e w] n by simp
    have w1: "w1 = snd (new_msg ?e w)" using n by simp
    have f: "wd_pools w1 = wd_pools w" "wd_now w1 = wd_now w" "\<And>x. msg_of w1 x = (if x = r then ?e else msg_of w x)"
      unfolding w1 r by simp_all
    have g: "wd_sent w1 = wd_sent w" "mh_next (wd_heap w1) = Suc (mh_next (wd_heap w))"
      unfolding w1 by (simp_all add: new_msg_def msg_alloc_def)
    have "\<exists>d. m_Delivery (msg_of w1 r) = Some d" by (simp add: f(3) upstream_error_reply_def)
    then obtain b w2 where "sess_Submit (uj_Sess job) r w1 = Ret b w2" "frame r w1 w2"
      using sess_Submit_frame by blast
    then show ?thesis
      using False Some f g r n by (simp add: upstream_job_def Let_def bindG_def retG_def accepted_def frame_def)
  qed
qed

text \<open>
  C26. The upstream worker forwards its queue in order. While the pool runs, as many turns as there
  are waiting jobs empty the queue; the sender has then been given exactly the messages that had
  not expired and that it accepted, in the order they were submitted, each once; and whatever the
  sender answers the worker does not panic.
\<close>

theorem upstreamWorker_forwards_in_order:
  assumes "gm_get (wd_pools w) biz = Some p" and "\<not> wp_ctxDone p" and "ch_buf (wp_upstreamCh p) = jobs"
    and "length outcomes = length jobs" and "\<forall>j\<in>set jobs. uj_Msg j < mh_next (wd_heap w)"
  shows "\<exists>w' p'. upstreamWorker biz (map (Pair False) outcomes) w = Ret LoopContinues w'
    \<and> gm_get (wd_pools w') biz = Some p' \<and> ch_buf (wp_upstreamCh p') = []
    \<and> wd_sent w' = wd_sent w @ accepted w jobs outcomes"
  using assms
proof (induction jobs arbitrary: w p outcomes)
  case Nil
  then show ?case by (simp add: accepted_def)
next
  case (Cons job jobs)
  then obtain o1 os where os: "outcomes = o1 # os" "length os = length jobs" by (cases outcomes) auto
  let ?p = "p\<lparr>wp_upstreamCh := (wp_upstreamCh p)\<lparr>ch_buf := jobs\<rparr>\<rparr>"
  let ?w = "set_pool biz ?p w"
  have w: "wd_heap ?w = wd_heap w" "wd_sent ?w = wd_sent w" "wd_now ?w = wd_now w" "msg_of ?w = msg_of w"
    "gm_get (wd_pools ?w) biz = Some ?p"
    by (simp_all add: set_pool_def msg_of_def fun_eq_iff)
  obtain w1 where j: "upstream_job o1 job ?w = Ret () w1" and f: "wd_pools w1 = wd_pools ?w" "wd_now w1 = wd_now w"
      "wd_sent w1 = wd_sent w @ accepted w [job] [o1]" "mh_next (wd_heap w1) \<ge> mh_next (wd_heap w)"
      "\<forall>r < mh_next (wd_heap w). msg_of w1 r = msg_of w r"
    using upstream_job_frame [of job ?w o1] Cons.prems(5) by (auto simp: w accepted_def)
  have t: "upstreamWorker_turn biz False o1 w = Ret LoopContinues w1"
    using Cons.prems(1-3) j by (simp add: upstreamWorker_turn_def recv_def bindG_def retG_def)
  have acc: "accepted w1 jobs os = accepted w jobs os"
    using Cons.prems(5) f(2,5) os(2) unfolding accepted_def
    by (intro arg_cong2 [where f = map] filter_cong map_cong) (auto dest!: set_zip_leftD)
  have "\<exists>w' p'. upstreamWorker biz (map (Pair False) os) w1 = Ret LoopContinues w'
    \<and> gm_get (wd_pools w') biz = Some p' \<and> ch_buf (wp_upstreamCh p') = [] \<and> wd_sent w' = wd_sent w1 @ accepted w1 jobs os"
    using Cons.prems(2,5) f(1,4) os(2) w(5) by (intro Cons.IH [of w1 ?p]) auto
  moreover have "accepted w (job # jobs) (o1 # os) = accepted w [job] [o1] @ accepted w jobs os"
    by (simp add: accepted_def)
  ultimately show ?case by (simp add: os(1) bindG_def t f(3) acc)
qed

text \<open>
  Stopping a pool can crash the gateway. Once \<open>Stop\<close> has closed the upstream channel and it is
  drained, an upstream worker whose \<open>select\<close> happens to take the receive branch dereferences a nil
  message; the goroutine has no recovery. A downstream worker in the same situation survives,
  because its chain recovers.
\<close>

theorem upstreamWorker_crashes_on_Stop:
  assumes "gm_get (wd_pools w) biz = Some p" and "pool_Stop p = Ret () p'"
    and "ch_buf (wp_upstreamCh p) = []"
  shows "panicked (upstreamWorker_turn biz False outcome (set_pool biz p' w))
    \<and> \<not> panicked (downstreamWorker_turn biz pick (set_pool biz p' w))"
proof (rule conjI)
  have "gm_get (wd_pools (set_pool biz p' w)) biz = Some p'" by (simp add: set_pool_def)
  moreover have "ch_buf (wp_upstreamCh p') = []" "ch_closed (wp_upstreamCh p')"
    using assms(2,3) by (auto simp: pool_Stop_def Let_def split: if_splits)
  ultimately show "panicked (upstreamWorker_turn biz False outcome (set_pool biz p' w))"
    by (simp add: upstreamWorker_turn_def recv_def)
  have "\<not> panicked (case downlink_Run b m v of Ret _ s \<Rightarrow> Ret LoopContinues (ps_w s) | Panic s \<Rightarrow> Panic (ps_w s))" for b m v
    using downlink_never_panics_aux [of b m v] by (cases "downlink_Run b m v") auto
  then show "\<not> panicked (downstreamWorker_turn biz pick (set_pool biz p' w))"
    by (simp add: downstreamWorker_turn_def Let_def split: option.split recv_result.split)
qed

theorem upstreamWorker_forwards_in_order_witness:
  "\<exists>w'. upstreamWorker ''im'' [(False, None)] (res_state (mgr_SubmitUpstream ''im'' 0 3 sample_pool_world)) = Ret LoopContinues w'
     \<and> wd_sent w' = [sample_msg ''m1'']"
proof -
  let ?w = "res_state (mgr_SubmitUpstream ''im'' 0 3 sample_pool_world)"
  have "\<exists>p. gm_get (wd_pools ?w) ''im'' = Some p \<and> \<not> wp_ctxDone p \<and> ch_buf (wp_upstreamCh p) = [\<lparr>uj_Sess = 0, uj_Msg = 3\<rparr>]"
    and h: "wd_heap ?w = wd_heap sample_world" "wd_sent ?w = []" "wd_now ?w = wd_now sample_world"
    by (simp_all add: mgr_SubmitUpstream_def sample_pool_world_def AddPool_def newWorkerPool_def make_chan_def on_pool_def
        pool_SubmitUpstream_def try_send_def set_pool_def sample_world_def)
  then obtain p where p: "gm_get (wd_pools ?w) ''im'' = Some p" "\<not> wp_ctxDone p" "ch_buf (wp_upstreamCh p) = [\<lparr>uj_Sess = 0, uj_Msg = 3\<rparr>]"
    by blast
  have m: "msg_of ?w 3 = sample_msg ''m1''" using h(1) sample_world_fields(3) [of 3] by (simp add: msg_of_def)
  have "accepted ?w [\<lparr>uj_Sess = 0, uj_Msg = 3\<rparr>] [None] = [sample_msg ''m1'']"
    by (simp add: accepted_def m IsExpired_def sample_msg_def new_Message_def)
  then show ?thesis
    using upstreamWorker_forwards_in_order [OF p, of "[None]"] h by (auto simp: sample_world_def)
qed

theorem upstreamWorker_crashes_on_Stop_witness:
  "\<exists>w. panicked (upstreamWorker_turn ''im'' False None w) \<and> \<not> panicked (downstreamWorker_turn ''im'' False w)"
proof -
  let ?p = "newWorkerPool \<lparr>pc_BizCode = ''im'', pc_UpstreamWorkers = 1, pc_UpstreamChanCap = 1, pc_DownstreamWorkers = 1,
       pc_DownstreamChanCap = 1, pc_OfflineStore = True\<rparr>"
  have g: "gm_get (wd_pools sample_pool_world) ''im'' = Some ?p" by (simp add: sample_pool_world_def AddPool_def)
  have s: "\<exists>p'. pool_Stop ?p = Ret () p'" by (simp add: pool_Stop_def newWorkerPool_def make_chan_def Let_def)
  have b: "ch_buf (wp_upstreamCh ?p) = []" by (simp add: newWorkerPool_def make_chan_def)
  show ?thesis using upstreamWorker_crashes_on_Stop [OF g _ b] s by blast
qed

end
