(* ===== verification/Kafka.thy ===== *)
theory Kafka
  imports Worker_Loops
begin

text \<open>
  The gateway's connection to the message queue: the topic table
  (\<open>utils/kafka/topic\_manager.go\<close>), the two downstream consumers (\<open>worker/downstream/consumer.go\<close> and
  \<open>utils/kafka/consumer.go\<close>) and the upstream sender (\<open>worker/upstream/kafka\_sender.go\<close>).

  The Kafka client is outside the tree. A turn of a consumer takes what \<open>FetchMessage\<close>
  returned and yields the offsets passed to \<open>CommitMessages\<close>; \<open>proto.Unmarshal\<close> and \<open>proto.Marshal\<close> are
  arguments.
\<close>

section \<open>Topics\<close>

record TopicPair =
  tp_UpstreamTopic :: string
  tp_DownstreamTopic :: string

type_synonym TopicManager = "(string, TopicPair) gomap"

definition NewTopicManager :: "(string, TopicPair) gomap \<Rightarrow> TopicManager" where
  "NewTopicManager cfg = fold (\<lambda>(key, topicCfg) m. gm_set m key topicCfg) cfg []"

definition GetUpstreamTopic :: "string \<Rightarrow> TopicManager \<Rightarrow> string" where
  "GetUpstreamTopic key tm = (case gm_get tm key of Some pair \<Rightarrow> tp_UpstreamTopic pair | None \<Rightarrow> '''')"

definition GetTopicConfig :: "string \<Rightarrow> TopicManager \<Rightarrow> TopicPair option" where
  "GetTopicConfig key tm = gm_get tm key"

definition GetDownstreamTopic :: "string \<Rightarrow> TopicManager \<Rightarrow> string" where
  "GetDownstreamTopic key tm = (case gm_get tm key of Some pair \<Rightarrow> tp_DownstreamTopic pair | None \<Rightarrow> '''')"

definition GetAllUpstreamTopics :: "TopicManager \<Rightarrow> string list" where
  "GetAllUpstreamTopics tm = filter (\<lambda>t. t \<noteq> '''') (map tp_UpstreamTopic (gm_vals tm))"

definition GetAllDownstreamTopics :: "TopicManager \<Rightarrow> string list" where
  "GetAllDownstreamTopics tm = filter (\<lambda>t. t \<noteq> '''') (map tp_DownstreamTopic (gm_vals tm))"

definition BusinessTypes :: "TopicManager \<Rightarrow> string list" where
  "BusinessTypes tm = gm_keys tm"

lemma NewTopicManager_get:
  assumes "gm_wf cfg"
  shows "gm_get (NewTopicManager cfg) k = gm_get cfg k"
proof -
  have f: "gm_get (fold (\<lambda>(key, t) m. gm_set m key t) xs m) k = (case gm_get xs k of Some v \<Rightarrow> Some v | None \<Rightarrow> gm_get m k)"
    if "gm_wf xs" for xs m
    using that
  proof (induction xs arbitrary: m)
    case (Cons x xs)
    obtain a b where x: "x = (a, b)" by (cases x)
    have "gm_wf xs" "gm_get xs a = None" using Cons.prems x by (auto simp: gm_wf_def gm_keys_def gm_get_def map_of_eq_None_iff)
    then show ?case using Cons.IH x by (auto simp: gm_get_def gm_set_def split: option.split) (auto simp: update_conv')
  qed simp
  show ?thesis using f [OF assms, of "[]"] by (simp add: NewTopicManager_def split: option.split)
qed

section \<open>Downstream consumers\<close>

record kafka_message =
  km_Offset :: int
  km_Value :: bytes

text \<open>The flag of \<open>FetchError\<close> tells whether the context is cancelled.\<close>

datatype fetch_result = FetchError bool | Fetched kafka_message

text \<open>\<open>worker/downstream/consumer.go\<close>\<close>

definition consumeTopic_turn ::
    "(bytes \<Rightarrow> Message option) \<Rightarrow> bool \<Rightarrow> fetch_result \<Rightarrow> (world, loop_result \<times> int list) go" where
  "consumeTopic_turn unmarshal ctxDone fetch w =
     (if ctxDone then Ret (LoopReturned, []) w
      else
        (case fetch of
           FetchError _ \<Rightarrow> Ret (LoopContinues, []) w
         | Fetched rec \<Rightarrow>
             (case unmarshal (km_Value rec) of
                None \<Rightarrow> Ret (LoopContinues, [km_Offset rec]) w
              | Some m \<Rightarrow>
                  (case new_msg m w of
                     (r, w1) \<Rightarrow>
                       (case gm_get (wd_pools w1) (m_BizCode m) of
                          None \<Rightarrow> Ret (LoopContinues, [km_Offset rec]) w1
                        | Some pool \<Rightarrow>
                            bindG (on_pool (m_BizCode m) pool (pool_SubmitDownstream r))
                              (\<lambda>_. retG (LoopContinues, [km_Offset rec])) w1)))))"

text \<open>\<open>utils/kafka/consumer.go\<close>: nothing is committed when the pool is unknown or full.\<close>

definition Consumer_turn ::
    "(bytes \<Rightarrow> Message option) \<Rightarrow> bool \<Rightarrow> fetch_result \<Rightarrow> (world, loop_result \<times> int list) go" where
  "Consumer_turn unmarshal ctxDone fetch w =
     (if ctxDone then Ret (LoopReturned, []) w
      else
        (case fetch of
           FetchError cancelled \<Rightarrow> Ret (if cancelled then LoopReturned else LoopContinues, []) w
         | Fetched rec \<Rightarrow>
             (case unmarshal (km_Value rec) of
                None \<Rightarrow> Ret (LoopContinues, [km_Offset rec]) w
              | Some m \<Rightarrow>
                  (case new_msg m w of
                     (r, w1) \<Rightarrow>
                       (case GetPool (m_BizCode m) w1 of
                          None \<Rightarrow> Ret (LoopContinues, []) w1
                        | Some pool \<Rightarrow>
                            bindG (on_pool (m_BizCode m) pool (pool_SubmitDownstream r))
                              (\<lambda>ok. retG (LoopContinues, if ok then [km_Offset rec] else [])) w1)))))"

section \<open>Upstream sender\<close>

record KafkaSender =
  ks_topic :: string
  ks_writers :: "string list"
  ks_written :: "(string \<times> bytes \<times> bytes) list"  \<comment> \<open>topic, key and value of each message written\<close>

definition NewKafkaSender :: "string \<Rightarrow> KafkaSender" where
  "NewKafkaSender topic = \<lparr>ks_topic = topic, ks_writers = [], ks_written = []\<rparr>"

definition getWriter :: "string \<Rightarrow> KafkaSender \<Rightarrow> KafkaSender" where
  "getWriter topic s = (if topic \<in> set (ks_writers s) then s else s\<lparr>ks_writers := ks_writers s @ [topic]\<rparr>)"

text \<open>
  The event is built with an empty body. \<open>marshal\<close> encodes an event with the given body, \<open>write\<close> is the
  writer's answer.
\<close>

definition KafkaSender_Send ::
    "(bytes \<Rightarrow> string + bytes) \<Rightarrow> string option \<Rightarrow> Message \<Rightarrow> KafkaSender \<Rightarrow> string option \<times> KafkaSender" where
  "KafkaSender_Send marshal write msg s =
     (let payload = []
      in case marshal payload of
           Inl err \<Rightarrow> (Some err, s)
         | Inr data \<Rightarrow>
             (let s1 = getWriter (ks_topic s) s
              in case write of
                   Some err \<Rightarrow> (Some err, s1)
                 | None \<Rightarrow> (None, s1\<lparr>ks_written := ks_written s1 @ [(ks_topic s1, map of_char (m_MsgId msg), data)]\<rparr>)))"

definition KafkaSender_Publish :: "Message \<Rightarrow> KafkaSender \<Rightarrow> string option \<times> KafkaSender" where
  "KafkaSender_Publish msg s = (None, s)"

text \<open>\<open>Close\<close>: the topics whose writers are closed.\<close>

definition KafkaSender_Close :: "KafkaSender \<Rightarrow> string list" where
  "KafkaSender_Close s = ks_writers s"

text \<open>\<open>worker/upstream/grpc\_sender.go\<close>: \<open>Send\<close> dials once and sends nothing; \<open>dial\<close> is the answer of \<open>grpc.Dial\<close>.\<close>

record GrpcSender =
  gsn_addr :: string
  gsn_conn :: bool  \<comment> \<open>not nil\<close>

definition NewGRPCSender :: "string \<Rightarrow> GrpcSender" where
  "NewGRPCSender addr = \<lparr>gsn_addr = addr, gsn_conn = False\<rparr>"

definition grpc_getConn :: "string option \<Rightarrow> GrpcSender \<Rightarrow> string option \<times> GrpcSender" where
  "grpc_getConn dial s =
     (if gsn_conn s then (None, s)
      else (case dial of Some err \<Rightarrow> (Some err, s) | None \<Rightarrow> (None, s\<lparr>gsn_conn := True\<rparr>)))"

definition GrpcSender_Send :: "string option \<Rightarrow> GrpcSender \<Rightarrow> string option \<times> GrpcSender" where
  "GrpcSender_Send dial s = grpc_getConn dial s"

text \<open>After one successful dial every later \<open>Send\<close> succeeds, whatever has become of the service.\<close>

lemma GrpcSender_dials_once:
  "GrpcSender_Send None s = (None, s1) \<Longrightarrow> GrpcSender_Send dial s1 = (None, s1)"
  by (auto simp: GrpcSender_Send_def grpc_getConn_def split: if_splits)

section \<open>Properties\<close>

lemma new_msg_pools: "new_msg m w = (r, w1) \<Longrightarrow> wd_pools w1 = wd_pools w \<and> r = mh_next (wd_heap w) \<and> msg_of w1 r = m"
  using new_msg_fields(1,8) [of m w] new_msg_fields(10) [of m w r] by auto

text \<open>
  The consumer that says a refused message will be redelivered loses it. In a turn in which the
  pool of a decodable record is full or unknown nothing is committed and nothing is enqueued; if then
  a later record of the same partition is accepted, whatever has happened to the
  node in between, that offset is committed. A commit moves the position of the group past every
  lower offset, so that the refused record is never delivered again.
\<close>

theorem refused_record_is_skipped:
  assumes rec1: "unmarshal (km_Value r1) = Some m1"
    and refused: "case gm_get (wd_pools w) (m_BizCode m1) of None \<Rightarrow> True
        | Some p \<Rightarrow> \<not> ch_closed (wp_downstreamCh p) \<and> length (ch_buf (wp_downstreamCh p)) \<ge> ch_cap (wp_downstreamCh p)"
    and rec2: "unmarshal (km_Value r2) = Some m2"
    and free: "gm_get (wd_pools v) (m_BizCode m2) = Some p2" "\<not> ch_closed (wp_downstreamCh p2)"
      "length (ch_buf (wp_downstreamCh p2)) < ch_cap (wp_downstreamCh p2)"
  shows "\<exists>w' v'. Consumer_turn unmarshal False (Fetched r1) w = Ret (LoopContinues, []) w'
    \<and> (\<forall>b. map_option (\<lambda>p. ch_buf (wp_downstreamCh p)) (gm_get (wd_pools w') b) = map_option (\<lambda>p. ch_buf (wp_downstreamCh p)) (gm_get (wd_pools w) b))
    \<and> Consumer_turn unmarshal False (Fetched r2) v = Ret (LoopContinues, [km_Offset r2]) v'"
proof -
  obtain x1 w1 where n1: "new_msg m1 w = (x1, w1)" by (cases "new_msg m1 w")
  obtain x2 v1 where n2: "new_msg m2 v = (x2, v1)" by (cases "new_msg m2 v")
  note p1 = new_msg_pools [OF n1] and p2 = new_msg_pools [OF n2]
  have "\<exists>w'. Consumer_turn unmarshal False (Fetched r1) w = Ret (LoopContinues, []) w'
    \<and> (\<forall>b. map_option (\<lambda>p. ch_buf (wp_downstreamCh p)) (gm_get (wd_pools w') b) = map_option (\<lambda>p. ch_buf (wp_downstreamCh p)) (gm_get (wd_pools w) b))"
    using rec1 refused p1
    by (cases "gm_get (wd_pools w) (m_BizCode m1)")
       (simp_all add: Consumer_turn_def n1 GetPool_def on_pool_def pool_SubmitDownstream_def try_send_def bindG_def retG_def set_pool_def)
  moreover have "\<exists>v'. Consumer_turn unmarshal False (Fetched r2) v = Ret (LoopContinues, [km_Offset r2]) v'"
    using rec2 free p2
    by (simp add: Consumer_turn_def n2 GetPool_def on_pool_def pool_SubmitDownstream_def try_send_def bindG_def retG_def)
  ultimately show ?thesis by blast
qed

text \<open>
  The other consumer commits what it drops: a decodable record whose pool is full is committed
  although it is enqueued nowhere and not stored.
\<close>

theorem full_pool_record_committed_and_lost:
  assumes "unmarshal (km_Value r) = Some m" and "gm_get (wd_pools w) (m_BizCode m) = Some p"
    and "\<not> ch_closed (wp_downstreamCh p)" and "length (ch_buf (wp_downstreamCh p)) \<ge> ch_cap (wp_downstreamCh p)"
  shows "\<exists>w'. consumeTopic_turn unmarshal False (Fetched r) w = Ret (LoopContinues, [km_Offset r]) w'
    \<and> gm_get (wd_pools w') (m_BizCode m) = Some p \<and> wd_storeCalls w' = wd_storeCalls w"
proof -
  obtain x w1 where n: "new_msg m w = (x, w1)" by (cases "new_msg m w")
  have "wd_storeCalls w1 = wd_storeCalls w" using n new_msg_fields(7) [of m w] by simp
  then show ?thesis
    using assms new_msg_pools [OF n]
    by (simp add: consumeTopic_turn_def n on_pool_def pool_SubmitDownstream_def try_send_def bindG_def retG_def set_pool_def)
qed

text \<open>
  What a client sent is lost on both ways out of the gateway: the value that the Kafka sender writes
  does not depend on the message, and neither does the row that the offline store creates, while
  everything that is fetched from the store is an empty message.
\<close>

theorem payload_is_dropped:
  assumes "KafkaSender_Send marshal None m s = (None, s1)" and "KafkaSender_Send marshal None m' s = (None, s2)"
  shows "map (snd \<circ> snd) (ks_written s1) = map (snd \<circ> snd) (ks_written s2)
    \<and> MySQLStore_Store D m d = MySQLStore_Store D m' d
    \<and> (\<forall>u q ms x. MySQLStore_Fetch D u q d = Some ms \<longrightarrow> x \<in> set ms \<longrightarrow> m_Body x = None \<and> m_MsgId x = '''')"
  using assms
  by (auto simp: KafkaSender_Send_def Let_def getWriter_def MySQLStore_Store_def MySQLStore_keeps_nothing(2)
      split: sum.splits if_splits)

section \<open>Witnesses\<close>

definition sample_down_json :: "bytes \<Rightarrow> Message option" where
  "sample_down_json b = (if b = [] then None else Some ((new_Message FrameType_BUSINESS)\<lparr>m_BizCode := ''im''\<rparr>))"

definition full_pool :: WorkerPool where
  "full_pool = newWorkerPool \<lparr>pc_BizCode = ''im'', pc_UpstreamWorkers = 1, pc_UpstreamChanCap = 1, pc_DownstreamWorkers = 1,
     pc_DownstreamChanCap = 1, pc_OfflineStore = True\<rparr>\<lparr>wp_downstreamCh := \<lparr>ch_buf = replicate 100 0, ch_cap = 100, ch_closed = False\<rparr>\<rparr>"

lemma sample_down_json_biz: "sample_down_json [1] = Some ((new_Message FrameType_BUSINESS)\<lparr>m_BizCode := ''im''\<rparr>)"
  by (simp add: sample_down_json_def)

theorem refused_record_is_skipped_witness:
  "\<exists>w' v'. Consumer_turn sample_down_json False (Fetched \<lparr>km_Offset = 7, km_Value = [1]\<rparr>) sample_world = Ret (LoopContinues, []) w'
     \<and> Consumer_turn sample_down_json False (Fetched \<lparr>km_Offset = 8, km_Value = [1]\<rparr>) sample_pool_world = Ret (LoopContinues, [8]) v'"
proof -
  have p: "\<exists>p. gm_get (wd_pools sample_pool_world) ''im'' = Some p \<and> \<not> ch_closed (wp_downstreamCh p)
      \<and> length (ch_buf (wp_downstreamCh p)) < ch_cap (wp_downstreamCh p)"
    by (simp add: sample_pool_world_def AddPool_def newWorkerPool_def make_chan_def)
  let ?m = "(new_Message FrameType_BUSINESS)\<lparr>m_BizCode := ''im''\<rparr>"
  from p obtain p where "gm_get (wd_pools sample_pool_world) (m_BizCode ?m) = Some p" "\<not> ch_closed (wp_downstreamCh p)"
    "length (ch_buf (wp_downstreamCh p)) < ch_cap (wp_downstreamCh p)" by auto
  from refused_record_is_skipped [of sample_down_json "\<lparr>km_Offset = 7, km_Value = [1]\<rparr>" ?m sample_world
      "\<lparr>km_Offset = 8, km_Value = [1]\<rparr>" ?m, OF _ _ _ this]
  show ?thesis by (auto simp: sample_down_json_biz)
qed

theorem full_pool_record_committed_and_lost_witness:
  "\<exists>w'. consumeTopic_turn sample_down_json False (Fetched \<lparr>km_Offset = 7, km_Value = [1]\<rparr>) (set_pool ''im'' full_pool sample_world)
       = Ret (LoopContinues, [7]) w' \<and> wd_storeCalls w' = []"
proof -
  have "gm_get (wd_pools (set_pool ''im'' full_pool sample_world)) ''im'' = Some full_pool" "wd_storeCalls (set_pool ''im'' full_pool sample_world) = []"
    by (simp_all add: set_pool_def)
  moreover have "\<not> ch_closed (wp_downstreamCh full_pool)" "length (ch_buf (wp_downstreamCh full_pool)) \<ge> ch_cap (wp_downstreamCh full_pool)"
    by (simp_all add: full_pool_def)
  ultimately show ?thesis
    using full_pool_record_committed_and_lost [of sample_down_json "\<lparr>km_Offset = 7, km_Value = [1]\<rparr>" _ "set_pool ''im'' full_pool sample_world" full_pool]
    by (auto simp: sample_down_json_biz)
qed

definition list_gorm :: "OfflineMessageModel list gorm" where
  "list_gorm = \<lparr>gd_Create = (\<lambda>m d. (True, d @ [m])), gd_FindAfter = (\<lambda>u q d. Some (filter (\<lambda>m. om_UserID m = u) d)),
     gd_Delete = (\<lambda>m d. (True, filter (\<lambda>x. om_MsgID x \<noteq> om_MsgID m) d)),
     gd_SetDelivered = (\<lambda>i at d. (True, map (\<lambda>x. if om_MsgID x = i then x\<lparr>om_DeliveredAt := Some at\<rparr> else x) d)),
     gd_CountUndelivered = (\<lambda>u d. Some (length (filter (\<lambda>x. om_UserID x = u \<and> om_DeliveredAt x = None) d)))\<rparr>"

theorem payload_is_dropped_witness:
  "\<exists>s1 s2. KafkaSender_Send (\<lambda>b. Inr (0x0A # b)) None (sample_msg ''a'') (NewKafkaSender ''up'') = (None, s1)
     \<and> KafkaSender_Send (\<lambda>b. Inr (0x0A # b)) None (sample_msg ''b'') (NewKafkaSender ''up'') = (None, s2)
     \<and> map (snd \<circ> snd) (ks_written s1) = map (snd \<circ> snd) (ks_written s2)
     \<and> MySQLStore_Store list_gorm (sample_msg ''a'') [] = MySQLStore_Store list_gorm (sample_msg ''b'') []"
proof -
  have e: "\<exists>s1. KafkaSender_Send (\<lambda>b. Inr (0x0A # b)) None m (NewKafkaSender ''up'') = (None, s1)" for m
    by (simp add: KafkaSender_Send_def Let_def)
  obtain s1 s2 where s: "KafkaSender_Send (\<lambda>b. Inr (0x0A # b)) None (sample_msg ''a'') (NewKafkaSender ''up'') = (None, s1)"
    "KafkaSender_Send (\<lambda>b. Inr (0x0A # b)) None (sample_msg ''b'') (NewKafkaSender ''up'') = (None, s2)" using e by blast
  from payload_is_dropped [OF s, of list_gorm "[]"] s show ?thesis by blast
qed

end
