(* ===== verification/Business.thy ===== *)
theory Business
  imports Kafka
begin

text \<open>
  The business service (\<open>business/internal/server.go\<close>, \<open>consumer.go\<close>, \<open>sender.go\<close>): it reads the clients'
  messages from Kafka, answers each on the downstream topic of its business type, and offers the
  push interface. The generated message types of \<open>common-protocol/v1\<close> are not in the tree; the records
  hold the fields the code uses, and the \<open>String\<close> method of the enum \<open>BusinessType\<close> is the argument
  \<open>bizName\<close>. \<open>clock i\<close> is the i-th reading of the clock in a handler.
\<close>

record UpstreamKafkaMessage =
  um_CorrelationId :: string
  um_ConnId :: string
  um_UserId :: string
  um_DeviceId :: string
  um_BusinessType :: int
  um_Payload :: bytes

record DownstreamKafkaMessage =
  dm_CorrelationId :: string
  dm_ConnId :: string
  dm_UserId :: string
  dm_DeviceId :: string
  dm_TargetType :: int
  dm_Payload :: bytes
  dm_Timestamp :: int
  dm_BusinessType :: int

section \<open>Sender\<close>

record Sender =
  sn_writers :: "string list"
  sn_written :: "(string \<times> bytes \<times> DownstreamKafkaMessage) list"  \<comment> \<open>topic, key, message\<close>

definition NewSender :: Sender where
  "NewSender = \<lparr>sn_writers = [], sn_written = []\<rparr>"

definition sender_getWriter :: "string \<Rightarrow> Sender \<Rightarrow> Sender" where
  "sender_getWriter topic s = (if topic \<in> set (sn_writers s) then s else s\<lparr>sn_writers := sn_writers s @ [topic]\<rparr>)"

text \<open>\<open>marshalErr\<close> and \<open>writeErr\<close> are the answers of \<open>proto.Marshal\<close> and \<open>WriteMessages\<close>.\<close>

record send_env =
  sv_marshalErr :: "string option"
  sv_writeErr :: "string option"

definition Sender_Send :: "send_env \<Rightarrow> string \<Rightarrow> DownstreamKafkaMessage \<Rightarrow> Sender \<Rightarrow> string option \<times> Sender" where
  "Sender_Send e topic msg s =
     (case sv_marshalErr e of
        Some err \<Rightarrow> (Some err, s)
      | None \<Rightarrow>
          (let s1 = sender_getWriter topic s
           in case sv_writeErr e of
                Some err \<Rightarrow> (Some err, s1)
              | None \<Rightarrow> (None, s1\<lparr>sn_written := sn_written s1 @ [(topic, map of_char (dm_ConnId msg), msg)]\<rparr>)))"

section \<open>Topics\<close>

record business_cfg =
  bz_topics :: "(string, TopicPair) gomap"

definition getUpstreamTopics :: "business_cfg \<Rightarrow> string list" where
  "getUpstreamTopics cfg = map tp_UpstreamTopic (gm_vals (bz_topics cfg))"

definition getDownstreamTopic :: "(int \<Rightarrow> string) \<Rightarrow> business_cfg \<Rightarrow> int \<Rightarrow> string" where
  "getDownstreamTopic bizName cfg bizType =
     (case gm_get (bz_topics cfg) (bizName bizType) of Some tp \<Rightarrow> tp_DownstreamTopic tp | None \<Rightarrow> '''')"

section \<open>Answering a client's message\<close>

definition reply_payload :: "string \<Rightarrow> int \<Rightarrow> string" where
  "reply_payload correlationID ms =
     (let q = [CHR 0x22]
      in ''{'' @ q @ ''ack'' @ q @ '':'' @ q @ ''ok'' @ q @ '','' @ q @ ''original_correlation_id'' @ q @ '':'' @ q @ correlationID @ q
         @ '','' @ q @ ''reply_time'' @ q @ '':'' @ Itoa ms @ ''}'')"

text \<open>\<open>ack\<close> is the value of \<open>SIGNAL\_TYPE\_MESSAGE\_ACK\<close>.\<close>

definition handleUpstreamMessage ::
    "int \<Rightarrow> (int \<Rightarrow> string) \<Rightarrow> business_cfg \<Rightarrow> (nat \<Rightarrow> time) \<Rightarrow> send_env \<Rightarrow> UpstreamKafkaMessage \<Rightarrow> Sender \<Rightarrow> string option \<times> Sender" where
  "handleUpstreamMessage ack bizName cfg clock e msg s =
     (let payload = reply_payload (um_CorrelationId msg) (UnixMilli (clock 0));
          down = \<lparr>dm_CorrelationId = Itoa (clock 1 - unixEpoch), dm_ConnId = um_ConnId msg, dm_UserId = um_UserId msg,
                  dm_DeviceId = um_DeviceId msg, dm_TargetType = ack, dm_Payload = map of_char payload,
                  dm_Timestamp = UnixMilli (clock 2), dm_BusinessType = um_BusinessType msg\<rparr>;
          topic = getDownstreamTopic bizName cfg (um_BusinessType msg)
      in if topic = '''' then (None, s) else Sender_Send e topic down s)"

section \<open>Consumer\<close>

text \<open>One turn; \<open>handler\<close> returns the error, if any, and the result has the committed offsets.\<close>

definition business_consumer_turn ::
    "(bytes \<Rightarrow> UpstreamKafkaMessage option) \<Rightarrow> (UpstreamKafkaMessage \<Rightarrow> Sender \<Rightarrow> string option \<times> Sender) \<Rightarrow> bool \<Rightarrow> fetch_result
       \<Rightarrow> Sender \<Rightarrow> (loop_result \<times> int list) \<times> Sender" where
  "business_consumer_turn unmarshal handler ctxDone fetch s =
     (if ctxDone then ((LoopReturned, []), s)
      else
        (case fetch of
           FetchError cancelled \<Rightarrow> ((if cancelled then LoopReturned else LoopContinues, []), s)
         | Fetched rec \<Rightarrow>
             (case unmarshal (km_Value rec) of
                None \<Rightarrow> ((LoopContinues, [km_Offset rec]), s)
              | Some m \<Rightarrow>
                  (case handler m s of
                     (Some err, s1) \<Rightarrow> ((LoopContinues, []), s1)
                   | (None, s1) \<Rightarrow> ((LoopContinues, [km_Offset rec]), s1)))))"

section \<open>Push interface\<close>

record PushRequest =
  pq_ConnID :: string
  pq_UserID :: string
  pq_DeviceID :: string
  pq_BusinessType :: int
  pq_TargetType :: int
  pq_Payload :: "bytes option"  \<comment> \<open>\<open>None\<close> is nil\<close>

definition push_valid :: "PushRequest \<Rightarrow> bool" where
  "push_valid r \<longleftrightarrow> pq_ConnID r \<noteq> '''' \<and> pq_UserID r \<noteq> '''' \<and> pq_DeviceID r \<noteq> '''' \<and> pq_BusinessType r \<noteq> 0
     \<and> pq_TargetType r \<noteq> 0 \<and> pq_Payload r \<noteq> None"

definition push_message :: "(nat \<Rightarrow> time) \<Rightarrow> PushRequest \<Rightarrow> DownstreamKafkaMessage" where
  "push_message clock r =
     \<lparr>dm_CorrelationId = Itoa (clock 0 - unixEpoch), dm_ConnId = pq_ConnID r, dm_UserId = pq_UserID r, dm_DeviceId = pq_DeviceID r,
      dm_TargetType = pq_TargetType r, dm_Payload = (case pq_Payload r of None \<Rightarrow> [] | Some b \<Rightarrow> b),
      dm_Timestamp = UnixMilli (clock 1), dm_BusinessType = pq_BusinessType r\<rparr>"

datatype push_response = PushBadRequest | PushUnsupported | PushFailed | PushOK string

definition handlePushMessage ::
    "(int \<Rightarrow> string) \<Rightarrow> business_cfg \<Rightarrow> (nat \<Rightarrow> time) \<Rightarrow> send_env \<Rightarrow> PushRequest option \<Rightarrow> Sender \<Rightarrow> push_response \<times> Sender" where
  "handlePushMessage bizName cfg clock e body s =
     (case body of
        None \<Rightarrow> (PushBadRequest, s)
      | Some req \<Rightarrow>
          if \<not> push_valid req then (PushBadRequest, s)
          else
            (let topic = getDownstreamTopic bizName cfg (pq_BusinessType req);
                 msg = push_message clock req
             in if topic = '''' then (PushUnsupported, s)
                else (case Sender_Send e topic msg s of
                        (Some err, s1) \<Rightarrow> (PushFailed, s1)
                      | (None, s1) \<Rightarrow> (PushOK (dm_CorrelationId msg), s1))))"

datatype push_status = PushStatusOK | PushStatusError string

text \<open>The loop of \<open>handleBatchPush\<close>: \<open>clock i\<close> are the readings for item \<open>i\<close>, \<open>env i\<close> the sender's answers.\<close>

fun batch_loop ::
    "(int \<Rightarrow> string) \<Rightarrow> business_cfg \<Rightarrow> (nat \<Rightarrow> nat \<Rightarrow> time) \<Rightarrow> (nat \<Rightarrow> send_env) \<Rightarrow> nat \<Rightarrow> PushRequest list
       \<Rightarrow> (nat \<times> push_status) list \<Rightarrow> Sender \<Rightarrow> (nat \<times> push_status) list \<times> Sender" where
  "batch_loop bizName cfg clock env i [] results s = (results, s)"
| "batch_loop bizName cfg clock env i (r # rs) results s =
     (let topic = getDownstreamTopic bizName cfg (pq_BusinessType r)
      in if topic = '''' then
           batch_loop bizName cfg clock env (Suc i) rs (results @ [(i, PushStatusError ''unsupported business type'')]) s
         else
           (case Sender_Send (env i) topic (push_message (clock i) r) s of
              (Some err, s1) \<Rightarrow> batch_loop bizName cfg clock env (Suc i) rs (results @ [(i, PushStatusError err)]) s1
            | (None, s1) \<Rightarrow> batch_loop bizName cfg clock env (Suc i) rs (results @ [(i, PushStatusOK)]) s1))"

text \<open>\<open>binding:"required,min=1,max=100"\<close> without \<open>dive\<close>: the items themselves are not validated.\<close>

definition handleBatchPush ::
    "(int \<Rightarrow> string) \<Rightarrow> business_cfg \<Rightarrow> (nat \<Rightarrow> nat \<Rightarrow> time) \<Rightarrow> (nat \<Rightarrow> send_env) \<Rightarrow> PushRequest list option \<Rightarrow> Sender
       \<Rightarrow> (nat \<times> (nat \<times> push_status) list) option \<times> Sender" where
  "handleBatchPush bizName cfg clock env body s =
     (case body of
        None \<Rightarrow> (None, s)
      | Some reqs \<Rightarrow>
          if length reqs < 1 \<or> 100 < length reqs then (None, s)
          else (case batch_loop bizName cfg clock env 0 reqs [] s of (results, s1) \<Rightarrow> (Some (length reqs, results), s1)))"

section \<open>Properties\<close>

lemma getWriter_written [simp]: "sn_written (sender_getWriter t s) = sn_written s"
  by (simp add: sender_getWriter_def)

definition push_sent :: "(int \<Rightarrow> string) \<Rightarrow> business_cfg \<Rightarrow> send_env \<Rightarrow> PushRequest \<Rightarrow> bool" where
  "push_sent bizName cfg e r \<longleftrightarrow> getDownstreamTopic bizName cfg (pq_BusinessType r) \<noteq> '''' \<and> sv_marshalErr e = None \<and> sv_writeErr e = None"

definition push_entry :: "(int \<Rightarrow> string) \<Rightarrow> business_cfg \<Rightarrow> (nat \<Rightarrow> time) \<Rightarrow> PushRequest \<Rightarrow> string \<times> bytes \<times> DownstreamKafkaMessage" where
  "push_entry bizName cfg clock r =
     (getDownstreamTopic bizName cfg (pq_BusinessType r), map of_char (pq_ConnID r), push_message clock r)"

lemma batch_loop_exact:
  "\<exists>sts s1. batch_loop bizName cfg clock env i rs results s = (results @ zip [i ..< i + length rs] sts, s1)
     \<and> length sts = length rs
     \<and> (\<forall>k < length rs. sts ! k = PushStatusOK \<longleftrightarrow> push_sent bizName cfg (env (i + k)) (rs ! k))
     \<and> sn_written s1 = sn_written s
         @ map (\<lambda>k. push_entry bizName cfg (clock (i + k)) (rs ! k))
             (filter (\<lambda>k. push_sent bizName cfg (env (i + k)) (rs ! k)) [0 ..< length rs])"
proof (induction rs arbitrary: i results s)
  case Nil
  then show ?case by simp
next
  case (Cons r rs)
  let ?ok = "push_sent bizName cfg (env i) r"
  define st where "st = (if getDownstreamTopic bizName cfg (pq_BusinessType r) = '''' then PushStatusError ''unsupported business type''
      else case fst (Sender_Send (env i) (getDownstreamTopic bizName cfg (pq_BusinessType r)) (push_message (clock i) r) s) of
             Some err \<Rightarrow> PushStatusError err | None \<Rightarrow> PushStatusOK)"
  define s' where "s' = (if getDownstreamTopic bizName cfg (pq_BusinessType r) = '''' then s
      else snd (Sender_Send (env i) (getDownstreamTopic bizName cfg (pq_BusinessType r)) (push_message (clock i) r) s))"
  have step: "batch_loop bizName cfg clock env i (r # rs) results s = batch_loop bizName cfg clock env (Suc i) rs (results @ [(i, st)]) s'"
    by (simp add: st_def s'_def Let_def split: prod.split option.split)
  have st: "st = PushStatusOK \<longleftrightarrow> ?ok"
    by (auto simp: st_def push_sent_def Sender_Send_def Let_def split: option.splits)
  have w: "sn_written s' = sn_written s @ (if ?ok then [push_entry bizName cfg (clock i) r] else [])"
    by (auto simp: s'_def push_sent_def push_entry_def push_message_def Sender_Send_def Let_def split: option.splits)
  obtain sts s1 where ih: "batch_loop bizName cfg clock env (Suc i) rs (results @ [(i, st)]) s' =
        ((results @ [(i, st)]) @ zip [Suc i ..< Suc i + length rs] sts, s1)" "length sts = length rs"
      "\<forall>k < length rs. sts ! k = PushStatusOK \<longleftrightarrow> push_sent bizName cfg (env (Suc i + k)) (rs ! k)"
      "sn_written s1 = sn_written s' @ map (\<lambda>k. push_entry bizName cfg (clock (Suc i + k)) (rs ! k))
         (filter (\<lambda>k. push_sent bizName cfg (env (Suc i + k)) (rs ! k)) [0 ..< length rs])"
    using Cons.IH [of "Suc i" "results @ [(i, st)]" s'] by blast
  have up: "[0 ..< length (r # rs)] = 0 # map Suc [0 ..< length rs]" by (simp add: upt_conv_Cons map_Suc_upt del: upt_Suc)
  have "batch_loop bizName cfg clock env i (r # rs) results s = (results @ zip [i ..< i + length (r # rs)] (st # sts), s1)"
    unfolding step ih(1) by (simp add: upt_conv_Cons del: upt_Suc)
  moreover have "\<forall>k < length (r # rs). (st # sts) ! k = PushStatusOK \<longleftrightarrow> push_sent bizName cfg (env (i + k)) ((r # rs) ! k)"
    using ih(3) st by (auto simp: nth_Cons split: nat.split)
  moreover have "sn_written s1 = sn_written s @ map (\<lambda>k. push_entry bizName cfg (clock (i + k)) ((r # rs) ! k))
         (filter (\<lambda>k. push_sent bizName cfg (env (i + k)) ((r # rs) ! k)) [0 ..< length (r # rs)])"
    unfolding up ih(4) w by (simp add: filter_map comp_def)
  ultimately show ?case using ih(2) by (intro exI [of _ "st # sts"] exI [of _ s1]) simp
qed

text \<open>
  C37. A batch push reports on every item, and truthfully: for a batch of 1 to 100 items there is exactly
  one result per item, in order, an item is reported ok exactly when its message was handed to
  Kafka, and what was written is exactly the messages of those items, in order, each on the
  topic of its business type and keyed by its connection.
\<close>

theorem batch_push_reports_every_item:
  assumes "1 \<le> length reqs" and "length reqs \<le> 100"
  shows "\<exists>sts s1. handleBatchPush bizName cfg clock env (Some reqs) s = (Some (length reqs, zip [0 ..< length reqs] sts), s1)
    \<and> length sts = length reqs
    \<and> (\<forall>k < length reqs. sts ! k = PushStatusOK \<longleftrightarrow> push_sent bizName cfg (env k) (reqs ! k))
    \<and> sn_written s1 = sn_written s @ map (\<lambda>k. push_entry bizName cfg (clock k) (reqs ! k))
        (filter (\<lambda>k. push_sent bizName cfg (env k) (reqs ! k)) [0 ..< length reqs])"
  using assms batch_loop_exact [of bizName cfg clock env 0 reqs "[]" s] by (auto simp: handleBatchPush_def)

text \<open>
  The service answers a client's message exactly once or leaves it uncommitted. In a turn on a
  decodable record whose business type has a downstream topic: if the sender accepts, one reply with
  the client's connection, user, device and business type is on that topic, keyed by the
  connection, and the record is committed; otherwise nothing is written and nothing is committed.
\<close>

theorem business_replies_once:
  assumes "unmarshal (km_Value r) = Some m" and "getDownstreamTopic bizName cfg (um_BusinessType m) \<noteq> ''''"
  shows "case business_consumer_turn unmarshal (handleUpstreamMessage ack bizName cfg clock e) False (Fetched r) s of
    ((res, commits), s') \<Rightarrow> res = LoopContinues \<and>
      (if sv_marshalErr e = None \<and> sv_writeErr e = None
       then commits = [km_Offset r]
         \<and> (\<exists>d. sn_written s' = sn_written s @ [(getDownstreamTopic bizName cfg (um_BusinessType m), map of_char (um_ConnId m), d)]
              \<and> dm_ConnId d = um_ConnId m \<and> dm_UserId d = um_UserId m \<and> dm_DeviceId d = um_DeviceId m
              \<and> dm_BusinessType d = um_BusinessType m)
       else commits = [] \<and> sn_written s' = sn_written s)"
  using assms
  by (cases "sv_marshalErr e"; cases "sv_writeErr e")
     (simp_all add: business_consumer_turn_def handleUpstreamMessage_def Let_def Sender_Send_def)

section \<open>Witnesses\<close>

definition sample_cfg :: business_cfg where
  "sample_cfg = \<lparr>bz_topics = [(''IM'', \<lparr>tp_UpstreamTopic = ''im-up'', tp_DownstreamTopic = ''im-down''\<rparr>)]\<rparr>"

definition sample_push :: PushRequest where
  "sample_push = \<lparr>pq_ConnID = ''c'', pq_UserID = ''u'', pq_DeviceID = ''d'', pq_BusinessType = 1, pq_TargetType = 101, pq_Payload = Some [1]\<rparr>"

definition send_ok :: send_env where
  "send_ok = \<lparr>sv_marshalErr = None, sv_writeErr = None\<rparr>"

theorem batch_push_reports_every_item_witness:
  "\<exists>sts s1. handleBatchPush (\<lambda>_. ''IM'') sample_cfg (\<lambda>_ _. 0) (\<lambda>_. send_ok) (Some [sample_push, sample_push]) NewSender
       = (Some (2, zip [0, 1] sts), s1) \<and> length sts = 2 \<and> length (sn_written s1) = 2"
proof -
  have ok: "push_sent (\<lambda>_. ''IM'') sample_cfg send_ok sample_push"
    by (simp add: push_sent_def getDownstreamTopic_def sample_cfg_def send_ok_def gm_get_def)
  have two: "[sample_push, sample_push] ! k = sample_push" if "k < 2" for k using that by (simp add: less_2_cases_iff) auto
  have up: "[0 ..< 2] = [0, 1 :: nat]" by (simp add: upt_rec)
  show ?thesis
    using batch_push_reports_every_item [of "[sample_push, sample_push]" "\<lambda>_. ''IM''" sample_cfg "\<lambda>_ _. 0" "\<lambda>_. send_ok" NewSender]
      ok two by (auto simp: up NewSender_def numeral_2_eq_2)
qed

theorem business_replies_once_witness:
  "(case business_consumer_turn (\<lambda>_. Some \<lparr>um_CorrelationId = ''x'', um_ConnId = ''c'', um_UserId = ''u'', um_DeviceId = ''d'',
          um_BusinessType = 1, um_Payload = []\<rparr>) (handleUpstreamMessage 5 (\<lambda>_. ''IM'') sample_cfg (\<lambda>_. 0) send_ok) False
          (Fetched \<lparr>km_Offset = 4, km_Value = []\<rparr>) NewSender of
      ((res, commits), s') \<Rightarrow> commits = [4])"
proof -
  let ?m = "\<lparr>um_CorrelationId = ''x'', um_ConnId = ''c'', um_UserId = ''u'', um_DeviceId = ''d'', um_BusinessType = 1, um_Payload = []\<rparr>"
  have t: "getDownstreamTopic (\<lambda>_. ''IM'') sample_cfg (um_BusinessType ?m) \<noteq> ''''"
    by (simp add: getDownstreamTopic_def sample_cfg_def gm_get_def)
  have e: "sv_marshalErr send_ok = None" "sv_writeErr send_ok = None" by (simp_all add: send_ok_def)
  show ?thesis
    using business_replies_once [of "\<lambda>_. Some ?m" "\<lparr>km_Offset = 4, km_Value = []\<rparr>" ?m, OF refl t, where clock = "\<lambda>_. 0" and e = send_ok and s = NewSender and ack = 5] e
    by (auto split: prod.splits)
qed

end
