(* ===== verification/Bootstrap.thy ===== *)
theory Bootstrap
  imports Factory Worker_Loops Kafka
begin

text \<open>
  How a gateway process comes up: \<open>config/config.go\<close>, \<open>svc/svc.go\<close>, \<open>app/bootstrap.go\<close>, \<open>app/lifecycle.go\<close>,
  \<open>app/listeners.go\<close>, the options of \<open>session/registry.go\<close>, and the administration interface of
  \<open>handler/\<close>. What Redis and MySQL answer while the process starts is an argument (\<open>svc_env\<close>); the
  contents of memory that is not allocated yet and the clock are the argument \<open>blank\<close>.

  A panic during the start ends the process, since nothing recovers.
\<close>

section \<open>Configuration\<close>

record DatabaseConfig =
  dbc_DSN :: string
  dbc_MaxOpenConns :: int
  dbc_MaxIdleConns :: int
  dbc_ConnMaxLife :: int

record ProfileConfig =
  pfc_Enabled :: bool
  pfc_Addr :: string

record MetricsConfig =
  mtc_Enabled :: bool
  mtc_Addr :: string

record GatewayConfig =
  gwc_Addr :: string
  gwc_UpstreamWorkerNum :: int
  gwc_DownstreamWorkerNum :: int
  gwc_MaxConnNum :: "64 word"
  gwc_ReadBufSize :: int
  gwc_WriteBufSize :: int
  gwc_Profile :: ProfileConfig
  gwc_Metrics :: MetricsConfig

record cfg_PoolConfig =
  cpc_BizCode :: string
  cpc_UpstreamSender :: string
  cpc_UpstreamWorkers :: int
  cpc_UpstreamChanCap :: int
  cpc_DownstreamWorkers :: int
  cpc_DownstreamChanCap :: int

record SessionConfig =
  ssc_SuspendTTL :: int

record RedisConfig =
  rdc_Addr :: string
  rdc_Password :: string
  rdc_DB :: int
  rdc_PoolSize :: int
  rdc_RouteTTL :: int

record KafkaConfig =
  kfc_Brokers :: "string list"
  kfc_BusinessTopics :: "(string, TopicPair) gomap"

record InteractConfig =
  ixc_Kind :: string
  ixc_Kafka :: KafkaConfig
  ixc_GRPC :: "(string, string) gomap"

record AuthConfig =
  auc_Addr :: string

record LogConfig =
  lgc_Level :: string
  lgc_Format :: string
  lgc_File :: string

record Config =
  cf_Gateway :: GatewayConfig
  cf_Redis :: RedisConfig
  cf_Session :: SessionConfig
  cf_Workers :: "(string, cfg_PoolConfig) gomap"
  cf_Upstream :: InteractConfig
  cf_Auth :: AuthConfig
  cf_Log :: LogConfig
  cf_Database :: DatabaseConfig

section \<open>Storage clients\<close>

record svc_env =
  ev_redisPingFails :: bool
  ev_mysqlOpenFails :: bool
  ev_sqlDBFails :: bool
  ev_migrateFails :: bool

datatype svc_error =
    RedisAddrNotConfigured
  | RedisConnectionFailed
  | MysqlDsnNotConfigured
  | MysqlConnectionFailed
  | GetSqlDBFailed
  | MysqlMigrationFailed

record ServiceContext =
  sx_Config :: Config
  sx_RedisClient :: bool  \<comment> \<open>not nil\<close>
  sx_DB :: bool  \<comment> \<open>not nil\<close>

definition newRedis :: "svc_env \<Rightarrow> Config \<Rightarrow> ServiceContext \<Rightarrow> svc_error option \<times> ServiceContext" where
  "newRedis e c s =
     (if rdc_Addr (cf_Redis c) \<noteq> '''' then (Some RedisAddrNotConfigured, s)
      else if ev_redisPingFails e then (Some RedisConnectionFailed, s\<lparr>sx_RedisClient := False\<rparr>)
      else (None, s\<lparr>sx_RedisClient := True\<rparr>))"

definition newDB :: "svc_env \<Rightarrow> Config \<Rightarrow> ServiceContext \<Rightarrow> svc_error option \<times> ServiceContext" where
  "newDB e c s =
     (if dbc_DSN (cf_Database c) = '''' then (Some MysqlDsnNotConfigured, s)
      else if ev_mysqlOpenFails e then (Some MysqlConnectionFailed, s)
      else if ev_sqlDBFails e then (Some GetSqlDBFailed, s)
      else if ev_migrateFails e then (Some MysqlMigrationFailed, s)
      else (None, s\<lparr>sx_DB := True\<rparr>))"

text \<open>\<open>None\<close>: panic.\<close>

definition NewServiceContext :: "svc_env \<Rightarrow> Config \<Rightarrow> ServiceContext option" where
  "NewServiceContext e c =
     (let s0 = \<lparr>sx_Config = c, sx_RedisClient = False, sx_DB = False\<rparr>
      in case newRedis e c s0 of
           (Some _, _) \<Rightarrow> None
         | (None, s1) \<Rightarrow> (case newDB e c s1 of (Some _, _) \<Rightarrow> None | (None, s2) \<Rightarrow> Some s2))"

section \<open>Options of the session registry\<close>

record sess_Registry =
  sr_deps :: Deps
  sr_suspendTTL :: int
  sr_ackScanner :: bool  \<comment> \<open>not nil\<close>
  sr_LocalRouter :: bool  \<comment> \<open>\<open>deps.LocalRouter\<close> is not nil\<close>
  sr_DistRouter :: bool  \<comment> \<open>\<open>deps.DistributionRouter\<close> is not nil\<close>

type_synonym SessionRegistryOption = "sess_Registry \<Rightarrow> sess_Registry"

definition SetSuspendTTL :: "int \<Rightarrow> SessionRegistryOption" where
  "SetSuspendTTL ttl sr = sr\<lparr>sr_suspendTTL := ttl * Second\<rparr>"

definition WithLocalRouter :: "bool \<Rightarrow> SessionRegistryOption" where
  "WithLocalRouter router sr = sr\<lparr>sr_LocalRouter := router\<rparr>"

definition WithDistRouter :: "bool \<Rightarrow> SessionRegistryOption" where
  "WithDistRouter router sr = sr\<lparr>sr_DistRouter := router\<rparr>"

definition WithOfflineStore :: "bool \<Rightarrow> SessionRegistryOption" where
  "WithOfflineStore store sr = sr\<lparr>sr_deps := (sr_deps sr)\<lparr>dp_Offline := store\<rparr>\<rparr>"

definition WithAckScanner :: "bool \<Rightarrow> SessionRegistryOption" where
  "WithAckScanner scanner sr = sr\<lparr>sr_ackScanner := scanner\<rparr>"

text \<open>The second result: the registry's handler is installed in the scanner.\<close>

definition sess_NewRegistry :: "SessionRegistryOption list \<Rightarrow> sess_Registry \<times> bool" where
  "sess_NewRegistry opts =
     (let sr = fold (\<lambda>opt. opt) opts
                 \<lparr>sr_deps = \<lparr>dp_Worker = False, dp_Offline = False, dp_Acker = False, dp_MaxRetries = 0\<rparr>,
                  sr_suspendTTL = 0, sr_ackScanner = False, sr_LocalRouter = False, sr_DistRouter = False\<rparr>
      in (sr, sr_ackScanner sr))"

section \<open>Worker pools\<close>

datatype boot_error = UnknownUpstreamSender string string

fun register_pools :: "bool \<Rightarrow> (string \<times> cfg_PoolConfig) list \<Rightarrow> world \<Rightarrow> boot_error option \<times> world" where
  "register_pools store [] w = (None, w)"
| "register_pools store ((bizCode, wcfg) # rest) w =
     (if cpc_UpstreamSender wcfg = ''kafka'' \<or> cpc_UpstreamSender wcfg = '''' then
        register_pools store rest
          (AddPool \<lparr>pc_BizCode = bizCode, pc_UpstreamWorkers = cpc_UpstreamWorkers wcfg, pc_UpstreamChanCap = cpc_UpstreamChanCap wcfg,
                    pc_DownstreamWorkers = cpc_DownstreamWorkers wcfg, pc_DownstreamChanCap = cpc_DownstreamChanCap wcfg,
                    pc_OfflineStore = store\<rparr> w)
      else (Some (UnknownUpstreamSender (cpc_UpstreamSender wcfg) bizCode), w))"

definition registerWorkerPools :: "Config \<Rightarrow> bool \<Rightarrow> world \<Rightarrow> boot_error option \<times> world" where
  "registerWorkerPools cfg store w = register_pools store (cf_Workers cfg) w"

section \<open>Wiring\<close>

record GatewayServer =
  gs_ctxDone :: bool
  gs_svc :: ServiceContext
  gs_node :: world
  gs_suspendTTL :: int
  gs_connFactory :: FactoryDeps

text \<open>The node with its router, scanner and registries, and the registry's options.\<close>

definition boot_registry :: "Config \<Rightarrow> sess_Registry \<times> bool" where
  "boot_registry cfg =
     sess_NewRegistry [WithLocalRouter True, WithOfflineStore True, SetSuspendTTL (ssc_SuspendTTL (cf_Session cfg)), WithAckScanner True]"

definition boot_world :: "world \<Rightarrow> Config \<Rightarrow> world" where
  "boot_world blank cfg =
     (let scanner = NewScanner (NewScheduler ack_junk 64) (5 * Second);
          scanner' = (if snd (boot_registry cfg) then SetTimeoutHandler scanner else scanner)
      in blank\<lparr>wd_router := NewLocalRouter, wd_scanner := scanner', wd_storeCalls := [], wd_offlineRows := [], wd_pools := [], wd_sessions := [],
               wd_userIndex := [], wd_connReg := [], wd_sent := []\<rparr>)"

definition boot_factory :: "(bytes \<Rightarrow> bytes) \<Rightarrow> Config \<Rightarrow> FactoryDeps" where
  "boot_factory sha cfg =
     \<lparr>fd_Codec = NewCodec DefaultConfig, fd_HandlerReg = Build None, fd_sha = sha, fd_sessDeps = sr_deps (fst (boot_registry cfg)),
      fd_hasScanner = sr_ackScanner (fst (boot_registry cfg)), fd_DistRouter = \<lparr>dr_gatewayAddr = gwc_Addr (cf_Gateway cfg)\<rparr>,
      fd_HeartbeatTimeout = 30 * Second, fd_MaxBodySize = 2 * 2 ^ 20\<rparr>"

definition NewGatewayServer ::
    "(bytes \<Rightarrow> bytes) \<Rightarrow> world \<Rightarrow> svc_env \<Rightarrow> Config \<Rightarrow> (boot_error, GatewayServer) result option" where
  "NewGatewayServer sha blank e cfg =
     (case NewServiceContext e cfg of
        None \<Rightarrow> None
      | Some svc \<Rightarrow>
          (case registerWorkerPools cfg True (boot_world blank cfg) of
             (Some err, _) \<Rightarrow> Some (Inl err)
           | (None, node) \<Rightarrow>
               Some (Inr \<lparr>gs_ctxDone = False, gs_svc = svc, gs_node = node,
                 gs_suspendTTL = sr_suspendTTL (fst (boot_registry cfg)), gs_connFactory = boot_factory sha cfg\<rparr>)))"

text \<open>
  \<open>Run\<close> logs an error of \<open>config.Load\<close> or of \<open>NewGatewayServer\<close> and goes on with the nil pointer it
  got, which the next statement dereferences.
\<close>

datatype run_result = RunPanics | RunStarts GatewayServer

definition app_Run :: "(bytes \<Rightarrow> bytes) \<Rightarrow> world \<Rightarrow> svc_env \<Rightarrow> Config option \<Rightarrow> run_result" where
  "app_Run sha blank e loaded =
     (case loaded of
        None \<Rightarrow> RunPanics
      | Some cfg \<Rightarrow>
          (case NewGatewayServer sha blank e cfg of
             None \<Rightarrow> RunPanics
           | Some (Inl err) \<Rightarrow> RunPanics
           | Some (Inr gs) \<Rightarrow> RunStarts gs))"

section \<open>The TCP acceptor\<close>

text \<open>
  One result per call of \<open>Accept\<close>, with the context at the top of that iteration: the connections
  that are handed to the factory, and whether the acceptor has returned. An error of \<open>Accept\<close> is
  logged and the loop continues.
\<close>

fun TcpModule_Start :: "(bool \<times> 'c option) list \<Rightarrow> 'c list \<times> bool" where
  "TcpModule_Start [] = ([], False)"
| "TcpModule_Start ((ctxDone, acc) # rest) =
     (if ctxDone then ([], True)
      else
        (case acc of
           None \<Rightarrow> TcpModule_Start rest
         | Some conn \<Rightarrow> (case TcpModule_Start rest of (cs, stopped) \<Rightarrow> (conn # cs, stopped))))"

lemma TcpModule_Start_serves:
  assumes "\<forall>(d, a) \<in> set xs. \<not> d"
  shows "TcpModule_Start (xs @ (True, a) # ys) = (List.map_filter snd xs, True)"
  using assms by (induction xs rule: TcpModule_Start.induct) (auto simp: map_filter_simps split: option.split)

section \<open>Administration\<close>

record KickBody =
  kb_UserID :: string
  kb_Reason :: string

datatype http_result = HttpOK | HttpStats nat nat nat | HttpBadRequest | HttpInternalError

text \<open>The session accessor the handlers hold; nothing in the tree implements the interface.\<close>

record SessionAccessor =
  ac_GetConnCount :: nat
  ac_Count :: "nat \<times> nat"
  ac_GetByUserID :: "string \<Rightarrow> sref list option"

definition StatsHandler :: "SessionAccessor option \<Rightarrow> (world, http_result) go" where
  "StatsHandler sess =
     derefG sess (\<lambda>a. retG (HttpStats (ac_GetConnCount a) (fst (ac_Count a)) (snd (ac_Count a))))"

definition KickHandler :: "SessionAccessor option \<Rightarrow> KickBody option \<Rightarrow> (world, http_result) go" where
  "KickHandler sess body =
     (case body of
        None \<Rightarrow> retG HttpBadRequest
      | Some req \<Rightarrow>
          if kb_UserID req = '''' then retG HttpBadRequest
          else
            derefG sess (\<lambda>a.
              thenG (case ac_GetByUserID a (kb_UserID req) of
                       None \<Rightarrow> retG ()
                     | Some conns \<Rightarrow> modG (fold (\<lambda>s. sess_Close s None) conns))
                (retG HttpOK)))"

datatype admin_request = GetHealth | GetStats | PostKick "KickBody option"

text \<open>\<open>gin.Recovery\<close> turns a panic of a handler into the status 500.\<close>

definition gin_Recovery :: "(world, http_result) go \<Rightarrow> world \<Rightarrow> http_result \<times> world" where
  "gin_Recovery h w = (case h w of Ret r w' \<Rightarrow> (r, w') | Panic w' \<Rightarrow> (HttpInternalError, w'))"

definition admin_handler :: "SessionAccessor option \<Rightarrow> admin_request \<Rightarrow> (world, http_result) go" where
  "admin_handler sess req =
     (case req of GetHealth \<Rightarrow> retG HttpOK | GetStats \<Rightarrow> StatsHandler sess | PostKick body \<Rightarrow> KickHandler sess body)"

definition setupGinRouter :: "admin_request \<Rightarrow> world \<Rightarrow> http_result \<times> world" where
  "setupGinRouter req = gin_Recovery (admin_handler None req)"

record PushMessageResp =
  pmr_Accepted :: bool
  pmr_Delivered :: bool

definition GrpcServer_PushMessage :: "Message \<Rightarrow> world \<Rightarrow> PushMessageResp \<times> world" where
  "GrpcServer_PushMessage req w = (\<lparr>pmr_Accepted = True, pmr_Delivered = True\<rparr>, w)"

section \<open>When a gateway comes up\<close>

definition kafka_sender :: "cfg_PoolConfig \<Rightarrow> bool" where
  "kafka_sender p \<longleftrightarrow> cpc_UpstreamSender p = ''kafka'' \<or> cpc_UpstreamSender p = ''''"

lemma register_pools_None:
  "fst (register_pools store ps w) = None \<longleftrightarrow> (\<forall>(b, p) \<in> set ps. kafka_sender p)"
  by (induction store ps w rule: register_pools.induct) (auto simp: kafka_sender_def)

lemma NewServiceContext_iff:
  "NewServiceContext e cfg \<noteq> None \<longleftrightarrow>
     rdc_Addr (cf_Redis cfg) = '''' \<and> \<not> ev_redisPingFails e \<and> dbc_DSN (cf_Database cfg) \<noteq> ''''
   \<and> \<not> ev_mysqlOpenFails e \<and> \<not> ev_sqlDBFails e \<and> \<not> ev_migrateFails e"
  by (auto simp: NewServiceContext_def newRedis_def newDB_def Let_def split: option.splits prod.splits if_splits)

lemma boot_registry_eq:
  "boot_registry cfg =
     (\<lparr>sr_deps = \<lparr>dp_Worker = False, dp_Offline = True, dp_Acker = False, dp_MaxRetries = 0\<rparr>,
       sr_suspendTTL = ssc_SuspendTTL (cf_Session cfg) * Second, sr_ackScanner = True, sr_LocalRouter = True, sr_DistRouter = False\<rparr>, True)"
  by (simp add: boot_registry_def sess_NewRegistry_def WithLocalRouter_def WithOfflineStore_def SetSuspendTTL_def WithAckScanner_def Let_def)

lemma NewGatewayServer_starts_iff:
  "(\<exists>gs. NewGatewayServer sha blank e cfg = Some (Inr gs)) \<longleftrightarrow>
     NewServiceContext e cfg \<noteq> None \<and> (\<forall>(b, p) \<in> set (cf_Workers cfg). kafka_sender p)"
  using register_pools_None [of True "cf_Workers cfg" "boot_world blank cfg"]
  by (cases "register_pools True (cf_Workers cfg) (boot_world blank cfg)")
     (auto simp: NewGatewayServer_def registerWorkerPools_def split: option.splits)

lemma NewGatewayServer_node:
  assumes "NewGatewayServer sha blank e cfg = Some (Inr gs)"
  shows "register_pools True (cf_Workers cfg) (boot_world blank cfg) = (None, gs_node gs)"
    and "gs_connFactory gs = boot_factory sha cfg"
  using assms by (auto simp: NewGatewayServer_def registerWorkerPools_def split: option.splits prod.splits)

lemma register_pools_get:
  assumes "register_pools store ps w = (None, w')" and "gm_wf ps"
  shows "gm_get (wd_pools w') b =
    (case gm_get ps b of
       Some p \<Rightarrow> Some (newWorkerPool \<lparr>pc_BizCode = b, pc_UpstreamWorkers = cpc_UpstreamWorkers p, pc_UpstreamChanCap = cpc_UpstreamChanCap p,
                    pc_DownstreamWorkers = cpc_DownstreamWorkers p, pc_DownstreamChanCap = cpc_DownstreamChanCap p, pc_OfflineStore = store\<rparr>)
     | None \<Rightarrow> gm_get (wd_pools w) b)"
  using assms
proof (induction store ps w rule: register_pools.induct)
  case (2 store biz p rest w)
  then have "gm_wf rest" "gm_get rest biz = None"
    by (auto simp: gm_wf_def gm_keys_def gm_get_None_iff)
  with 2 show ?case by (auto simp: gm_get_def AddPool_def gm_set_def update_conv' split: if_splits option.split)
qed simp

text \<open>
  C32. A gateway comes up exactly when Redis is not configured. The process reaches its start if and only
  if a configuration was loaded, the Redis address is empty and Redis answers nevertheless, a
  database is configured, reachable and can be migrated, and every worker pool uses the Kafka
  sender. In every other case it panics; in particular it panics for every configuration with
  a Redis address.
\<close>

theorem gateway_starts_iff:
  "(\<exists>gs. app_Run sha blank e loaded = RunStarts gs) \<longleftrightarrow>
     (\<exists>cfg. loaded = Some cfg \<and> rdc_Addr (cf_Redis cfg) = '''' \<and> \<not> ev_redisPingFails e \<and> dbc_DSN (cf_Database cfg) \<noteq> ''''
        \<and> \<not> ev_mysqlOpenFails e \<and> \<not> ev_sqlDBFails e \<and> \<not> ev_migrateFails e
        \<and> list_all (\<lambda>(b, p). cpc_UpstreamSender p = ''kafka'' \<or> cpc_UpstreamSender p = '''') (cf_Workers cfg))"
proof (cases loaded)
  case (Some cfg)
  have "(\<exists>gs. app_Run sha blank e loaded = RunStarts gs) \<longleftrightarrow> (\<exists>gs. NewGatewayServer sha blank e cfg = Some (Inr gs))"
    by (auto simp: app_Run_def Some split: option.splits sum.splits)
  then show ?thesis
    using Some NewServiceContext_iff [of e cfg]
    by (simp add: NewGatewayServer_starts_iff kafka_sender_def list_all_iff)
qed (simp add: app_Run_def)

text \<open>
  A started gateway has exactly the configured worker pools, each with room for 100 jobs in each
  direction, whatever capacities the configuration asks for.
\<close>

theorem started_gateway_pools:
  assumes run: "app_Run sha blank e (Some cfg) = RunStarts gs" and wf: "gm_wf (cf_Workers cfg)"
  shows "gm_get (cf_Workers cfg) b = None \<and> gm_get (wd_pools (gs_node gs)) b = None
    \<or> (\<exists>p q. gm_get (cf_Workers cfg) b = Some p \<and> gm_get (wd_pools (gs_node gs)) b = Some q
         \<and> pc_BizCode (wp_cfg q) = b \<and> pc_UpstreamChanCap (wp_cfg q) = cpc_UpstreamChanCap p
         \<and> wp_upstreamCh q = make_chan 100 \<and> wp_downstreamCh q = make_chan 100)"
proof -
  have "NewGatewayServer sha blank e cfg = Some (Inr gs)"
    using run by (auto simp: app_Run_def split: option.splits sum.splits)
  from register_pools_get [OF NewGatewayServer_node(1) [OF this] wf, of b] show ?thesis
    by (auto simp: boot_world_def Let_def newWorkerPool_def split: option.splits)
qed

text \<open>
  The administration interface of a gateway never works: a request for statistics and a well-formed
  request to kick a user are answered with status 500 and close nobody, because the handlers are
  created without the session accessor they use; only the health check answers.
\<close>

theorem admin_interface_is_dead:
  "setupGinRouter GetHealth w = (HttpOK, w) \<and> setupGinRouter GetStats w = (HttpInternalError, w)
   \<and> (kb_UserID req = '''' \<or> setupGinRouter (PostKick (Some req)) w = (HttpInternalError, w))"
  by (simp add: setupGinRouter_def gin_Recovery_def admin_handler_def StatsHandler_def KickHandler_def go_simps)

definition sample_config :: Config where
  "sample_config =
     \<lparr>cf_Gateway = \<lparr>gwc_Addr = ''g'', gwc_UpstreamWorkerNum = 1, gwc_DownstreamWorkerNum = 1, gwc_MaxConnNum = 1, gwc_ReadBufSize = 1,
        gwc_WriteBufSize = 1, gwc_Profile = \<lparr>pfc_Enabled = False, pfc_Addr = ''''\<rparr>, gwc_Metrics = \<lparr>mtc_Enabled = False, mtc_Addr = ''''\<rparr>\<rparr>,
      cf_Redis = \<lparr>rdc_Addr = '''', rdc_Password = '''', rdc_DB = 0, rdc_PoolSize = 1, rdc_RouteTTL = 1\<rparr>,
      cf_Session = \<lparr>ssc_SuspendTTL = 300\<rparr>,
      cf_Workers = [(''im'', \<lparr>cpc_BizCode = ''im'', cpc_UpstreamSender = ''kafka'', cpc_UpstreamWorkers = 1, cpc_UpstreamChanCap = 5000,
        cpc_DownstreamWorkers = 1, cpc_DownstreamChanCap = 5000\<rparr>)],
      cf_Upstream = \<lparr>ixc_Kind = ''kafka'', ixc_Kafka = \<lparr>kfc_Brokers = [], kfc_BusinessTopics = []\<rparr>, ixc_GRPC = []\<rparr>,
      cf_Auth = \<lparr>auc_Addr = ''a''\<rparr>, cf_Log = \<lparr>lgc_Level = '''', lgc_Format = '''', lgc_File = ''''\<rparr>,
      cf_Database = \<lparr>dbc_DSN = ''dsn'', dbc_MaxOpenConns = 1, dbc_MaxIdleConns = 1, dbc_ConnMaxLife = 1\<rparr>\<rparr>"

definition sample_env :: svc_env where
  "sample_env = \<lparr>ev_redisPingFails = False, ev_mysqlOpenFails = False, ev_sqlDBFails = False, ev_migrateFails = False\<rparr>"

lemma sample_starts: "\<exists>gs. app_Run sha blank sample_env (Some sample_config) = RunStarts gs"
  by (simp add: app_Run_def NewGatewayServer_def NewServiceContext_def newRedis_def newDB_def registerWorkerPools_def
      sample_config_def sample_env_def Let_def)

theorem started_gateway_pools_witness:
  "\<exists>gs q. app_Run id sample_world sample_env (Some sample_config) = RunStarts gs \<and> gm_get (wd_pools (gs_node gs)) ''im'' = Some q
     \<and> pc_UpstreamChanCap (wp_cfg q) = 5000 \<and> wp_upstreamCh q = make_chan 100"
proof -
  obtain gs where gs: "app_Run id sample_world sample_env (Some sample_config) = RunStarts gs" using sample_starts by blast
  have "gm_wf (cf_Workers sample_config)" "gm_get (cf_Workers sample_config) ''im'' \<noteq> None"
      "\<forall>p. gm_get (cf_Workers sample_config) ''im'' = Some p \<longrightarrow> cpc_UpstreamChanCap p = 5000"
    by (simp_all add: sample_config_def gm_wf_def gm_keys_def gm_get_def)
  with started_gateway_pools [OF gs this(1), of "''im''"] gs show ?thesis by auto
qed

end
