(* ===== verification/Sdk_Types.thy ===== *)
theory Sdk_Types
  imports Sdk_Transport
begin

text \<open>
  \<open>sdk/types.go\<close> and \<open>sdk/codec.go\<close>: the enumerations and messages of the client library and
  their conversion to and from the wire type \<open>gateway.ClientSignal\<close>.

  The package \<open>common-protocol/v1\<close> that generates the wire types is not part of the repository.
  Of its enumerations only the names of the constants are known from the library, so their
  numbers are an argument: \<open>sv\<close> gives the \<open>int32\<close> value of a signal constant and \<open>bv\<close> that of a
  business constant. The hypothesis is that an enumeration gives different numbers to different
  names (\<open>inj sv\<close>), which protobuf demands of every enumeration without \<open>allow_alias\<close>.

  A field of type \<open>int32\<close> can hold a number that no constant has, on both sides; the conversions
  are therefore functions on \<open>32 word\<close> with a default branch, as in the code.
\<close>

section \<open>Business types\<close>

definition BusinessTypeUnknown :: "32 word" where
  "BusinessTypeUnknown = 0"

definition BusinessTypeIM :: "32 word" where
  "BusinessTypeIM = 1"

definition BusinessTypeLIVE :: "32 word" where
  "BusinessTypeLIVE = 2"

definition BusinessTypeMESSAGE :: "32 word" where
  "BusinessTypeMESSAGE = 3"

lemmas BusinessType_consts =
  BusinessTypeUnknown_def BusinessTypeIM_def BusinessTypeLIVE_def BusinessTypeMESSAGE_def

text \<open>The constants of \<open>gateway.BusinessType\<close> that the library names.\<close>

datatype pb_BusinessType = BusinessType_UNSPECIFIED | BusinessType_IM | BusinessType_LIVE | BusinessType_MESSAGE

definition BusinessType_String :: "32 word \<Rightarrow> string" where
  "BusinessType_String t =
     (if t = BusinessTypeIM then ''im''
      else if t = BusinessTypeLIVE then ''live''
      else if t = BusinessTypeMESSAGE then ''message''
      else ''unknown'')"

definition BusinessType_ToProto :: "(pb_BusinessType \<Rightarrow> 32 word) \<Rightarrow> 32 word \<Rightarrow> 32 word" where
  "BusinessType_ToProto bv t =
     (if t = BusinessTypeIM then bv BusinessType_IM
      else if t = BusinessTypeLIVE then bv BusinessType_LIVE
      else if t = BusinessTypeMESSAGE then bv BusinessType_MESSAGE
      else bv BusinessType_UNSPECIFIED)"

definition BusinessTypeFromProto :: "(pb_BusinessType \<Rightarrow> 32 word) \<Rightarrow> 32 word \<Rightarrow> 32 word" where
  "BusinessTypeFromProto bv p =
     (if p = bv BusinessType_IM then BusinessTypeIM
      else if p = bv BusinessType_LIVE then BusinessTypeLIVE
      else if p = bv BusinessType_MESSAGE then BusinessTypeMESSAGE
      else BusinessTypeUnknown)"

section \<open>Signal types\<close>

definition SignalTypeUnknown :: "32 word" where
  "SignalTypeUnknown = 0"

definition SignalTypeHeartbeatPing :: "32 word" where
  "SignalTypeHeartbeatPing = 1"

definition SignalTypeHeartbeatPong :: "32 word" where
  "SignalTypeHeartbeatPong = 2"

definition SignalTypeAuthRequest :: "32 word" where
  "SignalTypeAuthRequest = 3"

definition SignalTypeAuthResponse :: "32 word" where
  "SignalTypeAuthResponse = 4"

definition SignalTypeMessageAck :: "32 word" where
  "SignalTypeMessageAck = 5"

definition SignalTypeLogoutRequest :: "32 word" where
  "SignalTypeLogoutRequest = 7"

definition SignalTypeLogoutResponse :: "32 word" where
  "SignalTypeLogoutResponse = 8"

definition SignalTypeSubscribeRequest :: "32 word" where
  "SignalTypeSubscribeRequest = 9"

definition SignalTypeSubscribeResponse :: "32 word" where
  "SignalTypeSubscribeResponse = 10"

definition SignalTypeUnsubscribeRequest :: "32 word" where
  "SignalTypeUnsubscribeRequest = 11"

definition SignalTypeUnsubscribeResponse :: "32 word" where
  "SignalTypeUnsubscribeResponse = 12"

definition SignalTypeBusinessUp :: "32 word" where
  "SignalTypeBusinessUp = 100"

definition SignalTypeBusinessDown :: "32 word" where
  "SignalTypeBusinessDown = 101"

lemmas SignalType_consts =
  SignalTypeUnknown_def SignalTypeHeartbeatPing_def SignalTypeHeartbeatPong_def
  SignalTypeAuthRequest_def SignalTypeAuthResponse_def SignalTypeMessageAck_def
  SignalTypeLogoutRequest_def SignalTypeLogoutResponse_def SignalTypeSubscribeRequest_def
  SignalTypeSubscribeResponse_def SignalTypeUnsubscribeRequest_def SignalTypeUnsubscribeResponse_def
  SignalTypeBusinessUp_def SignalTypeBusinessDown_def

datatype pb_SignalType =
    SIGNAL_TYPE_UNSPECIFIED
  | SIGNAL_TYPE_HEARTBEAT_PING
  | SIGNAL_TYPE_HEARTBEAT_PONG
  | SIGNAL_TYPE_AUTH_REQUEST
  | SIGNAL_TYPE_AUTH_RESPONSE
  | SIGNAL_TYPE_MESSAGE_ACK
  | SIGNAL_TYPE_LOGOUT_REQUEST
  | SIGNAL_TYPE_LOGOUT_RESPONSE
  | SIGNAL_TYPE_SUBSCRIBE_REQUEST
  | SIGNAL_TYPE_SUBSCRIBE_RESPONSE
  | SIGNAL_TYPE_UNSUBSCRIBE_REQUEST
  | SIGNAL_TYPE_UNSUBSCRIBE_RESPONSE
  | SIGNAL_TYPE_BUSINESS_UP
  | SIGNAL_TYPE_BUSINESS_DOWN

definition SignalType_String :: "32 word \<Rightarrow> string" where
  "SignalType_String t =
     (if t = SignalTypeHeartbeatPing then ''HeartbeatPing''
      else if t = SignalTypeHeartbeatPong then ''HeartbeatPong''
      else if t = SignalTypeAuthRequest then ''AuthRequest''
      else if t = SignalTypeAuthResponse then ''AuthResponse''
      else if t = SignalTypeMessageAck then ''MessageAck''
      else if t = SignalTypeLogoutRequest then ''LogoutRequest''
      else if t = SignalTypeLogoutResponse then ''LogoutResponse''
      else if t = SignalTypeSubscribeRequest then ''SubscribeRequest''
      else if t = SignalTypeSubscribeResponse then ''SubscribeResponse''
      else if t = SignalTypeUnsubscribeRequest then ''UnsubscribeRequest''
      else if t = SignalTypeUnsubscribeResponse then ''UnsubscribeResponse''
      else if t = SignalTypeBusinessUp then ''BusinessUp''
      else if t = SignalTypeBusinessDown then ''BusinessDown''
      else ''Unknown'')"

definition SignalType_ToProto :: "(pb_SignalType \<Rightarrow> 32 word) \<Rightarrow> 32 word \<Rightarrow> 32 word" where
  "SignalType_ToProto sv t =
     (if t = SignalTypeHeartbeatPing then sv SIGNAL_TYPE_HEARTBEAT_PING
      else if t = SignalTypeHeartbeatPong then sv SIGNAL_TYPE_HEARTBEAT_PONG
      else if t = SignalTypeAuthRequest then sv SIGNAL_TYPE_AUTH_REQUEST
      else if t = SignalTypeAuthResponse then sv SIGNAL_TYPE_AUTH_RESPONSE
      else if t = SignalTypeMessageAck then sv SIGNAL_TYPE_MESSAGE_ACK
      else if t = SignalTypeLogoutRequest then sv SIGNAL_TYPE_LOGOUT_REQUEST
      else if t = SignalTypeLogoutResponse then sv SIGNAL_TYPE_LOGOUT_RESPONSE
      else if t = SignalTypeSubscribeRequest then sv SIGNAL_TYPE_SUBSCRIBE_REQUEST
      else if t = SignalTypeSubscribeResponse then sv SIGNAL_TYPE_SUBSCRIBE_RESPONSE
      else if t = SignalTypeUnsubscribeRequest then sv SIGNAL_TYPE_UNSUBSCRIBE_REQUEST
      else if t = SignalTypeUnsubscribeResponse then sv SIGNAL_TYPE_UNSUBSCRIBE_RESPONSE
      else if t = SignalTypeBusinessUp then sv SIGNAL_TYPE_BUSINESS_UP
      else if t = SignalTypeBusinessDown then sv SIGNAL_TYPE_BUSINESS_DOWN
      else sv SIGNAL_TYPE_UNSPECIFIED)"

definition SignalTypeFromProto :: "(pb_SignalType \<Rightarrow> 32 word) \<Rightarrow> 32 word \<Rightarrow> 32 word" where
  "SignalTypeFromProto sv p =
     (if p = sv SIGNAL_TYPE_HEARTBEAT_PING then SignalTypeHeartbeatPing
      else if p = sv SIGNAL_TYPE_HEARTBEAT_PONG then SignalTypeHeartbeatPong
      else if p = sv SIGNAL_TYPE_AUTH_REQUEST then SignalTypeAuthRequest
      else if p = sv SIGNAL_TYPE_AUTH_RESPONSE then SignalTypeAuthResponse
      else if p = sv SIGNAL_TYPE_MESSAGE_ACK then SignalTypeMessageAck
      else if p = sv SIGNAL_TYPE_LOGOUT_REQUEST then SignalTypeLogoutRequest
      else if p = sv SIGNAL_TYPE_LOGOUT_RESPONSE then SignalTypeLogoutResponse
      else if p = sv SIGNAL_TYPE_SUBSCRIBE_REQUEST then SignalTypeSubscribeRequest
      else if p = sv SIGNAL_TYPE_SUBSCRIBE_RESPONSE then SignalTypeSubscribeResponse
      else if p = sv SIGNAL_TYPE_UNSUBSCRIBE_REQUEST then SignalTypeUnsubscribeRequest
      else if p = sv SIGNAL_TYPE_UNSUBSCRIBE_RESPONSE then SignalTypeUnsubscribeResponse
      else if p = sv SIGNAL_TYPE_BUSINESS_UP then SignalTypeBusinessUp
      else if p = sv SIGNAL_TYPE_BUSINESS_DOWN then SignalTypeBusinessDown
      else SignalTypeUnknown)"

section \<open>Connection states\<close>

definition ConnStateUnspecified :: "32 word" where
  "ConnStateUnspecified = 0"

definition ConnStateConnecting :: "32 word" where
  "ConnStateConnecting = 1"

definition ConnStateConnected :: "32 word" where
  "ConnStateConnected = 2"

definition ConnStateAuthenticated :: "32 word" where
  "ConnStateAuthenticated = 3"

definition ConnStateDisconnected :: "32 word" where
  "ConnStateDisconnected = 4"

definition ConnStateAuthenticationFailed :: "32 word" where
  "ConnStateAuthenticationFailed = 5"

lemmas ConnState_consts =
  ConnStateUnspecified_def
  ConnStateConnecting_def
  ConnStateConnected_def
  ConnStateAuthenticated_def
  ConnStateDisconnected_def
  ConnStateAuthenticationFailed_def

definition sdk_ConnState_String :: "32 word \<Rightarrow> string" where
  "sdk_ConnState_String s =
     (if s = ConnStateConnecting then ''Connecting''
      else if s = ConnStateConnected then ''Connected''
      else if s = ConnStateAuthenticated then ''Authenticated''
      else if s = ConnStateDisconnected then ''Disconnected''
      else if s = ConnStateAuthenticationFailed then ''AuthenticationFailed''
      else ''Unspecified'')"

section \<open>Messages and options\<close>

record sdk_Message =
  sm_RequestID :: string
  sm_SequenceID :: "64 word"
  sm_Type :: "32 word"
  sm_Body :: bytes
  sm_MsgID :: string
  sm_BizType :: "32 word"
  sm_UserID :: string
  sm_DeviceID :: string
  sm_Platform :: string

record AuthRequest =
  aq_Token :: string
  aq_UserID :: string
  aq_DeviceID :: string
  aq_Platform :: string
  aq_HeartbeatInterval :: "32 word"

record sdk_AuthResponse =
  sa_Code :: "32 word"
  sa_Msg :: string
  sa_Result :: bool
  sa_HeartbeatInterval :: "32 word"

record SubscribeRequest =
  sq_Topic :: string
  sq_Qos :: "32 word"

record BusinessMessage =
  bm_MsgID :: string
  bm_BizType :: "32 word"
  bm_Body :: bytes

text \<open>Durations are in nanoseconds; of the two callbacks it matters whether they are set.\<close>

record ClientOptions =
  co_Addr :: string
  co_AuthServerAddr :: string
  co_ConnectTimeout :: int
  co_ReadTimeout :: int
  co_WriteTimeout :: int
  co_HeartbeatInterval :: int
  co_AuthTimeout :: int
  co_MessageHandler :: bool
  co_ConnectHandler :: bool
  co_Debug :: bool

definition sdk_Second :: int where
  "sdk_Second = 1000000000"

definition defaultOptions :: ClientOptions where
  "defaultOptions =
     \<lparr>co_Addr = '''', co_AuthServerAddr = '''', co_ConnectTimeout = 10 * sdk_Second,
      co_ReadTimeout = 50 * sdk_Second, co_WriteTimeout = 5 * sdk_Second,
      co_HeartbeatInterval = 20 * sdk_Second, co_AuthTimeout = 10 * sdk_Second,
      co_MessageHandler = False, co_ConnectHandler = False, co_Debug = False\<rparr>"

text \<open>An \<open>Option\<close> is a function that writes to the options; here one that returns the new ones.\<close>

type_synonym sdk_Option = "ClientOptions \<Rightarrow> ClientOptions"

definition WithAddr :: "string \<Rightarrow> sdk_Option" where
  "WithAddr addr o' = o'\<lparr>co_Addr := addr\<rparr>"

definition WithConnectTimeout :: "int \<Rightarrow> sdk_Option" where
  "WithConnectTimeout timeout o' = o'\<lparr>co_ConnectTimeout := timeout\<rparr>"

definition WithReadTimeout :: "int \<Rightarrow> sdk_Option" where
  "WithReadTimeout timeout o' = o'\<lparr>co_ReadTimeout := timeout\<rparr>"

definition WithWriteTimeout :: "int \<Rightarrow> sdk_Option" where
  "WithWriteTimeout timeout o' = o'\<lparr>co_WriteTimeout := timeout\<rparr>"

definition WithHeartbeatInterval :: "int \<Rightarrow> sdk_Option" where
  "WithHeartbeatInterval interval o' = o'\<lparr>co_HeartbeatInterval := interval\<rparr>"

definition WithAuthTimeout :: "int \<Rightarrow> sdk_Option" where
  "WithAuthTimeout timeout o' = o'\<lparr>co_AuthTimeout := timeout\<rparr>"

definition WithMessageHandler :: "bool \<Rightarrow> sdk_Option" where
  "WithMessageHandler handler o' = o'\<lparr>co_MessageHandler := handler\<rparr>"

definition WithConnectHandler :: "bool \<Rightarrow> sdk_Option" where
  "WithConnectHandler handler o' = o'\<lparr>co_ConnectHandler := handler\<rparr>"

definition WithDebug :: "bool \<Rightarrow> sdk_Option" where
  "WithDebug debug o' = o'\<lparr>co_Debug := debug\<rparr>"

definition WithAuthServerAddr :: "string \<Rightarrow> sdk_Option" where
  "WithAuthServerAddr addr o' = o'\<lparr>co_AuthServerAddr := addr\<rparr>"

section \<open>The wire type\<close>

text \<open>
  \<open>gateway.ClientSignal\<close> with the fields the library reads and writes. The payload is a protobuf
  oneof: an interface that is nil (\<open>None\<close>) or holds a pointer to one of the wrapper structs,
  whose own message pointer the library follows without a check where it decodes.
\<close>

record pb_AuthRequest =
  pq_Token :: string
  pq_UserId :: string
  pq_DeviceId :: string
  pq_Platform :: string
  pq_HeartbeatInterval :: "32 word option"

record pb_AuthResponse =
  pr_Code :: "32 word"
  pr_Msg :: string
  pr_Result :: bool
  pr_HeartbeatInternal :: "32 word"

record pb_BusinessDown =
  pd_MsgId :: string
  pd_Type :: "32 word"
  pd_Body :: bytes

datatype signal_payload =
    ClientSignal_HeartbeatPing "64 word"
  | ClientSignal_AuthRequest pb_AuthRequest
  | ClientSignal_AuthResponse "pb_AuthResponse option"
  | ClientSignal_SubscribeRequest string "32 word"
  | ClientSignal_UnsubscribeRequest string
  | ClientSignal_BusinessUp string "32 word" bytes
  | ClientSignal_BusinessDown "pb_BusinessDown option"
  | ClientSignal_LogoutRequest "32 word"
  | ClientSignal_MessageAck "string list"
  | ClientSignal_other

record ClientSignal =
  cs_RequestId :: string
  cs_SequenceId :: "64 word"
  cs_SignalType :: "32 word"
  cs_Payload :: "signal_payload option"

section \<open>Encoding\<close>

definition EncodeHeartbeatPing :: "(pb_SignalType \<Rightarrow> 32 word) \<Rightarrow> string \<Rightarrow> 64 word \<Rightarrow> ClientSignal" where
  "EncodeHeartbeatPing sv requestID clientTimestamp =
     \<lparr>cs_RequestId = requestID, cs_SequenceId = 0, cs_SignalType = sv SIGNAL_TYPE_HEARTBEAT_PING,
      cs_Payload = Some (ClientSignal_HeartbeatPing clientTimestamp)\<rparr>"

definition EncodeAuthRequest :: "(pb_SignalType \<Rightarrow> 32 word) \<Rightarrow> string \<Rightarrow> AuthRequest \<Rightarrow> ClientSignal" where
  "EncodeAuthRequest sv requestID auth =
     (let req = \<lparr>pq_Token = aq_Token auth, pq_UserId = aq_UserID auth, pq_DeviceId = aq_DeviceID auth,
                 pq_Platform = aq_Platform auth,
                 pq_HeartbeatInterval = (if aq_HeartbeatInterval auth > 0 then Some (aq_HeartbeatInterval auth) else None)\<rparr>
      in \<lparr>cs_RequestId = requestID, cs_SequenceId = 0, cs_SignalType = sv SIGNAL_TYPE_AUTH_REQUEST,
          cs_Payload = Some (ClientSignal_AuthRequest req)\<rparr>)"

definition EncodeSubscribeRequest :: "(pb_SignalType \<Rightarrow> 32 word) \<Rightarrow> string \<Rightarrow> SubscribeRequest \<Rightarrow> ClientSignal" where
  "EncodeSubscribeRequest sv requestID sub =
     \<lparr>cs_RequestId = requestID, cs_SequenceId = 0, cs_SignalType = sv SIGNAL_TYPE_SUBSCRIBE_REQUEST,
      cs_Payload = Some (ClientSignal_SubscribeRequest (sq_Topic sub) (sq_Qos sub))\<rparr>"

definition EncodeUnsubscribeRequest :: "(pb_SignalType \<Rightarrow> 32 word) \<Rightarrow> string \<Rightarrow> string \<Rightarrow> ClientSignal" where
  "EncodeUnsubscribeRequest sv requestID topic =
     \<lparr>cs_RequestId = requestID, cs_SequenceId = 0, cs_SignalType = sv SIGNAL_TYPE_UNSUBSCRIBE_REQUEST,
      cs_Payload = Some (ClientSignal_UnsubscribeRequest topic)\<rparr>"

definition EncodeBusinessUp ::
    "(pb_SignalType \<Rightarrow> 32 word) \<Rightarrow> (pb_BusinessType \<Rightarrow> 32 word) \<Rightarrow> string \<Rightarrow> 64 word \<Rightarrow> BusinessMessage \<Rightarrow> ClientSignal" where
  "EncodeBusinessUp sv bv requestID seq biz =
     \<lparr>cs_RequestId = requestID, cs_SequenceId = seq, cs_SignalType = sv SIGNAL_TYPE_BUSINESS_UP,
      cs_Payload = Some (ClientSignal_BusinessUp (bm_MsgID biz) (BusinessType_ToProto bv (bm_BizType biz)) (bm_Body biz))\<rparr>"

definition EncodeLogoutRequest :: "(pb_SignalType \<Rightarrow> 32 word) \<Rightarrow> string \<Rightarrow> 32 word \<Rightarrow> ClientSignal" where
  "EncodeLogoutRequest sv requestID reason =
     \<lparr>cs_RequestId = requestID, cs_SequenceId = 0, cs_SignalType = sv SIGNAL_TYPE_LOGOUT_REQUEST,
      cs_Payload = Some (ClientSignal_LogoutRequest reason)\<rparr>"

definition EncodeMessageAck :: "(pb_SignalType \<Rightarrow> 32 word) \<Rightarrow> string \<Rightarrow> string list \<Rightarrow> ClientSignal" where
  "EncodeMessageAck sv requestID msgIDs =
     \<lparr>cs_RequestId = requestID, cs_SequenceId = 0, cs_SignalType = sv SIGNAL_TYPE_MESSAGE_ACK,
      cs_Payload = Some (ClientSignal_MessageAck msgIDs)\<rparr>"

section \<open>Decoding\<close>

definition zero_sdk_Message :: sdk_Message where
  "zero_sdk_Message =
     \<lparr>sm_RequestID = '''', sm_SequenceID = 0, sm_Type = 0, sm_Body = [], sm_MsgID = '''', sm_BizType = 0,
      sm_UserID = '''', sm_DeviceID = '''', sm_Platform = ''''\<rparr>"

definition DecodeClientSignal :: "(pb_SignalType \<Rightarrow> 32 word) \<Rightarrow> ClientSignal \<Rightarrow> sdk_Message" where
  "DecodeClientSignal sv cs =
     zero_sdk_Message\<lparr>sm_RequestID := cs_RequestId cs, sm_SequenceID := cs_SequenceId cs,
       sm_Type := SignalTypeFromProto sv (cs_SignalType cs)\<rparr>"

text \<open>The two decoders of payloads return nil for another payload and panic on a nil message.\<close>

definition DecodeAuthResponse :: "ClientSignal \<Rightarrow> ('s, sdk_AuthResponse option) go" where
  "DecodeAuthResponse cs =
     (case cs_Payload cs of
        Some (ClientSignal_AuthResponse m) \<Rightarrow>
          derefG m (\<lambda>r. retG (Some \<lparr>sa_Code = pr_Code r, sa_Msg = pr_Msg r, sa_Result = pr_Result r,
                                   sa_HeartbeatInterval = pr_HeartbeatInternal r\<rparr>))
      | _ \<Rightarrow> retG None)"

definition DecodeBusinessDown :: "(pb_BusinessType \<Rightarrow> 32 word) \<Rightarrow> ClientSignal \<Rightarrow> ('s, sdk_Message option) go" where
  "DecodeBusinessDown bv cs =
     (case cs_Payload cs of
        Some (ClientSignal_BusinessDown m) \<Rightarrow>
          derefG m (\<lambda>d. retG (Some (zero_sdk_Message\<lparr>sm_RequestID := cs_RequestId cs, sm_SequenceID := cs_SequenceId cs,
            sm_Type := SignalTypeBusinessDown, sm_MsgID := pd_MsgId d, sm_BizType := BusinessTypeFromProto bv (pd_Type d),
            sm_Body := pd_Body d\<rparr>)))
      | _ \<Rightarrow> retG None)"

section \<open>Round trips\<close>

lemmas Encode_defs =
  EncodeHeartbeatPing_def EncodeAuthRequest_def EncodeSubscribeRequest_def EncodeUnsubscribeRequest_def
  EncodeBusinessUp_def EncodeLogoutRequest_def EncodeMessageAck_def

definition named_signal :: "32 word \<Rightarrow> bool" where
  "named_signal t \<longleftrightarrow> t \<in> {1, 2, 3, 4, 5, 7, 8, 9, 10, 11, 12, 100, 101}"

lemma SignalTypeFromProto_sv:
  assumes "inj sv"
  shows "SignalTypeFromProto sv (sv c) =
    (case c of
       SIGNAL_TYPE_UNSPECIFIED \<Rightarrow> 0 | SIGNAL_TYPE_HEARTBEAT_PING \<Rightarrow> 1 | SIGNAL_TYPE_HEARTBEAT_PONG \<Rightarrow> 2
     | SIGNAL_TYPE_AUTH_REQUEST \<Rightarrow> 3 | SIGNAL_TYPE_AUTH_RESPONSE \<Rightarrow> 4 | SIGNAL_TYPE_MESSAGE_ACK \<Rightarrow> 5
     | SIGNAL_TYPE_LOGOUT_REQUEST \<Rightarrow> 7 | SIGNAL_TYPE_LOGOUT_RESPONSE \<Rightarrow> 8 | SIGNAL_TYPE_SUBSCRIBE_REQUEST \<Rightarrow> 9
     | SIGNAL_TYPE_SUBSCRIBE_RESPONSE \<Rightarrow> 10 | SIGNAL_TYPE_UNSUBSCRIBE_REQUEST \<Rightarrow> 11
     | SIGNAL_TYPE_UNSUBSCRIBE_RESPONSE \<Rightarrow> 12 | SIGNAL_TYPE_BUSINESS_UP \<Rightarrow> 100 | SIGNAL_TYPE_BUSINESS_DOWN \<Rightarrow> 101)"
  by (cases c) (simp_all add: SignalTypeFromProto_def inj_eq [OF assms] SignalType_consts)

lemma BusinessTypeFromProto_bv:
  assumes "inj bv"
  shows "BusinessTypeFromProto bv (bv c) =
    (case c of BusinessType_UNSPECIFIED \<Rightarrow> 0 | BusinessType_IM \<Rightarrow> 1 | BusinessType_LIVE \<Rightarrow> 2 | BusinessType_MESSAGE \<Rightarrow> 3)"
  by (cases c) (simp_all add: BusinessTypeFromProto_def inj_eq [OF assms] BusinessType_consts)

lemma signal_type_roundtrip:
  "inj sv \<Longrightarrow> SignalTypeFromProto sv (SignalType_ToProto sv t) = (if named_signal t then t else SignalTypeUnknown)"
  by (simp add: SignalType_ToProto_def SignalTypeFromProto_sv SignalType_consts named_signal_def)

lemma business_type_roundtrip:
  "inj bv \<Longrightarrow> BusinessTypeFromProto bv (BusinessType_ToProto bv t) = (if t \<in> {1, 2, 3} then t else BusinessTypeUnknown)"
  by (simp add: BusinessType_ToProto_def BusinessTypeFromProto_bv BusinessType_consts)

text \<open>The names are told apart by their text, except that an unnamed number reads like \<open>Unknown\<close>.\<close>

lemma SignalType_String_inj:
  "named_signal t \<Longrightarrow> SignalType_String t = SignalType_String u \<Longrightarrow> t = u"
  unfolding named_signal_def SignalType_String_def SignalType_consts
  by (elim insertE; simp split: if_splits)

text \<open>What a downlink carries is what the application reads.\<close>

lemma DecodeBusinessDown_roundtrip:
  assumes "inj bv" and "b \<in> {1, 2, 3}"
  shows "DecodeBusinessDown bv (cs\<lparr>cs_Payload := Some (ClientSignal_BusinessDown
           (Some \<lparr>pd_MsgId = i, pd_Type = BusinessType_ToProto bv b, pd_Body = d\<rparr>))\<rparr>) s =
    Ret (Some (zero_sdk_Message\<lparr>sm_RequestID := cs_RequestId cs, sm_SequenceID := cs_SequenceId cs,
      sm_Type := SignalTypeBusinessDown, sm_MsgID := i, sm_BizType := b, sm_Body := d\<rparr>)) s"
  using assms by (simp add: DecodeBusinessDown_def go_simps business_type_roundtrip)

text \<open>
  The envelope survives the wire. Whatever request the library encodes, decoding the signal gives back
  the request identifier, the sequence number and the kind of the request, so that a reply can be
  matched to it; and converting a signal or business constant to the wire and back is the identity
  on every constant that has a name, while any other number becomes unknown.
\<close>

theorem sdk_envelope_roundtrip:
  assumes sv: "inj sv" and bv: "inj bv"
  shows "(\<forall>(e, seq, t) \<in>
      {(EncodeHeartbeatPing sv r ts, 0, SignalTypeHeartbeatPing), (EncodeAuthRequest sv r auth, 0, SignalTypeAuthRequest),
       (EncodeSubscribeRequest sv r sub, 0, SignalTypeSubscribeRequest), (EncodeUnsubscribeRequest sv r topic, 0, SignalTypeUnsubscribeRequest),
       (EncodeBusinessUp sv bv r n biz, n, SignalTypeBusinessUp), (EncodeLogoutRequest sv r reason, 0, SignalTypeLogoutRequest),
       (EncodeMessageAck sv r ids, 0, SignalTypeMessageAck)}.
      DecodeClientSignal sv e = zero_sdk_Message\<lparr>sm_RequestID := r, sm_SequenceID := seq, sm_Type := t\<rparr>)
    \<and> SignalTypeFromProto sv (SignalType_ToProto sv t) = (if named_signal t then t else SignalTypeUnknown)
    \<and> BusinessTypeFromProto bv (BusinessType_ToProto bv b) = (if b \<in> {1, 2, 3} then b else BusinessTypeUnknown)"
  unfolding signal_type_roundtrip [OF sv] business_type_roundtrip [OF bv]
  by (simp add: DecodeClientSignal_def Encode_defs SignalTypeFromProto_sv [OF sv] SignalType_consts Let_def)

text \<open>A numbering for the concrete examples.\<close>

definition sample_sv :: "pb_SignalType \<Rightarrow> 32 word" where
  "sample_sv c =
    (case c of
       SIGNAL_TYPE_UNSPECIFIED \<Rightarrow> 0 | SIGNAL_TYPE_HEARTBEAT_PING \<Rightarrow> 1 | SIGNAL_TYPE_HEARTBEAT_PONG \<Rightarrow> 2
     | SIGNAL_TYPE_AUTH_REQUEST \<Rightarrow> 3 | SIGNAL_TYPE_AUTH_RESPONSE \<Rightarrow> 4 | SIGNAL_TYPE_MESSAGE_ACK \<Rightarrow> 5
     | SIGNAL_TYPE_LOGOUT_REQUEST \<Rightarrow> 7 | SIGNAL_TYPE_LOGOUT_RESPONSE \<Rightarrow> 8 | SIGNAL_TYPE_SUBSCRIBE_REQUEST \<Rightarrow> 9
     | SIGNAL_TYPE_SUBSCRIBE_RESPONSE \<Rightarrow> 10 | SIGNAL_TYPE_UNSUBSCRIBE_REQUEST \<Rightarrow> 11
     | SIGNAL_TYPE_UNSUBSCRIBE_RESPONSE \<Rightarrow> 12 | SIGNAL_TYPE_BUSINESS_UP \<Rightarrow> 100 | SIGNAL_TYPE_BUSINESS_DOWN \<Rightarrow> 101)"

definition sample_bv :: "pb_BusinessType \<Rightarrow> 32 word" where
  "sample_bv c =
    (case c of BusinessType_UNSPECIFIED \<Rightarrow> 0 | BusinessType_IM \<Rightarrow> 1 | BusinessType_LIVE \<Rightarrow> 2 | BusinessType_MESSAGE \<Rightarrow> 3)"

lemma inj_sample_sv: "inj sample_sv"
proof (rule injI)
  fix x y
  show "sample_sv x = sample_sv y \<Longrightarrow> x = y" by (cases x; cases y; simp add: sample_sv_def)
qed

lemma inj_sample_bv: "inj sample_bv"
  by (rule injI) (auto simp: sample_bv_def split: pb_BusinessType.splits)

theorem sdk_envelope_roundtrip_witness:
  "DecodeClientSignal sample_sv (EncodeMessageAck sample_sv ''r1'' [''m1'']) =
     zero_sdk_Message\<lparr>sm_RequestID := ''r1'', sm_SequenceID := 0, sm_Type := SignalTypeMessageAck\<rparr>"
  using sdk_envelope_roundtrip [OF inj_sample_sv inj_sample_bv, of "''r1''" 0 undefined undefined undefined 0 undefined 0 "[''m1'']" 0 0]
  by simp

end
