(* ===== verification/Sdk_Base.thy ===== *)
theory Sdk_Base
  imports Sdk_Types
begin

text \<open>
  \<open>sdk/client.go\<close>: the state that the TCP and the WebSocket client share. The type parameter is
  the transport (nil until \<open>Connect\<close> has succeeded).

  A call of the library can return, panic, or wait for a mutex that nobody will release. The
  mutex \<open>closeMu\<close> is a field of the state; every other mutex of the client is taken and released
  inside one method without another call in between, which makes that method atomic and is not
  represented. Channels of waiting requests are objects of their own, because the waiter holds
  the channel while the table of pending responses may already have dropped it.

  The callbacks of the application are recorded in the order they are made.
\<close>

section \<open>Calls that return, panic or hang\<close>

datatype ('s, 'a) outcome = Done 'a 's | Crash 's | Hang 's

type_synonym ('s, 'a) act = "'s \<Rightarrow> ('s, 'a) outcome"

definition bindA :: "('s, 'a) act \<Rightarrow> ('a \<Rightarrow> ('s, 'b) act) \<Rightarrow> ('s, 'b) act" where
  "bindA m f s = (case m s of Done a s' \<Rightarrow> f a s' | Crash s' \<Rightarrow> Crash s' | Hang s' \<Rightarrow> Hang s')"

definition retA :: "'a \<Rightarrow> ('s, 'a) act" where
  "retA x s = Done x s"

definition modA :: "('s \<Rightarrow> 's) \<Rightarrow> ('s, unit) act" where
  "modA f s = Done () (f s)"

definition thenA :: "('s, 'a) act \<Rightarrow> ('s, 'b) act \<Rightarrow> ('s, 'b) act" where
  "thenA m k = bindA m (\<lambda>_. k)"

definition ofG :: "('s, 'a) go \<Rightarrow> ('s, 'a) act" where
  "ofG m s = (case m s of Ret a s' \<Rightarrow> Done a s' | Panic s' \<Rightarrow> Crash s')"

fun outcome_state :: "('s, 'a) outcome \<Rightarrow> 's" where
  "outcome_state (Done a s) = s"
| "outcome_state (Crash s) = s"
| "outcome_state (Hang s) = s"

named_theorems act_simps "equations of the actions of a client"

lemmas act_defs [act_simps] = bindA_def retA_def modA_def thenA_def ofG_def

section \<open>BaseClient\<close>

datatype callback = OnConnect "32 word" bool \<comment> \<open>the state, and whether there is an error\<close>
  | OnMessage sdk_Message

record 't client =
  cl_Opts :: ClientOptions
  cl_state :: "32 word"
  cl_authResp :: "sdk_AuthResponse option"
  cl_sequenceID :: "64 word"
  cl_heartbeatTicker :: "int option"  \<comment> \<open>its period; \<open>None\<close> is nil\<close>
  cl_heartbeatStop :: bool  \<comment> \<open>the channel is closed\<close>
  cl_msgCh :: "sdk_Message chan"
  cl_pendingResp :: "(string, nat) gomap"
  cl_chans :: "nat \<Rightarrow> sdk_Message chan"
  cl_nextChan :: nat
  cl_closeMu :: bool  \<comment> \<open>locked\<close>
  cl_closed :: bool
  cl_ctxDone :: bool
  cl_transport :: "'t option"
  cl_connClosed :: bool
  cl_callbacks :: "callback list"
  cl_heartbeats :: nat  \<comment> \<open>heartbeat goroutines started\<close>
  cl_readLoops :: nat  \<comment> \<open>reading goroutines started\<close>

definition NewBaseClient :: "sdk_Option list \<Rightarrow> 't client" where
  "NewBaseClient opts =
     \<lparr>cl_Opts = fold (\<lambda>opt. opt) opts defaultOptions, cl_state = 0, cl_authResp = None, cl_sequenceID = 0,
      cl_heartbeatTicker = None, cl_heartbeatStop = False, cl_msgCh = make_chan 100, cl_pendingResp = [],
      cl_chans = (\<lambda>_. make_chan 0), cl_nextChan = 0, cl_closeMu = False, cl_closed = False, cl_ctxDone = False,
      cl_transport = None, cl_connClosed = False, cl_callbacks = [], cl_heartbeats = 0, cl_readLoops = 0\<rparr>"

definition mu_Lock :: "('t client, unit) act" where
  "mu_Lock c = (if cl_closeMu c then Hang c else Done () (c\<lparr>cl_closeMu := True\<rparr>))"

definition mu_Unlock :: "('t client, unit) act" where
  "mu_Unlock c = Done () (c\<lparr>cl_closeMu := False\<rparr>)"

definition IsClosed :: "('t client, bool) act" where
  "IsClosed = thenA mu_Lock (bindA (\<lambda>c. Done (cl_closed c) c) (\<lambda>b. thenA mu_Unlock (retA b)))"

definition SetClosed :: "bool \<Rightarrow> ('t client, unit) act" where
  "SetClosed closed = thenA mu_Lock (thenA (modA (\<lambda>c. c\<lparr>cl_closed := closed\<rparr>)) mu_Unlock)"

definition SetState :: "32 word \<Rightarrow> 't client \<Rightarrow> 't client" where
  "SetState state c = c\<lparr>cl_state := state\<rparr>"

definition IsConnected :: "'t client \<Rightarrow> bool" where
  "IsConnected c \<longleftrightarrow> cl_state c = ConnStateConnected \<or> cl_state c = ConnStateAuthenticated"

definition IsAuthenticated :: "'t client \<Rightarrow> bool" where
  "IsAuthenticated c \<longleftrightarrow> cl_state c = ConnStateAuthenticated"

definition SetAuthResponse :: "sdk_AuthResponse option \<Rightarrow> 't client \<Rightarrow> 't client" where
  "SetAuthResponse resp c = c\<lparr>cl_authResp := resp\<rparr>"

definition NextSequenceID :: "'t client \<Rightarrow> 64 word \<times> 't client" where
  "NextSequenceID c = (cl_sequenceID c + 1, c\<lparr>cl_sequenceID := cl_sequenceID c + 1\<rparr>)"

definition WaitResponse :: "string \<Rightarrow> 't client \<Rightarrow> nat \<times> 't client" where
  "WaitResponse requestID c =
     (let ch = cl_nextChan c
      in (ch, c\<lparr>cl_chans := (cl_chans c)(ch := make_chan 1), cl_nextChan := Suc ch,
                cl_pendingResp := gm_set (cl_pendingResp c) requestID ch\<rparr>))"

definition GetPendingResponse :: "string \<Rightarrow> 't client \<Rightarrow> nat option" where
  "GetPendingResponse requestID c = gm_get (cl_pendingResp c) requestID"

definition RemovePendingResponse :: "string \<Rightarrow> 't client \<Rightarrow> 't client" where
  "RemovePendingResponse requestID c = c\<lparr>cl_pendingResp := gm_del (cl_pendingResp c) requestID\<rparr>"

definition NotifyPendingResponse :: "string \<Rightarrow> sdk_Message \<Rightarrow> ('t client, unit) act" where
  "NotifyPendingResponse requestID msg c =
     (case GetPendingResponse requestID c of
        None \<Rightarrow> Done () c
      | Some ch \<Rightarrow>
          (case try_send msg (cl_chans c ch) of
             Sent q \<Rightarrow> Done () (c\<lparr>cl_chans := (cl_chans c)(ch := q)\<rparr>)
           | Full \<Rightarrow> Done () c
           | SendPanic \<Rightarrow> Crash c))"

text \<open>\<open>time.NewTicker\<close> panics on a period that is not positive.\<close>

definition StartHeartbeat :: "32 word \<Rightarrow> ('t client, unit) act" where
  "StartHeartbeat interval c =
     (if int (unat interval) * sdk_Second \<le> 0 then Crash c
      else Done () (c\<lparr>cl_heartbeatTicker := Some (int (unat interval) * sdk_Second),
                      cl_heartbeats := Suc (cl_heartbeats c)\<rparr>))"

definition StopHeartbeat :: "'t client \<Rightarrow> 't client" where
  "StopHeartbeat c = c\<lparr>cl_heartbeatTicker := None\<rparr>"

text \<open>Closing a closed channel panics. The deferred \<open>Unlock\<close> runs in every case.\<close>

definition base_Close :: "('t client, unit) act" where
  "base_Close c =
     (if cl_closeMu c then Hang c
      else if cl_closed c then Done () c
      else
        (let c1 = StopHeartbeat (c\<lparr>cl_closed := True, cl_ctxDone := True\<rparr>)
         in if ch_closed (cl_msgCh c1) then Crash c1
            else
              (let c2 = c1\<lparr>cl_msgCh := (cl_msgCh c1)\<lparr>ch_closed := True\<rparr>\<rparr>
               in if cl_heartbeatStop c2 then Crash c2 else Done () (c2\<lparr>cl_heartbeatStop := True\<rparr>))))"

definition call_ConnectHandler :: "32 word \<Rightarrow> bool \<Rightarrow> 't client \<Rightarrow> 't client" where
  "call_ConnectHandler state err c =
     (if co_ConnectHandler (cl_Opts c) then c\<lparr>cl_callbacks := cl_callbacks c @ [OnConnect state err]\<rparr> else c)"

definition call_MessageHandler :: "sdk_Message \<Rightarrow> 't client \<Rightarrow> 't client" where
  "call_MessageHandler msg c =
     (if co_MessageHandler (cl_Opts c) then c\<lparr>cl_callbacks := cl_callbacks c @ [OnMessage msg]\<rparr> else c)"

section \<open>The period of the heartbeat\<close>

text \<open>The product fits into the \<open>int64\<close> of a duration for every interval the server can send.\<close>

lemma heartbeat_period_fits: "int (unat (interval :: 32 word)) * sdk_Second < 2 ^ 63"
proof -
  have "unat interval < 2 ^ 32" using unsigned_less [of interval] by simp
  then have "int (unat interval) * sdk_Second < 2 ^ 32 * sdk_Second" by (simp add: sdk_Second_def del: of_nat_unat)
  then show ?thesis by (simp add: sdk_Second_def del: of_nat_unat)
qed

lemma heartbeat_period_pos:
  assumes "interval \<noteq> 0"
  shows "0 < int (unat (interval :: 32 word)) * sdk_Second"
proof -
  have "0 < unat interval" using assms by (simp add: word_greater_zero_iff unat_gt_0)
  then show ?thesis by (simp add: sdk_Second_def del: of_nat_unat)
qed

lemma StartHeartbeat_cases:
  "StartHeartbeat interval c =
     (if interval = 0 then Crash c
      else Done () (c\<lparr>cl_heartbeatTicker := Some (int (unat interval) * sdk_Second),
                      cl_heartbeats := Suc (cl_heartbeats c)\<rparr>))"
  using heartbeat_period_pos [of interval] unfolding StartHeartbeat_def by (cases "interval = 0") simp_all

section \<open>The invariant\<close>

text \<open>
  Between two calls of the public interface: the mutex is free, \<open>closed\<close> says exactly that both
  channels are closed, a closed client has a cancelled context, the state is one of the six
  constants, and the pending requests wait on different open channels of capacity one.
\<close>

definition pending_ok :: "'t client \<Rightarrow> bool" where
  "pending_ok c \<longleftrightarrow>
     (\<forall>r ch. gm_get (cl_pendingResp c) r = Some ch \<longrightarrow> ch < cl_nextChan c)
   \<and> (\<forall>r r' ch. gm_get (cl_pendingResp c) r = Some ch \<and> gm_get (cl_pendingResp c) r' = Some ch \<longrightarrow> r = r')
   \<and> (\<forall>ch < cl_nextChan c. \<not> ch_closed (cl_chans c ch) \<and> ch_cap (cl_chans c ch) = 1)"

definition client_ok :: "'t client \<Rightarrow> bool" where
  "client_ok c \<longleftrightarrow>
     \<not> cl_closeMu c \<and> ch_closed (cl_msgCh c) = cl_closed c \<and> cl_heartbeatStop c = cl_closed c
   \<and> (cl_closed c \<longrightarrow> cl_ctxDone c) \<and> cl_state c \<le> ConnStateAuthenticationFailed
   \<and> (IsConnected c \<longrightarrow> cl_transport c \<noteq> None) \<and> chan_bounded (cl_msgCh c) \<and> pending_ok c"

lemma pending_ok_fields:
  "cl_pendingResp c' = cl_pendingResp c \<Longrightarrow> cl_chans c' = cl_chans c \<Longrightarrow> cl_nextChan c' = cl_nextChan c \<Longrightarrow>
     pending_ok c' = pending_ok c"
  by (simp add: pending_ok_def)

lemma pending_ok_Remove [simp]: "pending_ok c \<Longrightarrow> pending_ok (RemovePendingResponse r c)"
  by (auto simp: pending_ok_def RemovePendingResponse_def)

lemma pending_ok_Wait: "pending_ok c \<Longrightarrow> WaitResponse r c = (ch, c') \<Longrightarrow> pending_ok c'"
  by (auto simp: pending_ok_def WaitResponse_def Let_def make_chan_def less_Suc_eq split: if_splits)
    (use less_irrefl in blast)+

lemma NewBaseClient_ok: "client_ok (NewBaseClient opts)"
  by (simp add: client_ok_def NewBaseClient_def pending_ok_def make_chan_def IsConnected_def ConnState_consts chan_bounded_def)

lemma client_ok_Remove: "client_ok c \<Longrightarrow> client_ok (RemovePendingResponse r c)"
  by (simp add: client_ok_def IsConnected_def) (simp add: RemovePendingResponse_def)

lemma client_ok_Wait: "client_ok c \<Longrightarrow> WaitResponse r c = (ch, c') \<Longrightarrow> client_ok c'"
  using pending_ok_Wait [of c r ch c'] by (auto simp: client_ok_def WaitResponse_def Let_def IsConnected_def)

lemma Notify_ok:
  assumes "client_ok c"
  shows "\<exists>c'. NotifyPendingResponse r m c = Done () c' \<and> client_ok c' \<and> c' = c\<lparr>cl_chans := cl_chans c'\<rparr>"
proof (cases "gm_get (cl_pendingResp c) r")
  case None
  then show ?thesis using assms by (simp add: NotifyPendingResponse_def GetPendingResponse_def)
next
  case (Some ch)
  then have "\<not> ch_closed (cl_chans c ch)" using assms by (auto simp: client_ok_def pending_ok_def)
  with Some assms show ?thesis
    by (auto simp: NotifyPendingResponse_def GetPendingResponse_def try_send_def client_ok_def pending_ok_def IsConnected_def)
qed

lemma base_Close_ok:
  assumes "client_ok c"
  shows "base_Close c = Done () (if cl_closed c then c else
    c\<lparr>cl_closed := True, cl_ctxDone := True, cl_heartbeatTicker := None,
      cl_msgCh := (cl_msgCh c)\<lparr>ch_closed := True\<rparr>, cl_heartbeatStop := True\<rparr>)"
  using assms by (simp add: base_Close_def client_ok_def StopHeartbeat_def Let_def)

end
