(* ===== verification/Sdk_Client.thy ===== *)
theory Sdk_Client
  imports Sdk_Base
begin

text \<open>
  \<open>sdk/tcp/client.go\<close> and \<open>sdk/ws/client.go\<close>, type \<open>Client\<close>. The two files are the same text except
  for the transport and for the first lines of \<open>Connect\<close>, so the operations are written once, over
  a record \<open>wire\<close> that holds the transport's \<open>Write\<close> and the numbers of the protocol constants;
  \<open>tcp_wire\<close> and \<open>ws_wire\<close> are its two values, and \<open>tcp_Connect\<close> and \<open>ws_Connect\<close> differ.

  A synchronous request has two halves, the part up to the \<open>select\<close> and the \<open>select\<close> itself,
  because the reading goroutine runs between them. What the environment decides is an argument:
  the identifier \<open>uuid.NewString\<close> returns, how a write ends, whether a timeout has passed, which
  ready branch a \<open>select\<close> takes, what \<open>Dial\<close> and \<open>Read\<close> return. The context of a request is done
  when the client's context is, when its timeout is not positive, or when the environment says
  that the timeout has passed (\<open>late\<close>).
\<close>

record 't wire =
  wi_sv :: "pb_SignalType \<Rightarrow> 32 word"
  wi_bv :: "pb_BusinessType \<Rightarrow> 32 word"
  wi_Write :: "bool \<Rightarrow> (net_error \<times> nat) option \<Rightarrow> ClientSignal \<Rightarrow> 't \<Rightarrow> (sdk_error, unit) result \<times> 't"

datatype client_error =
    AlreadyClosed
  | DialFailed
  | NotConnected
  | NotAuthenticated
  | SendRequestFailed sdk_error
  | WriteError sdk_error
  | RequestTimeout
  | UnexpectedResponse "32 word"

section \<open>The WebSocket transport of the client\<close>

text \<open>
  \<open>wt_in\<close> are the messages that arrive, each as the bytes its reader yields before it stops, for
  whatever reason: the loop treats every error of the reader as the end of the message. When no
  message is left \<open>NextReader\<close> fails.
\<close>

record ws_transport =
  wt_in :: "bytes list"
  wt_out :: "bytes list"

fun ws_read_loop ::
    "(bytes \<Rightarrow> (string, ClientSignal) result) \<Rightarrow> bytes list \<Rightarrow> (sdk_error, ClientSignal) result \<times> bytes list" where
  "ws_read_loop unmarshal [] = (Inl SdkReadFailed, [])"
| "ws_read_loop unmarshal (data # msgs) =
     (if data = [] then ws_read_loop unmarshal msgs
      else (case unmarshal data of Inl e \<Rightarrow> (Inl (UnmarshalFailed e), msgs) | Inr sig \<Rightarrow> (Inr sig, msgs)))"

definition sdk_ws_Read ::
    "(bytes \<Rightarrow> (string, ClientSignal) result) \<Rightarrow> bool \<Rightarrow> ws_transport \<Rightarrow> (sdk_error, ClientSignal) result \<times> ws_transport" where
  "sdk_ws_Read unmarshal ctxDone t =
     (if ctxDone then (Inl SdkCtxDone, t)
      else (case ws_read_loop unmarshal (wt_in t) of (r, rest) \<Rightarrow> (r, t\<lparr>wt_in := rest\<rparr>)))"

definition sdk_ws_Write ::
    "(ClientSignal \<Rightarrow> (string, bytes) result) \<Rightarrow> bool \<Rightarrow> (net_error \<times> nat) option \<Rightarrow> ClientSignal \<Rightarrow> ws_transport
       \<Rightarrow> (sdk_error, unit) result \<times> ws_transport" where
  "sdk_ws_Write marshal ctxDone outcome data t =
     (if ctxDone then (Inl SdkCtxDone, t)
      else
        (case marshal data of
           Inl e \<Rightarrow> (Inl (MarshalFailed e), t)
         | Inr body \<Rightarrow>
             (case outcome of
                None \<Rightarrow> (Inr (), t\<lparr>wt_out := wt_out t @ [body]\<rparr>)
              | Some (e, n) \<Rightarrow> (Inl (SdkWriteFailed e), t))))"

definition tcp_wire ::
    "(pb_SignalType \<Rightarrow> 32 word) \<Rightarrow> (pb_BusinessType \<Rightarrow> 32 word) \<Rightarrow> (ClientSignal \<Rightarrow> (string, bytes) result) \<Rightarrow> Transport wire" where
  "tcp_wire sv bv marshal = \<lparr>wi_sv = sv, wi_bv = bv, wi_Write = Transport_Write marshal\<rparr>"

definition ws_wire ::
    "(pb_SignalType \<Rightarrow> 32 word) \<Rightarrow> (pb_BusinessType \<Rightarrow> 32 word) \<Rightarrow> (ClientSignal \<Rightarrow> (string, bytes) result) \<Rightarrow> ws_transport wire" where
  "ws_wire sv bv marshal = \<lparr>wi_sv = sv, wi_bv = bv, wi_Write = sdk_ws_Write marshal\<rparr>"

section \<open>Connecting and closing\<close>

definition connect_dial :: "'t option \<Rightarrow> ('t client, (client_error, unit) result) act" where
  "connect_dial dial c =
     (let c1 = SetState ConnStateConnecting c
      in case dial of
           None \<Rightarrow> Done (Inl DialFailed) (call_ConnectHandler ConnStateDisconnected True (SetState ConnStateDisconnected c1))
         | Some t \<Rightarrow>
             (let c2 = SetState ConnStateConnected (c1\<lparr>cl_transport := Some t, cl_connClosed := False\<rparr>);
                  c3 = call_ConnectHandler ConnStateConnected False c2
              in Done (Inr ()) (c3\<lparr>cl_readLoops := Suc (cl_readLoops c3)\<rparr>)))"

definition ws_Connect :: "'t option \<Rightarrow> ('t client, (client_error, unit) result) act" where
  "ws_Connect dial = bindA IsClosed (\<lambda>closed. if closed then retA (Inl AlreadyClosed) else connect_dial dial)"

definition tcp_Connect :: "'t option \<Rightarrow> ('t client, (client_error, unit) result) act" where
  "tcp_Connect dial =
     thenA mu_Lock
       (bindA IsClosed
          (\<lambda>closed. if closed then thenA mu_Unlock (retA (Inl AlreadyClosed))
                    else thenA mu_Unlock (connect_dial dial)))"

definition cl_Close :: "('t client, unit) act" where
  "cl_Close = thenA base_Close (modA (\<lambda>c. if cl_transport c \<noteq> None then c\<lparr>cl_connClosed := True\<rparr> else c))"

section \<open>Writing\<close>

text \<open>A nil transport is dereferenced; a closed socket refuses the write.\<close>

definition cl_write :: "'t wire \<Rightarrow> bool \<Rightarrow> (net_error \<times> nat) option \<Rightarrow> ClientSignal \<Rightarrow> ('t client, (sdk_error, unit) result) act" where
  "cl_write W expired outcome signal c =
     (case cl_transport c of
        None \<Rightarrow> Crash c
      | Some t \<Rightarrow>
          (case wi_Write W (cl_ctxDone c \<or> expired) (if cl_connClosed c then Some (NetError, 0) else outcome) signal t of
             (r, t') \<Rightarrow> Done r (c\<lparr>cl_transport := Some t'\<rparr>)))"

definition SendHeartbeat :: "'t wire \<Rightarrow> bool \<Rightarrow> (net_error \<times> nat) option \<Rightarrow> string \<Rightarrow> 64 word \<Rightarrow> ('t client, unit) act" where
  "SendHeartbeat W late outcome requestID timestamp c =
     (if cl_transport c = None then Done () c
      else
        bindA (cl_write W (co_WriteTimeout (cl_Opts c) \<le> 0 \<or> late) outcome (EncodeHeartbeatPing (wi_sv W) requestID timestamp))
          (\<lambda>r. case r of
                 Inr _ \<Rightarrow> retA ()
               | Inl e \<Rightarrow> modA (\<lambda>c. call_ConnectHandler ConnStateDisconnected True (SetState ConnStateDisconnected c))) c)"

section \<open>Requests\<close>

text \<open>Up to the \<open>select\<close>: the channel of the waiter, or an error. The deferred removal runs on every exit.\<close>

definition send_request ::
    "'t wire \<Rightarrow> bool \<Rightarrow> (net_error \<times> nat) option \<Rightarrow> string \<Rightarrow> ClientSignal \<Rightarrow> ('t client, (client_error, nat) result) act" where
  "send_request W expired outcome requestID signal c =
     (case WaitResponse requestID c of
        (ch, c1) \<Rightarrow>
          (case cl_write W expired outcome signal c1 of
             Done (Inl e) c2 \<Rightarrow> Done (Inl (SendRequestFailed e)) (RemovePendingResponse requestID c2)
           | Done (Inr _) c2 \<Rightarrow> Done (Inr ch) c2
           | Crash c2 \<Rightarrow> Crash (RemovePendingResponse requestID c2)
           | Hang c2 \<Rightarrow> Hang c2))"

text \<open>The \<open>select\<close>; \<open>None\<close> while no branch is ready.\<close>

definition await_response ::
    "bool \<Rightarrow> bool \<Rightarrow> 32 word \<Rightarrow> string \<Rightarrow> nat \<Rightarrow> ('t client, (client_error, unit) result option) act" where
  "await_response expired pickDone want requestID ch c =
     (if (cl_ctxDone c \<or> expired) \<and> (pickDone \<or> recv (cl_chans c ch) = Blocked)
      then Done (Some (Inl RequestTimeout)) (RemovePendingResponse requestID c)
      else
        (case recv (cl_chans c ch) of
           Received resp q \<Rightarrow>
             Done (Some (if sm_Type resp \<noteq> want then Inl (UnexpectedResponse (sm_Type resp)) else Inr ()))
               (RemovePendingResponse requestID (c\<lparr>cl_chans := (cl_chans c)(ch := q)\<rparr>))
         | RecvZero \<Rightarrow> Crash (RemovePendingResponse requestID c)
         | Blocked \<Rightarrow> Done None c))"

definition cl_Auth_send ::
    "'t wire \<Rightarrow> bool \<Rightarrow> (net_error \<times> nat) option \<Rightarrow> string \<Rightarrow> AuthRequest \<Rightarrow> ('t client, (client_error, nat) result) act" where
  "cl_Auth_send W late outcome requestID auth c =
     (if \<not> IsConnected c then Done (Inl NotConnected) c
      else send_request W (co_AuthTimeout (cl_Opts c) \<le> 0 \<or> late) outcome requestID (EncodeAuthRequest (wi_sv W) requestID auth) c)"

definition cl_Auth_wait ::
    "bool \<Rightarrow> bool \<Rightarrow> string \<Rightarrow> nat \<Rightarrow> ('t client, (client_error, sdk_AuthResponse option) result option) act" where
  "cl_Auth_wait late pickDone requestID ch c =
     bindA (await_response (co_AuthTimeout (cl_Opts c) \<le> 0 \<or> late) pickDone SignalTypeAuthResponse requestID ch)
       (\<lambda>r c'. Done (map_option (\<lambda>x. bindE x (\<lambda>_. Inr (cl_authResp c'))) r) c') c"

definition cl_AuthAsync ::
    "'t wire \<Rightarrow> bool \<Rightarrow> (net_error \<times> nat) option \<Rightarrow> string \<Rightarrow> AuthRequest \<Rightarrow> ('t client, (client_error, unit) result) act" where
  "cl_AuthAsync W late outcome requestID auth c =
     (if \<not> IsConnected c then Done (Inl NotConnected) c
      else bindA (cl_write W (co_AuthTimeout (cl_Opts c) \<le> 0 \<or> late) outcome (EncodeAuthRequest (wi_sv W) requestID auth))
             (\<lambda>r. retA (wrapE WriteError r)) c)"

definition cl_Subscribe_send ::
    "'t wire \<Rightarrow> bool \<Rightarrow> (net_error \<times> nat) option \<Rightarrow> string \<Rightarrow> string \<Rightarrow> 32 word \<Rightarrow> ('t client, (client_error, nat) result) act" where
  "cl_Subscribe_send W late outcome requestID topic qos c =
     (if \<not> IsAuthenticated c then Done (Inl NotAuthenticated) c
      else send_request W late outcome requestID (EncodeSubscribeRequest (wi_sv W) requestID \<lparr>sq_Topic = topic, sq_Qos = qos\<rparr>) c)"

definition cl_Subscribe_wait :: "bool \<Rightarrow> bool \<Rightarrow> string \<Rightarrow> nat \<Rightarrow> ('t client, (client_error, unit) result option) act" where
  "cl_Subscribe_wait late pickDone requestID ch = await_response late pickDone SignalTypeSubscribeResponse requestID ch"

definition cl_Unsubscribe_send ::
    "'t wire \<Rightarrow> bool \<Rightarrow> (net_error \<times> nat) option \<Rightarrow> string \<Rightarrow> string \<Rightarrow> ('t client, (client_error, nat) result) act" where
  "cl_Unsubscribe_send W late outcome requestID topic c =
     (if \<not> IsAuthenticated c then Done (Inl NotAuthenticated) c
      else send_request W late outcome requestID (EncodeUnsubscribeRequest (wi_sv W) requestID topic) c)"

definition cl_Unsubscribe_wait :: "bool \<Rightarrow> bool \<Rightarrow> string \<Rightarrow> nat \<Rightarrow> ('t client, (client_error, unit) result option) act" where
  "cl_Unsubscribe_wait late pickDone requestID ch = await_response late pickDone SignalTypeUnsubscribeResponse requestID ch"

text \<open>
  The asynchronous forms return at once; the signal they return here is what the goroutine they
  start will write with \<open>async_write\<close>.
\<close>

definition cl_SubscribeAsync :: "'t wire \<Rightarrow> string \<Rightarrow> string \<Rightarrow> 32 word \<Rightarrow> ('t client, (client_error, ClientSignal) result) act" where
  "cl_SubscribeAsync W requestID topic qos c =
     (if \<not> IsAuthenticated c then Done (Inl NotAuthenticated) c
      else Done (Inr (EncodeSubscribeRequest (wi_sv W) requestID \<lparr>sq_Topic = topic, sq_Qos = qos\<rparr>)) c)"

definition cl_UnsubscribeAsync :: "'t wire \<Rightarrow> string \<Rightarrow> string \<Rightarrow> ('t client, (client_error, ClientSignal) result) act" where
  "cl_UnsubscribeAsync W requestID topic c =
     (if \<not> IsAuthenticated c then Done (Inl NotAuthenticated) c
      else Done (Inr (EncodeUnsubscribeRequest (wi_sv W) requestID topic)) c)"

definition async_write :: "'t wire \<Rightarrow> bool \<Rightarrow> (net_error \<times> nat) option \<Rightarrow> ClientSignal \<Rightarrow> ('t client, unit) act" where
  "async_write W late outcome signal = thenA (cl_write W late outcome signal) (retA ())"

text \<open>The sequence number is taken before the write and is used up when the write fails.\<close>

definition send_business ::
    "'t wire \<Rightarrow> bool \<Rightarrow> (net_error \<times> nat) option \<Rightarrow> string \<Rightarrow> BusinessMessage \<Rightarrow> ('t client, (sdk_error, unit) result) act" where
  "send_business W late outcome requestID biz c =
     (case NextSequenceID c of
        (seq, c1) \<Rightarrow>
          cl_write W (co_WriteTimeout (cl_Opts c1) \<le> 0 \<or> late) outcome (EncodeBusinessUp (wi_sv W) (wi_bv W) requestID seq biz) c1)"

definition cl_SendBusiness ::
    "'t wire \<Rightarrow> bool \<Rightarrow> (net_error \<times> nat) option \<Rightarrow> string \<Rightarrow> 32 word \<Rightarrow> string \<Rightarrow> bytes \<Rightarrow> ('t client, (client_error, unit) result) act" where
  "cl_SendBusiness W late outcome requestID bizType msgID body c =
     (if \<not> IsAuthenticated c then Done (Inl NotAuthenticated) c
      else bindA (send_business W late outcome requestID \<lparr>bm_MsgID = msgID, bm_BizType = bizType, bm_Body = body\<rparr>)
             (\<lambda>r. retA (wrapE WriteError r)) c)"

definition cl_SendBusinessAsync :: "32 word \<Rightarrow> string \<Rightarrow> bytes \<Rightarrow> ('t client, BusinessMessage option) act" where
  "cl_SendBusinessAsync bizType msgID body c =
     Done (if IsAuthenticated c then Some \<lparr>bm_MsgID = msgID, bm_BizType = bizType, bm_Body = body\<rparr> else None) c"

definition cl_Logout ::
    "'t wire \<Rightarrow> bool \<Rightarrow> (net_error \<times> nat) option \<Rightarrow> string \<Rightarrow> 32 word \<Rightarrow> ('t client, (client_error, unit) result) act" where
  "cl_Logout W late outcome requestID reason c =
     (if \<not> IsAuthenticated c then Done (Inl NotAuthenticated) c
      else bindA (cl_write W late outcome (EncodeLogoutRequest (wi_sv W) requestID reason))
             (\<lambda>r. retA (wrapE WriteError r)) (StopHeartbeat c))"

section \<open>The reading goroutine\<close>

definition handle_auth_response :: "ClientSignal \<Rightarrow> ('t client, unit) act" where
  "handle_auth_response signal =
     bindA (ofG (DecodeAuthResponse signal))
       (\<lambda>resp. thenA (modA (SetAuthResponse resp))
          (case resp of
             Some r \<Rightarrow>
               if sa_Result r then
                 thenA (modA (SetState ConnStateAuthenticated))
                   (thenA (StartHeartbeat (sa_HeartbeatInterval r)) (modA (call_ConnectHandler ConnStateAuthenticated False)))
               else thenA (modA (\<lambda>c. call_ConnectHandler ConnStateAuthenticationFailed True (SetState ConnStateAuthenticationFailed c))) cl_Close
           | None \<Rightarrow> thenA (modA (\<lambda>c. call_ConnectHandler ConnStateAuthenticationFailed True (SetState ConnStateAuthenticationFailed c))) cl_Close))"

definition handle_business_down :: "'t wire \<Rightarrow> ClientSignal \<Rightarrow> ('t client, unit) act" where
  "handle_business_down W signal =
     bindA (ofG (DecodeBusinessDown (wi_bv W) signal))
       (\<lambda>bizMsg c.
          case bizMsg of
            None \<Rightarrow> Done () c
          | Some m \<Rightarrow>
              (case try_send m (cl_msgCh c) of
                 Sent q \<Rightarrow> Done () (call_MessageHandler m (c\<lparr>cl_msgCh := q\<rparr>))
               | Full \<Rightarrow> Done () (call_MessageHandler m c)
               | SendPanic \<Rightarrow> Crash c))"

definition handleSignal :: "'t wire \<Rightarrow> ClientSignal \<Rightarrow> ('t client, unit) act" where
  "handleSignal W signal =
     (let msg = DecodeClientSignal (wi_sv W) signal
      in if cs_SignalType signal = wi_sv W SIGNAL_TYPE_AUTH_RESPONSE then
           thenA (handle_auth_response signal) (NotifyPendingResponse (sm_RequestID msg) msg)
         else if cs_SignalType signal = wi_sv W SIGNAL_TYPE_HEARTBEAT_PONG then retA ()
         else if cs_SignalType signal = wi_sv W SIGNAL_TYPE_BUSINESS_DOWN then handle_business_down W signal
         else NotifyPendingResponse (sm_RequestID msg) msg)"

text \<open>
  One turn of the loop, for what \<open>Read\<close> returned, on the state at that moment; \<open>True\<close> when the loop
  is left. \<open>begun\<close> says that \<open>Read\<close> had been called before the context was cancelled, if it was.
  When the loop is left or the turn panics the deferred function runs, which recovers and closes the
  client. The loop is over what the successive reads return; \<open>False\<close> when it waits for the next one.
\<close>

definition cl_readLoop_turn :: "'t wire \<Rightarrow> bool \<Rightarrow> (sdk_error, ClientSignal) result \<Rightarrow> ('t client, bool) act" where
  "cl_readLoop_turn W begun read c =
     (if cl_ctxDone c \<and> \<not> begun then Done True c
      else
        (case read of
           Inl e \<Rightarrow>
             if cl_ctxDone c then Done True c
             else Done True (call_ConnectHandler ConnStateDisconnected True (SetState ConnStateDisconnected c))
         | Inr signal \<Rightarrow> thenA (handleSignal W signal) (retA False) c))"

fun cl_readLoop :: "'t wire \<Rightarrow> (bool \<times> (sdk_error, ClientSignal) result) list \<Rightarrow> ('t client, bool) act" where
  "cl_readLoop W [] c = Done False c"
| "cl_readLoop W ((begun, read) # reads) c =
     (case cl_readLoop_turn W begun read c of
        Done True c1 \<Rightarrow> thenA cl_Close (retA True) c1
      | Done False c1 \<Rightarrow> cl_readLoop W reads c1
      | Crash c1 \<Rightarrow> thenA cl_Close (retA True) c1
      | Hang c1 \<Rightarrow> Hang c1)"

section \<open>The heartbeat goroutine\<close>

text \<open>
  A goroutine that \<open>StartHeartbeat\<close> starts is about to evaluate the operands of its \<open>select\<close>, blocked
  in it, in \<open>SendHeartbeat\<close>, or finished. Evaluating \<open>c.heartbeatTicker.C\<close> dereferences the ticker.
\<close>

datatype hb_pc = HbSelect | HbBlocked | HbSending | HbFinished

definition heartbeat_turn ::
    "'t wire \<Rightarrow> bool \<Rightarrow> bool \<Rightarrow> (net_error \<times> nat) option \<Rightarrow> string \<Rightarrow> 64 word \<Rightarrow> hb_pc \<Rightarrow> ('t client, hb_pc) act" where
  "heartbeat_turn W ticked late outcome requestID timestamp pc c =
     (case pc of
        HbSelect \<Rightarrow> if cl_heartbeatTicker c = None then Crash c else Done HbBlocked c
      | HbBlocked \<Rightarrow>
          if ticked then Done HbSending c
          else if cl_heartbeatStop c \<or> cl_ctxDone c then Done HbFinished c
          else Done HbBlocked c
      | HbSending \<Rightarrow> thenA (SendHeartbeat W late outcome requestID timestamp) (retA HbSelect) c
      | HbFinished \<Rightarrow> Done HbFinished c)"

section \<open>The methods of the TCP client\<close>

text \<open>The text of \<open>sdk/tcp/client.go\<close> from \<open>readLoop\<close> on is that of the WebSocket client, over its own \<open>Transport\<close>.\<close>

definition tcp_Auth_send ::
    "(pb_SignalType \<Rightarrow> 32 word) \<Rightarrow> (pb_BusinessType \<Rightarrow> 32 word) \<Rightarrow> (ClientSignal \<Rightarrow> (string, bytes) result)
       \<Rightarrow> bool \<Rightarrow> (net_error \<times> nat) option \<Rightarrow> string \<Rightarrow> AuthRequest \<Rightarrow> (Transport client, (client_error, nat) result) act" where
  "tcp_Auth_send sv bv marshal = cl_Auth_send (tcp_wire sv bv marshal)"

definition tcp_AuthAsync ::
    "(pb_SignalType \<Rightarrow> 32 word) \<Rightarrow> (pb_BusinessType \<Rightarrow> 32 word) \<Rightarrow> (ClientSignal \<Rightarrow> (string, bytes) result)
       \<Rightarrow> bool \<Rightarrow> (net_error \<times> nat) option \<Rightarrow> string \<Rightarrow> AuthRequest \<Rightarrow> (Transport client, (client_error, unit) result) act" where
  "tcp_AuthAsync sv bv marshal = cl_AuthAsync (tcp_wire sv bv marshal)"

definition tcp_Subscribe_send ::
    "(pb_SignalType \<Rightarrow> 32 word) \<Rightarrow> (pb_BusinessType \<Rightarrow> 32 word) \<Rightarrow> (ClientSignal \<Rightarrow> (string, bytes) result)
       \<Rightarrow> bool \<Rightarrow> (net_error \<times> nat) option \<Rightarrow> string \<Rightarrow> string \<Rightarrow> 32 word \<Rightarrow> (Transport client, (client_error, nat) result) act" where
  "tcp_Subscribe_send sv bv marshal = cl_Subscribe_send (tcp_wire sv bv marshal)"

definition tcp_SubscribeAsync ::
    "(pb_SignalType \<Rightarrow> 32 word) \<Rightarrow> (pb_BusinessType \<Rightarrow> 32 word) \<Rightarrow> (ClientSignal \<Rightarrow> (string, bytes) result)
       \<Rightarrow> string \<Rightarrow> string \<Rightarrow> 32 word \<Rightarrow> (Transport client, (client_error, ClientSignal) result) act" where
  "tcp_SubscribeAsync sv bv marshal = cl_SubscribeAsync (tcp_wire sv bv marshal)"

definition tcp_Unsubscribe_send ::
    "(pb_SignalType \<Rightarrow> 32 word) \<Rightarrow> (pb_BusinessType \<Rightarrow> 32 word) \<Rightarrow> (ClientSignal \<Rightarrow> (string, bytes) result)
       \<Rightarrow> bool \<Rightarrow> (net_error \<times> nat) option \<Rightarrow> string \<Rightarrow> string \<Rightarrow> (Transport client, (client_error, nat) result) act" where
  "tcp_Unsubscribe_send sv bv marshal = cl_Unsubscribe_send (tcp_wire sv bv marshal)"

definition tcp_UnsubscribeAsync ::
    "(pb_SignalType \<Rightarrow> 32 word) \<Rightarrow> (pb_BusinessType \<Rightarrow> 32 word) \<Rightarrow> (ClientSignal \<Rightarrow> (string, bytes) result)
       \<Rightarrow> string \<Rightarrow> string \<Rightarrow> (Transport client, (client_error, ClientSignal) result) act" where
  "tcp_UnsubscribeAsync sv bv marshal = cl_UnsubscribeAsync (tcp_wire sv bv marshal)"

definition tcp_SendBusiness ::
    "(pb_SignalType \<Rightarrow> 32 word) \<Rightarrow> (pb_BusinessType \<Rightarrow> 32 word) \<Rightarrow> (ClientSignal \<Rightarrow> (string, bytes) result)
       \<Rightarrow> bool \<Rightarrow> (net_error \<times> nat) option \<Rightarrow> string \<Rightarrow> 32 word \<Rightarrow> string \<Rightarrow> bytes \<Rightarrow> (Transport client, (client_error, unit) result) act" where
  "tcp_SendBusiness sv bv marshal = cl_SendBusiness (tcp_wire sv bv marshal)"

definition tcp_Logout ::
    "(pb_SignalType \<Rightarrow> 32 word) \<Rightarrow> (pb_BusinessType \<Rightarrow> 32 word) \<Rightarrow> (ClientSignal \<Rightarrow> (string, bytes) result)
       \<Rightarrow> bool \<Rightarrow> (net_error \<times> nat) option \<Rightarrow> string \<Rightarrow> 32 word \<Rightarrow> (Transport client, (client_error, unit) result) act" where
  "tcp_Logout sv bv marshal = cl_Logout (tcp_wire sv bv marshal)"

definition tcp_SendHeartbeat ::
    "(pb_SignalType \<Rightarrow> 32 word) \<Rightarrow> (pb_BusinessType \<Rightarrow> 32 word) \<Rightarrow> (ClientSignal \<Rightarrow> (string, bytes) result)
       \<Rightarrow> bool \<Rightarrow> (net_error \<times> nat) option \<Rightarrow> string \<Rightarrow> 64 word \<Rightarrow> (Transport client, unit) act" where
  "tcp_SendHeartbeat sv bv marshal = SendHeartbeat (tcp_wire sv bv marshal)"

definition tcp_handleSignal ::
    "(pb_SignalType \<Rightarrow> 32 word) \<Rightarrow> (pb_BusinessType \<Rightarrow> 32 word) \<Rightarrow> (ClientSignal \<Rightarrow> (string, bytes) result)
       \<Rightarrow> ClientSignal \<Rightarrow> (Transport client, unit) act" where
  "tcp_handleSignal sv bv marshal = handleSignal (tcp_wire sv bv marshal)"

definition tcp_readLoop ::
    "(pb_SignalType \<Rightarrow> 32 word) \<Rightarrow> (pb_BusinessType \<Rightarrow> 32 word) \<Rightarrow> (ClientSignal \<Rightarrow> (string, bytes) result)
       \<Rightarrow> (bool \<times> (sdk_error, ClientSignal) result) list \<Rightarrow> (Transport client, bool) act" where
  "tcp_readLoop sv bv marshal = cl_readLoop (tcp_wire sv bv marshal)"

lemmas tcp_methods =
  tcp_Auth_send_def tcp_AuthAsync_def tcp_Subscribe_send_def tcp_SubscribeAsync_def
  tcp_Unsubscribe_send_def tcp_UnsubscribeAsync_def tcp_SendBusiness_def tcp_Logout_def
  tcp_SendHeartbeat_def tcp_handleSignal_def tcp_readLoop_def

section \<open>Every operation keeps the invariant\<close>

lemma client_ok_fields:
  "client_ok c \<Longrightarrow> cl_closeMu c' = cl_closeMu c \<Longrightarrow> cl_msgCh c' = cl_msgCh c \<Longrightarrow> cl_closed c' = cl_closed c \<Longrightarrow>
     cl_heartbeatStop c' = cl_heartbeatStop c \<Longrightarrow> cl_ctxDone c' = cl_ctxDone c \<Longrightarrow> cl_state c' \<le> ConnStateAuthenticationFailed \<Longrightarrow>
     (IsConnected c' \<Longrightarrow> cl_transport c' \<noteq> None) \<Longrightarrow> cl_pendingResp c' = cl_pendingResp c \<Longrightarrow> cl_chans c' = cl_chans c \<Longrightarrow>
     cl_nextChan c' = cl_nextChan c \<Longrightarrow> client_ok c'"
  by (simp add: client_ok_def pending_ok_def)

lemma call_handlers_fields [simp]:
  "cl_closeMu (call_ConnectHandler s e c) = cl_closeMu c" "cl_msgCh (call_ConnectHandler s e c) = cl_msgCh c"
  "cl_closed (call_ConnectHandler s e c) = cl_closed c" "cl_heartbeatStop (call_ConnectHandler s e c) = cl_heartbeatStop c"
  "cl_ctxDone (call_ConnectHandler s e c) = cl_ctxDone c" "cl_state (call_ConnectHandler s e c) = cl_state c"
  "cl_transport (call_ConnectHandler s e c) = cl_transport c" "cl_pendingResp (call_ConnectHandler s e c) = cl_pendingResp c"
  "cl_chans (call_ConnectHandler s e c) = cl_chans c" "cl_nextChan (call_ConnectHandler s e c) = cl_nextChan c"
  "cl_authResp (call_ConnectHandler s e c) = cl_authResp c" "cl_heartbeatTicker (call_ConnectHandler s e c) = cl_heartbeatTicker c"
  "cl_Opts (call_ConnectHandler s e c) = cl_Opts c" "cl_connClosed (call_ConnectHandler s e c) = cl_connClosed c"
  "cl_closeMu (call_MessageHandler m c) = cl_closeMu c" "cl_msgCh (call_MessageHandler m c) = cl_msgCh c"
  "cl_closed (call_MessageHandler m c) = cl_closed c" "cl_heartbeatStop (call_MessageHandler m c) = cl_heartbeatStop c"
  "cl_ctxDone (call_MessageHandler m c) = cl_ctxDone c" "cl_state (call_MessageHandler m c) = cl_state c"
  "cl_transport (call_MessageHandler m c) = cl_transport c" "cl_pendingResp (call_MessageHandler m c) = cl_pendingResp c"
  "cl_chans (call_MessageHandler m c) = cl_chans c" "cl_nextChan (call_MessageHandler m c) = cl_nextChan c"
  "cl_authResp (call_MessageHandler m c) = cl_authResp c" "cl_heartbeatTicker (call_MessageHandler m c) = cl_heartbeatTicker c"
  by (simp_all add: call_ConnectHandler_def call_MessageHandler_def)

lemma client_ok_SetState:
  "client_ok c \<Longrightarrow> st \<le> ConnStateAuthenticationFailed \<Longrightarrow>
     (st = ConnStateConnected \<or> st = ConnStateAuthenticated \<Longrightarrow> cl_transport c \<noteq> None) \<Longrightarrow> client_ok (SetState st c)"
  by (erule client_ok_fields) (auto simp: SetState_def IsConnected_def)

lemma client_ok_handlers [simp]:
  "client_ok (call_ConnectHandler st e c) = client_ok c" "client_ok (call_MessageHandler m c) = client_ok c"
  by (simp_all add: client_ok_def pending_ok_def IsConnected_def)

lemma cl_write_ok:
  assumes "client_ok c" and "cl_transport c \<noteq> None"
  shows "\<exists>r t. cl_write W x out sig c = Done r (c\<lparr>cl_transport := Some t\<rparr>) \<and> client_ok (c\<lparr>cl_transport := Some t\<rparr>)"
  using assms by (auto simp: cl_write_def client_ok_def pending_ok_def IsConnected_def split: prod.splits)

lemma client_ok_connected: "client_ok c \<Longrightarrow> IsConnected c \<Longrightarrow> cl_transport c \<noteq> None"
  by (simp add: client_ok_def)

lemma IsAuthenticated_connected: "IsAuthenticated c \<Longrightarrow> IsConnected c"
  by (simp add: IsAuthenticated_def IsConnected_def)

lemma send_request_ok:
  assumes "client_ok c" and "cl_transport c \<noteq> None"
  shows "\<exists>r c'. send_request W x out i sig c = Done r c' \<and> client_ok c'"
proof -
  obtain ch c1 where w: "WaitResponse i c = (ch, c1)" by fastforce
  then have t: "cl_transport c1 \<noteq> None" and ok: "client_ok c1"
    using assms client_ok_Wait by (auto simp: WaitResponse_def Let_def)
  obtain r t' where "cl_write W x out sig c1 = Done r (c1\<lparr>cl_transport := Some t'\<rparr>)" "client_ok (c1\<lparr>cl_transport := Some t'\<rparr>)"
    using cl_write_ok [OF ok t] by blast
  then show ?thesis using client_ok_Remove by (auto simp: send_request_def w split: sum.split)
qed

lemma await_response_ok:
  assumes "client_ok c" and "ch < cl_nextChan c"
  shows "\<exists>r c'. await_response x pick want i ch c = Done r c' \<and> client_ok c'"
proof -
  have open_ch: "\<not> ch_closed (cl_chans c ch)" "ch_cap (cl_chans c ch) = 1"
    using assms by (auto simp: client_ok_def pending_ok_def)
  have upd: "client_ok (c\<lparr>cl_chans := (cl_chans c)(ch := q)\<rparr>)" if "recv (cl_chans c ch) = Received m q" for m q
    using assms that by (auto simp: client_ok_def pending_ok_def IsConnected_def recv_def split: list.splits)
  show ?thesis
    using open_ch upd client_ok_Remove assms(1)
    by (auto simp: await_response_def recv_def split: list.splits)
qed

lemma cl_Close_ok:
  assumes "client_ok c"
  shows "\<exists>c'. cl_Close c = Done () c' \<and> client_ok c' \<and> cl_closed c' \<and> cl_state c' = cl_state c \<and> cl_transport c' = cl_transport c
    \<and> cl_pendingResp c' = cl_pendingResp c \<and> cl_chans c' = cl_chans c \<and> (\<not> cl_closed c \<longrightarrow> cl_heartbeatTicker c' = None)"
  using assms unfolding cl_Close_def thenA_def bindA_def base_Close_ok [OF assms]
  by (auto simp: modA_def client_ok_def pending_ok_def IsConnected_def chan_bounded_def)

definition settled :: "'t client \<Rightarrow> ('t client, unit) outcome \<Rightarrow> bool" where
  "settled c r \<longleftrightarrow>
     (case r of
        Done _ c' \<Rightarrow> client_ok c' \<and> cl_transport c' = cl_transport c \<and> (cl_closed c \<longrightarrow> cl_closed c')
      | Crash c' \<Rightarrow> client_ok c' \<and> cl_transport c' = cl_transport c \<and> (cl_closed c \<longrightarrow> cl_closed c')
      | Hang _ \<Rightarrow> False)"

lemma settled_bind:
  assumes "settled c (m c)" and "\<And>c'. client_ok c' \<Longrightarrow> cl_transport c' = cl_transport c \<Longrightarrow> settled c' (k c')"
  shows "settled c (thenA m k c)"
proof (cases "m c")
  case (Done u c1)
  then have c1: "client_ok c1" "cl_transport c1 = cl_transport c" "cl_closed c \<longrightarrow> cl_closed c1"
    using assms(1) by (simp_all add: settled_def)
  from assms(2) [OF c1(1,2)] c1(2,3) Done show ?thesis
    by (auto simp: settled_def thenA_def bindA_def split: outcome.splits)
qed (use assms(1) in \<open>simp_all add: settled_def thenA_def bindA_def\<close>)

lemma settled_mod: "client_ok (f c) \<Longrightarrow> cl_transport (f c) = cl_transport c \<Longrightarrow> cl_closed (f c) = cl_closed c \<Longrightarrow> settled c (modA f c)"
  by (simp add: settled_def modA_def)

lemma settled_Notify: "client_ok c \<Longrightarrow> settled c (NotifyPendingResponse i m c)"
proof -
  assume "client_ok c"
  then obtain c' where c': "NotifyPendingResponse i m c = Done () c'" "client_ok c'" "c' = c\<lparr>cl_chans := cl_chans c'\<rparr>"
    using Notify_ok by blast
  have "cl_transport c' = cl_transport c" "cl_closed c' = cl_closed c" by (subst c'(3), simp)+
  with c' show ?thesis by (simp add: settled_def)
qed

lemma settled_Close: "client_ok c \<Longrightarrow> settled c (cl_Close c)"
  using cl_Close_ok [of c] by (auto simp: settled_def)

lemma settled_StartHeartbeat: "client_ok c \<Longrightarrow> settled c (StartHeartbeat n c)"
  by (auto simp: settled_def StartHeartbeat_def client_ok_def pending_ok_def IsConnected_def)

lemma settled_auth_failed:
  "client_ok c \<Longrightarrow>
     settled c (thenA (modA (\<lambda>c. call_ConnectHandler ConnStateAuthenticationFailed True (SetState ConnStateAuthenticationFailed c))) cl_Close c)"
  by (rule settled_bind, rule settled_mod)
     (auto simp: settled_Close intro!: client_ok_SetState simp: ConnState_consts, simp_all add: SetState_def)

lemma settled_auth_ok:
  "client_ok c \<Longrightarrow> cl_transport c \<noteq> None \<Longrightarrow>
     settled c (thenA (modA (SetState ConnStateAuthenticated)) (thenA (StartHeartbeat n) (modA (call_ConnectHandler ConnStateAuthenticated False))) c)"
  by (intro settled_bind settled_mod settled_StartHeartbeat)
     (auto intro!: client_ok_SetState simp: ConnState_consts, simp_all add: SetState_def)

lemma client_ok_SetAuthResponse: "client_ok c \<Longrightarrow> client_ok (SetAuthResponse r c)"
  by (simp add: client_ok_def pending_ok_def IsConnected_def SetAuthResponse_def)

lemma settled_handle_auth:
  assumes "client_ok c" and "cl_transport c \<noteq> None"
  shows "settled c (handle_auth_response sig c)"
proof -
  have rest: "settled c (thenA (modA (SetAuthResponse resp))
          (case resp of
             Some r \<Rightarrow>
               if sa_Result r then
                 thenA (modA (SetState ConnStateAuthenticated))
                   (thenA (StartHeartbeat (sa_HeartbeatInterval r)) (modA (call_ConnectHandler ConnStateAuthenticated False)))
               else thenA (modA (\<lambda>c. call_ConnectHandler ConnStateAuthenticationFailed True (SetState ConnStateAuthenticationFailed c))) cl_Close
           | None \<Rightarrow> thenA (modA (\<lambda>c. call_ConnectHandler ConnStateAuthenticationFailed True (SetState ConnStateAuthenticationFailed c))) cl_Close) c)"
    for resp
    using assms
    by (intro settled_bind settled_mod client_ok_SetAuthResponse)
       (auto simp: SetAuthResponse_def settled_auth_ok settled_auth_failed split: option.split)
  have "ofG (DecodeAuthResponse sig) c = Crash c \<or> (\<exists>r. ofG (DecodeAuthResponse sig) c = Done r c)"
    by (auto simp: ofG_def DecodeAuthResponse_def go_simps split: option.splits signal_payload.splits)
  then show ?thesis
    using rest assms(1) by (auto simp: handle_auth_response_def bindA_def settled_def)
qed

lemma settled_business_down:
  assumes "client_ok c"
  shows "settled c (handle_business_down W sig c)"
proof -
  have "client_ok (c\<lparr>cl_msgCh := q\<rparr>)" if "try_send m (cl_msgCh c) = Sent q" for m q
    using assms that try_send_bounded [OF _ that]
    by (auto simp: client_ok_def pending_ok_def IsConnected_def try_send_def split: if_splits)
  moreover have "ofG (DecodeBusinessDown (wi_bv W) sig) c = Crash c \<or> (\<exists>r. ofG (DecodeBusinessDown (wi_bv W) sig) c = Done r c)"
    by (auto simp: ofG_def DecodeBusinessDown_def go_simps split: option.splits signal_payload.splits)
  ultimately show ?thesis
    using assms by (auto simp: handle_business_down_def bindA_def settled_def split: option.splits send_result.splits)
qed

lemma settled_handleSignal:
  assumes "client_ok c" and "cl_transport c \<noteq> None"
  shows "settled c (handleSignal W sig c)"
proof -
  have "settled c (retA () c)" using assms by (simp add: settled_def retA_def)
  moreover have "settled c (thenA (handle_auth_response sig) (NotifyPendingResponse i m) c)" for i m
    using assms by (intro settled_bind settled_handle_auth settled_Notify)
  ultimately show ?thesis
    using assms by (auto simp: handleSignal_def Let_def settled_business_down settled_Notify)
qed

end
