(* ===== verification/Sdk_Run.thy ===== *)
theory Sdk_Run
  imports Sdk_Client
begin

text \<open>
  Runs of a client: the calls of an application interleaved with the turns of the reading
  goroutine and the writes of the goroutines the asynchronous calls start, and what follows for
  both transports.
\<close>

section \<open>Events\<close>

text \<open>
  An event is one atomic piece of a call of the application, of the reading goroutine or of a
  goroutine that an asynchronous call starts. A waiting request is identified by the channel
  it waits on; an asynchronous write and a read only happen on a client that has been connected.
  \<open>EvHeartbeat\<close> is a call of the exported method \<open>SendHeartbeat\<close>; the heartbeat goroutines, with their
  \<open>select\<close>, take turns beside these events in \<open>client_run\<close> below.
\<close>

datatype 't client_event =
    EvConnect "'t option"
  | EvAuth bool "(net_error \<times> nat) option" string AuthRequest
  | EvAuthWait bool bool string nat
  | EvAuthAsync bool "(net_error \<times> nat) option" string AuthRequest
  | EvSubscribe bool "(net_error \<times> nat) option" string string "32 word"
  | EvUnsubscribe bool "(net_error \<times> nat) option" string string
  | EvWait bool bool "32 word" string nat
  | EvAsyncWrite bool "(net_error \<times> nat) option" ClientSignal
  | EvAsyncBusiness bool "(net_error \<times> nat) option" string BusinessMessage
  | EvSendBusiness bool "(net_error \<times> nat) option" string "32 word" string bytes
  | EvLogout bool "(net_error \<times> nat) option" string "32 word"
  | EvHeartbeat bool "(net_error \<times> nat) option" string "64 word"
  | EvClose
  | EvRead bool "(sdk_error, ClientSignal) result"

definition ignore_result :: "('t client, 'a) act \<Rightarrow> ('t client, unit) act" where
  "ignore_result m = thenA m (retA ())"

text \<open>Events that cannot happen in a state leave it as it is.\<close>

definition client_event :: "'t wire \<Rightarrow> ('t option \<Rightarrow> ('t client, (client_error, unit) result) act) \<Rightarrow> 't client_event \<Rightarrow> ('t client, unit) act" where
  "client_event W connect e c =
     (case e of
        EvConnect dial \<Rightarrow> ignore_result (connect dial) c
      | EvAuth late out i auth \<Rightarrow> ignore_result (cl_Auth_send W late out i auth) c
      | EvAuthWait late pick i ch \<Rightarrow> if ch < cl_nextChan c then ignore_result (cl_Auth_wait late pick i ch) c else Done () c
      | EvAuthAsync late out i auth \<Rightarrow> ignore_result (cl_AuthAsync W late out i auth) c
      | EvSubscribe late out i topic qos \<Rightarrow> ignore_result (cl_Subscribe_send W late out i topic qos) c
      | EvUnsubscribe late out i topic \<Rightarrow> ignore_result (cl_Unsubscribe_send W late out i topic) c
      | EvWait late pick want i ch \<Rightarrow> if ch < cl_nextChan c then ignore_result (await_response late pick want i ch) c else Done () c
      | EvAsyncWrite late out sig \<Rightarrow> if cl_transport c \<noteq> None then async_write W late out sig c else Done () c
      | EvAsyncBusiness late out i biz \<Rightarrow> if cl_transport c \<noteq> None then ignore_result (send_business W late out i biz) c else Done () c
      | EvSendBusiness late out i t m b \<Rightarrow> ignore_result (cl_SendBusiness W late out i t m b) c
      | EvLogout late out i reason \<Rightarrow> ignore_result (cl_Logout W late out i reason) c
      | EvHeartbeat late out i ts \<Rightarrow> SendHeartbeat W late out i ts c
      | EvClose \<Rightarrow> cl_Close c
      | EvRead begun read \<Rightarrow> if cl_transport c \<noteq> None then ignore_result (cl_readLoop W [(begun, read)]) c else Done () c)"

fun client_events :: "'t wire \<Rightarrow> ('t option \<Rightarrow> ('t client, (client_error, unit) result) act) \<Rightarrow> 't client_event list \<Rightarrow> ('t client, unit) act" where
  "client_events W connect [] = retA ()"
| "client_events W connect (e # es) = thenA (client_event W connect e) (client_events W connect es)"

section \<open>Every event returns and keeps the invariant\<close>

definition fine :: "('t client, 'a) outcome \<Rightarrow> bool" where
  "fine r \<longleftrightarrow> (\<exists>a c. r = Done a c \<and> client_ok c)"

lemma fine_Done [simp]: "fine (Done a c) = client_ok c" "\<not> fine (Crash c)" "\<not> fine (Hang c)"
  by (simp_all add: fine_def)

lemma fineE: "fine r \<Longrightarrow> (\<And>a c. r = Done a c \<Longrightarrow> client_ok c \<Longrightarrow> P) \<Longrightarrow> P"
  by (auto simp: fine_def)

lemma fine_ignore [simp]: "fine (ignore_result m c) = fine (m c)"
  by (auto simp: ignore_result_def thenA_def bindA_def retA_def fine_def split: outcome.split)

lemma fine_bind: "fine (m c) \<Longrightarrow> (\<And>a c'. client_ok c' \<Longrightarrow> fine (k a c')) \<Longrightarrow> fine (bindA m k c)"
  by (auto simp: fine_def bindA_def)

lemma fine_then: "fine (m c) \<Longrightarrow> (\<And>c'. client_ok c' \<Longrightarrow> fine (k c')) \<Longrightarrow> fine (thenA m k c)"
  by (simp add: thenA_def fine_bind)

lemma fine_ret [simp]: "fine (retA a c) = client_ok c"
  by (simp add: retA_def)

lemma fine_write: "client_ok c \<Longrightarrow> cl_transport c \<noteq> None \<Longrightarrow> fine (cl_write W x out sig c)"
  using cl_write_ok [of c W x out sig] by auto

lemma fine_request: "client_ok c \<Longrightarrow> IsConnected c \<Longrightarrow> fine (send_request W x out i sig c)"
  using send_request_ok [OF _ client_ok_connected] by (auto simp: fine_def)

lemma fine_await: "client_ok c \<Longrightarrow> ch < cl_nextChan c \<Longrightarrow> fine (await_response x pick want i ch c)"
  using await_response_ok [of c ch x pick want i] by auto

lemma fine_Close: "client_ok c \<Longrightarrow> fine (cl_Close c)"
  using cl_Close_ok [of c] by auto

lemma client_ok_Stop: "client_ok c \<Longrightarrow> client_ok (StopHeartbeat c)"
  by (simp add: client_ok_def pending_ok_def IsConnected_def StopHeartbeat_def)

lemma fine_business: "client_ok c \<Longrightarrow> cl_transport c \<noteq> None \<Longrightarrow> fine (send_business W late out i biz c)"
  unfolding send_business_def NextSequenceID_def
  by (simp, rule fine_write) (simp_all add: client_ok_def pending_ok_def IsConnected_def)

lemma fine_Heartbeat:
  assumes "client_ok c"
  shows "fine (SendHeartbeat W late out i ts c)"
proof (cases "cl_transport c = None")
  case False
  have d: "client_ok (SetState ConnStateDisconnected c')" if "client_ok c'" for c' :: "'a client"
    using that by (rule client_ok_SetState) (simp_all add: ConnState_consts)
  show ?thesis
    unfolding SendHeartbeat_def using False fine_write [OF assms False] d
    by (auto intro!: fine_bind simp: modA_def split: sum.split)
qed (use assms in \<open>simp add: SendHeartbeat_def\<close>)

lemma fine_ws_Connect:
  assumes "client_ok c"
  shows "fine (ws_Connect dial c)"
proof -
  have "IsClosed c = Done (cl_closed c) c"
    using assms by (simp add: IsClosed_def mu_Lock_def mu_Unlock_def act_simps client_ok_def)
  moreover have "fine (connect_dial dial c)"
    using assms
    by (auto simp: connect_dial_def Let_def SetState_def client_ok_def pending_ok_def IsConnected_def ConnState_consts split: option.split)
  ultimately show ?thesis using assms by (simp add: ws_Connect_def bindA_def retA_def)
qed

lemma thenA_False:
  "thenA m (retA False) c = (case m c of Done _ c' \<Rightarrow> Done False c' | Crash c' \<Rightarrow> Crash c' | Hang c' \<Rightarrow> Hang c')"
  by (simp add: thenA_def bindA_def retA_def split: outcome.split)

lemma fine_read:
  assumes "client_ok c" and "cl_transport c \<noteq> None"
  shows "fine (cl_readLoop W [(begun, read)] c)"
proof -
  have d: "client_ok (SetState ConnStateDisconnected c)"
    using assms(1) by (rule client_ok_SetState) (simp_all add: ConnState_consts)
  have cl: "fine (thenA cl_Close (retA True) c')" if "client_ok c'" for c' :: "'a client"
    using that by (intro fine_then fine_Close) simp_all
  show ?thesis
  proof (cases read)
    case (Inl e)
    then show ?thesis using assms(1) d by (auto simp: cl_readLoop_turn_def intro!: cl)
  next
    case (Inr sig)
    show ?thesis
      using settled_handleSignal [OF assms, of W sig] Inr assms(1)
      by (cases "handleSignal W sig c") (auto simp: cl_readLoop_turn_def thenA_False settled_def intro!: cl)
  qed
qed

lemma fine_event:
  assumes "client_ok c"
  shows "fine (client_event W ws_Connect e c)"
proof -
  note auth = client_ok_connected [OF assms IsAuthenticated_connected]
  show ?thesis
    using assms
    by (cases e)
       (auto simp: client_event_def cl_Auth_send_def cl_Auth_wait_def cl_AuthAsync_def cl_Subscribe_send_def cl_Unsubscribe_send_def
          async_write_def cl_SendBusiness_def cl_Logout_def StopHeartbeat_def simp del: cl_readLoop.simps
          intro!: fine_ws_Connect fine_request fine_await fine_business fine_Heartbeat fine_Close fine_read fine_bind fine_then fine_write
            client_ok_Stop [unfolded StopHeartbeat_def]
          intro: IsAuthenticated_connected dest: auth client_ok_connected)
qed

lemma fine_events: "client_ok c \<Longrightarrow> fine (client_events W ws_Connect es c)"
  by (induction es arbitrary: c) (auto intro: fine_then fine_event)

section \<open>The heartbeat goroutines beside the calls\<close>

text \<open>
  A run is a sequence of turns: an event as above, or a turn of a heartbeat goroutine, numbered in the
  order \<open>StartHeartbeat\<close> has started them. The state is the client and the program counter of
  every heartbeat goroutine; a new one is about to evaluate its \<open>select\<close>.
\<close>

datatype 't run_turn = Call "'t client_event" | Heartbeat nat bool bool "(net_error \<times> nat) option" string "64 word"

type_synonym 't run_state = "'t client \<times> (nat \<Rightarrow> hb_pc)"

definition run_start :: "sdk_Option list \<Rightarrow> 't run_state" where
  "run_start opts = (NewBaseClient opts, \<lambda>_. HbSelect)"

definition client_turn :: "'t wire \<Rightarrow> ('t option \<Rightarrow> ('t client, (client_error, unit) result) act) \<Rightarrow> 't run_turn \<Rightarrow> ('t run_state, unit) act" where
  "client_turn W connect t s =
     (case s of (c, hb) \<Rightarrow>
        (case t of
           Call e \<Rightarrow>
             (case client_event W connect e c of
                Done _ c' \<Rightarrow> Done () (c', hb) | Crash c' \<Rightarrow> Crash (c', hb) | Hang c' \<Rightarrow> Hang (c', hb))
         | Heartbeat k ticked late out i ts \<Rightarrow>
             if k < cl_heartbeats c
             then (case heartbeat_turn W ticked late out i ts (hb k) c of
                     Done pc c' \<Rightarrow> Done () (c', hb(k := pc)) | Crash c' \<Rightarrow> Crash (c', hb) | Hang c' \<Rightarrow> Hang (c', hb))
             else Done () s))"

fun client_run :: "'t wire \<Rightarrow> ('t option \<Rightarrow> ('t client, (client_error, unit) result) act) \<Rightarrow> 't run_turn list \<Rightarrow> ('t run_state, unit) act" where
  "client_run W connect [] = retA ()"
| "client_run W connect (t # ts) = thenA (client_turn W connect t) (client_run W connect ts)"

text \<open>A run without turns of heartbeat goroutines is a sequence of events.\<close>

lemma client_run_calls:
  "client_run W connect (map Call es) (c, hb) =
     (case client_events W connect es c of Done _ c' \<Rightarrow> Done () (c', hb) | Crash c' \<Rightarrow> Crash (c', hb) | Hang c' \<Rightarrow> Hang (c', hb))"
proof (induction es arbitrary: c)
  case Nil
  show ?case by (simp add: retA_def)
next
  case (Cons e es)
  then show ?case
    by (cases "client_event W connect e c") (simp_all add: thenA_def bindA_def client_turn_def)
qed

text \<open>
  The ticker is nil only before the first heartbeat, after \<open>Logout\<close>, and on a closed client.
\<close>

definition ticking :: "'t client \<Rightarrow> bool" where
  "ticking c \<longleftrightarrow> cl_heartbeats c = 0 \<or> cl_heartbeatTicker c \<noteq> None \<or> cl_closed c"

definition tame :: "('t client, 'a) outcome \<Rightarrow> bool" where
  "tame r \<longleftrightarrow> (\<forall>a c. r = Done a c \<longrightarrow> ticking c)"

lemma tame_simps [simp]: "tame (Done a c) = ticking c" "tame (Crash c)" "tame (Hang c)"
  by (simp_all add: tame_def)

lemma tame_bind: "tame (m c) \<Longrightarrow> (\<And>a c'. ticking c' \<Longrightarrow> tame (k a c')) \<Longrightarrow> tame (bindA m k c)"
  by (auto simp: tame_def bindA_def split: outcome.splits)

lemma tame_then: "tame (m c) \<Longrightarrow> (\<And>c'. ticking c' \<Longrightarrow> tame (k c')) \<Longrightarrow> tame (thenA m k c)"
  by (simp add: thenA_def tame_bind)

lemma tame_ret [simp]: "tame (retA a c) = ticking c"
  by (simp add: retA_def)

lemma tame_ignore [simp]: "tame (m c) \<Longrightarrow> tame (ignore_result m c)"
  by (auto simp: ignore_result_def thenA_def bindA_def retA_def tame_def split: outcome.splits)

lemma ticking_handlers [simp]:
  "ticking (call_ConnectHandler s e c) = ticking c" "ticking (call_MessageHandler m c) = ticking c"
  "ticking (SetState st c) = ticking c" "ticking (SetAuthResponse r c) = ticking c" "ticking (RemovePendingResponse i c) = ticking c"
  by (simp_all add: ticking_def call_ConnectHandler_def call_MessageHandler_def SetState_def SetAuthResponse_def RemovePendingResponse_def)

lemma tame_write: "ticking c \<Longrightarrow> tame (cl_write W x out sig c)"
  by (auto simp: cl_write_def ticking_def split: option.split prod.split)

lemma tame_Wait: "ticking c \<Longrightarrow> WaitResponse i c = (ch, c') \<Longrightarrow> ticking c'"
  by (auto simp: WaitResponse_def Let_def ticking_def)

lemma tame_request:
  assumes "ticking c"
  shows "tame (send_request W x out i sig c)"
proof -
  obtain ch c1 where w: "WaitResponse i c = (ch, c1)" by fastforce
  have "tame (cl_write W x out sig c1)" using tame_write [OF tame_Wait [OF assms w]] .
  then show ?thesis by (auto simp: send_request_def w tame_def split: outcome.splits sum.splits)
qed

lemma tame_await: "ticking c \<Longrightarrow> tame (await_response x pick want i ch c)"
  by (auto simp: await_response_def split: recv_result.split) (auto simp: ticking_def)

lemma tame_business: "ticking c \<Longrightarrow> tame (send_business W late out i biz c)"
  by (auto simp: send_business_def NextSequenceID_def intro!: tame_write) (simp add: ticking_def)

lemma tame_Heartbeat: "ticking c \<Longrightarrow> tame (SendHeartbeat W late out i ts c)"
  by (auto simp: SendHeartbeat_def modA_def intro!: tame_bind tame_write split: sum.split)

lemma Close_closes: "cl_Close c = Done u c' \<Longrightarrow> cl_closed c'"
  by (auto simp: cl_Close_def thenA_def bindA_def modA_def base_Close_def StopHeartbeat_def Let_def split: if_splits)

lemma tame_Close: "tame (cl_Close c)"
  using Close_closes by (auto simp: tame_def ticking_def)

lemma tame_closing: "tame (thenA cl_Close (retA b) c)"
  by (rule tame_then [OF tame_Close]) simp

lemma tame_Notify: "ticking c \<Longrightarrow> tame (NotifyPendingResponse i m c)"
  by (auto simp: NotifyPendingResponse_def ticking_def split: option.split send_result.split)

lemma tame_StartHeartbeat: "tame (StartHeartbeat n c)"
  by (simp add: StartHeartbeat_def ticking_def)

lemma ofG_Done:
  assumes "ofG (DecodeAuthResponse sig) c = Done r c'" shows "c' = c"
  using assms by (auto simp: ofG_def DecodeAuthResponse_def go_simps split: option.splits signal_payload.splits)

lemma tame_handle_auth:
  assumes "ticking c"
  shows "tame (handle_auth_response sig c)"
proof -
  have "tame (ofG (DecodeAuthResponse sig) c)" using ofG_Done assms by (fastforce simp: tame_def)
  then show ?thesis
    unfolding handle_auth_response_def
    by (auto simp: modA_def intro!: tame_bind tame_then tame_StartHeartbeat tame_Close split: option.split)
qed

lemma tame_business_down:
  assumes "ticking c"
  shows "tame (handle_business_down W sig c)"
proof -
  have "ofG (DecodeBusinessDown (wi_bv W) sig) c = Crash c \<or> (\<exists>r. ofG (DecodeBusinessDown (wi_bv W) sig) c = Done r c)"
    by (auto simp: ofG_def DecodeBusinessDown_def go_simps split: option.splits signal_payload.splits)
  then show ?thesis
    using assms by (auto simp: handle_business_down_def bindA_def split: option.split send_result.split) (auto simp: ticking_def)
qed

lemma tame_handleSignal: "ticking c \<Longrightarrow> tame (handleSignal W sig c)"
  by (auto simp: handleSignal_def Let_def intro: tame_then tame_handle_auth tame_Notify tame_business_down)

lemma tame_read:
  assumes "ticking c"
  shows "tame (cl_readLoop W [(begun, read)] c)"
proof -
  have "tame (cl_readLoop_turn W begun read c)"
    unfolding cl_readLoop_turn_def
    using assms by (auto intro!: tame_then tame_handleSignal split: sum.split)
  then show ?thesis
    by (auto simp: tame_closing split: outcome.split bool.split)
qed

lemma tame_connect: "ticking c \<Longrightarrow> tame (ws_Connect dial c)"
  by (auto simp: ws_Connect_def IsClosed_def mu_Lock_def mu_Unlock_def act_simps connect_dial_def Let_def ticking_def
      SetState_def call_ConnectHandler_def split: option.split)

lemma tame_event:
  assumes "ticking c" and "\<And>late out i reason. e \<noteq> EvLogout late out i reason"
  shows "tame (client_event W ws_Connect e c)"
  using assms
  by (cases e)
     (auto simp: client_event_def cl_Auth_send_def cl_Auth_wait_def cl_AuthAsync_def cl_Subscribe_send_def cl_Unsubscribe_send_def
        async_write_def cl_SendBusiness_def tame_Close simp del: cl_readLoop.simps
        intro!: tame_ignore tame_connect tame_request tame_await tame_business tame_Heartbeat tame_read tame_bind tame_then tame_write)

text \<open>How a turn of a heartbeat goroutine ends.\<close>

lemma heartbeat_turn_cases:
  assumes "client_ok c"
  shows "(pc = HbSelect \<and> cl_heartbeatTicker c = None \<and> heartbeat_turn W ticked late out i ts pc c = Crash c)
    \<or> (\<exists>pc' c'. heartbeat_turn W ticked late out i ts pc c = Done pc' c' \<and> client_ok c' \<and> (ticking c \<longrightarrow> ticking c'))"
proof (cases pc)
  case HbSending
  obtain c' where c': "SendHeartbeat W late out i ts c = Done () c'" "client_ok c'"
    using fine_Heartbeat [OF assms, of W late out i ts] by (auto elim: fineE)
  have "ticking c \<longrightarrow> ticking c'" using tame_Heartbeat [of c W late out i ts] c'(1) by auto
  with c' HbSending show ?thesis by (simp add: heartbeat_turn_def thenA_def bindA_def retA_def)
qed (use assms in \<open>auto simp: heartbeat_turn_def\<close>)

definition logout_turn :: "'t run_turn \<Rightarrow> bool" where
  "logout_turn t \<longleftrightarrow> (case t of Call (EvLogout _ _ _ _) \<Rightarrow> True | _ \<Rightarrow> False)"

text \<open>The only way a run can fail, from any consistent state.\<close>

definition run_result_ok :: "bool \<Rightarrow> ('t run_state, unit) outcome \<Rightarrow> bool" where
  "run_result_ok logged_out r \<longleftrightarrow>
     (case r of
        Done _ (c, hb) \<Rightarrow> client_ok c
      | Hang _ \<Rightarrow> False
      | Crash (c, hb) \<Rightarrow> client_ok c \<and> cl_heartbeatTicker c = None \<and> (\<exists>k. k < cl_heartbeats c \<and> hb k = HbSelect)
          \<and> (cl_closed c \<or> logged_out))"

lemma client_run_outcome:
  assumes "client_ok c" and "ticking c \<or> logged_out"
  shows "run_result_ok (logged_out \<or> list_ex logout_turn ts) (client_run W ws_Connect ts (c, hb))"
  using assms
proof (induction ts arbitrary: c hb logged_out)
  case Nil
  then show ?case by (simp add: retA_def run_result_ok_def)
next
  case (Cons t ts)
  have next_turn: ?case
    if "client_turn W ws_Connect t (c, hb) = Done () (c1, hb1)" "client_ok c1" "ticking c1 \<or> logged_out \<or> logout_turn t" for c1 hb1
    using Cons.IH [OF that(2,3), of hb1] that(1) by (simp add: thenA_def bindA_def disj_assoc)
  show ?case
  proof (cases t)
    case (Call e)
    obtain c1 where c1: "client_event W ws_Connect e c = Done () c1" "client_ok c1"
      using fine_event [OF Cons.prems(1), of W e] by (auto elim: fineE)
    have "ticking c1 \<or> logged_out \<or> logout_turn t"
    proof (cases "logout_turn t")
      case False
      then have "\<And>late out i reason. e \<noteq> EvLogout late out i reason" by (auto simp: logout_turn_def Call)
      then show ?thesis using tame_event [of c e W] c1(1) Cons.prems(2) by auto
    qed simp
    then show ?thesis by (intro next_turn [OF _ c1(2)]) (simp_all add: Call client_turn_def c1(1))
  next
    case (Heartbeat k ticked late out i ts')
    show ?thesis
    proof (cases "k < cl_heartbeats c")
      case False
      then show ?thesis using Cons.prems by (intro next_turn [of c hb]) (auto simp: Heartbeat client_turn_def)
    next
      case True
      from heartbeat_turn_cases [OF Cons.prems(1), of "hb k" W ticked late out i ts']
      show ?thesis
      proof (elim disjE conjE exE)
        assume "hb k = HbSelect" "cl_heartbeatTicker c = None" "heartbeat_turn W ticked late out i ts' (hb k) c = Crash c"
        then show ?thesis using True Cons.prems
          by (auto simp: Heartbeat thenA_def bindA_def client_turn_def ticking_def run_result_ok_def)
      next
        fix pc' c' assume "heartbeat_turn W ticked late out i ts' (hb k) c = Done pc' c'" "client_ok c'" "ticking c \<longrightarrow> ticking c'"
        then show ?thesis using True Cons.prems(2)
          by (intro next_turn [of c' "hb(k := pc')"]) (auto simp: Heartbeat client_turn_def)
      qed
    qed
  qed
qed

section \<open>Replies reach their request\<close>

definition notifies :: "'t wire \<Rightarrow> ClientSignal \<Rightarrow> bool" where
  "notifies W sig \<longleftrightarrow> cs_SignalType sig = wi_sv W SIGNAL_TYPE_AUTH_RESPONSE
     \<or> cs_SignalType sig \<noteq> wi_sv W SIGNAL_TYPE_HEARTBEAT_PONG \<and> cs_SignalType sig \<noteq> wi_sv W SIGNAL_TYPE_BUSINESS_DOWN"

definition replies :: "'t wire \<Rightarrow> string \<Rightarrow> ClientSignal list \<Rightarrow> sdk_Message list" where
  "replies W i sigs = map (DecodeClientSignal (wi_sv W)) (filter (\<lambda>sig. notifies W sig \<and> cs_RequestId sig = i) sigs)"

fun handle_signals :: "'t wire \<Rightarrow> ClientSignal list \<Rightarrow> ('t client, unit) act" where
  "handle_signals W [] = retA ()"
| "handle_signals W (sig # sigs) = thenA (handleSignal W sig) (handle_signals W sigs)"

text \<open>Which channels a signal can change: that of the pending request it names.\<close>

definition chans_step :: "string \<Rightarrow> sdk_Message option \<Rightarrow> 't client \<Rightarrow> 't client \<Rightarrow> bool" where
  "chans_step i m c c' \<longleftrightarrow>
     cl_pendingResp c' = cl_pendingResp c \<and> client_ok c' \<and> cl_transport c' = cl_transport c
   \<and> (\<forall>ch. ch_buf (cl_chans c' ch) =
        (case m of Some x \<Rightarrow> if gm_get (cl_pendingResp c) i = Some ch \<and> ch_buf (cl_chans c ch) = [] then [x] else ch_buf (cl_chans c ch)
                 | None \<Rightarrow> ch_buf (cl_chans c ch)))"

lemma Notify_chans:
  assumes "client_ok c" and "NotifyPendingResponse i m c = Done () c'"
  shows "chans_step i (Some m) c c'"
proof (cases "gm_get (cl_pendingResp c) i")
  case None
  then show ?thesis using assms by (simp add: NotifyPendingResponse_def GetPendingResponse_def chans_step_def)
next
  case (Some ch)
  then have o: "\<not> ch_closed (cl_chans c ch)" "ch_cap (cl_chans c ch) = 1"
    using assms(1) by (auto simp: client_ok_def pending_ok_def)
  have "client_ok c'" using Notify_ok [OF assms(1), of i m] assms(2) by auto
  with Some o assms(2) show ?thesis
    by (auto simp: NotifyPendingResponse_def GetPendingResponse_def try_send_def chans_step_def split: if_splits)
qed

lemma handle_auth_keeps_chans:
  assumes "handle_auth_response sig c = Done () c'"
  shows "cl_pendingResp c' = cl_pendingResp c \<and> cl_chans c' = cl_chans c"
proof -
  have cl: "cl_pendingResp c2 = cl_pendingResp c1 \<and> cl_chans c2 = cl_chans c1" if "cl_Close c1 = Done () c2" for c1 c2 :: "'a client"
    using that
    by (auto simp: cl_Close_def base_Close_def act_simps StopHeartbeat_def Let_def split: if_splits)
  have fld: "cl_pendingResp (SetState s c1) = cl_pendingResp c1 \<and> cl_chans (SetState s c1) = cl_chans c1"
    "cl_pendingResp (SetAuthResponse r c1) = cl_pendingResp c1 \<and> cl_chans (SetAuthResponse r c1) = cl_chans c1"
    for s r and c1 :: "'a client"
    by (simp_all add: SetState_def SetAuthResponse_def)
  have dec: "c1 = c" if "DecodeAuthResponse sig c = Ret r c1" for r c1
    using that by (auto simp: DecodeAuthResponse_def go_simps split: option.splits signal_payload.splits)
  show ?thesis
    using assms
    by (auto simp: handle_auth_response_def act_simps fld StartHeartbeat_def
        split: outcome.splits res.splits option.splits if_splits dest!: cl dec)
qed

lemma handleSignal_chans:
  assumes ok: "client_ok c" "cl_transport c \<noteq> None" and run: "handleSignal W sig c = Done () c'"
  shows "chans_step (cs_RequestId sig) (if notifies W sig then Some (DecodeClientSignal (wi_sv W) sig) else None) c c'"
proof -
  have s: "client_ok c'" "cl_transport c' = cl_transport c"
    using settled_handleSignal [OF ok, of W sig] run by (simp_all add: settled_def)
  have rid: "sm_RequestID (DecodeClientSignal sv sig) = cs_RequestId sig" for sv
    by (simp add: DecodeClientSignal_def)
  consider (auth) "notifies W sig" "handleSignal W sig c =
        thenA (handle_auth_response sig) (NotifyPendingResponse (cs_RequestId sig) (DecodeClientSignal (wi_sv W) sig)) c"
    | (other) "notifies W sig" "handleSignal W sig c = NotifyPendingResponse (cs_RequestId sig) (DecodeClientSignal (wi_sv W) sig) c"
    | (pong) "\<not> notifies W sig" "handleSignal W sig c = retA () c"
    | (biz) "\<not> notifies W sig" "handleSignal W sig c = handle_business_down W sig c"
    unfolding notifies_def handleSignal_def Let_def rid by argo
  then show ?thesis
  proof cases
    case auth
    then obtain c1 where c1: "handle_auth_response sig c = Done () c1"
        and n: "NotifyPendingResponse (cs_RequestId sig) (DecodeClientSignal (wi_sv W) sig) c1 = Done () c'"
      using run by (auto simp: thenA_def bindA_def split: outcome.splits)
    have "client_ok c1" "cl_transport c1 = cl_transport c" using settled_handle_auth [OF ok, of sig] c1 by (simp_all add: settled_def)
    with Notify_chans [OF _ n] handle_auth_keeps_chans [OF c1] auth(1) show ?thesis by (simp add: chans_step_def)
  next
    case other
    then show ?thesis using Notify_chans [OF ok(1)] run by simp
  next
    case pong
    then show ?thesis using run ok by (simp add: retA_def chans_step_def)
  next
    case biz
    then have "cl_pendingResp c' = cl_pendingResp c \<and> cl_chans c' = cl_chans c"
      using run by (auto simp: handle_business_down_def bindA_def ofG_def DecodeBusinessDown_def go_simps
          split: option.splits signal_payload.splits send_result.splits)
    with biz(1) s show ?thesis by (simp add: chans_step_def)
  qed
qed

lemma handle_signals_buffer:
  assumes "client_ok c" and "cl_transport c \<noteq> None" and "gm_get (cl_pendingResp c) i = Some ch"
    and "handle_signals W sigs c = Done () c'"
  shows "client_ok c' \<and> cl_pendingResp c' = cl_pendingResp c \<and>
    ch_buf (cl_chans c' ch) = (if ch_buf (cl_chans c ch) = [] then take 1 (replies W i sigs) else ch_buf (cl_chans c ch))"
  using assms
proof (induction sigs arbitrary: c)
  case Nil
  then show ?case by (simp add: retA_def replies_def)
next
  case (Cons sig sigs)
  then obtain c1 where c1: "handleSignal W sig c = Done () c1" "handle_signals W sigs c1 = Done () c'"
    by (auto simp: thenA_def bindA_def split: outcome.splits)
  note st = handleSignal_chans [OF Cons.prems(1,2) c1(1)]
  have "gm_get (cl_pendingResp c) (cs_RequestId sig) = Some ch \<longleftrightarrow> cs_RequestId sig = i"
    using Cons.prems(1,3) unfolding client_ok_def pending_ok_def by metis
  with st have "ch_buf (cl_chans c1 ch) =
      (if notifies W sig \<and> cs_RequestId sig = i \<and> ch_buf (cl_chans c ch) = [] then [DecodeClientSignal (wi_sv W) sig] else ch_buf (cl_chans c ch))"
    by (auto simp: chans_step_def split: if_splits)
  with Cons.IH [OF _ _ _ c1(2)] st Cons.prems(2,3) show ?case
    by (auto simp: chans_step_def replies_def split: if_splits)
qed

lemma send_request_pending:
  assumes "client_ok c" and "send_request W x out i sig c = Done (Inr ch) c1"
  shows "client_ok c1 \<and> cl_transport c1 \<noteq> None \<and> gm_get (cl_pendingResp c1) i = Some ch \<and> ch < cl_nextChan c1
    \<and> cl_chans c1 ch = make_chan 1 \<and> cl_ctxDone c1 = cl_ctxDone c"
proof -
  obtain c0 where w: "WaitResponse i c = (ch, c0)" and wr: "cl_write W x out sig c0 = Done (Inr ()) c1"
    using assms(2) by (auto simp: send_request_def split: prod.splits outcome.splits sum.splits)
  have ok: "client_ok c0" using client_ok_Wait [OF assms(1) w] .
  obtain t where t: "c1 = c0\<lparr>cl_transport := Some t\<rparr>" "client_ok c1"
    using wr cl_write_ok [OF ok, of W x out sig] by (cases "cl_transport c0") (auto simp: cl_write_def)
  from w show ?thesis unfolding t(1) using t by (auto simp: WaitResponse_def Let_def)
qed

lemma await_first_reply:
  assumes "client_ok c1" "cl_transport c1 \<noteq> None" "gm_get (cl_pendingResp c1) i = Some ch" "cl_chans c1 ch = make_chan 1"
    and "handle_signals W sigs c1 = Done () c2"
  shows "let expired = cl_ctxDone c2 \<or> late; reply = replies W i sigs in
      (expired \<and> (pick \<or> reply = []) \<longrightarrow>
         (\<exists>c3. await_response late pick want i ch c2 = Done (Some (Inl RequestTimeout)) c3 \<and> GetPendingResponse i c3 = None))
    \<and> (\<not> expired \<and> reply = [] \<longrightarrow> await_response late pick want i ch c2 = Done None c2)
    \<and> (\<forall>m ms. reply = m # ms \<and> \<not> (expired \<and> pick) \<longrightarrow>
         (\<exists>c3. await_response late pick want i ch c2 =
              Done (Some (if sm_Type m \<noteq> want then Inl (UnexpectedResponse (sm_Type m)) else Inr ())) c3
            \<and> GetPendingResponse i c3 = None))"
proof -
  have b: "client_ok c2" "ch_buf (cl_chans c2 ch) = take 1 (replies W i sigs)" "gm_get (cl_pendingResp c2) i = Some ch"
    using handle_signals_buffer [OF assms(1-3,5)] assms(3,4) by (simp_all add: make_chan_def)
  have "\<not> ch_closed (cl_chans c2 ch)" using b(1,3) by (auto simp: client_ok_def pending_ok_def)
  then show ?thesis
    using b(2) by (cases "replies W i sigs") (auto simp: Let_def await_response_def recv_def GetPendingResponse_def RemovePendingResponse_def)
qed

section \<open>A closed client is silent\<close>

definition silent :: "'t option \<Rightarrow> ('t client, 'a) outcome \<Rightarrow> bool" where
  "silent t r \<longleftrightarrow> (\<exists>a c. r = Done a c \<and> client_ok c \<and> cl_closed c \<and> cl_transport c = t)"

lemma silent_Done [simp]:
  "silent t (Done a c) \<longleftrightarrow> client_ok c \<and> cl_closed c \<and> cl_transport c = t" "\<not> silent t (Crash c)" "\<not> silent t (Hang c)"
  by (simp_all add: silent_def)

lemma silent_bind:
  "silent t (m c) \<Longrightarrow> (\<And>a c'. client_ok c' \<Longrightarrow> cl_closed c' \<Longrightarrow> cl_transport c' = t \<Longrightarrow> silent t (k a c')) \<Longrightarrow> silent t (bindA m k c)"
  by (auto simp: silent_def bindA_def)

lemma silent_then:
  "silent t (m c) \<Longrightarrow> (\<And>c'. client_ok c' \<Longrightarrow> cl_closed c' \<Longrightarrow> cl_transport c' = t \<Longrightarrow> silent t (k c')) \<Longrightarrow> silent t (thenA m k c)"
  by (simp add: thenA_def silent_bind)

lemma silent_ret [simp]: "silent t (retA a c) \<longleftrightarrow> client_ok c \<and> cl_closed c \<and> cl_transport c = t"
  by (simp add: retA_def)

lemma silent_ignore [simp]: "silent t (ignore_result m c) = silent t (m c)"
  by (auto simp: ignore_result_def thenA_def bindA_def retA_def silent_def split: outcome.split)

lemma silent_Close: "client_ok c \<Longrightarrow> cl_closed c \<Longrightarrow> cl_transport c = t \<Longrightarrow> silent t (cl_Close c)"
  using cl_Close_ok [of c] by auto

lemma silent_closing: "client_ok c \<Longrightarrow> cl_closed c \<Longrightarrow> cl_transport c = t \<Longrightarrow> silent t (thenA cl_Close (retA b) c)"
  by (intro silent_then silent_Close) simp_all

lemma silent_await:
  assumes "client_ok c" "cl_closed c" "cl_transport c = t" and "ch < cl_nextChan c"
  shows "silent t (await_response x pick want i ch c)"
proof -
  obtain r c' where r: "await_response x pick want i ch c = Done r c'" "client_ok c'"
    using await_response_ok [OF assms(1,4)] by blast
  then have "cl_closed c' = cl_closed c \<and> cl_transport c' = cl_transport c"
    by (auto simp: await_response_def RemovePendingResponse_def split: if_splits recv_result.splits)
  with r assms show ?thesis by simp
qed

lemma silent_Connect: "client_ok c \<Longrightarrow> cl_closed c \<Longrightarrow> cl_transport c = t \<Longrightarrow> silent t (ws_Connect dial c)"
  by (simp add: ws_Connect_def IsClosed_def mu_Lock_def mu_Unlock_def act_simps client_ok_def pending_ok_def IsConnected_def)

lemma silent_read:
  assumes "client_ok c" "cl_closed c" "cl_transport c = t" "t \<noteq> None"
  shows "silent t (cl_readLoop W [(begun, read)] c)"
proof -
  have d: "cl_ctxDone c" using assms(1,2) by (simp add: client_ok_def)
  note cl = silent_closing
  show ?thesis
  proof (cases read)
    case (Inl e)
    with assms d show ?thesis by (simp add: cl_readLoop_turn_def cl)
  next
    case (Inr sig)
    have "settled c (handleSignal W sig c)" using settled_handleSignal assms by blast
    with Inr assms d show ?thesis
      by (cases "handleSignal W sig c") (auto simp: cl_readLoop_turn_def thenA_False settled_def intro!: cl)
  qed
qed

text \<open>What the client relies on in a transport: a write with a finished context does nothing.\<close>

locale sdk_wire =
  fixes W :: "'t wire"
  assumes write_done: "wi_Write W True out sig t = (Inl SdkCtxDone, t)"
begin

lemma closed_write:
  "client_ok c \<Longrightarrow> cl_closed c \<Longrightarrow> cl_transport c \<noteq> None \<Longrightarrow> cl_write W x out sig c = Done (Inl SdkCtxDone) c"
  by (auto simp: cl_write_def write_done client_ok_def)

lemma silent_write:
  "client_ok c \<Longrightarrow> cl_closed c \<Longrightarrow> cl_transport c = t \<Longrightarrow> t \<noteq> None \<Longrightarrow> silent t (cl_write W x out sig c)"
  by (simp add: closed_write)

lemma silent_request:
  assumes "client_ok c" "cl_closed c" "cl_transport c = t" "t \<noteq> None"
  shows "silent t (send_request W x out i sig c)"
proof -
  obtain ch c1 where w: "WaitResponse i c = (ch, c1)" by fastforce
  then have f: "cl_transport c1 = cl_transport c" "cl_closed c1 = cl_closed c" by (auto simp: WaitResponse_def Let_def)
  have "cl_write W x out sig c1 = Done (Inl SdkCtxDone) c1"
    using closed_write [OF client_ok_Wait [OF assms(1) w]] f assms by simp
  then have "send_request W x out i sig c = Done (Inl (SendRequestFailed SdkCtxDone)) (RemovePendingResponse i c1)"
    by (simp add: send_request_def w)
  then show ?thesis
    using client_ok_Remove [OF client_ok_Wait [OF assms(1) w]] f assms by (simp add: RemovePendingResponse_def)
qed

lemma silent_business:
  "client_ok c \<Longrightarrow> cl_closed c \<Longrightarrow> cl_transport c = t \<Longrightarrow> t \<noteq> None \<Longrightarrow> silent t (send_business W late out i biz c)"
  unfolding send_business_def NextSequenceID_def
  by (simp, rule silent_write) (simp_all add: client_ok_def pending_ok_def IsConnected_def)

lemma silent_Heartbeat:
  assumes "client_ok c" "cl_closed c" "cl_transport c = t"
  shows "silent t (SendHeartbeat W late out i ts c)"
proof -
  have "client_ok (SetState ConnStateDisconnected c)"
    using assms(1) by (rule client_ok_SetState) (simp_all add: ConnState_consts)
  with assms show ?thesis
    by (simp add: SendHeartbeat_def closed_write bindA_def modA_def) (simp add: SetState_def)
qed

lemma silent_event:
  assumes "client_ok c" "cl_closed c" "cl_transport c = t"
  shows "silent t (client_event W ws_Connect e c)"
proof -
  have tr: "t \<noteq> None" if "IsConnected c" using that assms client_ok_connected by blast
  note ac = IsAuthenticated_connected [of c]
  show ?thesis
    using assms tr ac
    by (cases e)
       (auto simp: client_event_def cl_Auth_send_def cl_Auth_wait_def cl_AuthAsync_def cl_Subscribe_send_def cl_Unsubscribe_send_def
          async_write_def cl_SendBusiness_def cl_Logout_def StopHeartbeat_def simp del: cl_readLoop.simps
          intro!: silent_Connect silent_request silent_await silent_business silent_Heartbeat silent_Close silent_read silent_bind
            silent_then silent_write client_ok_Stop [unfolded StopHeartbeat_def])
qed

lemma silent_events: "client_ok c \<Longrightarrow> cl_closed c \<Longrightarrow> cl_transport c = t \<Longrightarrow> silent t (client_events W ws_Connect es c)"
  by (induction es arbitrary: c) (auto intro: silent_then silent_event)

end

interpretation tcp_client: sdk_wire "tcp_wire sv bv marshal" for sv bv marshal
  by unfold_locales (simp add: tcp_wire_def Transport_Write_def)

interpretation ws_client: sdk_wire "ws_wire sv bv marshal" for sv bv marshal
  by unfold_locales (simp add: ws_wire_def sdk_ws_Write_def)

section \<open>What an application can rely on\<close>

text \<open>
  C18. What can go wrong in a WebSocket client. Whatever calls the application makes, in whatever order
  and interleaved in whatever way with the signals that arrive, the replies that do not, the writes
  that fail, the goroutines of the asynchronous calls and the heartbeat goroutines: no call waits for a
  mutex for ever, and a panic while a signal is handled ends in a closed client. The process can die
  in one place only: in a heartbeat goroutine that comes to its \<open>select\<close> when the ticker is nil, and
  that only on a client that has been closed or on which \<open>Logout\<close> was called. Until then, and
  otherwise always, the state is consistent: it is one of the six constants, the two channels are
  closed exactly when the client is, and every pending request waits on an open channel of its own.
\<close>

theorem ws_client_fails_only_in_heartbeat:
  "case client_run W ws_Connect ts (run_start opts) of
     Done _ (c, hb) \<Rightarrow> client_ok c
   | Hang _ \<Rightarrow> False
   | Crash (c, hb) \<Rightarrow> client_ok c \<and> cl_heartbeatTicker c = None \<and> (\<exists>k. k < cl_heartbeats c \<and> hb k = HbSelect)
       \<and> (cl_closed c \<or> list_ex logout_turn ts)"
proof -
  have "ticking (NewBaseClient opts) \<or> False" by (simp add: ticking_def NewBaseClient_def)
  from client_run_outcome [OF NewBaseClient_ok this, of ts W "\<lambda>_. HbSelect"] show ?thesis
    by (simp add: run_start_def run_result_ok_def)
qed

text \<open>
  C21. A request gets the first reply that carries its identifier. After a subscription has been sent and
  any signals have then been handled, for other requests, heartbeats, messages, repeated answers,
  the call behaves as follows. If the request has expired, because its timeout has passed or the
  context of the client is done (so it is when one of the signals was a failed authentication,
  which closes the client), and no reply has come, it ends with a timeout. If it has expired and a reply
  has come, \<open>select\<close> may take either. Otherwise it goes on waiting if no signal has replied to it, and ends
  with the first reply if one has: successfully if that is a subscription response and with an error if
  it is not. When the call ends the request is no longer pending.
\<close>

theorem subscribe_gets_first_reply:
  assumes "client_ok c" and sent: "cl_Subscribe_send W late out i topic qos c = Done (Inr ch) c1"
    and run: "handle_signals W sigs c1 = Done () c2"
  shows "let expired = cl_ctxDone c2 \<or> late'; reply = replies W i sigs in
      (expired \<and> (pickDone \<or> reply = []) \<longrightarrow>
         (\<exists>c3. cl_Subscribe_wait late' pickDone i ch c2 = Done (Some (Inl RequestTimeout)) c3 \<and> GetPendingResponse i c3 = None))
    \<and> (\<not> expired \<and> reply = [] \<longrightarrow> cl_Subscribe_wait late' pickDone i ch c2 = Done None c2)
    \<and> (\<forall>m ms. reply = m # ms \<and> \<not> (expired \<and> pickDone) \<longrightarrow>
         (\<exists>c3. cl_Subscribe_wait late' pickDone i ch c2 =
              Done (Some (if sm_Type m \<noteq> SignalTypeSubscribeResponse then Inl (UnexpectedResponse (sm_Type m)) else Inr ())) c3
            \<and> GetPendingResponse i c3 = None))"
proof -
  have "IsAuthenticated c" using sent by (auto simp: cl_Subscribe_send_def split: if_splits)
  then have "send_request W late out i (EncodeSubscribeRequest (wi_sv W) i \<lparr>sq_Topic = topic, sq_Qos = qos\<rparr>) c = Done (Inr ch) c1"
    using sent by (simp add: cl_Subscribe_send_def)
  note p = send_request_pending [OF assms(1) this]
  show ?thesis
    unfolding cl_Subscribe_wait_def
    by (rule await_first_reply [OF _ _ _ _ run]) (use p in auto)
qed

text \<open>
  C22. A closed client is silent. After \<open>Close\<close>, whatever the application does and whatever still
  arrives, not another byte goes to the WebSocket, no connection is opened, and the client stays closed.
\<close>

theorem closed_client_writes_nothing:
  assumes "client_ok c" and "cl_Close c = Done () c1"
  shows "\<exists>c2. client_events (ws_wire sv bv marshal) ws_Connect es c1 = Done () c2 \<and> cl_closed c2 \<and> cl_transport c2 = cl_transport c"
proof -
  have "client_ok c1" "cl_closed c1" "cl_transport c1 = cl_transport c"
    using cl_Close_ok [OF assms(1)] assms(2) by auto
  from ws_client.silent_events [OF this, of sv bv marshal es] show ?thesis by (auto simp: silent_def)
qed

text \<open>
  An accepted authentication. If the server answers a waiting \<open>Auth\<close> with success and a positive
  heartbeat interval, the call returns exactly that answer, the client is authenticated, and the heartbeat
  runs with the server's period, which never overflows a duration.
\<close>

theorem auth_returns_server_answer:
  assumes ok: "client_ok c" and inj: "inj (wi_sv W)" and sent: "cl_Auth_send W late out i auth c = Done (Inr ch) c1"
    and sig: "cs_SignalType sig = wi_sv W SIGNAL_TYPE_AUTH_RESPONSE" "cs_RequestId sig = i"
      "cs_Payload sig = Some (ClientSignal_AuthResponse (Some r))" "pr_Result r" "pr_HeartbeatInternal r \<noteq> 0"
    and live: "\<not> cl_ctxDone c1" "0 < co_AuthTimeout (cl_Opts c1)"
  shows "\<exists>c2 c3. handleSignal W sig c1 = Done () c2
    \<and> cl_Auth_wait False pick i ch c2 = Done (Some (Inr (Some
         \<lparr>sa_Code = pr_Code r, sa_Msg = pr_Msg r, sa_Result = True, sa_HeartbeatInterval = pr_HeartbeatInternal r\<rparr>))) c3
    \<and> IsAuthenticated c3
    \<and> (\<exists>p. cl_heartbeatTicker c3 = Some p \<and> p = int (unat (pr_HeartbeatInternal r)) * sdk_Second \<and> 0 < p \<and> p < 2 ^ 63)"
proof -
  have "send_request W (co_AuthTimeout (cl_Opts c) \<le> 0 \<or> late) out i (EncodeAuthRequest (wi_sv W) i auth) c = Done (Inr ch) c1"
    using sent by (auto simp: cl_Auth_send_def split: if_splits)
  note p = send_request_pending [OF ok this]
  let ?r = "\<lparr>sa_Code = pr_Code r, sa_Msg = pr_Msg r, sa_Result = True, sa_HeartbeatInterval = pr_HeartbeatInternal r\<rparr>"
  let ?p = "int (unat (pr_HeartbeatInternal r)) * sdk_Second"
  define a where "a = call_ConnectHandler ConnStateAuthenticated False
    ((SetState ConnStateAuthenticated (SetAuthResponse (Some ?r) c1))\<lparr>cl_heartbeatTicker := Some ?p, cl_heartbeats := Suc (cl_heartbeats c1)\<rparr>)"
  have h: "handle_auth_response sig c1 = Done () a"
    using sig(3-5) by (simp add: handle_auth_response_def act_simps DecodeAuthResponse_def go_simps StartHeartbeat_cases a_def SetState_def SetAuthResponse_def)
  have f: "cl_pendingResp a = cl_pendingResp c1" "cl_chans a = cl_chans c1" "cl_ctxDone a = cl_ctxDone c1" "cl_Opts a = cl_Opts c1"
      "cl_authResp a = Some ?r" "cl_state a = ConnStateAuthenticated" "cl_heartbeatTicker a = Some ?p"
    by (simp_all add: a_def SetState_def SetAuthResponse_def)
  let ?m = "DecodeClientSignal (wi_sv W) sig"
  let ?c2 = "a\<lparr>cl_chans := (cl_chans a)(ch := \<lparr>ch_buf = [?m], ch_cap = 1, ch_closed = False\<rparr>)\<rparr>"
  have m: "sm_RequestID ?m = i" "sm_Type ?m = SignalTypeAuthResponse"
    using sig(1,2) SignalTypeFromProto_sv [OF inj] by (simp_all add: DecodeClientSignal_def SignalType_consts)
  have "NotifyPendingResponse i ?m a = Done () ?c2"
    using p by (simp add: NotifyPendingResponse_def GetPendingResponse_def f try_send_def make_chan_def)
  then have hs: "handleSignal W sig c1 = Done () ?c2"
    using sig(1) by (simp add: handleSignal_def Let_def m thenA_def bindA_def h)
  have "0 < ?p \<and> ?p < 2 ^ 63"
    using heartbeat_period_fits heartbeat_period_pos [OF sig(5)] by blast
  moreover have "\<exists>c3. cl_Auth_wait False pick i ch ?c2 = Done (Some (Inr (Some ?r))) c3 \<and> cl_state c3 = ConnStateAuthenticated \<and> cl_heartbeatTicker c3 = Some ?p"
    using live by (simp add: cl_Auth_wait_def await_response_def bindA_def recv_def f m RemovePendingResponse_def)
  ultimately show ?thesis using hs unfolding IsAuthenticated_def by blast
qed

text \<open>
  A server that accepts with heartbeat interval 0 destroys the client. Handling its answer panics in
  \<open>time.NewTicker\<close>; the reading goroutine recovers and closes the client, which goes on to report that
  it is authenticated, and the request that waits for the answer is never told.
\<close>

theorem zero_heartbeat_closes_client:
  assumes ok: "client_ok c" "cl_transport c \<noteq> None" "\<not> cl_ctxDone c"
    and sig: "cs_SignalType sig = wi_sv W SIGNAL_TYPE_AUTH_RESPONSE"
      "cs_Payload sig = Some (ClientSignal_AuthResponse (Some r))" "pr_Result r" "pr_HeartbeatInternal r = 0"
  shows "\<exists>c'. cl_readLoop W ((begun, Inr sig) # reads) c = Done True c' \<and> cl_closed c' \<and> IsAuthenticated c'
    \<and> cl_chans c' = cl_chans c \<and> cl_pendingResp c' = cl_pendingResp c"
proof -
  let ?r = "\<lparr>sa_Code = pr_Code r, sa_Msg = pr_Msg r, sa_Result = True, sa_HeartbeatInterval = 0\<rparr>"
  let ?a = "SetState ConnStateAuthenticated (SetAuthResponse (Some ?r) c)"
  have "handleSignal W sig c = Crash ?a"
    using sig by (simp add: handleSignal_def Let_def handle_auth_response_def act_simps DecodeAuthResponse_def go_simps StartHeartbeat_cases)
  moreover have "client_ok ?a"
    using client_ok_SetState [OF client_ok_SetAuthResponse [OF ok(1)]] ok(2) by (simp add: ConnState_consts SetAuthResponse_def)
  moreover have f: "cl_state ?a = ConnStateAuthenticated" "cl_chans ?a = cl_chans c" "cl_pendingResp ?a = cl_pendingResp c"
    by (simp_all add: SetState_def SetAuthResponse_def)
  ultimately show ?thesis
    using cl_Close_ok [of ?a] ok(3) by (auto simp: cl_readLoop_turn_def thenA_def bindA_def retA_def IsAuthenticated_def)
qed

text \<open>
  Closing or logging out while a heartbeat is being sent ends the process. Both set the ticker to nil.
  A heartbeat goroutine that is in \<open>SendHeartbeat\<close> at that moment comes back to its \<open>select\<close>, whatever
  becomes of the write, and dereferences the nil ticker; nothing recovers in that goroutine.
\<close>

theorem close_during_heartbeat_crashes:
  assumes "client_ok c" "\<not> cl_closed c"
    and "cl_Close c = Done () c1 \<or> IsAuthenticated c \<and> cl_Logout W late out i reason c = Done res c1"
  shows "\<exists>c2. heartbeat_turn W tick late' out' j ts HbSending c1 = Done HbSelect c2
    \<and> heartbeat_turn W tick' late'' out'' k ts' HbSelect c2 = Crash c2"
proof -
  have none: "cl_heartbeatTicker c1 = None"
    using assms cl_Close_ok [OF assms(1)]
    by (auto simp: cl_Logout_def bindA_def retA_def cl_write_def StopHeartbeat_def split: option.splits prod.splits)
  have "\<exists>c2. SendHeartbeat W late' out' j ts c1 = Done () c2 \<and> cl_heartbeatTicker c2 = None"
    using none
    by (auto simp: SendHeartbeat_def bindA_def retA_def modA_def cl_write_def SetState_def split: option.splits prod.splits sum.splits)
  then show ?thesis by (auto simp: heartbeat_turn_def thenA_def bindA_def retA_def)
qed

section \<open>The TCP client\<close>

definition tcp_states :: "Transport wire \<Rightarrow> Transport client_event list \<Rightarrow> Transport client \<Rightarrow> Transport client" where
  "tcp_states W es c = fold (\<lambda>e c. outcome_state (client_event W tcp_Connect e c)) es c"

definition unconnected :: "'t client \<Rightarrow> bool" where
  "unconnected c \<longleftrightarrow> cl_transport c = None \<and> cl_state c = ConnStateUnspecified"

lemma tcp_Connect_hangs: "\<exists>c'. tcp_Connect dial c = Hang c' \<and> (unconnected c \<longrightarrow> unconnected c')"
  by (auto simp: tcp_Connect_def mu_Lock_def IsClosed_def act_simps unconnected_def)

lemma unconnected_await: "unconnected c \<Longrightarrow> unconnected (outcome_state (await_response x pick want i ch c))"
  by (auto simp: await_response_def unconnected_def RemovePendingResponse_def split: recv_result.split)

lemma outcome_ignore [simp]: "outcome_state (ignore_result m c) = outcome_state (m c)"
  by (auto simp: ignore_result_def thenA_def bindA_def retA_def split: outcome.split)

lemma unconnected_event:
  assumes "unconnected c"
  shows "unconnected (outcome_state (client_event W tcp_Connect e c))"
proof -
  have "\<not> IsConnected c" "\<not> IsAuthenticated c" "cl_transport c = None"
    using assms by (simp_all add: unconnected_def IsConnected_def IsAuthenticated_def ConnState_consts)
  moreover have "unconnected (outcome_state (tcp_Connect dial c))" for dial
    using tcp_Connect_hangs [of dial c] assms by auto
  moreover have "unconnected (outcome_state (cl_Close c))"
    using assms by (auto simp: cl_Close_def base_Close_def act_simps StopHeartbeat_def Let_def unconnected_def)
  moreover have "unconnected (outcome_state (cl_Auth_wait x pick i ch c))" for x pick i ch
    using unconnected_await [OF assms, of "co_AuthTimeout (cl_Opts c) \<le> 0 \<or> x" pick SignalTypeAuthResponse i ch]
    by (auto simp: cl_Auth_wait_def bindA_def split: outcome.splits)
  ultimately show ?thesis
    using assms unconnected_await [OF assms]
    by (cases e) (auto simp: client_event_def cl_Auth_send_def cl_AuthAsync_def cl_Subscribe_send_def cl_Unsubscribe_send_def
        cl_SendBusiness_def cl_Logout_def SendHeartbeat_def)
qed

text \<open>
  C40. The TCP client can never connect. \<open>Connect\<close> takes \<open>closeMu\<close> and then calls \<open>IsClosed\<close>, which takes it
  again: it never returns, whatever state the client is in. So after any sequence of calls on a new
  client, by any number of goroutines, it has no transport, every request is refused as not
  connected or not authenticated, and the next \<open>Connect\<close> hangs as well.
\<close>

theorem tcp_client_never_connects:
  "let c = tcp_states (tcp_wire sv bv marshal) es (NewBaseClient opts)
   in (\<exists>c'. tcp_Connect dial c = Hang c') \<and> cl_transport c = None
    \<and> tcp_Auth_send sv bv marshal late out i auth c = Done (Inl NotConnected) c
    \<and> tcp_AuthAsync sv bv marshal late out i auth c = Done (Inl NotConnected) c
    \<and> tcp_Subscribe_send sv bv marshal late out i topic qos c = Done (Inl NotAuthenticated) c
    \<and> tcp_Unsubscribe_send sv bv marshal late out i topic c = Done (Inl NotAuthenticated) c
    \<and> tcp_SendBusiness sv bv marshal late out i biz m body c = Done (Inl NotAuthenticated) c
    \<and> tcp_Logout sv bv marshal late out i reason c = Done (Inl NotAuthenticated) c"
proof -
  let ?W = "tcp_wire sv bv marshal"
  have "unconnected (tcp_states ?W es c0)" if "unconnected c0" for c0
    using that unfolding tcp_states_def by (induction es arbitrary: c0) (auto intro: unconnected_event)
  moreover have "unconnected (NewBaseClient opts)"
    by (simp add: unconnected_def NewBaseClient_def ConnState_consts)
  ultimately have "unconnected (tcp_states ?W es (NewBaseClient opts))" by blast
  with tcp_Connect_hangs [of dial "tcp_states ?W es (NewBaseClient opts)"] show ?thesis
    by (auto simp: Let_def unconnected_def tcp_methods cl_Auth_send_def cl_AuthAsync_def cl_Subscribe_send_def cl_Unsubscribe_send_def
        cl_SendBusiness_def cl_Logout_def IsConnected_def IsAuthenticated_def ConnState_consts)
qed

section \<open>Witnesses\<close>

definition sample_wire :: "ws_transport wire" where
  "sample_wire = ws_wire sample_sv sample_bv (\<lambda>_. Inr [1])"

definition sample_client :: "ws_transport client" where
  "sample_client = (NewBaseClient [])\<lparr>cl_transport := Some \<lparr>wt_in = [], wt_out = []\<rparr>, cl_state := ConnStateAuthenticated\<rparr>"

lemma sample_client_ok: "client_ok sample_client"
  by (simp add: sample_client_def client_ok_def NewBaseClient_def pending_ok_def make_chan_def ConnState_consts chan_bounded_def)

lemma sample_client_fields:
  "\<not> cl_closed sample_client" "\<not> cl_ctxDone sample_client" "IsAuthenticated sample_client" "IsConnected sample_client"
  "cl_transport sample_client = Some \<lparr>wt_in = [], wt_out = []\<rparr>"
  by (simp_all add: sample_client_def NewBaseClient_def IsAuthenticated_def IsConnected_def)

definition sample_reply :: "pb_SignalType \<Rightarrow> string \<Rightarrow> ClientSignal" where
  "sample_reply t i = \<lparr>cs_RequestId = i, cs_SequenceId = 0, cs_SignalType = sample_sv t, cs_Payload = None\<rparr>"

definition sample_answer :: "32 word \<Rightarrow> ClientSignal" where
  "sample_answer n = \<lparr>cs_RequestId = ''r1'', cs_SequenceId = 0, cs_SignalType = sample_sv SIGNAL_TYPE_AUTH_RESPONSE,
     cs_Payload = Some (ClientSignal_AuthResponse (Some \<lparr>pr_Code = 0, pr_Msg = ''ok'', pr_Result = True, pr_HeartbeatInternal = n\<rparr>))\<rparr>"

lemma sample_send:
  "send_request sample_wire False None ''r1'' sig sample_client =
     Done (Inr 0) (sample_client\<lparr>cl_transport := Some \<lparr>wt_in = [], wt_out = [[1]]\<rparr>,
       cl_chans := (cl_chans sample_client)(0 := make_chan 1), cl_nextChan := 1, cl_pendingResp := [(''r1'', 0)]\<rparr>)"
  by (simp add: send_request_def WaitResponse_def Let_def cl_write_def sample_wire_def ws_wire_def sdk_ws_Write_def
      sample_client_def NewBaseClient_def gm_set_def)

theorem subscribe_gets_first_reply_witness:
  "\<exists>c1 c2 c3. cl_Subscribe_send sample_wire False None ''r1'' ''t'' 1 sample_client = Done (Inr 0) c1
     \<and> handle_signals sample_wire [sample_reply SIGNAL_TYPE_HEARTBEAT_PONG ''r1'', sample_reply SIGNAL_TYPE_SUBSCRIBE_RESPONSE ''r1''] c1 = Done () c2
     \<and> cl_Subscribe_wait False True ''r1'' 0 c2 = Done (Some (Inr ())) c3 \<and> GetPendingResponse ''r1'' c3 = None"
proof -
  let ?sigs = "[sample_reply SIGNAL_TYPE_HEARTBEAT_PONG ''r1'', sample_reply SIGNAL_TYPE_SUBSCRIBE_RESPONSE ''r1'']"
  let ?m = "DecodeClientSignal sample_sv (sample_reply SIGNAL_TYPE_SUBSCRIBE_RESPONSE ''r1'')"
  have sv: "wi_sv sample_wire = sample_sv" by (simp add: sample_wire_def ws_wire_def)
  obtain c1 where c1: "cl_Subscribe_send sample_wire False None ''r1'' ''t'' 1 sample_client = Done (Inr 0) c1"
      "c1 = sample_client\<lparr>cl_transport := Some \<lparr>wt_in = [], wt_out = [[1]]\<rparr>,
       cl_chans := (cl_chans sample_client)(0 := make_chan 1), cl_nextChan := 1, cl_pendingResp := [(''r1'', 0)]\<rparr>"
    using sample_client_fields(3) by (simp add: cl_Subscribe_send_def sample_send)
  have r: "replies sample_wire ''r1'' ?sigs = [?m]"
    by (simp add: replies_def notifies_def sv sample_reply_def sample_sv_def)
  obtain c2 where c2: "handle_signals sample_wire ?sigs c1 = Done () c2" "\<not> cl_ctxDone c2"
    by (simp add: handleSignal_def Let_def sv sample_reply_def act_simps NotifyPendingResponse_def GetPendingResponse_def
        c1(2) DecodeClientSignal_def sample_sv_def gm_get_def try_send_def make_chan_def sample_client_fields)
  have "sm_Type ?m = SignalTypeSubscribeResponse"
    by (simp add: DecodeClientSignal_def sample_reply_def SignalTypeFromProto_sv [OF inj_sample_sv] SignalType_consts)
  with subscribe_gets_first_reply [OF sample_client_ok c1(1) c2(1), of False True] r c1(1) c2 show ?thesis by (auto simp: Let_def)
qed

theorem closed_client_writes_nothing_witness:
  "\<exists>c1 c2. cl_Close sample_client = Done () c1
     \<and> client_events (ws_wire sample_sv sample_bv (\<lambda>_. Inr [1])) ws_Connect [EvSendBusiness False None ''r'' 1 ''m'' [], EvHeartbeat False None ''r'' 0] c1 = Done () c2
     \<and> cl_transport c2 = Some \<lparr>wt_in = [], wt_out = []\<rparr>"
  using closed_client_writes_nothing [OF sample_client_ok] cl_Close_ok [OF sample_client_ok] sample_client_fields(5) by metis

theorem auth_returns_server_answer_witness:
  "\<exists>c1 c2 c3. cl_Auth_send sample_wire False None ''r1'' undefined sample_client = Done (Inr 0) c1
     \<and> handleSignal sample_wire (sample_answer 30) c1 = Done () c2
     \<and> cl_Auth_wait False True ''r1'' 0 c2 = Done (Some (Inr (Some \<lparr>sa_Code = 0, sa_Msg = ''ok'', sa_Result = True, sa_HeartbeatInterval = 30\<rparr>))) c3
     \<and> IsAuthenticated c3"
proof -
  have sv: "wi_sv sample_wire = sample_sv" by (simp add: sample_wire_def ws_wire_def)
  have t: "0 < co_AuthTimeout (cl_Opts sample_client)"
    by (simp add: sample_client_def NewBaseClient_def defaultOptions_def sdk_Second_def)
  obtain c1 where c1: "cl_Auth_send sample_wire False None ''r1'' undefined sample_client = Done (Inr 0) c1"
      "\<not> cl_ctxDone c1" "0 < co_AuthTimeout (cl_Opts c1)"
    using sample_client_fields(2,4) t by (simp add: cl_Auth_send_def sample_send)
  have "\<exists>c2 c3. handleSignal sample_wire (sample_answer 30) c1 = Done () c2
    \<and> cl_Auth_wait False True ''r1'' 0 c2 = Done (Some (Inr (Some \<lparr>sa_Code = 0, sa_Msg = ''ok'', sa_Result = True, sa_HeartbeatInterval = 30\<rparr>))) c3
    \<and> IsAuthenticated c3"
    using auth_returns_server_answer [OF sample_client_ok, of sample_wire False None "''r1''" undefined 0 c1 "sample_answer 30"
        "\<lparr>pr_Code = 0, pr_Msg = ''ok'', pr_Result = True, pr_HeartbeatInternal = 30\<rparr>" True] c1
    by (auto simp: sv inj_sample_sv sample_answer_def)
  then show ?thesis using c1(1) by blast
qed

theorem zero_heartbeat_closes_client_witness:
  "\<exists>c'. cl_readLoop sample_wire [(True, Inr (sample_answer 0))] sample_client = Done True c' \<and> cl_closed c' \<and> IsAuthenticated c'"
  using zero_heartbeat_closes_client [OF sample_client_ok, of "sample_answer 0" sample_wire
      "\<lparr>pr_Code = 0, pr_Msg = ''ok'', pr_Result = True, pr_HeartbeatInternal = 0\<rparr>" True "[]"] sample_client_fields
  by (auto simp: sample_answer_def sample_wire_def ws_wire_def)

theorem close_during_heartbeat_crashes_witness:
  "\<exists>c1 c2. cl_Close sample_client = Done () c1 \<and> heartbeat_turn sample_wire True False None ''r'' 0 HbSending c1 = Done HbSelect c2
     \<and> heartbeat_turn sample_wire True False None ''r'' 0 HbSelect c2 = Crash c2"
  using close_during_heartbeat_crashes [OF sample_client_ok sample_client_fields(1)] cl_Close_ok [OF sample_client_ok] by metis

end
