(* ===== verification/Sdk_Push.thy ===== *)
theory Sdk_Push
  imports Sdk_Types
begin

text \<open>
  \<open>sdk/grpc/client.go\<close>, the client with which a backend pushes messages to a gateway, and
  \<open>sdk/auth.go\<close>, the client of the authentication service. The gRPC connection, the generated
  stub and the HTTP exchange are arguments. A deadline is a point in time; a context made with
  \<open>WithTimeout\<close> ends at the earlier of its own and its parent's.
\<close>

section \<open>The push client\<close>

datatype pb_PushType = DownStreamPushType_UNSPECIFIED | DownStreamPushType_SINGLE | DownStreamPushType_GROUP

definition toProtoPushType :: "(pb_PushType \<Rightarrow> 32 word) \<Rightarrow> 32 word \<Rightarrow> 32 word" where
  "toProtoPushType pv t =
     (if t = pv DownStreamPushType_SINGLE then pv DownStreamPushType_SINGLE
      else if t = pv DownStreamPushType_GROUP then pv DownStreamPushType_GROUP
      else pv DownStreamPushType_UNSPECIFIED)"

record grpc_PushRequest =
  gp_Receiver :: string
  gp_Payload :: bytes
  gp_PushType :: "32 word"
  gp_BusinessType :: "32 word"

record pb_PushMessageReq =
  pm_Receiver :: string
  pm_Payload :: bytes
  pm_PushType :: "32 word"
  pm_BusinessType :: "32 word"

record PushResponse =
  ps_Success :: bool
  ps_Message :: string

text \<open>Of the dial options it matters how many there are beside the defaults.\<close>

record 'd grpc_ClientOptions =
  go_Addr :: string
  go_Timeout :: int
  go_DialOptions :: "'d list"

definition grpc_defaultOptions :: "'d list \<Rightarrow> 'd grpc_ClientOptions" where
  "grpc_defaultOptions defaultDialOptions = \<lparr>go_Addr = '''', go_Timeout = 5 * sdk_Second, go_DialOptions = defaultDialOptions\<rparr>"

definition grpc_WithAddr :: "string \<Rightarrow> 'd grpc_ClientOptions \<Rightarrow> 'd grpc_ClientOptions" where
  "grpc_WithAddr addr o' = o'\<lparr>go_Addr := addr\<rparr>"

definition grpc_WithTimeout :: "int \<Rightarrow> 'd grpc_ClientOptions \<Rightarrow> 'd grpc_ClientOptions" where
  "grpc_WithTimeout timeout o' = o'\<lparr>go_Timeout := timeout\<rparr>"

definition grpc_WithDialOption :: "'d \<Rightarrow> 'd grpc_ClientOptions \<Rightarrow> 'd grpc_ClientOptions" where
  "grpc_WithDialOption opt o' = o'\<lparr>go_DialOptions := go_DialOptions o' @ [opt]\<rparr>"

record 'd grpc_Client =
  gc_opts :: "'d grpc_ClientOptions"
  gc_conn :: bool  \<comment> \<open>not nil\<close>
  gc_connCloses :: nat  \<comment> \<open>calls of \<open>conn.Close\<close>\<close>
  gc_closed :: bool

datatype push_error = AddrRequired | DialGrpcFailed string | ClientNotConnected | PushMessageFailed string

text \<open>A slice of dial options is nil here exactly when it is empty.\<close>

definition grpc_NewClient ::
    "'d list \<Rightarrow> (string \<Rightarrow> 'd list \<Rightarrow> string option) \<Rightarrow> ('d grpc_ClientOptions \<Rightarrow> 'd grpc_ClientOptions) list
       \<Rightarrow> (push_error, 'd grpc_Client) result" where
  "grpc_NewClient defaultDialOptions dial opts =
     (let o' = fold (\<lambda>opt. opt) opts (grpc_defaultOptions defaultDialOptions)
      in if go_Addr o' = '''' then Inl AddrRequired
         else
           (let dialOpts = (if go_DialOptions o' = [] then defaultDialOptions else go_DialOptions o')
            in case dial (go_Addr o') dialOpts of
                 Some err \<Rightarrow> Inl (DialGrpcFailed err)
               | None \<Rightarrow> Inr \<lparr>gc_opts = o', gc_conn = True, gc_connCloses = 0, gc_closed = False\<rparr>))"

definition push_request ::
    "(pb_PushType \<Rightarrow> 32 word) \<Rightarrow> (pb_BusinessType \<Rightarrow> 32 word) \<Rightarrow> grpc_PushRequest \<Rightarrow> pb_PushMessageReq" where
  "push_request pv bv req =
     \<lparr>pm_Receiver = gp_Receiver req, pm_Payload = gp_Payload req, pm_PushType = toProtoPushType pv (gp_PushType req),
      pm_BusinessType = BusinessType_ToProto bv (gp_BusinessType req)\<rparr>"

text \<open>The remote call, given the deadline of its context and the request.\<close>

type_synonym push_rpc = "int \<Rightarrow> pb_PushMessageReq \<Rightarrow> (string, bool \<times> string) result"

definition Push ::
    "(pb_PushType \<Rightarrow> 32 word) \<Rightarrow> (pb_BusinessType \<Rightarrow> 32 word) \<Rightarrow> push_rpc \<Rightarrow> int \<Rightarrow> int option \<Rightarrow> grpc_PushRequest \<Rightarrow> 'd grpc_Client
       \<Rightarrow> (push_error, PushResponse) result" where
  "Push pv bv rpc now parent req c =
     (if \<not> gc_conn c then Inl ClientNotConnected
      else
        (let timeout = (if go_Timeout (gc_opts c) \<le> 0 then 5 * sdk_Second else go_Timeout (gc_opts c));
             deadline = (case parent of None \<Rightarrow> now + timeout | Some p \<Rightarrow> min p (now + timeout))
         in case rpc deadline (push_request pv bv req) of
              Inl e \<Rightarrow> Inl (PushMessageFailed e)
            | Inr (success, message) \<Rightarrow> Inr \<lparr>ps_Success = success, ps_Message = message\<rparr>))"

text \<open>The goroutine of \<open>PushAsync\<close>; its result is thrown away.\<close>

definition PushAsync ::
    "(pb_PushType \<Rightarrow> 32 word) \<Rightarrow> (pb_BusinessType \<Rightarrow> 32 word) \<Rightarrow> push_rpc \<Rightarrow> int \<Rightarrow> grpc_PushRequest \<Rightarrow> 'd grpc_Client
       \<Rightarrow> (push_error, PushResponse) result" where
  "PushAsync pv bv rpc now req c = Push pv bv rpc now (Some (now + go_Timeout (gc_opts c))) req c"

definition grpc_Close :: "'d grpc_Client \<Rightarrow> 'd grpc_Client" where
  "grpc_Close c =
     (if gc_closed c then c
      else
        (let c1 = c\<lparr>gc_closed := True\<rparr>
         in if gc_conn c1 then c1\<lparr>gc_connCloses := Suc (gc_connCloses c1)\<rparr> else c1))"

lemma grpc_Close_idem [simp]: "grpc_Close (grpc_Close c) = grpc_Close c"
  by (simp add: grpc_Close_def Let_def)

lemma grpc_Close_once: "gc_conn c \<Longrightarrow> \<not> gc_closed c \<Longrightarrow> gc_connCloses ((grpc_Close ^^ Suc n) c) = Suc (gc_connCloses c)"
proof (induction n)
  case 0
  then show ?case by (simp add: grpc_Close_def)
next
  case (Suc n)
  then show ?case by simp
qed

lemma toProtoPushType_known [simp]: "toProtoPushType pv (pv t) = pv t"
  by (cases t) (auto simp: toProtoPushType_def)

text \<open>
  A client without a timeout can push, but not asynchronously. With a timeout that is not positive
  \<open>Push\<close> falls back to five seconds, and gives the remote call that long; \<open>PushAsync\<close> makes its own context
  from the same timeout without the fallback, so the remote call starts with a context that has already
  ended. A remote call that fails on an ended context, as gRPC does, therefore never delivers anything
  pushed asynchronously, although the same request pushed synchronously goes through.
\<close>

theorem push_async_ignores_default_timeout:
  assumes "gc_conn c" and "go_Timeout (gc_opts c) \<le> 0" and "0 \<le> now"
    and ended: "\<And>d q. d \<le> now \<Longrightarrow> rpc d q = Inl ''context deadline exceeded''"
    and works: "\<And>d q. now < d \<Longrightarrow> rpc d q = Inr (True, '''')"
  shows "Push pv bv rpc now None req c = Inr \<lparr>ps_Success = True, ps_Message = ''''\<rparr>
    \<and> PushAsync pv bv rpc now req c = Inl (PushMessageFailed ''context deadline exceeded'')"
  using assms by (simp add: Push_def PushAsync_def sdk_Second_def Let_def min_def)

theorem push_async_ignores_default_timeout_witness:
  "PushAsync (\<lambda>_. 0) (\<lambda>_. 0) (\<lambda>d q. if d \<le> 7 then Inl ''context deadline exceeded'' else Inr (True, '''')) 7
     \<lparr>gp_Receiver = ''u'', gp_Payload = [], gp_PushType = 0, gp_BusinessType = 0\<rparr>
     \<lparr>gc_opts = \<lparr>go_Addr = ''a'', go_Timeout = 0, go_DialOptions = [()]\<rparr>, gc_conn = True, gc_connCloses = 0, gc_closed = False\<rparr>
   = Inl (PushMessageFailed ''context deadline exceeded'')"
  using push_async_ignores_default_timeout [of "\<lparr>gc_opts = \<lparr>go_Addr = ''a'', go_Timeout = 0, go_DialOptions = [()]\<rparr>, gc_conn = True, gc_connCloses = 0, gc_closed = False\<rparr>"
      7 "\<lambda>d q. if d \<le> 7 then Inl ''context deadline exceeded'' else Inr (True, '''')" "\<lambda>_. 0" "\<lambda>_. 0"
      "\<lparr>gp_Receiver = ''u'', gp_Payload = [], gp_PushType = 0, gp_BusinessType = 0\<rparr>"]
  by simp

section \<open>The client of the authentication service\<close>

record GenerateTokenRequest =
  gq_DeviceID :: string
  gq_UserID :: string
  gq_AppID :: string

record TokenResponse =
  tr_Token :: string
  tr_Gateway :: string
  tr_Protocol :: string
  tr_Heartbeat :: int
  tr_ExpireAt :: int

record GenerateTokenResponse =
  gr_Code :: int
  gr_Msg :: string
  gr_Data :: "TokenResponse option"

datatype token_error = CallAuthFailed | DecodeResponseFailed | AuthServiceError string

text \<open>
  \<open>post\<close> is the HTTP exchange: it fails, or yields a body, which decodes or does not. Marshalling the
  request cannot fail, since it is three strings.
\<close>

definition GenerateToken ::
    "(GenerateTokenRequest \<Rightarrow> GenerateTokenResponse option option) \<Rightarrow> GenerateTokenRequest \<Rightarrow> (token_error, TokenResponse option) result" where
  "GenerateToken post req =
     (case post req of
        None \<Rightarrow> Inl CallAuthFailed
      | Some None \<Rightarrow> Inl DecodeResponseFailed
      | Some (Some resp) \<Rightarrow> if gr_Code resp \<noteq> 0 then Inl (AuthServiceError (gr_Msg resp)) else Inr (gr_Data resp))"

lemma GenerateToken_result:
  "GenerateToken post req = Inr d \<longleftrightarrow> (\<exists>resp. post req = Some (Some resp) \<and> gr_Code resp = 0 \<and> gr_Data resp = d)"
  by (auto simp: GenerateToken_def split: option.splits if_splits)

end
