(* ===== verification/Chain_Nesting.thy ===== *)
theory Chain_Nesting
  imports Uplink Downlink
begin

text \<open>
  What a chain means. \<open>Chain.Run\<close> walks an index that all stages share; the reference is the nesting
  of the stages in each other, in which there is no index at all. The two agree on every chain whose
  stages do not look at the index and call \<open>next\<close> at most once, which is what the contract
  \<open>blind_chain\<close> asks of them; both chains of the gateway meet it. The nesting also needs no fuel,
  so the agreement shows that the fuel of \<open>chain_run\<close> never runs out.
\<close>

fun nest :: "'c stage list \<Rightarrow> ('c pstate, unit) go" where
  "nest [] = retG ()"
| "nest (st # sts) = st (nest sts)"

definition same :: "'c pstate \<Rightarrow> 'c pstate \<Rightarrow> bool" where
  "same s s' \<longleftrightarrow> ps_ctx s = ps_ctx s' \<and> ps_w s = ps_w s'"

definition same_res :: "('c pstate, 'a) res \<Rightarrow> ('c pstate, 'a) res \<Rightarrow> bool" where
  "same_res r r' \<longleftrightarrow>
     (case r of
        Ret a s \<Rightarrow> (case r' of Ret a' s' \<Rightarrow> a = a' \<and> same s s' | Panic _ \<Rightarrow> False)
      | Panic s \<Rightarrow> (case r' of Ret _ _ \<Rightarrow> False | Panic s' \<Rightarrow> same s s'))"

lemma same_res_simps [simp]:
  "same_res (Ret a s) (Ret a' s') \<longleftrightarrow> a = a' \<and> same s s'" "same_res (Panic s) (Panic s') \<longleftrightarrow> same s s'"
  "\<not> same_res (Ret a s) (Panic s')" "\<not> same_res (Panic s) (Ret a s')"
  by (simp_all add: same_res_def)

text \<open>Two continuations that agree when the first runs at index \<open>j\<close>.\<close>

definition agree :: "nat \<Rightarrow> ('c pstate, 'a) go \<Rightarrow> ('c pstate, 'a) go \<Rightarrow> bool" where
  "agree j n n' \<longleftrightarrow> (\<forall>s s'. ps_idx s = j \<longrightarrow> same s s' \<longrightarrow> same_res (n s) (n' s'))"

text \<open>What a stage does after or instead of \<open>next\<close> may see any index, so it must not depend on it.\<close>

definition blind :: "('c pstate, 'a) go \<Rightarrow> bool" where
  "blind m \<longleftrightarrow> (\<forall>s s'. same s s' \<longrightarrow> same_res (m s) (m s'))"

definition index_blind :: "'c stage \<Rightarrow> bool" where
  "index_blind st \<longleftrightarrow> (\<forall>j n n'. agree j n n' \<longrightarrow> agree j (st n) (st n'))"

lemma agreeD: "agree j n n' \<Longrightarrow> ps_idx s = j \<Longrightarrow> same s s' \<Longrightarrow> same_res (n s) (n' s')"
  by (simp add: agree_def)

lemma blindD: "blind m \<Longrightarrow> same s s' \<Longrightarrow> same_res (m s) (m s')"
  by (simp add: blind_def)

lemma same_refl [simp]: "same s s"
  by (simp add: same_def)

lemma thenG_same:
  "same_res (m s) (m' s') \<Longrightarrow> blind k \<Longrightarrow> same_res (thenG m k s) (thenG m' k s')"
  by (cases "m s"; cases "m' s'") (simp_all add: thenG_def bindG_def blindD)

lemma recoverG_same:
  "same_res (n s) (n' s') \<Longrightarrow> blind h \<Longrightarrow> same_res (recoverG n h s) (recoverG n' h s')"
  by (cases "n s"; cases "n' s'") (simp_all add: recoverG_def blindD)

lemma blind_thenG: "blind m \<Longrightarrow> blind k \<Longrightarrow> blind (thenG m k)"
  by (simp add: blind_def [of m] blind_def [of "thenG m k"] thenG_same)

lemma agree_thenG: "agree j n n' \<Longrightarrow> blind k \<Longrightarrow> agree j (thenG n k) (thenG n' k)"
  by (simp add: agree_def thenG_same)

lemma agree_recoverG: "agree j n n' \<Longrightarrow> blind h \<Longrightarrow> agree j (recoverG n h) (recoverG n' h)"
  by (simp add: agree_def recoverG_same)

lemma index_blind_recover: "blind h \<Longrightarrow> index_blind (recover_stage h)"
  by (simp add: index_blind_def recover_stage_def agree_recoverG)

text \<open>A call into the node keeps the index, so that what follows it runs where it did.\<close>

lemma on_w_agree:
  assumes k: "\<And>a. agree j (k a) (k' a)" and s: "same s s'" "ps_idx s = j"
  shows "same_res (bindG (on_w m) k s) (bindG (on_w m) k' s')"
proof -
  have "ps_w s' = ps_w s" "ps_ctx s' = ps_ctx s" using s by (simp_all add: same_def)
  then show ?thesis using agreeD [OF k] s(2)
    by (cases "m (ps_w s)") (simp_all add: bindG_def on_w_def same_def)
qed

section \<open>The contract\<close>

locale blind_chain =
  fixes stages :: "'c stage list"
  assumes stages_blind: "i < length stages \<Longrightarrow> index_blind (stages ! i)"
begin

lemma chain_run_nest:
  "i \<le> length stages \<Longrightarrow> agree i (chain_run (length stages - i) stages) (nest (drop i stages))"
proof (induction "length stages - i" arbitrary: i)
  case 0
  then show ?case by (simp add: agree_def retG_def)
next
  case (Suc k)
  then have i: "i < length stages" and k: "k = length stages - Suc i" by auto
  have "agree (Suc i) (chain_run k stages) (nest (drop (Suc i) stages))"
    using Suc.hyps(1) [OF k] i k by simp
  then have st: "agree (Suc i) ((stages ! i) (chain_run k stages)) ((stages ! i) (nest (drop (Suc i) stages)))"
    using stages_blind [OF i] by (simp add: index_blind_def)
  have "agree i (chain_run (Suc k) stages) ((stages ! i) (nest (drop (Suc i) stages)))"
    unfolding agree_def
  proof (intro allI impI)
    fix s s' :: "'c pstate"
    assume s: "ps_idx s = i" "same s s'"
    then have "same (s\<lparr>ps_idx := Suc i\<rparr>) s'" by (simp add: same_def)
    from agreeD [OF st _ this] i s
    show "same_res (chain_run (Suc k) stages s) ((stages ! i) (nest (drop (Suc i) stages)) s')" by simp
  qed
  then show ?case using i Suc.hyps(2) by (simp flip: Cons_nth_drop_Suc)
qed

lemma Chain_Run_nest:
  "same_res (Chain_Run stages ctx w) (nest stages \<lparr>ps_idx = i, ps_ctx = ctx, ps_w = w\<rparr>)"
  using agreeD [OF chain_run_nest [of 0], of "\<lparr>ps_idx = 0, ps_ctx = ctx, ps_w = w\<rparr>" "\<lparr>ps_idx = i, ps_ctx = ctx, ps_w = w\<rparr>"]
  by (simp add: Chain_Run_def same_def)

end

section \<open>The stages of the gateway\<close>

lemma blind_uplink_actions [simp]:
  "blind (ReplyError c t)" "blind (uctx_Abort r)" "blind (dctx_Abort r)" "blind RecoverStage_handler"
proof -
  show R: "blind (ReplyError c t)" for c t by (simp add: blind_def ReplyError_def modG_def same_def Let_def)
  show A: "blind (uctx_Abort r)" for r by (simp add: blind_def uctx_Abort_def mod_ctx_def modG_def same_def)
  show "blind (dctx_Abort r)" by (simp add: blind_def dctx_Abort_def mod_ctx_def modG_def same_def)
  have "blind (thenG (ReplyError 5000 ''internal error'') (uctx_Abort ''panic''))" by (intro blind_thenG R A)
  then show "blind RecoverStage_handler"
    by (simp add: blind_def RecoverStage_handler_def same_def split: option.split)
qed

lemma reply_abort_same:
  "same s s' \<Longrightarrow> same_res (thenG (ReplyError c t) (uctx_Abort r) s) (thenG (ReplyError c t) (uctx_Abort r) s')"
  by (intro blindD [OF blind_thenG]) simp_all

lemma abort_same:
  "same s s' \<Longrightarrow> same_res (uctx_Abort r s) (uctx_Abort r s')" "same t t' \<Longrightarrow> same_res (dctx_Abort r t) (dctx_Abort r t')"
  by (simp_all add: blindD)

lemma same_ctxw: "same s s' \<Longrightarrow> ps_ctx s' = ps_ctx s" "same s s' \<Longrightarrow> ps_w s' = ps_w s"
  by (simp_all add: same_def)

lemma same_upd:
  "same s s' \<Longrightarrow> same (s\<lparr>ps_ctx := c\<rparr>) (s'\<lparr>ps_ctx := c\<rparr>)" "same s s' \<Longrightarrow> same (s\<lparr>ps_w := w\<rparr>) (s'\<lparr>ps_w := w\<rparr>)"
  "same s s' \<Longrightarrow> same (s\<lparr>ps_ctx := c, ps_w := w\<rparr>) (s'\<lparr>ps_ctx := c, ps_w := w\<rparr>)"
  by (simp_all add: same_def)

lemmas blind_steps = same_ctxw same_upd reply_abort_same abort_same Let_def

lemma uplink_stages_blind:
  "index_blind RecoverStage" "index_blind ValidateStage" "index_blind (RateLimitStage l)" "index_blind TraceStage"
  "index_blind MetricsStage" "index_blind SubmitStage"
proof -
  show "index_blind RecoverStage" by (simp add: RecoverStage_def index_blind_recover)
  show "index_blind ValidateStage" "index_blind (RateLimitStage l)" "index_blind TraceStage"
    by (auto simp: index_blind_def ValidateStage_def RateLimitStage_def TraceStage_def agree_def blind_steps split: option.splits)
  have "blind (\<lambda>s :: ustate. case uc_Message (ps_ctx s) of None \<Rightarrow> Panic s | Some _ \<Rightarrow> Ret () s)"
    by (auto simp: blind_def same_def split: option.split)
  then show "index_blind MetricsStage" by (simp add: index_blind_def MetricsStage_def agree_thenG)
  show "index_blind SubmitStage"
    unfolding index_blind_def
  proof (intro allI impI)
    fix j and n n' :: "(ustate, unit) go"
    assume n: "agree j n n'"
    have k: "agree j (case e of None \<Rightarrow> n | Some e \<Rightarrow> thenG (ReplyError c (t e)) (uctx_Abort r))
                     (case e of None \<Rightarrow> n' | Some e \<Rightarrow> thenG (ReplyError c (t e)) (uctx_Abort r))" for e c t r
      using n by (cases e) (simp_all add: agree_def reply_abort_same)
    show "agree j (SubmitStage n) (SubmitStage n')"
      unfolding agree_def SubmitStage_def
      by (auto simp: same_ctxw Let_def split: option.split intro!: on_w_agree k same_upd)
  qed
qed

lemma downlink_stages_blind:
  "index_blind dl_RecoverStage" "index_blind dl_ValidateStage" "index_blind RouteStage" "index_blind FilterStage"
  "index_blind (FanOutStage b)" "index_blind dl_MetricsStage"
proof -
  show "index_blind dl_RecoverStage" by (simp add: dl_RecoverStage_def index_blind_recover)
  show "index_blind dl_ValidateStage" "index_blind RouteStage" "index_blind FilterStage"
    by (auto simp: index_blind_def dl_ValidateStage_def RouteStage_def FilterStage_def agree_def blind_steps split: option.splits)
  have "blind (\<lambda>s :: dstate. if fo_Total (dc_FanOutResult (ps_ctx s)) > 0 \<or> fo_Offline (dc_FanOutResult (ps_ctx s)) > 0
                     then (case dc_Message (ps_ctx s) of None \<Rightarrow> Panic s | Some _ \<Rightarrow> Ret () s) else Ret () s)"
    by (auto simp: blind_def same_def split: option.split)
  then show "index_blind dl_MetricsStage" by (simp add: index_blind_def dl_MetricsStage_def agree_thenG)
  show "index_blind (FanOutStage b)"
    unfolding index_blind_def
  proof (intro allI impI)
    fix j and n n' :: "(dstate, unit) go"
    assume n: "agree j n n'"
    have k: "agree j (\<lambda>s. n (s\<lparr>ps_ctx := f (ps_ctx s)\<rparr>)) (\<lambda>s. n' (s\<lparr>ps_ctx := f (ps_ctx s)\<rparr>))" for f
      using n by (auto simp: agree_def same_ctxw same_upd)
    show "agree j (FanOutStage b n) (FanOutStage b n')"
      unfolding agree_def FanOutStage_def using agreeD [OF n]
      by (auto simp: same_ctxw same_upd split: option.split intro!: on_w_agree k)
  qed
qed

interpretation uplink_chain: blind_chain "BuildChain l"
  by unfold_locales
     (auto simp: BuildChain_def NewChain_def less_Suc_eq numeral_eq_Suc uplink_stages_blind)

interpretation downlink_chain: blind_chain "dl_BuildChain store"
  by unfold_locales
     (auto simp: dl_BuildChain_def NewChain_def less_Suc_eq numeral_eq_Suc downlink_stages_blind)

text \<open>
  C15. The uplink chain is the nesting of its six stages: running it through the shared index gives the
  result, the context and the node that calling recover around validate around rate limit around trace
  around metrics around submit gives, with nothing after the last one.
\<close>

theorem uplink_chain_is_nesting:
  "same_res (uplink_Run limiter sess conn msg w)
     (RecoverStage (ValidateStage (RateLimitStage limiter (TraceStage (MetricsStage (SubmitStage (retG ()))))))
        \<lparr>ps_idx = i, ps_ctx = new_UplinkCtx (wd_now w) sess conn msg, ps_w = w\<rparr>)"
  using uplink_chain.Chain_Run_nest [of limiter "new_UplinkCtx (wd_now w) sess conn msg" w i]
  by (simp add: uplink_Run_def) (simp add: BuildChain_def NewChain_def)

text \<open>The downlink chain is the nesting of its six stages in the same sense.\<close>

theorem downlink_chain_is_nesting:
  "same_res (downlink_Run store msg w)
     (dl_RecoverStage (dl_ValidateStage (RouteStage (FilterStage (FanOutStage store (dl_MetricsStage (retG ()))))))
        \<lparr>ps_idx = i, ps_ctx = new_DownlinkCtx (wd_now w) msg, ps_w = w\<rparr>)"
  using downlink_chain.Chain_Run_nest [of store "new_DownlinkCtx (wd_now w) msg" w i]
  by (simp add: downlink_Run_def) (simp add: dl_BuildChain_def NewChain_def)

end
