(* ===== verification/Routines.thy ===== *)
theory Routines
  imports Go_Prelude
begin

text \<open>
  Goroutines that share a \<open>sync.WaitGroup\<close>. A group holds the counter, the goroutines and the state they
  share; a schedule says which goroutine moves next and what its environment answers. A step of a
  goroutine tells how often it calls \<open>Done\<close>. A negative counter panics, as does a panic of a step: an
  unrecovered panic of one goroutine ends the process.

  The contract \<open>routines\<close> asks that the calls of \<open>Done\<close> a goroutine still owes are known from where it
  stands. Then the counter is what is owed, and \<open>Wait\<close> returns exactly if nothing is owed. Two
  extensions give the two things one wants to know of a shutdown: \<open>draining\<close>, that every fair schedule
  lets \<open>Wait\<close> return, and \<open>lingering\<close>, that no schedule does. The contract \<open>metered\<close> bounds what the goroutines
  still do in the meantime.
\<close>

record ('s, 'g) goroutines =
  gr_wg :: int
  gr_all :: "'g list"
  gr_shared :: 's

type_synonym ('e, 's, 'g) routine_step = "'e \<Rightarrow> 'g \<Rightarrow> ('s, nat \<times> 'g) go"

definition no_goroutines :: "'s \<Rightarrow> ('s, 'g) goroutines" where
  "no_goroutines s = \<lparr>gr_wg = 0, gr_all = [], gr_shared = s\<rparr>"

text \<open>\<open>wg.Add(n); go g\<close>\<close>

definition wg_go :: "nat \<Rightarrow> 'g \<Rightarrow> ('s, 'g) goroutines \<Rightarrow> ('s, 'g) goroutines" where
  "wg_go n g G = G\<lparr>gr_wg := gr_wg G + int n, gr_all := gr_all G @ [g]\<rparr>"

definition sched :: "('e, 's, 'g) routine_step \<Rightarrow> nat \<times> 'e \<Rightarrow> (('s, 'g) goroutines, unit) go" where
  "sched step ie G =
     (if length (gr_all G) \<le> fst ie then Ret () G
      else
        (case step (snd ie) (gr_all G ! fst ie) (gr_shared G) of
           Panic s \<Rightarrow> Panic (G\<lparr>gr_shared := s\<rparr>)
         | Ret p s \<Rightarrow>
             (let G' = G\<lparr>gr_wg := gr_wg G - int (fst p), gr_all := (gr_all G)[fst ie := snd p], gr_shared := s\<rparr>
              in if gr_wg G' < 0 then Panic G' else Ret () G')))"

definition wg_Wait_returns :: "('s, 'g) goroutines \<Rightarrow> bool" where
  "wg_Wait_returns G \<longleftrightarrow> gr_wg G = 0"

definition owed :: "('g \<Rightarrow> nat) \<Rightarrow> ('s, 'g) goroutines \<Rightarrow> bool" where
  "owed weight G \<longleftrightarrow> gr_wg G = int (sum_list (map weight (gr_all G)))"

definition draining_state :: "('g \<Rightarrow> nat) \<Rightarrow> ('g \<Rightarrow> bool) \<Rightarrow> ('s \<Rightarrow> bool) \<Rightarrow> ('s, 'g) goroutines \<Rightarrow> bool" where
  "draining_state weight good stopped G \<longleftrightarrow>
     owed weight G \<and> stopped (gr_shared G) \<and> list_all good (gr_all G)"

lemma owed_none [simp]: "owed weight (no_goroutines s)"
  by (simp add: owed_def no_goroutines_def)

lemma owed_go: "owed weight G \<Longrightarrow> n = weight g \<Longrightarrow> owed weight (wg_go n g G)"
  by (simp add: owed_def wg_go_def)

lemma wg_go_fields [simp]: "gr_all (wg_go n g G) = gr_all G @ [g]" "gr_shared (wg_go n g G) = gr_shared G"
  by (simp_all add: wg_go_def)

lemma sum_list_map_update:
  fixes f :: "'g \<Rightarrow> nat"
  assumes "i < length xs" and "f (xs ! i) = n + f g"
  shows "sum_list (map f xs) = n + sum_list (map f (xs[i := g]))"
  using assms
proof (induction xs arbitrary: i)
  case (Cons x xs)
  then show ?case by (cases i) auto
qed simp

lemma sched_length: "length (gr_all (res_state (sched step ie G))) = length (gr_all G)"
  by (auto simp: sched_def Let_def split: res.split)

text \<open>What every step of a loop keeps, the loop keeps, also when it panics.\<close>

lemma forG_invariant:
  assumes "P s" and "\<And>x s. x \<in> set xs \<Longrightarrow> P s \<Longrightarrow> P (res_state (f x s))"
  shows "P (res_state (forG xs f s))"
  using assms
proof (induction xs arbitrary: s)
  case (Cons x xs)
  then have "P (res_state (f x s))" by simp
  with Cons show ?case by (cases "f x s") (simp_all add: go_simps)
qed (simp add: retG_def)

section \<open>The contract of a goroutine\<close>

locale routines =
  fixes step :: "('e, 's, 'g) routine_step" and weight :: "'g \<Rightarrow> nat"
  assumes conserved: "step e g s = Ret (n, g') s' \<Longrightarrow> weight g = n + weight g'"
begin

lemma sched_owed:
  assumes "owed weight G"
  shows "owed weight (res_state (sched step ie G))"
proof (cases "fst ie < length (gr_all G)")
  case True
  show ?thesis
  proof (cases "step (snd ie) (gr_all G ! fst ie) (gr_shared G)")
    case (Ret p s)
    then have "weight (gr_all G ! fst ie) = fst p + weight (snd p)" using conserved by (cases p) auto
    from sum_list_map_update [OF True this] show ?thesis
      using assms True Ret by (auto simp: sched_def owed_def Let_def)
  qed (use assms True in \<open>simp add: sched_def owed_def\<close>)
qed (use assms in \<open>simp add: sched_def\<close>)

text \<open>The counter never becomes negative: a panic of a schedule is a panic of one of the goroutines.\<close>

lemma sched_panics_only_by_step:
  assumes "owed weight G" and "sched step ie G = Panic G'"
  shows "\<exists>s'. step (snd ie) (gr_all G ! fst ie) (gr_shared G) = Panic s' \<and> fst ie < length (gr_all G)"
proof (rule ccontr)
  assume no: "\<not> ?thesis"
  have i: "fst ie < length (gr_all G)" using assms(2) by (auto simp: sched_def split: if_splits)
  then obtain p s where r: "step (snd ie) (gr_all G ! fst ie) (gr_shared G) = Ret p s"
    using no by (cases "step (snd ie) (gr_all G ! fst ie) (gr_shared G)") auto
  have "owed weight (res_state (sched step ie G))" by (rule sched_owed [OF assms(1)])
  then have "0 \<le> gr_wg G'" using assms(2) by (simp add: owed_def)
  then show False using assms(2) i r by (auto simp: sched_def Let_def split: if_splits)
qed

lemma run_owed: "owed weight G \<Longrightarrow> owed weight (res_state (forG xs (sched step) G))"
  by (rule forG_invariant) (simp_all add: sched_owed)

lemma Wait_returns_iff: "owed weight G \<Longrightarrow> wg_Wait_returns G \<longleftrightarrow> (\<forall>g\<in>set (gr_all G). weight g = 0)"
  by (simp add: owed_def wg_Wait_returns_def)

end

section \<open>Shutting down\<close>

text \<open>
  Goroutines that end once the group is told to stop. \<open>rank\<close> bounds the turns a goroutine still takes;
  \<open>fair\<close> are the answers the environment gives after the stop.
\<close>

locale draining = routines +
  fixes rank :: "'c \<Rightarrow> nat" and good :: "'c \<Rightarrow> bool" and stopped :: "'b \<Rightarrow> bool" and fair :: "'a \<Rightarrow> bool"
  assumes drain: "stopped s \<Longrightarrow> fair e \<Longrightarrow> good g \<Longrightarrow>
      \<exists>n g' s'. step e g s = Ret (n, g') s' \<and> rank g' \<le> rank g - 1 \<and> good g' \<and> stopped s'"
    and rank0: "rank g = 0 \<Longrightarrow> weight g = 0"
begin

lemma sched_drains:
  assumes G: "draining_state weight good stopped G" and e: "fair e"
  shows "\<exists>G'. sched step (i, e) G = Ret () G' \<and> draining_state weight good stopped G' \<and> length (gr_all G') = length (gr_all G)
    \<and> (\<forall>j < length (gr_all G). rank (gr_all G' ! j) \<le> rank (gr_all G ! j) - (if j = i then 1 else 0))"
proof (cases "i < length (gr_all G)")
  case False
  then show ?thesis using G by (auto simp: sched_def)
next
  case True
  then have "good (gr_all G ! i)" using G by (simp add: draining_state_def list_all_length)
  then obtain n g' s' where st: "step e (gr_all G ! i) (gr_shared G) = Ret (n, g') s'"
      and r: "rank g' \<le> rank (gr_all G ! i) - 1" and g: "good g'" and s: "stopped s'"
    using drain [of "gr_shared G" e "gr_all G ! i"] e G by (auto simp: draining_state_def)
  have ow: "owed weight (res_state (sched step (i, e) G))" using G by (intro sched_owed) (simp add: draining_state_def)
  let ?G = "G\<lparr>gr_wg := gr_wg G - int n, gr_all := (gr_all G)[i := g'], gr_shared := s'\<rparr>"
  have wg: "0 \<le> gr_wg ?G" using ow True st by (auto simp: sched_def owed_def Let_def split: if_splits)
  then have sc: "sched step (i, e) G = Ret () ?G" using True st by (simp add: sched_def)
  have "list_all good ((gr_all G)[i := g'])"
    using G g True by (auto simp: draining_state_def list_all_length nth_list_update)
  then have "draining_state weight good stopped ?G" using ow s by (simp add: draining_state_def sc)
  with sc r True show ?thesis by (intro exI [of _ ?G]) (auto simp: nth_list_update)
qed

lemma run_drains:
  assumes "draining_state weight good stopped G" and "\<forall>(i, e)\<in>set xs. fair e"
  shows "\<exists>G'. forG xs (sched step) G = Ret () G' \<and> draining_state weight good stopped G' \<and> length (gr_all G') = length (gr_all G)
    \<and> (\<forall>j < length (gr_all G). rank (gr_all G' ! j) \<le> rank (gr_all G ! j) - count_list (map fst xs) j)"
  using assms
proof (induction xs arbitrary: G)
  case (Cons x xs)
  obtain i e where x: "x = (i, e)" by (cases x)
  from sched_drains [OF Cons.prems(1), of e i] Cons.prems(2) x obtain G1 where
      1: "sched step x G = Ret () G1" "draining_state weight good stopped G1" "length (gr_all G1) = length (gr_all G)"
        "\<And>j. j < length (gr_all G) \<Longrightarrow> rank (gr_all G1 ! j) \<le> rank (gr_all G ! j) - (if j = i then 1 else 0)"
    by auto
  from Cons.IH [OF 1(2)] Cons.prems(2) obtain G2 where
      2: "forG xs (sched step) G1 = Ret () G2" "draining_state weight good stopped G2" "length (gr_all G2) = length (gr_all G1)"
        "\<And>j. j < length (gr_all G1) \<Longrightarrow> rank (gr_all G2 ! j) \<le> rank (gr_all G1 ! j) - count_list (map fst xs) j"
    by auto
  have "rank (gr_all G2 ! j) \<le> rank (gr_all G ! j) - count_list (map fst (x # xs)) j" if "j < length (gr_all G)" for j
    using 1(3) 1(4) [of j] 2(4) [of j] that x by (auto split: if_splits)
  then show ?case using 1 2 by (intro exI [of _ G2]) (simp add: go_simps)
qed (simp add: retG_def)

text \<open>Every fair schedule that gives each goroutine as many turns as it needs lets \<open>Wait\<close> return.\<close>

lemma Wait_returns:
  assumes "draining_state weight good stopped G" and "\<forall>(i, e)\<in>set xs. fair e"
    and "\<And>j. j < length (gr_all G) \<Longrightarrow> rank (gr_all G ! j) \<le> count_list (map fst xs) j"
  shows "\<exists>G'. forG xs (sched step) G = Ret () G' \<and> wg_Wait_returns G' \<and> stopped (gr_shared G')"
proof -
  from run_drains [OF assms(1,2)] obtain G' where
      G': "forG xs (sched step) G = Ret () G'" "draining_state weight good stopped G'" "length (gr_all G') = length (gr_all G)"
        "\<And>j. j < length (gr_all G) \<Longrightarrow> rank (gr_all G' ! j) \<le> rank (gr_all G ! j) - count_list (map fst xs) j"
    by blast
  have "rank (gr_all G' ! j) = 0" if "j < length (gr_all G')" for j
    using G'(3) G'(4) [of j] assms(3) [of j] that by simp
  then have "weight g = 0" if "g \<in> set (gr_all G')" for g using that rank0 by (metis in_set_conv_nth)
  then have "wg_Wait_returns G'" using Wait_returns_iff [of G'] G'(2) by (simp add: draining_state_def)
  then show ?thesis using G' by (simp add: draining_state_def)
qed

end

text \<open>
  What goroutines still append to a log. \<open>left\<close> bounds what a goroutine adds to it in all the turns it
  takes with the answers \<open>fair\<close>.
\<close>

locale metered =
  fixes step :: "('e, 's, 'g) routine_step" and log_of :: "'s \<Rightarrow> 'x list" and left :: "'g \<Rightarrow> nat" and fair :: "'e \<Rightarrow> bool"
  assumes meter: "fair e \<Longrightarrow> step e g s = Ret (n, g') s' \<Longrightarrow>
      \<exists>ys. log_of s' = log_of s @ ys \<and> length ys + left g' \<le> left g"
begin

lemma sched_metered:
  assumes "fair e" and "sched step (i, e) G = Ret () G'"
  shows "\<exists>ys. log_of (gr_shared G') = log_of (gr_shared G) @ ys
    \<and> length ys + sum_list (map left (gr_all G')) \<le> sum_list (map left (gr_all G))"
proof (cases "i < length (gr_all G)")
  case True
  then obtain n g' s' where st: "step e (gr_all G ! i) (gr_shared G) = Ret (n, g') s'"
      and G': "G' = G\<lparr>gr_wg := gr_wg G - int n, gr_all := (gr_all G)[i := g'], gr_shared := s'\<rparr>"
    using assms(2) by (auto simp: sched_def Let_def split: res.splits if_splits)
  from meter [OF assms(1) st] obtain ys where
      ys: "log_of s' = log_of (gr_shared G) @ ys" "length ys + left g' \<le> left (gr_all G ! i)" by blast
  have "sum_list (map left (gr_all G)) = (left (gr_all G ! i) - left g') + sum_list (map left ((gr_all G)[i := g']))"
    by (rule sum_list_map_update [OF True]) (use ys(2) in simp)
  then show ?thesis using ys by (intro exI [of _ ys]) (simp add: G')
qed (use assms(2) in \<open>simp add: sched_def\<close>)

lemma run_metered:
  assumes "\<forall>(i, e)\<in>set xs. fair e" and "forG xs (sched step) G = Ret () G'"
  shows "\<exists>ys. log_of (gr_shared G') = log_of (gr_shared G) @ ys
    \<and> length ys + sum_list (map left (gr_all G')) \<le> sum_list (map left (gr_all G))"
  using assms
proof (induction xs arbitrary: G)
  case (Cons x xs)
  obtain i e where x: "x = (i, e)" by (cases x)
  with Cons.prems(2) obtain G1 where s1: "sched step (i, e) G = Ret () G1" and r: "forG xs (sched step) G1 = Ret () G'"
    by (auto simp: go_simps split: res.splits)
  from sched_metered [OF _ s1] Cons.prems(1) x obtain ys where
      1: "log_of (gr_shared G1) = log_of (gr_shared G) @ ys"
        "length ys + sum_list (map left (gr_all G1)) \<le> sum_list (map left (gr_all G))" by auto
  from Cons.IH [OF _ r] Cons.prems(1) obtain zs where
      2: "log_of (gr_shared G') = log_of (gr_shared G1) @ zs"
        "length zs + sum_list (map left (gr_all G')) \<le> sum_list (map left (gr_all G1))" by auto
  show ?case using 1 2 by (intro exI [of _ "ys @ zs"]) simp
qed (simp add: retG_def)

end

text \<open>A goroutine that stays where it owes a call of \<open>Done\<close>, whatever the others do.\<close>

locale lingering = routines +
  fixes lingers :: "'c \<Rightarrow> bool" and calm :: "'a \<Rightarrow> bool"
  assumes stays: "lingers g \<Longrightarrow> calm e \<Longrightarrow> step e g s = Ret (n, g') s' \<Longrightarrow> lingers g'"
    and lingers_owes: "lingers g \<Longrightarrow> 0 < weight g"
begin

lemma lingers_run:
  assumes "owed weight G" and "i < length (gr_all G)" and "lingers (gr_all G ! i)"
    and "\<forall>(j, e)\<in>set xs. j = i \<longrightarrow> calm e"
  shows "owed weight (res_state (forG xs (sched step) G)) \<and> i < length (gr_all (res_state (forG xs (sched step) G)))
    \<and> lingers (gr_all (res_state (forG xs (sched step) G)) ! i)"
proof -
  define P where "P H \<longleftrightarrow> owed weight H \<and> i < length (gr_all H) \<and> lingers (gr_all H ! i)"
    for H :: "('b, 'c) goroutines"
  have step: "P (res_state (sched step x H))" if x: "x \<in> set xs" and H: "P H" for x H
  proof -
    obtain j e where je: "x = (j, e)" by (cases x)
    have "lingers (gr_all (res_state (sched step x H)) ! i)"
      using H stays [of "gr_all H ! i" e "gr_shared H"] assms(4) x je
      by (auto simp: P_def sched_def Let_def nth_list_update split: res.split)
    then show ?thesis using H sched_owed by (simp add: P_def sched_length)
  qed
  have "P (res_state (forG xs (sched step) G))"
    by (rule forG_invariant [of P, OF _ step]) (use assms(1-3) in \<open>simp_all add: P_def\<close>)
  then show ?thesis by (simp add: P_def)
qed

lemma Wait_never_returns:
  assumes "owed weight G" and "i < length (gr_all G)" and "lingers (gr_all G ! i)"
    and "\<forall>(j, e)\<in>set xs. j = i \<longrightarrow> calm e"
  shows "\<not> wg_Wait_returns (res_state (forG xs (sched step) G))"
  using lingers_run [OF assms] Wait_returns_iff lingers_owes by (metis less_numeral_extra(3) nth_mem)

end

end
