(* ===== verification/Worker_Start.thy ===== *)
theory Worker_Start
  imports Worker_Loops Routines
begin

text \<open>
  Starting and stopping the worker goroutines of \<open>gateway/internal/worker/pool.go\<close> and \<open>manager.go\<close>.
  \<open>WorkerPool.Start\<close> spawns the configured number of workers per direction; the function it spawns
  calls \<open>wg.Done()\<close>, which is not deferred, and then enters the loop. \<open>WorkerPool.Stop\<close> cancels, closes both
  channels and waits for the group.
\<close>

datatype worker_kind = UpstreamWorker | DownstreamWorker

datatype worker_pc = WorkerSpawned | WorkerLooping | WorkerExited

record pool_worker =
  pk_biz :: string
  pk_kind :: worker_kind
  pk_pc :: worker_pc

text \<open>The event of a turn: the branch \<open>select\<close> takes and the answer of the upstream sender.\<close>

definition worker_step :: "(bool \<times> string option, world, pool_worker) routine_step" where
  "worker_step e g =
     (case pk_pc g of
        WorkerSpawned \<Rightarrow> retG (1, g\<lparr>pk_pc := WorkerLooping\<rparr>)
      | WorkerLooping \<Rightarrow>
          bindG (case pk_kind g of
                   UpstreamWorker \<Rightarrow> upstreamWorker_turn (pk_biz g) (fst e) (snd e)
                 | DownstreamWorker \<Rightarrow> downstreamWorker_turn (pk_biz g) (fst e))
            (\<lambda>r. retG (0, if r = LoopReturned then g\<lparr>pk_pc := WorkerExited\<rparr> else g))
      | WorkerExited \<Rightarrow> retG (0, g))"

definition pool_workers :: "WorkerPool \<Rightarrow> pool_worker list" where
  "pool_workers p =
     (let worker = (\<lambda>k. \<lparr>pk_biz = pc_BizCode (wp_cfg p), pk_kind = k, pk_pc = WorkerSpawned\<rparr>)
      in replicate (nat (pc_UpstreamWorkers (wp_cfg p))) (worker UpstreamWorker)
         @ replicate (nat (pc_DownstreamWorkers (wp_cfg p))) (worker DownstreamWorker))"

definition pool_Start :: "WorkerPool \<Rightarrow> (world, pool_worker) goroutines \<Rightarrow> (world, pool_worker) goroutines" where
  "pool_Start p G = fold (wg_go 1) (pool_workers p) G"

text \<open>Every pool has a wait group of its own.\<close>

definition StartAll :: "world \<Rightarrow> (string \<times> (world, pool_worker) goroutines) list" where
  "StartAll w = map (\<lambda>(biz, p). (biz, pool_Start p (no_goroutines w))) (wd_pools w)"

text \<open>\<open>Stop\<close> up to \<open>wg.Wait()\<close>.\<close>

definition pool_Stop_begin :: "string \<Rightarrow> ((world, pool_worker) goroutines, unit) go" where
  "pool_Stop_begin biz G =
     (case gm_get (wd_pools (gr_shared G)) biz of
        None \<Rightarrow> Panic G
      | Some p \<Rightarrow>
          (case on_pool biz p pool_Stop (gr_shared G) of
             Ret _ w \<Rightarrow> Ret () (G\<lparr>gr_shared := w\<rparr>)
           | Panic w \<Rightarrow> Panic (G\<lparr>gr_shared := w\<rparr>)))"

definition worker_weight :: "pool_worker \<Rightarrow> nat" where
  "worker_weight g = (if pk_pc g = WorkerSpawned then 1 else 0)"

lemma worker_step_cases:
  assumes "worker_step e g w = Ret (n, g') w'"
  shows "pk_pc g' \<noteq> WorkerSpawned" and "n = worker_weight g"
  using assms by (auto simp: worker_step_def worker_weight_def go_simps split: worker_pc.splits res.splits if_splits)

interpretation pool_group: routines worker_step worker_weight
  by unfold_locales (use worker_step_cases in \<open>auto simp: worker_weight_def\<close>)

lemma pool_Start_all: "gr_all (pool_Start p G) = gr_all G @ pool_workers p"
proof -
  have "gr_all (fold (wg_go 1) gs G) = gr_all G @ gs" for gs and G :: "(world, pool_worker) goroutines"
    by (induction gs arbitrary: G) simp_all
  then show ?thesis by (simp add: pool_Start_def)
qed

lemma pool_Start_owed: "owed worker_weight G \<Longrightarrow> owed worker_weight (pool_Start p G)"
proof -
  have "owed worker_weight (fold (wg_go 1) gs G)" if "owed worker_weight G" "\<forall>g\<in>set gs. worker_weight g = 1"
    for gs and G :: "(world, pool_worker) goroutines"
    using that by (induction gs arbitrary: G) (simp_all add: owed_go)
  moreover have "\<forall>g\<in>set (pool_workers p). worker_weight g = 1" by (auto simp: pool_workers_def worker_weight_def Let_def)
  ultimately show "owed worker_weight G \<Longrightarrow> ?thesis" by (simp add: pool_Start_def)
qed

lemma sched_spawned:
  assumes "sched worker_step x G = Ret () G'" and "i < length (gr_all G)"
  shows "pk_pc (gr_all G' ! i) = WorkerSpawned \<longleftrightarrow> pk_pc (gr_all G ! i) = WorkerSpawned \<and> i \<noteq> fst x"
  using assms
  by (auto simp: sched_def Let_def nth_list_update split: if_splits res.splits dest: worker_step_cases(1))

lemma run_spawned:
  assumes "forG xs (sched worker_step) G = Ret () G'" and "i < length (gr_all G)"
  shows "pk_pc (gr_all G' ! i) = WorkerSpawned \<longleftrightarrow> pk_pc (gr_all G ! i) = WorkerSpawned \<and> i \<notin> fst ` set xs"
  using assms
proof (induction xs arbitrary: G)
  case (Cons x xs)
  then obtain G1 where G1: "sched worker_step x G = Ret () G1" "forG xs (sched worker_step) G1 = Ret () G'"
    by (auto simp: go_simps split: res.splits)
  have "length (gr_all G1) = length (gr_all G)" using sched_length [of worker_step x G] G1(1) by simp
  then show ?case using Cons.IH [OF G1(2)] sched_spawned [OF G1(1) Cons.prems(2)] Cons.prems(2) by auto
qed (simp add: retG_def)

text \<open>
  \<open>Stop\<close> does not wait for the workers. In every run of a pool after \<open>Start\<close>, whatever its workers do,
  the wait group is at zero exactly if each goroutine has taken its first step: a worker in the
  middle of its loop is not waited for.
\<close>

theorem pool_Stop_does_not_wait:
  assumes "forG xs (sched worker_step) (pool_Start p (no_goroutines w)) = Ret () G"
  shows "wg_Wait_returns G \<longleftrightarrow> {..< length (pool_workers p)} \<subseteq> fst ` set xs"
proof -
  let ?G = "pool_Start p (no_goroutines w)"
  have all: "gr_all ?G = pool_workers p" by (simp add: pool_Start_all no_goroutines_def)
  have "owed worker_weight ?G" by (rule pool_Start_owed) simp
  then have ow: "owed worker_weight G" using pool_group.run_owed [of ?G xs] assms by simp
  have len: "length (gr_all G) = length (pool_workers p)"
    using forG_invariant [of "\<lambda>H. length (gr_all H) = length (gr_all ?G)" ?G xs "sched worker_step"] sched_length assms all
    by (metis res_state.simps(1))
  have sp: "pk_pc (pool_workers p ! i) = WorkerSpawned" if "i < length (pool_workers p)" for i
    using nth_mem [OF that] by (auto simp: pool_workers_def Let_def)
  have "wg_Wait_returns G \<longleftrightarrow> (\<forall>i < length (gr_all G). pk_pc (gr_all G ! i) \<noteq> WorkerSpawned)"
    using pool_group.Wait_returns_iff [OF ow] by (auto simp: all_set_conv_all_nth worker_weight_def)
  also have "\<dots> \<longleftrightarrow> (\<forall>i < length (pool_workers p). i \<in> fst ` set xs)"
    using run_spawned [OF assms] sp by (simp add: len all)
  finally show ?thesis by blast
qed

lemma sched_first_step:
  "i < length (gr_all G) \<Longrightarrow> pk_pc (gr_all G ! i) = WorkerSpawned \<Longrightarrow> 1 \<le> gr_wg G \<Longrightarrow>
     sched worker_step (i, e) G = Ret () (G\<lparr>gr_wg := gr_wg G - 1, gr_all := (gr_all G)[i := (gr_all G ! i)\<lparr>pk_pc := WorkerLooping\<rparr>]\<rparr>)"
  by (simp add: sched_def worker_step_def retG_def)

theorem pool_Stop_does_not_wait_witness:
  "\<exists>G. forG [(1, False, None), (0, True, None)] (sched worker_step)
        (pool_Start (newWorkerPool \<lparr>pc_BizCode = ''im'', pc_UpstreamWorkers = 1, pc_UpstreamChanCap = 8,
           pc_DownstreamWorkers = 1, pc_DownstreamChanCap = 8, pc_OfflineStore = True\<rparr>) (no_goroutines sample_uplink)) = Ret () G
      \<and> wg_Wait_returns G \<and> map pk_pc (gr_all G) = [WorkerLooping, WorkerLooping]"
proof -
  let ?p = "newWorkerPool \<lparr>pc_BizCode = ''im'', pc_UpstreamWorkers = 1, pc_UpstreamChanCap = 8,
           pc_DownstreamWorkers = 1, pc_DownstreamChanCap = 8, pc_OfflineStore = True\<rparr>"
  let ?xs = "[(1, False, None), (0, True, None)] :: (nat \<times> bool \<times> string option) list"
  have ws: "pool_workers ?p = [\<lparr>pk_biz = ''im'', pk_kind = UpstreamWorker, pk_pc = WorkerSpawned\<rparr>,
              \<lparr>pk_biz = ''im'', pk_kind = DownstreamWorker, pk_pc = WorkerSpawned\<rparr>]"
    by (simp add: pool_workers_def newWorkerPool_def)
  define G :: "(world, pool_worker) goroutines" where
    "G = \<lparr>gr_wg = 0, gr_all = [\<lparr>pk_biz = ''im'', pk_kind = UpstreamWorker, pk_pc = WorkerLooping\<rparr>,
            \<lparr>pk_biz = ''im'', pk_kind = DownstreamWorker, pk_pc = WorkerLooping\<rparr>], gr_shared = sample_uplink\<rparr>"
  have "pool_Start ?p (no_goroutines w) = \<lparr>gr_wg = 2, gr_all = pool_workers ?p, gr_shared = w\<rparr>" for w
    unfolding pool_Start_def ws by (simp add: wg_go_def no_goroutines_def)
  then have G: "forG ?xs (sched worker_step) (pool_Start ?p (no_goroutines sample_uplink)) = Ret () G"
    by (simp add: ws G_def sched_first_step retG_def thenG_def bindG_def)
  have pcs: "map pk_pc (gr_all G) = [WorkerLooping, WorkerLooping]" by (simp add: G_def)
  have "{..< length (pool_workers ?p)} \<subseteq> fst ` set ?xs" by (auto simp: ws)
  with pool_Stop_does_not_wait [OF G] have "wg_Wait_returns G" by simp
  with G pcs show ?thesis by (intro exI [of _ G] conjI)
qed

end
