(* ===== verification/Consumer_Run.thy ===== *)
theory Consumer_Run
  imports Business Routines
begin

text \<open>
  Running and stopping the Kafka consumers: \<open>gateway/internal/utils/kafka/consumer.go\<close>,
  \<open>gateway/internal/worker/downstream/consumer.go\<close> and \<open>business/internal/consumer.go\<close>. All three start one
  goroutine per topic, which defers \<open>wg.Done()\<close>; two of them keep the readers in a map. The turns of
  the loops of the gateway's two consumers are those of \<open>Kafka\<close>, a whole turn as one step; an event is what a
  turn sees: whether \<open>ctx.Done()\<close> is closed, and what \<open>FetchMessage\<close> returns. The loop of the business
  service is divided where other goroutines can come in between: the check of the context,
  \<open>FetchMessage\<close>, the handler and \<open>CommitMessages\<close> are steps of their own.
\<close>

datatype consumer_pc = ConsumerSpawned | ConsumerLooping | ConsumerExited

record consumer_routine =
  ck_topic :: string
  ck_pc :: consumer_pc

record 'w consumer_state =
  cs_node :: 'w
  cs_readers :: "string list"
  cs_committed :: "(string \<times> int) list"
  cs_closed :: "string list"

type_synonym 'w consumer_turn = "bool \<Rightarrow> fetch_result \<Rightarrow> ('w, loop_result \<times> int list) go"

text \<open>\<open>newReader\<close> and \<open>getReader\<close> look the topic up first; \<open>consumeTopic\<close> makes a reader in any case.\<close>

definition newReader :: "string \<Rightarrow> string list \<Rightarrow> string list" where
  "newReader topic readers = (if topic \<in> set readers then readers else readers @ [topic])"

definition consumeTopic_reader :: "string \<Rightarrow> string list \<Rightarrow> string list" where
  "consumeTopic_reader topic readers = readers @ [topic]"

definition consumer_step ::
    "(string \<Rightarrow> string list \<Rightarrow> string list) \<Rightarrow> 'w consumer_turn
       \<Rightarrow> (bool \<times> fetch_result, 'w consumer_state, consumer_routine) routine_step" where
  "consumer_step reader turn e g s =
     (case ck_pc g of
        ConsumerSpawned \<Rightarrow> Ret (0, g\<lparr>ck_pc := ConsumerLooping\<rparr>) (s\<lparr>cs_readers := reader (ck_topic g) (cs_readers s)\<rparr>)
      | ConsumerLooping \<Rightarrow>
          (case turn (fst e) (snd e) (cs_node s) of
             Panic w \<Rightarrow> Panic (s\<lparr>cs_node := w\<rparr>)
           | Ret p w \<Rightarrow>
               (let s' = s\<lparr>cs_node := w, cs_committed := cs_committed s @ map (Pair (ck_topic g)) (snd p)\<rparr>
                in if fst p = LoopReturned then Ret (1, g\<lparr>ck_pc := ConsumerExited\<rparr>) s' else Ret (0, g) s'))
      | ConsumerExited \<Rightarrow> Ret (0, g) s)"

definition Consumer_Start ::
    "string list \<Rightarrow> ('w consumer_state, consumer_routine) goroutines \<Rightarrow> ('w consumer_state, consumer_routine) goroutines" where
  "Consumer_Start topics G = fold (\<lambda>topic. wg_go 1 \<lparr>ck_topic = topic, ck_pc = ConsumerSpawned\<rparr>) topics G"

definition NewConsumer :: "'w \<Rightarrow> ('w consumer_state, consumer_routine) goroutines" where
  "NewConsumer w = no_goroutines \<lparr>cs_node = w, cs_readers = [], cs_committed = [], cs_closed = []\<rparr>"

text \<open>
  The field \<open>cancel\<close> of the consumers is never set, so \<open>Stop\<close> cancels nothing. The consumer of the
  gateway waits and then closes its readers; \<open>None\<close> is a \<open>Stop\<close> that is still waiting. The consumer
  of the business service closes the readers and then waits; the third one only waits.
\<close>

definition close_readers :: "('w consumer_state, 'g) goroutines \<Rightarrow> ('w consumer_state, 'g) goroutines" where
  "close_readers G = G\<lparr>gr_shared := (gr_shared G)\<lparr>cs_closed := cs_closed (gr_shared G) @ cs_readers (gr_shared G)\<rparr>\<rparr>"

definition Consumer_Stop :: "('w consumer_state, consumer_routine) goroutines \<Rightarrow> ('w consumer_state, consumer_routine) goroutines option" where
  "Consumer_Stop G = (if wg_Wait_returns G then Some (close_readers G) else None)"

definition downstream_Consumer_Stop :: "('w consumer_state, consumer_routine) goroutines \<Rightarrow> ('w consumer_state, consumer_routine) goroutines option" where
  "downstream_Consumer_Stop G = (if wg_Wait_returns G then Some G else None)"

section \<open>The business server\<close>

text \<open>A goroutine of the consumer, by what it does next; a record that was fetched is kept until it is committed.\<close>

datatype business_pc =
    BizSpawned
  | BizLooping  \<comment> \<open>at the \<open>select\<close> on \<open>ctx.Done()\<close>\<close>
  | BizFetching
  | BizFetched kafka_message
  | BizCommitting kafka_message
  | BizExited

record business_routine =
  br_topic :: string
  br_pc :: business_pc

text \<open>
  What a step sees: whether \<open>ctx.Done()\<close> is closed, the result of \<open>FetchMessage\<close> (\<open>None\<close> is an error), the
  readings of the clock and the answers of the sender in the handler, and whether \<open>CommitMessages\<close> succeeds.
\<close>

record business_env =
  bn_ctxDone :: bool
  bn_fetch :: "kafka_message option"
  bn_clock :: "nat \<Rightarrow> time"
  bn_send :: send_env
  bn_commits :: bool

definition business_step ::
    "int \<Rightarrow> (int \<Rightarrow> string) \<Rightarrow> business_cfg \<Rightarrow> (bytes \<Rightarrow> UpstreamKafkaMessage option)
       \<Rightarrow> (business_env, Sender consumer_state, business_routine) routine_step" where
  "business_step ack bizName cfg unmarshal e g s =
     (case br_pc g of
        BizSpawned \<Rightarrow> Ret (0, g\<lparr>br_pc := BizLooping\<rparr>) (s\<lparr>cs_readers := newReader (br_topic g) (cs_readers s)\<rparr>)
      | BizLooping \<Rightarrow> if bn_ctxDone e then Ret (1, g\<lparr>br_pc := BizExited\<rparr>) s else Ret (0, g\<lparr>br_pc := BizFetching\<rparr>) s
      | BizFetching \<Rightarrow>
          (case bn_fetch e of
             None \<Rightarrow> if bn_ctxDone e then Ret (1, g\<lparr>br_pc := BizExited\<rparr>) s else Ret (0, g\<lparr>br_pc := BizLooping\<rparr>) s
           | Some msg \<Rightarrow> Ret (0, g\<lparr>br_pc := BizFetched msg\<rparr>) s)
      | BizFetched msg \<Rightarrow>
          (case unmarshal (km_Value msg) of
             None \<Rightarrow> Ret (0, g\<lparr>br_pc := BizCommitting msg\<rparr>) s
           | Some m \<Rightarrow>
               (case handleUpstreamMessage ack bizName cfg (bn_clock e) (bn_send e) m (cs_node s) of
                  (Some err, w) \<Rightarrow> Ret (0, g\<lparr>br_pc := BizLooping\<rparr>) (s\<lparr>cs_node := w\<rparr>)
                | (None, w) \<Rightarrow> Ret (0, g\<lparr>br_pc := BizCommitting msg\<rparr>) (s\<lparr>cs_node := w\<rparr>)))
      | BizCommitting msg \<Rightarrow>
          Ret (0, g\<lparr>br_pc := BizLooping\<rparr>)
            (if bn_commits e then s\<lparr>cs_committed := cs_committed s @ [(br_topic g, km_Offset msg)]\<rparr> else s)
      | BizExited \<Rightarrow> Ret (0, g) s)"

definition business_Consumer_Start ::
    "string list \<Rightarrow> (Sender consumer_state, business_routine) goroutines \<Rightarrow> (Sender consumer_state, business_routine) goroutines" where
  "business_Consumer_Start topics G = fold (\<lambda>topic. wg_go 1 \<lparr>br_topic = topic, br_pc = BizSpawned\<rparr>) topics G"

definition business_NewConsumer :: "Sender \<Rightarrow> (Sender consumer_state, business_routine) goroutines" where
  "business_NewConsumer w = no_goroutines \<lparr>cs_node = w, cs_readers = [], cs_committed = [], cs_closed = []\<rparr>"

text \<open>
  \<open>Server.Start\<close> makes the sender and the consumer of all upstream topics and starts the HTTP server. The
  state that the consumer's group shares is the sender; \<open>bv_*\<close> is the rest.
\<close>

record business_server =
  bv_group :: "(Sender consumer_state, business_routine) goroutines"
  bv_ctxDone :: bool
  bv_http :: bool  \<comment> \<open>the HTTP server accepts requests\<close>
  bv_closedWriters :: "string list"

definition business_Start :: "business_cfg \<Rightarrow> business_server" where
  "business_Start cfg =
     \<lparr>bv_group = business_Consumer_Start (getUpstreamTopics cfg) (business_NewConsumer NewSender), bv_ctxDone = False,
      bv_http = True, bv_closedWriters = []\<rparr>"

text \<open>
  While the server runs the goroutines take steps and the handlers of the HTTP server, each in a goroutine of
  its own, call \<open>Sender.Send\<close>; a batch calls it once for each item.
\<close>

datatype business_event =
    ConsumerStep nat business_env
  | HttpSend send_env string DownstreamKafkaMessage

definition business_event_step ::
    "int \<Rightarrow> (int \<Rightarrow> string) \<Rightarrow> business_cfg \<Rightarrow> (bytes \<Rightarrow> UpstreamKafkaMessage option) \<Rightarrow> business_event
       \<Rightarrow> ((Sender consumer_state, business_routine) goroutines, unit) go" where
  "business_event_step ack bizName cfg unmarshal ev G =
     (case ev of
        ConsumerStep i e \<Rightarrow> sched (business_step ack bizName cfg unmarshal) (i, e) G
      | HttpSend se topic msg \<Rightarrow>
          Ret () (G\<lparr>gr_shared := (gr_shared G)\<lparr>cs_node := snd (Sender_Send se topic msg (cs_node (gr_shared G)))\<rparr>\<rparr>))"

text \<open>
  \<open>Stop\<close> cancels the context and shuts the HTTP server down, then stops the consumer, which closes the readers in
  its map and waits, and then closes the writers of the sender. The goroutines go on in between; \<open>None\<close> is a
  \<open>Stop\<close> that waits.
\<close>

definition business_Stop_begin :: "business_server \<Rightarrow> business_server" where
  "business_Stop_begin b = b\<lparr>bv_ctxDone := True, bv_http := False\<rparr>"

definition business_Stop_consumer :: "business_server \<Rightarrow> business_server" where
  "business_Stop_consumer b = b\<lparr>bv_group := close_readers (bv_group b)\<rparr>"

definition business_Stop_end :: "business_server \<Rightarrow> business_server option" where
  "business_Stop_end b =
     (if wg_Wait_returns (bv_group b)
      then Some (b\<lparr>bv_closedWriters := bv_closedWriters b @ sn_writers (cs_node (gr_shared (bv_group b)))\<rparr>) else None)"

section \<open>The contracts\<close>

definition consumer_weight :: "consumer_routine \<Rightarrow> nat" where
  "consumer_weight g = (if ck_pc g = ConsumerExited then 0 else 1)"

definition consumer_rank :: "consumer_routine \<Rightarrow> nat" where
  "consumer_rank g = (case ck_pc g of ConsumerSpawned \<Rightarrow> 2 | ConsumerLooping \<Rightarrow> 1 | ConsumerExited \<Rightarrow> 0)"

abbreviation all_good :: "'g \<Rightarrow> bool" where
  "all_good g \<equiv> True"

text \<open>After the stop the node and the committed offsets stay what they are.\<close>

abbreviation quiet :: "'w \<Rightarrow> (string \<times> int) list \<Rightarrow> 'w consumer_state \<Rightarrow> bool" where
  "quiet w cs s \<equiv> cs_node s = w \<and> cs_committed s = cs"

lemma consumer_conserved:
  "consumer_step reader turn e g s = Ret (n, g') s' \<Longrightarrow> consumer_weight g = n + consumer_weight g'"
  by (auto simp: consumer_step_def consumer_weight_def Let_def split: consumer_pc.splits res.splits if_splits)

text \<open>A loop that returns once the context is done, without touching anything.\<close>

lemma consumer_drains:
  assumes "turn (fst e) (snd e) (cs_node s) = Ret (LoopReturned, []) (cs_node s)"
  shows "\<exists>n g' s'. consumer_step reader turn e g s = Ret (n, g') s' \<and> consumer_rank g' \<le> consumer_rank g - 1
    \<and> cs_node s' = cs_node s \<and> cs_committed s' = cs_committed s"
  using assms by (cases "ck_pc g") (simp_all add: consumer_step_def consumer_rank_def)

lemma consumer_rank0: "consumer_rank g = 0 \<Longrightarrow> consumer_weight g = 0"
  by (simp add: consumer_rank_def consumer_weight_def split: consumer_pc.splits)

lemma consumer_lingers:
  assumes "\<And>w p w'. turn (fst e) (snd e) w = Ret p w' \<Longrightarrow> fst p \<noteq> LoopReturned"
    and "ck_pc g \<noteq> ConsumerExited" and "consumer_step reader turn e g s = Ret (n, g') s'"
  shows "ck_pc g' \<noteq> ConsumerExited"
  using assms by (auto simp: consumer_step_def Let_def split: consumer_pc.splits res.splits if_splits)

definition calm_fetch :: "bool \<times> fetch_result \<Rightarrow> bool" where
  "calm_fetch e \<longleftrightarrow> \<not> fst e \<and> snd e \<noteq> FetchError True"

lemma Consumer_turn_done: "Consumer_turn u True f w = Ret (LoopReturned, []) w"
  by (simp add: Consumer_turn_def)

lemma Consumer_turn_calm:
  "Consumer_turn u d f w = Ret p w' \<Longrightarrow> calm_fetch (d, f) \<Longrightarrow> fst p \<noteq> LoopReturned"
  by (auto simp: Consumer_turn_def calm_fetch_def go_simps split: fetch_result.splits option.splits prod.splits res.splits if_splits)

interpretation gateway_consumer: draining "consumer_step newReader (Consumer_turn u)" consumer_weight consumer_rank all_good
    "quiet w cs" fst
  by unfold_locales
     (use consumer_drains [where turn = "Consumer_turn u"] Consumer_turn_done consumer_rank0 in \<open>auto dest: consumer_conserved\<close>)

interpretation gateway_consumer: lingering "consumer_step newReader (Consumer_turn u)" consumer_weight
    "\<lambda>g. ck_pc g \<noteq> ConsumerExited" calm_fetch
proof unfold_locales
  fix g e s n g' s'
  assume g: "ck_pc g \<noteq> ConsumerExited" and e: "calm_fetch e"
    and st: "consumer_step newReader (Consumer_turn u) e g s = Ret (n, g') s'"
  have "fst p \<noteq> LoopReturned" if "Consumer_turn u (fst e) (snd e) w = Ret p w'" for w p w'
    using Consumer_turn_calm [OF that] e by simp
  from consumer_lingers [OF this g st] show "ck_pc g' \<noteq> ConsumerExited" .
qed (simp add: consumer_weight_def)

interpretation downstream_consumer: draining "consumer_step consumeTopic_reader (consumeTopic_turn u)" consumer_weight consumer_rank all_good
    "quiet w cs" fst
  by unfold_locales
     (use consumer_drains [where turn = "consumeTopic_turn u"] consumer_rank0 in \<open>auto dest: consumer_conserved simp: consumeTopic_turn_def\<close>)

section \<open>The consumer of the business service\<close>

definition business_weight :: "business_routine \<Rightarrow> nat" where
  "business_weight g = (if br_pc g = BizExited then 0 else 1)"

text \<open>Steps left once the context is done, and what a goroutine then may still commit and answer.\<close>

definition business_rank :: "business_routine \<Rightarrow> nat" where
  "business_rank g =
     (case br_pc g of
        BizFetching \<Rightarrow> 4 | BizFetched _ \<Rightarrow> 3 | BizSpawned \<Rightarrow> 2 | BizCommitting _ \<Rightarrow> 2 | BizLooping \<Rightarrow> 1 | BizExited \<Rightarrow> 0)"

definition commits_left :: "business_routine \<Rightarrow> nat" where
  "commits_left g = (case br_pc g of BizFetching \<Rightarrow> 1 | BizFetched _ \<Rightarrow> 1 | BizCommitting _ \<Rightarrow> 1 | _ \<Rightarrow> 0)"

definition answers_left :: "business_routine \<Rightarrow> nat" where
  "answers_left g = (case br_pc g of BizFetching \<Rightarrow> 1 | BizFetched _ \<Rightarrow> 1 | _ \<Rightarrow> 0)"

definition has_reader :: "business_routine \<Rightarrow> bool" where
  "has_reader g \<longleftrightarrow> br_pc g \<noteq> BizSpawned"

text \<open>Every topic that was written to has a writer in the map of the sender.\<close>

definition writers_known :: "Sender \<Rightarrow> bool" where
  "writers_known w \<longleftrightarrow> fst ` set (sn_written w) \<subseteq> set (sn_writers w)"

lemma Sender_Send_known: "writers_known w \<Longrightarrow> writers_known (snd (Sender_Send e t m w))"
  by (auto simp: writers_known_def Sender_Send_def sender_getWriter_def Let_def split: option.splits)

lemma handler_known: "writers_known w \<Longrightarrow> writers_known (snd (handleUpstreamMessage ack bn cfg c e m w))"
  by (simp add: handleUpstreamMessage_def Let_def Sender_Send_known)

lemma handler_once:
  "handleUpstreamMessage ack bn cfg c e m w = (r, w') \<Longrightarrow> \<exists>ys. sn_written w' = sn_written w @ ys \<and> length ys \<le> 1"
  by (auto simp: handleUpstreamMessage_def Let_def Sender_Send_def split: if_splits option.splits)

lemma business_conserved:
  "business_step ack bn cfg u e g s = Ret (n, g') s' \<Longrightarrow> business_weight g = n + business_weight g'"
  by (auto simp: business_step_def business_weight_def split: business_pc.splits option.splits prod.splits if_splits)

lemma business_step_returns: "\<exists>n g' s'. business_step ack bn cfg u e g s = Ret (n, g') s'"
  by (simp add: business_step_def split: business_pc.split option.split prod.split)

lemma business_step_keeps:
  assumes "business_step ack bn cfg u e g s = Ret (n, g') s'"
  shows "br_topic g' = br_topic g" and "cs_closed s' = cs_closed s" and "has_reader g'"
    and "cs_readers s' = (if has_reader g then cs_readers s else newReader (br_topic g) (cs_readers s))"
    and "writers_known (cs_node s) \<Longrightarrow> writers_known (cs_node s')"
proof -
  have w: "writers_known w'" if "writers_known w" "handleUpstreamMessage ack bn cfg c x m w = (r, w')" for w w' c x m r
    using handler_known [OF that(1), of ack bn cfg c x m] that(2) by simp
  show "br_topic g' = br_topic g" and "cs_closed s' = cs_closed s" and "has_reader g'"
    and "cs_readers s' = (if has_reader g then cs_readers s else newReader (br_topic g) (cs_readers s))"
    using assms by (auto simp: business_step_def has_reader_def split: business_pc.splits option.splits prod.splits if_splits)
  show "writers_known (cs_node s')" if "writers_known (cs_node s)"
    using assms that w by (auto simp: business_step_def split: business_pc.splits option.splits prod.splits if_splits)
qed

lemma business_rank_falls:
  "business_step ack bn cfg u e g s = Ret (n, g') s' \<Longrightarrow> bn_ctxDone e \<Longrightarrow> business_rank g' \<le> business_rank g - 1"
  by (auto simp: business_step_def business_rank_def split: business_pc.splits option.splits prod.splits if_splits)

interpretation business_consumer: draining "business_step ack bn cfg u" business_weight business_rank has_reader
    "\<lambda>s. cs_closed s = c \<and> writers_known (cs_node s)" bn_ctxDone
proof unfold_locales
  fix s :: "Sender consumer_state" and e :: business_env and g
  assume s: "cs_closed s = c \<and> writers_known (cs_node s)" and e: "bn_ctxDone e" and g: "has_reader g"
  obtain n g' s' where st: "business_step ack bn cfg u e g s = Ret (n, g') s'" using business_step_returns by blast
  show "\<exists>n g' s'. business_step ack bn cfg u e g s = Ret (n, g') s' \<and> business_rank g' \<le> business_rank g - 1
      \<and> has_reader g' \<and> cs_closed s' = c \<and> writers_known (cs_node s')"
    using st s business_step_keeps [OF st] business_rank_falls [OF st e] by auto
qed (auto dest: business_conserved simp: business_rank_def business_weight_def split: business_pc.splits)

interpretation business_commits: metered "business_step ack bn cfg u" cs_committed commits_left bn_ctxDone
  by unfold_locales
     (auto simp: business_step_def commits_left_def split: business_pc.splits option.splits prod.splits if_splits)

interpretation business_answers: metered "business_step ack bn cfg u" "\<lambda>s. sn_written (cs_node s)" answers_left bn_ctxDone
  by unfold_locales
     (auto simp: business_step_def answers_left_def split: business_pc.splits option.splits prod.splits if_splits dest!: handler_once)

text \<open>
  A goroutine that is not interrupted takes the turn of \<open>Business\<close>: from the check of the context it comes
  back there, or returns, with what the turn answers and commits.
\<close>

lemma uninterrupted_turn:
  assumes "business_consumer_turn u (handleUpstreamMessage ack bn cfg (bn_clock e) (bn_send e)) (bn_ctxDone e)
      (case bn_fetch e of None \<Rightarrow> FetchError (bn_ctxDone e) | Some r \<Rightarrow> Fetched r) w = ((res, os), w')"
    and "bn_commits e"
  shows "\<exists>k. forG (replicate k (0, e)) (sched (business_step ack bn cfg u))
      \<lparr>gr_wg = 1, gr_all = [\<lparr>br_topic = t, br_pc = BizLooping\<rparr>], gr_shared = \<lparr>cs_node = w, cs_readers = rs, cs_committed = cs, cs_closed = cl\<rparr>\<rparr>
    = Ret () \<lparr>gr_wg = (if res = LoopReturned then 0 else 1),
        gr_all = [\<lparr>br_topic = t, br_pc = (if res = LoopReturned then BizExited else BizLooping)\<rparr>],
        gr_shared = \<lparr>cs_node = w', cs_readers = rs, cs_committed = cs @ map (Pair t) os, cs_closed = cl\<rparr>\<rparr>"
proof -
  note step = business_consumer_turn_def business_step_def sched_def go_simps Let_def
  consider (stopped) "bn_ctxDone e" | (failed) "\<not> bn_ctxDone e" "bn_fetch e = None"
    | (poison) r where "\<not> bn_ctxDone e" "bn_fetch e = Some r" "u (km_Value r) = None"
    | (refused) r m err w1 where "\<not> bn_ctxDone e" "bn_fetch e = Some r" "u (km_Value r) = Some m"
        "handleUpstreamMessage ack bn cfg (bn_clock e) (bn_send e) m w = (Some err, w1)"
    | (handled) r m w1 where "\<not> bn_ctxDone e" "bn_fetch e = Some r" "u (km_Value r) = Some m"
        "handleUpstreamMessage ack bn cfg (bn_clock e) (bn_send e) m w = (None, w1)"
    by (metis option.exhaust surj_pair)
  then show ?thesis
  proof cases
    case stopped
    then show ?thesis using assms by (intro exI [of _ 1]) (auto simp: step)
  next
    case failed
    then show ?thesis using assms by (intro exI [of _ 2]) (auto simp: step numeral_2_eq_2)
  next
    case poison
    then show ?thesis using assms by (intro exI [of _ 4]) (auto simp: step numeral_eq_Suc)
  next
    case refused
    then show ?thesis using assms by (intro exI [of _ 3]) (auto simp: step numeral_eq_Suc)
  next
    case handled
    then show ?thesis using assms by (intro exI [of _ 4]) (auto simp: step numeral_eq_Suc)
  qed
qed

section \<open>Properties\<close>

lemma Consumer_Start_all:
  "gr_all (Consumer_Start topics G) = gr_all G @ map (\<lambda>t. \<lparr>ck_topic = t, ck_pc = ConsumerSpawned\<rparr>) topics"
  by (induction topics arbitrary: G) (simp_all add: Consumer_Start_def)

lemma Consumer_Start_owed: "owed consumer_weight G \<Longrightarrow> owed consumer_weight (Consumer_Start topics G)"
  by (induction topics arbitrary: G) (simp_all add: Consumer_Start_def owed_go consumer_weight_def)

lemma NewConsumer_owed: "owed consumer_weight (Consumer_Start topics (NewConsumer w))"
  by (rule Consumer_Start_owed) (simp add: NewConsumer_def)

lemma NewConsumer_all:
  "gr_all (Consumer_Start topics (NewConsumer w)) = map (\<lambda>t. \<lparr>ck_topic = t, ck_pc = ConsumerSpawned\<rparr>) topics"
  by (simp add: Consumer_Start_all NewConsumer_def no_goroutines_def)

lemma consumer_rank_le: "consumer_rank g \<le> 2"
  by (simp add: consumer_rank_def split: consumer_pc.split)

text \<open>
  \<open>Stop\<close> of the gateway's consumer does not stop it. As long as nobody cancels the context that \<open>Start\<close> was
  given, a consumer of at least one topic that is asked to stop keeps waiting, whatever the queue
  delivers and however its goroutines are scheduled.
\<close>

theorem Consumer_Stop_waits_for_context:
  assumes "topics \<noteq> []" and "\<forall>(i, e)\<in>set xs. calm_fetch e"
  shows "Consumer_Stop (res_state (forG xs (sched (consumer_step newReader (Consumer_turn u))) (Consumer_Start topics (NewConsumer w)))) = None"
proof -
  let ?G = "Consumer_Start topics (NewConsumer w)"
  have "\<not> wg_Wait_returns (res_state (forG xs (sched (consumer_step newReader (Consumer_turn u))) ?G))"
    using assms by (intro gateway_consumer.Wait_never_returns [of _ 0] NewConsumer_owed) (auto simp: NewConsumer_all)
  then show ?thesis by (simp add: Consumer_Stop_def)
qed

theorem Consumer_Stop_waits_for_context_witness:
  "Consumer_Stop (res_state (forG [(0, False, FetchError False), (0, False, Fetched \<lparr>km_Offset = 7, km_Value = []\<rparr>)]
     (sched (consumer_step newReader (Consumer_turn (\<lambda>_. None)))) (Consumer_Start [''t''] (NewConsumer sample_uplink)))) = None"
  by (rule Consumer_Stop_waits_for_context) (simp_all add: calm_fetch_def)


text \<open>What holds while the business server runs, whatever its consumers and the HTTP handlers do.\<close>

definition serving :: "string list \<Rightarrow> (Sender consumer_state, business_routine) goroutines \<Rightarrow> bool" where
  "serving topics G \<longleftrightarrow> owed business_weight G \<and> map br_topic (gr_all G) = topics
     \<and> (\<forall>g\<in>set (gr_all G). has_reader g \<longrightarrow> br_topic g \<in> set (cs_readers (gr_shared G)))
     \<and> set (cs_readers (gr_shared G)) \<subseteq> set topics \<and> cs_closed (gr_shared G) = [] \<and> writers_known (cs_node (gr_shared G))"

lemma serving_Start: "serving (getUpstreamTopics cfg) (bv_group (business_Start cfg))"
proof -
  have all: "gr_all (business_Consumer_Start ts G) = gr_all G @ map (\<lambda>t. \<lparr>br_topic = t, br_pc = BizSpawned\<rparr>) ts"
    "gr_shared (business_Consumer_Start ts G) = gr_shared G" for ts G
    by (induction ts arbitrary: G) (simp_all add: business_Consumer_Start_def)
  have "owed business_weight (business_Consumer_Start ts G)" if "owed business_weight G" for ts G
    using that by (induction ts arbitrary: G) (simp_all add: business_Consumer_Start_def owed_go business_weight_def)
  then show ?thesis
    by (simp add: serving_def business_Start_def all business_NewConsumer_def)
       (auto simp: no_goroutines_def has_reader_def writers_known_def NewSender_def o_def)
qed

lemma serving_sched:
  assumes "serving topics G"
  shows "serving topics (res_state (sched (business_step ack bn cfg u) (i, e) G))"
proof (cases "i < length (gr_all G)")
  case True
  obtain n g' s' where st: "business_step ack bn cfg u e (gr_all G ! i) (gr_shared G) = Ret (n, g') s'"
    using business_step_returns by blast
  note k = business_step_keeps [OF st]
  have ow: "owed business_weight (res_state (sched (business_step ack bn cfg u) (i, e) G))"
    using assms by (intro business_consumer.sched_owed) (simp add: serving_def)
  have t: "map br_topic ((gr_all G)[i := g']) = map br_topic (gr_all G)"
    using k(1) True by (simp add: map_update list_update_same_conv)
  have r: "set (cs_readers s') = set (cs_readers (gr_shared G)) \<union> (if has_reader (gr_all G ! i) then {} else {br_topic (gr_all G ! i)})"
    using k(4) by (auto simp: newReader_def)
  have i: "br_topic (gr_all G ! i) \<in> set topics" using assms True by (auto simp: serving_def)
  have h: "br_topic (gr_all G ! i) \<in> set (cs_readers s')" using assms True r by (auto simp: serving_def)
  have "\<forall>g\<in>set ((gr_all G)[i := g']). has_reader g \<longrightarrow> br_topic g \<in> set (cs_readers s')"
    using assms k(1) h r set_update_subset_insert [of "gr_all G" i g'] by (auto simp: serving_def)
  then show ?thesis using assms ow t r i k True st
    by (auto simp: serving_def sched_def Let_def split: if_splits)
qed (use assms in \<open>simp add: sched_def\<close>)

lemma serving_run: "serving topics G \<Longrightarrow> forG xs (business_event_step ack bn cfg u) G = Ret () G' \<Longrightarrow> serving topics G'"
proof -
  assume G: "serving topics G" and run: "forG xs (business_event_step ack bn cfg u) G = Ret () G'"
  have "serving topics (res_state (business_event_step ack bn cfg u ev H))" if "serving topics H" for ev H
  proof (cases ev)
    case (ConsumerStep i e)
    then show ?thesis using serving_sched [OF that] by (simp add: business_event_step_def)
  next
    case (HttpSend se t m)
    then show ?thesis using that by (simp add: business_event_step_def serving_def Sender_Send_known owed_def)
  qed
  then show "serving topics G'"
    using forG_invariant [of "serving topics", OF G, where xs = xs and f = "business_event_step ack bn cfg u"] run by simp
qed

text \<open>Once the context is done only the records on their way are committed, whatever the HTTP handlers send.\<close>

lemma commits_run:
  assumes "\<And>i e. ConsumerStep i e \<in> set xs \<Longrightarrow> bn_ctxDone e" and "forG xs (business_event_step ack bn cfg u) G = Ret () G'"
  shows "\<exists>cs. cs_committed (gr_shared G') = cs_committed (gr_shared G) @ cs
    \<and> length cs + sum_list (map commits_left (gr_all G')) \<le> sum_list (map commits_left (gr_all G))"
  using assms
proof (induction xs arbitrary: G)
  case (Cons x xs)
  then obtain G1 where G1: "business_event_step ack bn cfg u x G = Ret () G1"
      and r: "forG xs (business_event_step ack bn cfg u) G1 = Ret () G'"
    by (auto simp: go_simps split: res.splits)
  have "\<exists>cs. cs_committed (gr_shared G1) = cs_committed (gr_shared G) @ cs
    \<and> length cs + sum_list (map commits_left (gr_all G1)) \<le> sum_list (map commits_left (gr_all G))"
  proof (cases x)
    case (ConsumerStep i e)
    then have "ConsumerStep i e \<in> set (x # xs)" by simp
    then have "bn_ctxDone e" by (rule Cons.prems(1))
    then show ?thesis
      using G1 ConsumerStep by (intro business_commits.sched_metered) (simp_all add: business_event_step_def)
  qed (use G1 in \<open>auto simp: business_event_step_def\<close>)
  then obtain cs where cs: "cs_committed (gr_shared G1) = cs_committed (gr_shared G) @ cs"
      "length cs + sum_list (map commits_left (gr_all G1)) \<le> sum_list (map commits_left (gr_all G))" by blast
  from Cons.IH [OF _ r] Cons.prems(1) obtain cs' where "cs_committed (gr_shared G') = cs_committed (gr_shared G1) @ cs'"
      "length cs' + sum_list (map commits_left (gr_all G')) \<le> sum_list (map commits_left (gr_all G1))" by auto
  with cs show ?case by (intro exI [of _ "cs @ cs'"]) simp
qed (simp add: retG_def)


lemma business_rank_le: "has_reader g \<Longrightarrow> business_rank g \<le> 4"
  by (simp add: business_rank_def split: business_pc.split)

text \<open>
  C20. Stopping the business server completes. Let it serve in any way, consumers and HTTP handlers, until
  \<open>Stop\<close> cancels the context, and let it go on in any way until the HTTP server is down (requests that outlive the
  five seconds of \<open>Shutdown\<close> are not followed), with the goroutines finding the context done. \<open>Stop\<close> then
  closes the readers. Provided that every goroutine has its reader by then (the map is not locked there), each schedule that
  gives every goroutine four steps lets \<open>Stop\<close> return; the readers of all upstream topics are closed, and so is the writer
  of every topic that was ever written to. From the cancellation on no more records are committed than there were
  goroutines that had passed their check of the context without having committed; from the closing of the readers on no
  more replies are sent than there were goroutines between that check and the handler.
\<close>

theorem business_Stop_completes:
  assumes run: "forG xs (business_event_step ack bn cfg u) (bv_group (business_Start cfg)) = Ret () G"
    and b: "b = business_Stop_begin (business_Start cfg\<lparr>bv_group := G\<rparr>)"
    and shut: "forG ys (business_event_step ack bn cfg u) (bv_group b) = Ret () G1"
      "\<And>i e. ConsumerStep i e \<in> set ys \<Longrightarrow> bn_ctxDone e = bv_ctxDone b"
    and readers: "\<forall>g\<in>set (gr_all G1). has_reader g"
    and b1: "b1 = business_Stop_consumer (b\<lparr>bv_group := G1\<rparr>)"
    and wait: "\<forall>(i, e)\<in>set zs. bn_ctxDone e = bv_ctxDone b1"
      "\<And>i. i < length (getUpstreamTopics cfg) \<Longrightarrow> 4 \<le> count_list (map fst zs) i"
  shows "\<exists>G2 b2 cs ws. forG zs (sched (business_step ack bn cfg u)) (bv_group b1) = Ret () G2
    \<and> business_Stop_end (b1\<lparr>bv_group := G2\<rparr>) = Some b2 \<and> \<not> bv_http b2
    \<and> set (cs_closed (gr_shared G2)) = set (getUpstreamTopics cfg)
    \<and> fst ` set (sn_written (cs_node (gr_shared G2))) \<subseteq> set (bv_closedWriters b2)
    \<and> cs_committed (gr_shared G2) = cs_committed (gr_shared G) @ cs \<and> length cs \<le> sum_list (map commits_left (gr_all G))
    \<and> sn_written (cs_node (gr_shared G2)) = sn_written (cs_node (gr_shared G1)) @ ws \<and> length ws \<le> sum_list (map answers_left (gr_all G1))"
proof -
  let ?st = "business_step ack bn cfg u" and ?ts = "getUpstreamTopics cfg"
  have d: "bv_ctxDone b" "bv_group b = G" "bv_ctxDone b1" "bv_group b1 = close_readers G1" "\<not> bv_http b1" "bv_closedWriters b1 = []"
    by (simp_all add: b b1 business_Stop_begin_def business_Stop_consumer_def business_Start_def)
  have s1: "serving ?ts G1" using serving_run [OF serving_run [OF serving_Start run]] shut(1) d(2) by simp
  then have len: "length (gr_all G1) = length ?ts" by (metis serving_def length_map)
  have z: "\<forall>(i, e)\<in>set zs. bn_ctxDone e" using wait(1) d(3) by simp
  let ?c = "cs_readers (gr_shared G1)"
  have ts: "set ?ts = br_topic ` set (gr_all G1)" using s1 by (metis serving_def set_map)
  then have c: "set ?c = set ?ts" using s1 readers by (auto simp: serving_def)
  have "draining_state business_weight has_reader (\<lambda>s. cs_closed s = ?c \<and> writers_known (cs_node s)) (close_readers G1)"
    using s1 readers by (auto simp: draining_state_def close_readers_def serving_def owed_def list_all_iff)
  moreover have "business_rank (gr_all (close_readers G1) ! i) \<le> count_list (map fst zs) i" if "i < length (gr_all (close_readers G1))" for i
    using that wait(2) [of i] len readers business_rank_le [of "gr_all G1 ! i"] by (simp add: close_readers_def)
  ultimately obtain G2 where G2: "forG zs (sched ?st) (close_readers G1) = Ret () G2" "wg_Wait_returns G2"
      "cs_closed (gr_shared G2) = ?c" "writers_known (cs_node (gr_shared G2))"
    using business_consumer.Wait_returns [where G = "close_readers G1" and xs = zs and u = u and ack = ack and bn = bn and cfg = cfg, OF _ z] by blast
  from business_answers.run_metered [OF z G2(1)] obtain ws where
      ws: "sn_written (cs_node (gr_shared G2)) = sn_written (cs_node (gr_shared G1)) @ ws" "length ws \<le> sum_list (map answers_left (gr_all G1))"
    by (auto simp: close_readers_def)
  from business_commits.run_metered [OF z G2(1)] obtain cs2 where
      cs2: "cs_committed (gr_shared G2) = cs_committed (gr_shared G1) @ cs2" "length cs2 \<le> sum_list (map commits_left (gr_all G1))"
    by (auto simp: close_readers_def)
  from commits_run [OF _ shut(1)] shut(2) d(1,2) obtain cs1 where
      cs1: "cs_committed (gr_shared G1) = cs_committed (gr_shared G) @ cs1"
        "length cs1 + sum_list (map commits_left (gr_all G1)) \<le> sum_list (map commits_left (gr_all G))" by auto
  show ?thesis
    using G2 ws cs1 cs2 c d
    by (intro exI [of _ G2] exI [of _ "b1\<lparr>bv_group := G2, bv_closedWriters := sn_writers (cs_node (gr_shared G2))\<rparr>"]
          exI [of _ "cs1 @ cs2"] exI [of _ ws])
       (simp add: business_Stop_end_def writers_known_def)
qed


text \<open>One goroutine that is past its check when \<open>Stop\<close> begins, and answers and commits one record afterwards.\<close>

definition sample_business_env :: "bool \<Rightarrow> business_env" where
  "sample_business_env d = \<lparr>bn_ctxDone = d, bn_fetch = Some \<lparr>km_Offset = 7, km_Value = []\<rparr>, bn_clock = \<lambda>i. 0,
     bn_send = \<lparr>sv_marshalErr = None, sv_writeErr = None\<rparr>, bn_commits = True\<rparr>"

definition sample_upstream :: "bytes \<Rightarrow> UpstreamKafkaMessage option" where
  "sample_upstream b = Some \<lparr>um_CorrelationId = ''x'', um_ConnId = ''c'', um_UserId = ''u'', um_DeviceId = ''d'', um_BusinessType = 1, um_Payload = []\<rparr>"

theorem business_Stop_completes_witness:
  "\<exists>G G2 b2. forG (replicate 2 (ConsumerStep 0 (sample_business_env False))) (business_event_step 5 (\<lambda>_. ''IM'') sample_cfg sample_upstream)
       (bv_group (business_Start sample_cfg)) = Ret () G
     \<and> forG (replicate 5 (0, sample_business_env True)) (sched (business_step 5 (\<lambda>_. ''IM'') sample_cfg sample_upstream)) (close_readers G) = Ret () G2
     \<and> business_Stop_end (business_Stop_consumer (business_Stop_begin (business_Start sample_cfg\<lparr>bv_group := G\<rparr>))\<lparr>bv_group := G2\<rparr>) = Some b2
     \<and> length (cs_committed (gr_shared G2)) \<le> 1 \<and> fst ` set (sn_written (cs_node (gr_shared G2))) \<subseteq> set (bv_closedWriters b2)"
proof -
  let ?u = "sample_upstream" and ?s = "\<lparr>cs_node = NewSender, cs_readers = [''im-up''], cs_committed = [], cs_closed = []\<rparr>"
  let ?G = "\<lparr>gr_wg = 1, gr_all = [\<lparr>br_topic = ''im-up'', br_pc = BizFetching\<rparr>], gr_shared = ?s\<rparr>"
  let ?b = "business_Stop_begin (business_Start sample_cfg\<lparr>bv_group := ?G\<rparr>)"
  have up: "getUpstreamTopics sample_cfg = [''im-up'']" by (simp add: getUpstreamTopics_def gm_vals_def sample_cfg_def)
  have r: "forG (replicate 2 (ConsumerStep 0 (sample_business_env False))) (business_event_step 5 (\<lambda>_. ''IM'') sample_cfg ?u)
      (bv_group (business_Start sample_cfg)) = Ret () ?G"
    by (simp add: up business_Start_def business_Consumer_Start_def business_NewConsumer_def no_goroutines_def wg_go_def numeral_2_eq_2
        business_event_step_def sched_def business_step_def newReader_def go_simps sample_business_env_def)
  have b: "bv_group ?b = ?G" "bv_ctxDone ?b" by (simp_all add: business_Stop_begin_def)
  have y: "forG [] (business_event_step 5 (\<lambda>_. ''IM'') sample_cfg ?u) (bv_group ?b) = Ret () ?G" by (simp add: b retG_def)
  have e: "business_Stop_consumer (?b\<lparr>bv_group := ?G\<rparr>) = business_Stop_consumer ?b" "bv_ctxDone (business_Stop_consumer ?b)"
      "bv_group (business_Stop_consumer ?b) = close_readers ?G"
    by (simp_all add: business_Stop_consumer_def business_Stop_begin_def)
  have z: "\<forall>(i, e)\<in>set (replicate 5 (0 :: nat, sample_business_env True)). bn_ctxDone e = bv_ctxDone (business_Stop_consumer ?b)"
    by (simp add: e sample_business_env_def)
  have k: "4 \<le> count_list (replicate 5 (0 :: nat)) 0" by (simp add: numeral_eq_Suc)
  have n: "\<forall>g\<in>set (gr_all ?G). has_reader g" "sum_list (map commits_left (gr_all ?G)) = 1"
    by (simp_all add: has_reader_def commits_left_def)
  have w: "4 \<le> count_list (map fst (replicate 5 (0 :: nat, sample_business_env True))) i" if "i < length (getUpstreamTopics sample_cfg)" for i
    using that up k by simp
  from business_Stop_completes [OF r refl y _ n(1) e(1) [symmetric] z w] e(3) obtain G2 b2 cs where
      "forG (replicate 5 (0, sample_business_env True)) (sched (business_step 5 (\<lambda>_. ''IM'') sample_cfg ?u)) (close_readers ?G) = Ret () G2"
      "business_Stop_end (business_Stop_consumer ?b\<lparr>bv_group := G2\<rparr>) = Some b2"
      "fst ` set (sn_written (cs_node (gr_shared G2))) \<subseteq> set (bv_closedWriters b2)"
      "cs_committed (gr_shared G2) = cs_committed (gr_shared ?G) @ cs" "length cs \<le> sum_list (map commits_left (gr_all ?G))"
    by auto
  then show ?thesis using r n(2) by (intro exI [of _ ?G] exI [of _ G2] exI [of _ b2]) simp
qed

end
