(* ===== verification/Lifecycle.thy ===== *)
theory Lifecycle
  imports Bootstrap Routines
begin

text \<open>
  \<open>GatewayServer.Start\<close> and \<open>Stop\<close> (\<open>gateway/internal/app/lifecycle.go\<close>) with the modules of \<open>listeners.go\<close>
  and the collector of \<open>metrics/metrics.go\<close>. The goroutines of the wait group are the three modules and,
  if it is enabled, the profiling server. Each is started by \<open>wg.Add(1)\<close> and \<open>wg.Go\<close>, which adds one
  more, and gives both back: the first by its own deferred \<open>Done\<close>, the second by \<open>wg.Go\<close>.

  An event is what the network answers a goroutine: nothing yet, a connection, or an error of \<open>Accept\<close>
  (after which \<open>Serve\<close> of the HTTP, gRPC and profiling server returns). The modules get the \<open>cmux\<close> and the
  factory that \<open>Start\<close> has just made, so that their nil checks do not fire.
\<close>

datatype net_event = NetPending | NetConn nat | NetFails

datatype server_routine =
    TcpLoop | TcpAccepting
  | HttpServing | GrpcServing | PprofServing
  | OwesOneDone | ServerEnded

record Collector =
  col_stopCh_closed :: bool
  col_serving :: bool

record server_run =
  sv_ctxDone :: bool
  sv_listening :: bool
  sv_accepted :: "nat list"  \<comment> \<open>connections handed to the factory\<close>
  sv_collector :: "Collector option"

definition server_step :: "(net_event, server_run, server_routine) routine_step" where
  "server_step e g s =
     (case g of
        TcpLoop \<Rightarrow> if sv_ctxDone s then Ret (1, OwesOneDone) s else Ret (0, TcpAccepting) s
      | TcpAccepting \<Rightarrow>
          (case e of
             NetPending \<Rightarrow> Ret (0, TcpAccepting) s
           | NetConn c \<Rightarrow> Ret (0, TcpLoop) (s\<lparr>sv_accepted := sv_accepted s @ [c]\<rparr>)
           | NetFails \<Rightarrow> Ret (0, TcpLoop) s)
      | HttpServing \<Rightarrow>
          (case e of
             NetPending \<Rightarrow> Ret (0, HttpServing) s
           | NetConn c \<Rightarrow> Ret (0, HttpServing) (s\<lparr>sv_accepted := sv_accepted s @ [c]\<rparr>)
           | NetFails \<Rightarrow> Ret (1, OwesOneDone) s)
      | GrpcServing \<Rightarrow> if e = NetFails then Ret (1, OwesOneDone) s else Ret (0, GrpcServing) s
      | PprofServing \<Rightarrow> if e = NetFails then Ret (1, OwesOneDone) s else Ret (0, PprofServing) s
      | OwesOneDone \<Rightarrow> Ret (1, ServerEnded) s
      | ServerEnded \<Rightarrow> Ret (0, ServerEnded) s)"

section \<open>The collector of metrics\<close>

definition NewCollector :: Collector where
  "NewCollector = \<lparr>col_stopCh_closed = False, col_serving = False\<rparr>"

definition Collector_Start :: "Collector \<Rightarrow> Collector" where
  "Collector_Start c = c\<lparr>col_serving := True\<rparr>"

text \<open>Closing a closed channel panics; with a server \<open>Stop\<close> returns before \<open>wg.Wait()\<close>.\<close>

definition Collector_Stop :: "(Collector, unit) go" where
  "Collector_Stop c =
     (if col_stopCh_closed c then Panic c else Ret () (c\<lparr>col_stopCh_closed := True, col_serving := False\<rparr>))"

section \<open>Start and Stop\<close>

definition server_modules :: "server_routine list" where
  "server_modules = [GrpcServing, HttpServing, TcpLoop]"

text \<open>\<open>Start\<close> up to \<open>\<leftarrow>sigCh\<close>; an error of \<open>net.Listen\<close> is returned before anything is started.\<close>

definition gateway_Start :: "string option \<Rightarrow> GatewayConfig \<Rightarrow> (string, (server_run, server_routine) goroutines) result" where
  "gateway_Start listenErr cfg =
     (case listenErr of
        Some err \<Rightarrow> Inl err
      | None \<Rightarrow>
          Inr (fold (wg_go 2) (server_modules @ (if pfc_Enabled (gwc_Profile cfg) then [PprofServing] else []))
                 (no_goroutines \<lparr>sv_ctxDone = False, sv_listening = True, sv_accepted = [],
                    sv_collector = (if mtc_Enabled (gwc_Metrics cfg) then Some (Collector_Start NewCollector) else None)\<rparr>)))"

text \<open>\<open>Stop\<close> of the modules does nothing.\<close>

definition gateway_Stop :: "(server_run, unit) go" where
  "gateway_Stop s =
     (let s1 = s\<lparr>sv_ctxDone := True\<rparr>
      in case sv_collector s1 of
           None \<Rightarrow> Ret () (s1\<lparr>sv_listening := False\<rparr>)
         | Some c \<Rightarrow>
             (case Collector_Stop c of
                Panic c' \<Rightarrow> Panic (s1\<lparr>sv_collector := Some c'\<rparr>)
              | Ret _ c' \<Rightarrow> Ret () (s1\<lparr>sv_collector := Some c', sv_listening := False\<rparr>)))"

section \<open>The contracts\<close>

fun server_weight :: "server_routine \<Rightarrow> nat" where
  "server_weight OwesOneDone = 1"
| "server_weight ServerEnded = 0"
| "server_weight _ = 2"

fun server_rank :: "server_routine \<Rightarrow> nat" where
  "server_rank TcpAccepting = 3"
| "server_rank OwesOneDone = 1"
| "server_rank ServerEnded = 0"
| "server_rank _ = 2"

lemma server_conserved: "server_step e g s = Ret (n, g') s' \<Longrightarrow> server_weight g = n + server_weight g'"
  by (cases g; cases e) (auto simp: server_step_def split: if_splits)

text \<open>The modules end once the context is cancelled and the closed listener fails every \<open>Accept\<close>.\<close>

interpretation gateway_group: draining server_step server_weight server_rank "\<lambda>g. g \<noteq> PprofServing" sv_ctxDone "\<lambda>e. e = NetFails"
proof unfold_locales
  fix s :: server_run and e g
  assume "sv_ctxDone s" "e = NetFails" "g \<noteq> PprofServing"
  then show "\<exists>n g' s'. server_step e g s = Ret (n, g') s' \<and> server_rank g' \<le> server_rank g - 1 \<and> g' \<noteq> PprofServing \<and> sv_ctxDone s'"
    by (cases g) (auto simp: server_step_def)
next
  show "server_rank g = 0 \<Longrightarrow> server_weight g = 0" for g by (cases g) simp_all
qed (rule server_conserved)

text \<open>The profiling server serves an address of its own, which \<open>Stop\<close> does not close.\<close>

interpretation gateway_group: lingering server_step server_weight "\<lambda>g. g = PprofServing" "\<lambda>e. e \<noteq> NetFails"
  by unfold_locales (auto simp: server_step_def)

section \<open>Properties\<close>

lemma fold_wg_go:
  "gr_all (fold (wg_go n) gs G) = gr_all G @ gs" "gr_shared (fold (wg_go n) gs G) = gr_shared G"
  by (induction gs arbitrary: G) simp_all

lemma fold_wg_go_owed: "owed weight G \<Longrightarrow> \<forall>g\<in>set gs. weight g = n \<Longrightarrow> owed weight (fold (wg_go n) gs G)"
  by (induction gs arbitrary: G) (simp_all add: owed_go)

lemma gateway_Start_group:
  assumes "gateway_Start listenErr cfg = Inr G"
  shows "gr_all G = server_modules @ (if pfc_Enabled (gwc_Profile cfg) then [PprofServing] else [])" "owed server_weight G"
proof -
  obtain s where G: "G = fold (wg_go 2) (server_modules @ (if pfc_Enabled (gwc_Profile cfg) then [PprofServing] else [])) (no_goroutines s)"
    using assms unfolding gateway_Start_def by (cases listenErr) (simp_all del: fold_append, blast)
  show "gr_all G = server_modules @ (if pfc_Enabled (gwc_Profile cfg) then [PprofServing] else [])"
    unfolding G fold_wg_go by (simp add: no_goroutines_def)
  show "owed server_weight G" unfolding G by (rule fold_wg_go_owed) (simp_all add: server_modules_def)
qed

lemma server_step_total: "\<exists>r s'. server_step e g s = Ret r s'"
  by (cases g; cases e) (auto simp: server_step_def)

lemma server_run_total: "owed server_weight G \<Longrightarrow> \<exists>G'. forG xs (sched server_step) G = Ret () G'"
proof (induction xs arbitrary: G)
  case (Cons x xs)
  obtain G1 where "sched server_step x G = Ret () G1"
    using gateway_group.sched_panics_only_by_step [OF Cons.prems, of x] server_step_total [of "snd x" "gr_all G ! fst x" "gr_shared G"]
    by (cases "sched server_step x G") auto
  then show ?case using Cons.IH [of G1] gateway_group.sched_owed [OF Cons.prems, of x] by (simp add: go_simps)
qed (simp add: retG_def)

lemma run_server_frame:
  assumes "forG xs (sched server_step) G = Ret () G'"
  shows "length (gr_all G') = length (gr_all G)" "sv_collector (gr_shared G') = sv_collector (gr_shared G)"
    "list_all (\<lambda>g. g \<noteq> PprofServing) (gr_all G) \<Longrightarrow> list_all (\<lambda>g. g \<noteq> PprofServing) (gr_all G')"
proof -
  have st: "sv_collector s' = sv_collector s \<and> (g' = PprofServing \<longrightarrow> g = PprofServing)"
    if "server_step e g s = Ret (n, g') s'" for e g n g' and s s' :: server_run
    using that by (cases g; cases e) (auto simp: server_step_def split: if_splits)
  have sc: "sv_collector (gr_shared (res_state (sched server_step x H))) = sv_collector (gr_shared H)" for x H
  proof (cases "server_step (snd x) (gr_all H ! fst x) (gr_shared H)")
    case (Ret p s)
    then show ?thesis using st [of "snd x" "gr_all H ! fst x" "gr_shared H" "fst p" "snd p" s] by (simp add: sched_def Let_def)
  next
    case (Panic s)
    then show ?thesis using server_step_total [of "snd x" "gr_all H ! fst x" "gr_shared H"] by auto
  qed
  have gd: "list_all (\<lambda>g. g \<noteq> PprofServing) (gr_all (res_state (sched server_step x H)))"
    if "list_all (\<lambda>g. g \<noteq> PprofServing) (gr_all H)" for x H
  proof (cases "server_step (snd x) (gr_all H ! fst x) (gr_shared H)")
    case (Ret p s)
    then show ?thesis
      using that st [of "snd x" "gr_all H ! fst x" "gr_shared H" "fst p" "snd p" s]
      by (auto simp: sched_def Let_def list_all_length nth_list_update)
  next
    case (Panic s)
    then show ?thesis using that by (simp add: sched_def)
  qed
  show "length (gr_all G') = length (gr_all G)"
    using forG_invariant [of "\<lambda>H. length (gr_all H) = length (gr_all G)" G xs "sched server_step"] sched_length assms
    by (metis res_state.simps(1))
  show "sv_collector (gr_shared G') = sv_collector (gr_shared G)"
    using forG_invariant [of "\<lambda>H. sv_collector (gr_shared H) = sv_collector (gr_shared G)" G xs "sched server_step"] sc assms
    by (metis res_state.simps(1))
  show "list_all (\<lambda>g. g \<noteq> PprofServing) (gr_all G) \<Longrightarrow> list_all (\<lambda>g. g \<noteq> PprofServing) (gr_all G')"
    using forG_invariant [of "\<lambda>H. list_all (\<lambda>g. g \<noteq> PprofServing) (gr_all H)" G xs "sched server_step"] gd assms by simp
qed

lemma gateway_Start_collector:
  "gateway_Start listenErr cfg = Inr G \<Longrightarrow> sv_collector (gr_shared G) = Some c \<Longrightarrow> \<not> col_stopCh_closed c"
  by (auto simp: gateway_Start_def fold_wg_go no_goroutines_def Collector_Start_def NewCollector_def split: option.splits if_splits)

lemma gateway_Stop_total:
  assumes "\<And>c. sv_collector s = Some c \<Longrightarrow> \<not> col_stopCh_closed c"
  shows "\<exists>s'. gateway_Stop s = Ret () s' \<and> sv_ctxDone s' \<and> \<not> sv_listening s'"
  using assms by (cases "sv_collector s") (simp_all add: gateway_Stop_def Collector_Stop_def Let_def)

text \<open>
  C19. A gateway without the profiling server shuts down. Whatever its goroutines have done until the signal
  arrives, \<open>Stop\<close> returns, and after it every schedule in which each of the three modules gets three
  turns, with every call on the closed listener failing, brings the wait group to zero: \<open>Start\<close> returns.
\<close>

theorem gateway_shutdown_completes:
  assumes start: "gateway_Start None cfg = Inr G0" "\<not> pfc_Enabled (gwc_Profile cfg)"
    and run: "forG xs (sched server_step) G0 = Ret () G"
    and closed: "\<forall>(i, e)\<in>set ys. e = NetFails" and turns: "\<And>i. i < 3 \<Longrightarrow> 3 \<le> count_list (map fst ys) i"
  shows "\<exists>s G'. gateway_Stop (gr_shared G) = Ret () s \<and> forG ys (sched server_step) (G\<lparr>gr_shared := s\<rparr>) = Ret () G' \<and> wg_Wait_returns G'"
proof -
  note G0 = gateway_Start_group [OF start(1)]
  have all: "gr_all G0 = server_modules" using G0(1) start(2) by simp
  have ow: "owed server_weight G" using gateway_group.run_owed [OF G0(2), of xs] run by simp
  have len: "length (gr_all G) = 3" using run_server_frame(1) [OF run] by (simp add: all server_modules_def)
  have good: "list_all (\<lambda>g. g \<noteq> PprofServing) (gr_all G)"
    by (rule run_server_frame(3) [OF run]) (simp add: all server_modules_def)
  obtain s where s: "gateway_Stop (gr_shared G) = Ret () s" "sv_ctxDone s"
    using gateway_Stop_total [of "gr_shared G"] gateway_Start_collector [OF start(1)] run_server_frame(2) [OF run] by auto
  let ?G = "G\<lparr>gr_shared := s\<rparr>"
  have d: "draining_state server_weight (\<lambda>g. g \<noteq> PprofServing) sv_ctxDone ?G"
    using ow good s(2) by (simp add: draining_state_def owed_def)
  have "server_rank g \<le> 3" for g by (cases g) simp_all
  then have "server_rank (gr_all ?G ! i) \<le> count_list (map fst ys) i" if "i < length (gr_all ?G)" for i
    using that turns [of i] len le_trans by fastforce
  from gateway_group.Wait_returns [OF d _ this] closed s(1) show ?thesis by blast
qed

definition sample_gateway :: "bool \<Rightarrow> GatewayConfig" where
  "sample_gateway pprof =
     \<lparr>gwc_Addr = '':8080'', gwc_UpstreamWorkerNum = 1, gwc_DownstreamWorkerNum = 1, gwc_MaxConnNum = 10, gwc_ReadBufSize = 0,
      gwc_WriteBufSize = 0, gwc_Profile = \<lparr>pfc_Enabled = pprof, pfc_Addr = '':6060''\<rparr>,
      gwc_Metrics = \<lparr>mtc_Enabled = True, mtc_Addr = '':9090''\<rparr>\<rparr>"

lemma sample_gateway_starts: "\<exists>G. gateway_Start None (sample_gateway b) = Inr G"
  by (simp add: gateway_Start_def)

theorem gateway_shutdown_completes_witness:
  "\<exists>G0 G s G'. gateway_Start None (sample_gateway False) = Inr G0
     \<and> forG [(2, NetPending), (2, NetConn 5)] (sched server_step) G0 = Ret () G \<and> gateway_Stop (gr_shared G) = Ret () s
     \<and> forG (map (\<lambda>i. (i, NetFails)) [0, 1, 2, 2, 1, 0, 0, 1, 2]) (sched server_step) (G\<lparr>gr_shared := s\<rparr>) = Ret () G' \<and> wg_Wait_returns G'"
proof -
  let ?ys = "map (\<lambda>i. (i, NetFails)) [0, 1, 2, 2, 1, 0, 0, 1, 2]"
  obtain G0 where G0: "gateway_Start None (sample_gateway False) = Inr G0" using sample_gateway_starts by blast
  obtain G where G: "forG [(2, NetPending), (2, NetConn 5)] (sched server_step) G0 = Ret () G"
    using server_run_total [OF gateway_Start_group(2) [OF G0]] by blast
  have "3 \<le> count_list (map fst ?ys) i" if "i < 3" for i :: nat
    using that by (auto simp: less_Suc_eq numeral_eq_Suc)
  moreover have "\<forall>(i, e)\<in>set ?ys. e = NetFails" by simp
  moreover have "\<not> pfc_Enabled (gwc_Profile (sample_gateway False))" by (simp add: sample_gateway_def)
  ultimately show ?thesis using gateway_shutdown_completes [OF G0 _ G, of ?ys] G0 G by blast
qed

text \<open>
  A gateway with the profiling server never shuts down. However it ran until the signal and however it
  is scheduled afterwards, as long as the profiling server's own listener does not fail, the wait
  group stays above zero: \<open>Stop\<close> has closed the gateway, but \<open>Start\<close> does not return and the process stays.
\<close>

theorem pprof_blocks_shutdown:
  assumes start: "gateway_Start None cfg = Inr G0" "pfc_Enabled (gwc_Profile cfg)"
    and run: "forG xs (sched server_step) G0 = Ret () G" and stop: "gateway_Stop (gr_shared G) = Ret () s"
    and serves: "\<forall>(i, e)\<in>set (xs @ ys). i = 3 \<longrightarrow> e \<noteq> NetFails"
  shows "\<not> wg_Wait_returns (res_state (forG ys (sched server_step) (G\<lparr>gr_shared := s\<rparr>)))"
proof -
  note G0 = gateway_Start_group [OF start(1)]
  have i: "3 < length (gr_all G0)" "gr_all G0 ! 3 = PprofServing" using G0(1) start(2) by (simp_all add: server_modules_def)
  have "gr_all G ! 3 = PprofServing"
    using gateway_group.lingers_run [OF G0(2) i, of xs] serves run by (auto simp: case_prod_beta)
  moreover have "owed server_weight (G\<lparr>gr_shared := s\<rparr>)"
    using gateway_group.run_owed [OF G0(2), of xs] run by (simp add: owed_def)
  ultimately show ?thesis
    using serves i(1) run_server_frame(1) [OF run] by (intro gateway_group.Wait_never_returns [of _ 3]) auto
qed

theorem pprof_blocks_shutdown_witness:
  "\<exists>G0 s. gateway_Start None (sample_gateway True) = Inr G0 \<and> gateway_Stop (gr_shared G0) = Ret () s
     \<and> \<not> wg_Wait_returns (res_state (forG [(0, NetFails), (3, NetPending), (2, NetFails)] (sched server_step) (G0\<lparr>gr_shared := s\<rparr>)))"
proof -
  obtain G0 where G0: "gateway_Start None (sample_gateway True) = Inr G0" using sample_gateway_starts by blast
  obtain s where s: "gateway_Stop (gr_shared G0) = Ret () s"
    using gateway_Stop_total [of "gr_shared G0"] gateway_Start_collector [OF G0] by auto
  have "forG [] (sched server_step) G0 = Ret () G0" by (simp add: retG_def)
  from pprof_blocks_shutdown [OF G0 _ this s, of "[(0, NetFails), (3, NetPending), (2, NetFails)]"] G0 s
  show ?thesis by (auto simp: sample_gateway_def)
qed

end
