(* ===== verification/Logger.thy ===== *)
theory Logger
  imports Go_Prelude
begin

text \<open>
  The gateway's logger (\<open>gateway/internal/logger/logger.go\<close>, \<open>multiHandler.go\<close>): a handler that adds the
  trace identifier and, to errors, the stack, in front of one that forwards every record to a file and
  to the console. The handlers of the standard library are the sinks: they write a record with the
  attributes bound to them and do not look at its level, which the caller asks for with \<open>Enabled\<close>.
  Whether a sink can write is an argument, as is the stack.
\<close>

type_synonym slog_attr = "string \<times> string"

definition LevelInfo :: int where
  "LevelInfo = 0"

definition LevelError :: int where
  "LevelError = 8"

record slog_record =
  lr_level :: int
  lr_attrs :: "slog_attr list"

datatype slog_handler =
    SinkHandler string int "slog_attr list" "string list"  \<comment> \<open>name, level, bound attributes, open groups\<close>
  | MultiHandler "slog_handler list"
  | CustomHandler slog_handler

type_synonym log_output = "(string \<times> slog_record) list"

fun log_Enabled :: "int \<Rightarrow> slog_handler \<Rightarrow> bool" where
  "log_Enabled lvl (SinkHandler name l attrs gs) = (l \<le> lvl)"
| "log_Enabled lvl (MultiHandler hs) = list_ex (log_Enabled lvl) hs"
| "log_Enabled lvl (CustomHandler h) = log_Enabled lvl h"

definition custom_attrs :: "string \<Rightarrow> string option \<Rightarrow> slog_record \<Rightarrow> slog_record" where
  "custom_attrs stack traceID r =
     (let r1 = (case traceID of None \<Rightarrow> r | Some t \<Rightarrow> r\<lparr>lr_attrs := lr_attrs r @ [(''trace_id'', t)]\<rparr>)
      in if lr_level r1 = LevelError then r1\<lparr>lr_attrs := lr_attrs r1 @ [(''stack'', stack)]\<rparr> else r1)"

text \<open>The key of an attribute inside groups.\<close>

definition qualify :: "string list \<Rightarrow> slog_attr \<Rightarrow> slog_attr" where
  "qualify gs a = (concat (map (\<lambda>g. g @ ''.'') gs) @ fst a, snd a)"

lemma qualify_Nil [simp]: "qualify [] = id"
  by (simp add: qualify_def fun_eq_iff)

text \<open>\<open>fails name\<close> is the error of a sink that cannot write. The loop of \<open>MultiHandler\<close> stops at the first error.\<close>

fun log_Handle :: "(string \<Rightarrow> string option) \<Rightarrow> string \<Rightarrow> string option \<Rightarrow> slog_handler \<Rightarrow> slog_record \<Rightarrow> log_output \<Rightarrow> string option \<times> log_output"
  and log_Handle_all :: "(string \<Rightarrow> string option) \<Rightarrow> string \<Rightarrow> string option \<Rightarrow> slog_handler list \<Rightarrow> slog_record \<Rightarrow> log_output \<Rightarrow> string option \<times> log_output" where
  "log_Handle fails stack traceID (SinkHandler name l attrs gs) r out =
     (case fails name of
        Some err \<Rightarrow> (Some err, out)
      | None \<Rightarrow> (None, out @ [(name, r\<lparr>lr_attrs := attrs @ map (qualify gs) (lr_attrs r)\<rparr>)]))"
| "log_Handle fails stack traceID (MultiHandler hs) r out = log_Handle_all fails stack traceID hs r out"
| "log_Handle fails stack traceID (CustomHandler h) r out = log_Handle fails stack traceID h (custom_attrs stack traceID r) out"
| "log_Handle_all fails stack traceID [] r out = (None, out)"
| "log_Handle_all fails stack traceID (h # hs) r out =
     (case log_Handle fails stack traceID h r out of
        (Some err, out1) \<Rightarrow> (Some err, out1)
      | (None, out1) \<Rightarrow> log_Handle_all fails stack traceID hs r out1)"

fun log_WithAttrs :: "slog_attr list \<Rightarrow> slog_handler \<Rightarrow> slog_handler" where
  "log_WithAttrs as (SinkHandler name l attrs gs) = SinkHandler name l (attrs @ map (qualify gs) as) gs"
| "log_WithAttrs as (MultiHandler hs) = MultiHandler (map (log_WithAttrs as) hs)"
| "log_WithAttrs as (CustomHandler h) = CustomHandler (log_WithAttrs as h)"

fun log_WithGroup :: "string \<Rightarrow> slog_handler \<Rightarrow> slog_handler" where
  "log_WithGroup g (SinkHandler name l attrs gs) = SinkHandler name l attrs (if g = '''' then gs else gs @ [g])"
| "log_WithGroup g (MultiHandler hs) = MultiHandler (map (log_WithGroup g) hs)"
| "log_WithGroup g (CustomHandler h) = CustomHandler (log_WithGroup g h)"

text \<open>\<open>Init\<close>; \<open>parse\<close> is \<open>slog.Level.UnmarshalText\<close>.\<close>

definition log_level :: "(string \<Rightarrow> int option) \<Rightarrow> string \<Rightarrow> int" where
  "log_level parse level = (if level = '''' then LevelInfo else case parse level of None \<Rightarrow> LevelInfo | Some l \<Rightarrow> l)"

definition service_attrs :: "slog_attr list" where
  "service_attrs = [(''service'', ''gateway-service''), (''env'', ''test''), (''version'', ''v1.0.0'')]"

definition log_Init :: "(string \<Rightarrow> int option) \<Rightarrow> string \<Rightarrow> slog_handler" where
  "log_Init parse level =
     (let l = log_level parse level;
          multi = MultiHandler [SinkHandler ''file'' l [] [], SinkHandler ''console'' l [] []]
      in log_WithAttrs service_attrs (CustomHandler multi))"

text \<open>A call of the default logger, as the standard library makes it: the error of \<open>Handle\<close> is dropped.\<close>

definition log_call ::
    "(string \<Rightarrow> string option) \<Rightarrow> string \<Rightarrow> string option \<Rightarrow> slog_handler \<Rightarrow> slog_record \<Rightarrow> log_output \<Rightarrow> log_output" where
  "log_call fails stack traceID h r out =
     (if log_Enabled (lr_level r) h then snd (log_Handle fails stack traceID h r out) else out)"

section \<open>Properties\<close>

text \<open>Binding attributes does not change which sinks there are.\<close>

fun sinks :: "slog_handler \<Rightarrow> string list" where
  "sinks (SinkHandler name l attrs gs) = [name]"
| "sinks (MultiHandler hs) = concat (map sinks hs)"
| "sinks (CustomHandler h) = sinks h"

lemma sinks_WithAttrs: "sinks (log_WithAttrs as h) = sinks h"
  by (induction as h rule: log_WithAttrs.induct) (auto simp: comp_def intro: arg_cong [of _ _ concat])

lemma sinks_WithGroup: "sinks (log_WithGroup g h) = sinks h"
  by (induction g h rule: log_WithGroup.induct) (auto simp: comp_def intro: arg_cong [of _ _ concat])

text \<open>Whatever the nesting, a record goes to the sinks in order, each at most once, up to the first that fails.\<close>

lemma log_Handle_sinks:
  "map fst (snd (log_Handle fails stack traceID h r out)) = map fst out @ takeWhile (\<lambda>n. fails n = None) (sinks h)
     \<and> (fst (log_Handle fails stack traceID h r out) = None \<longleftrightarrow> (\<forall>n \<in> set (sinks h). fails n = None))"
  "map fst (snd (log_Handle_all fails stack traceID hs r out)) = map fst out @ takeWhile (\<lambda>n. fails n = None) (concat (map sinks hs))
     \<and> (fst (log_Handle_all fails stack traceID hs r out) = None \<longleftrightarrow> (\<forall>n \<in> set (concat (map sinks hs)). fails n = None))"
proof (induction fails stack traceID h r out and fails stack traceID hs r out rule: log_Handle_log_Handle_all.induct)
  case (5 fails stack traceID h hs r out)
  obtain e out1 where h: "log_Handle fails stack traceID h r out = (e, out1)" by (cases "log_Handle fails stack traceID h r out")
  show ?case
  proof (cases e)
    case None
    with 5 h show ?thesis by (auto simp: takeWhile_append2)
  next
    case (Some err)
    with 5(1) h obtain n where "n \<in> set (sinks h)" "fails n \<noteq> None" by auto
    with 5(1) h Some show ?thesis by (auto simp: takeWhile_append1)
  qed
qed (auto split: option.split)

text \<open>
  A record that is logged reaches the file and the console, with the fields of the service, the trace
  identifier of the context and, for an error, the stack; but if the file cannot be written, it
  does not reach the console either.
\<close>

theorem logged_on_both_or_neither:
  "log_call fails stack traceID (log_Init parse level) r out =
     (if lr_level r < log_level parse level \<or> fails ''file'' \<noteq> None then out
      else out @ (let r' = (custom_attrs stack traceID r)\<lparr>lr_attrs := service_attrs @ lr_attrs (custom_attrs stack traceID r)\<rparr>
                  in (''file'', r') # (if fails ''console'' = None then [(''console'', r')] else [])))"
  by (auto simp: log_call_def log_Init_def Let_def split: option.split)

end
