(* ===== verification/Validation_Base.thy ===== *)
theory Validation_Base
  imports Go_Prelude
begin

text \<open>
  What the generated validation code shares (\<open>src/common-protocol/gen/**/*.pb.validate.go\<close>): every message
  has a method \<open>validate(all)\<close> that checks its fields in order. \<open>Validate\<close> calls it with \<open>false\<close> and returns
  the first violation, \<open>ValidateAll\<close> calls it with \<open>true\<close> and returns all of them. A check is a function on
  the violations collected so far; \<open>Inl\<close> is an early return.

  The contract \<open>validator\<close> is what the two methods promise together: \<open>Validate\<close> returns the first of the
  errors of \<open>ValidateAll\<close>, also inside an embedded message. It is shown for every message from the checks
  it is made of.
\<close>

text \<open>The types \<open>XValidationError\<close> and \<open>XMultiError\<close>, with the name of the message; \<open>key\<close> is never set.\<close>

datatype verr =
    ValidationError (ve_message: string) (ve_field: string) (ve_reason: string) (ve_cause: "verr option")
  | MultiError string "verr list"

fun verr_Error :: "verr \<Rightarrow> string" where
  "verr_Error (ValidationError T field reason cause) =
     ''invalid '' @ T @ ''.'' @ field @ '': '' @ reason
     @ (case cause of None \<Rightarrow> '''' | Some e \<Rightarrow> '' | caused by: '' @ verr_Error e)"
| "verr_Error (MultiError T []) = ''''"
| "verr_Error (MultiError T [e]) = verr_Error e"
| "verr_Error (MultiError T (e # es)) = verr_Error e @ ''; '' @ verr_Error (MultiError T es)"

section \<open>Counting runes\<close>

text \<open>
  \<open>utf8.RuneCountInString\<close>: the first byte gives the length of a sequence and the range of its second byte; a
  sequence that is cut short or out of range counts as one rune of one byte.
\<close>

definition rune_class :: "nat \<Rightarrow> nat \<times> nat \<times> nat" where
  "rune_class b =
     (if 0xC2 \<le> b \<and> b \<le> 0xDF then (2, 0x80, 0xBF)
      else if b = 0xE0 then (3, 0xA0, 0xBF)
      else if b = 0xED then (3, 0x80, 0x9F)
      else if 0xE1 \<le> b \<and> b \<le> 0xEF then (3, 0x80, 0xBF)
      else if b = 0xF0 then (4, 0x90, 0xBF)
      else if 0xF1 \<le> b \<and> b \<le> 0xF3 then (4, 0x80, 0xBF)
      else if b = 0xF4 then (4, 0x80, 0x8F)
      else (1, 0, 0))"

definition rune_size :: "nat list \<Rightarrow> nat" where
  "rune_size bs =
     (case rune_class (hd bs) of
        (len, lo, hi) \<Rightarrow>
          if len = 1 \<or> length bs < len then 1
          else if bs ! 1 < lo \<or> hi < bs ! 1 then 1
          else if list_all (\<lambda>b. 0x80 \<le> b \<and> b \<le> 0xBF) (take (len - 2) (drop 2 bs)) then len
          else 1)"

lemma rune_size_bounds: "1 \<le> rune_size bs \<and> rune_size bs \<le> 4"
  by (auto simp: rune_size_def rune_class_def split: prod.split)

lemma rune_size_length: "bs \<noteq> [] \<Longrightarrow> rune_size bs \<le> length bs"
  by (cases bs) (auto simp: rune_size_def split: prod.split)

function rune_count :: "nat list \<Rightarrow> nat" where
  "rune_count bs = (if bs = [] then 0 else Suc (rune_count (drop (rune_size bs) bs)))"
  by pat_completeness auto
termination
proof (relation "measure length")
  fix bs :: "nat list"
  assume "bs \<noteq> []"
  then show "(drop (rune_size bs) bs, bs) \<in> measure length" using rune_size_bounds [of bs] by simp
qed simp

declare rune_count.simps [simp del]

definition RuneCountInString :: "string \<Rightarrow> nat" where
  "RuneCountInString s = rune_count (map of_char s)"

text \<open>A rune has one to four bytes; bytes below 128 are runes of their own.\<close>

lemma rune_count_bounds: "rune_count bs \<le> length bs \<and> length bs \<le> 4 * rune_count bs"
proof (induction bs rule: rune_count.induct)
  case (1 bs)
  show ?case
  proof (cases "bs = []")
    case False
    with 1 rune_size_bounds [of bs] rune_size_length [of bs] show ?thesis
      by (simp add: rune_count.simps [of bs]) linarith
  qed (simp add: rune_count.simps)
qed

lemma rune_count_ascii: "list_all (\<lambda>b. b < 0x80) bs \<Longrightarrow> rune_count bs = length bs"
proof (induction bs)
  case (Cons b bs)
  then have "rune_size (b # bs) = 1" by (simp add: rune_size_def rune_class_def)
  with Cons show ?case by (simp add: rune_count.simps [of "b # bs"])
qed (simp add: rune_count.simps)

section \<open>Checks\<close>

type_synonym vstep = "verr list \<Rightarrow> (verr, verr list) result"

definition rule :: "bool \<Rightarrow> string \<Rightarrow> string \<Rightarrow> string \<Rightarrow> bool \<Rightarrow> vstep" where
  "rule all T field reason bad errors =
     (if bad then
        (let err = ValidationError T field reason None
         in if \<not> all then Inl err else Inr (errors @ [err]))
      else Inr errors)"

text \<open>
  The block of an embedded message: the type switch finds \<open>ValidateAll\<close>, because the generated code of every
  message has it. A nil pointer has no violations.
\<close>

definition embedded :: "bool \<Rightarrow> string \<Rightarrow> string \<Rightarrow> (bool \<Rightarrow> 'm option \<Rightarrow> verr option) \<Rightarrow> 'm option \<Rightarrow> vstep" where
  "embedded all T field validate v errors =
     (let wrap = (\<lambda>err. ValidationError T field ''embedded message failed validation'' (Some err))
      in if all then
           (case validate True v of None \<Rightarrow> Inr errors | Some err \<Rightarrow> Inr (errors @ [wrap err]))
         else
           (case validate False v of None \<Rightarrow> Inr errors | Some err \<Rightarrow> Inl (wrap err)))"

fun run_steps :: "vstep list \<Rightarrow> vstep" where
  "run_steps [] errors = Inr errors"
| "run_steps (s # ss) errors = (case s errors of Inl err \<Rightarrow> Inl err | Inr errors' \<Rightarrow> run_steps ss errors')"

definition embedded_each :: "bool \<Rightarrow> string \<Rightarrow> string \<Rightarrow> (bool \<Rightarrow> 'm option \<Rightarrow> verr option) \<Rightarrow> 'm option list \<Rightarrow> vstep" where
  "embedded_each all T field validate items =
     run_steps (map (\<lambda>(idx, item). embedded all T (field @ ''['' @ Itoa (int idx) @ '']'') validate item) (enumerate 0 items))"

definition validated :: "string \<Rightarrow> ('m \<Rightarrow> vstep list) \<Rightarrow> 'm option \<Rightarrow> verr option" where
  "validated T steps v =
     (case v of
        None \<Rightarrow> None
      | Some m \<Rightarrow>
          (case run_steps (steps m) [] of
             Inl err \<Rightarrow> Some err
           | Inr errors \<Rightarrow> if errors = [] then None else Some (MultiError T errors)))"


section \<open>The first violation\<close>

fun first_error :: "verr \<Rightarrow> verr" where
  "first_error (ValidationError T field reason cause) =
     ValidationError T field reason (case cause of None \<Rightarrow> None | Some e \<Rightarrow> Some (first_error e))"
| "first_error (MultiError T []) = MultiError T []"
| "first_error (MultiError T (e # es)) = first_error e"

locale validator =
  fixes validate :: "bool \<Rightarrow> 'm option \<Rightarrow> verr option"
  assumes nil_valid: "validate all None = None"
    and first_of_all: "validate False v = map_option first_error (validate True v)"
begin

lemma valid_iff: "validate False v = None \<longleftrightarrow> validate True v = None"
  by (simp add: first_of_all)

end

text \<open>
  A pair of checks, one that returns early and one that collects: either both pass, or the first returns the
  first error that the second appends.
\<close>

definition step_pair :: "vstep \<Rightarrow> vstep \<Rightarrow> bool" where
  "step_pair s s' \<longleftrightarrow>
     (\<forall>es. s es = Inr es \<and> s' es = Inr es)
   \<or> (\<exists>e es'. \<forall>es. s es = Inl (first_error e) \<and> s' es = Inr (es @ e # es'))"

definition steps_pair :: "vstep list \<Rightarrow> vstep list \<Rightarrow> bool" where
  "steps_pair = list_all2 step_pair"

lemma step_rule: "step_pair (rule False T f r bad) (rule True T f r bad)"
  by (cases bad) (auto simp: step_pair_def rule_def intro!: exI [of _ "ValidationError T f r None"])

lemma step_embedded:
  assumes "validator validate"
  shows "step_pair (embedded False T f validate v) (embedded True T f validate v)"
  by (cases "validate True v")
     (auto simp: step_pair_def embedded_def validator.first_of_all [OF assms]
       intro!: exI [of _ "ValidationError T f ''embedded message failed validation'' (validate True v)"])

lemma collecting_step: "step_pair s s' \<Longrightarrow> \<exists>more. \<forall>es. s' es = Inr (es @ more)"
  by (auto simp: step_pair_def intro: exI [of _ "[]"])

lemma collecting_steps:
  assumes "steps_pair ss ss'"
  shows "\<exists>more. \<forall>es. run_steps ss' es = Inr (es @ more)"
  using assms unfolding steps_pair_def
proof (induction rule: list_all2_induct)
  case (Cons s ss s' ss')
  from collecting_step [OF Cons.hyps(1)] obtain m1 where m1: "\<And>es. s' es = Inr (es @ m1)" by blast
  from Cons.IH obtain m2 where m2: "\<And>es. run_steps ss' es = Inr (es @ m2)" by blast
  show ?case by (rule exI [of _ "m1 @ m2"]) (simp add: m1 m2)
qed simp

lemma run_steps_pair:
  assumes "steps_pair ss ss'"
  shows "step_pair (run_steps ss) (run_steps ss')"
  using assms unfolding steps_pair_def
proof (induction rule: list_all2_induct)
  case (Cons s ss s' ss')
  show ?case
  proof (cases "\<forall>es. s es = Inr es \<and> s' es = Inr es")
    case True
    with Cons.IH show ?thesis by (simp add: step_pair_def)
  next
    case False
    then obtain e es' where e: "\<And>es. s es = Inl (first_error e)" "\<And>es. s' es = Inr (es @ e # es')"
      using Cons.hyps(1) by (auto simp: step_pair_def)
    from collecting_steps [of ss ss'] Cons.hyps(2) obtain more where "\<And>es. run_steps ss' es = Inr (es @ more)"
      by (auto simp: steps_pair_def)
    with e show ?thesis unfolding step_pair_def by (intro disjI2 exI [of _ e] exI [of _ "es' @ more"]) simp
  qed
qed (simp add: step_pair_def)

lemma step_embedded_each:
  assumes "validator validate"
  shows "step_pair (embedded_each False T f validate items) (embedded_each True T f validate items)"
  unfolding embedded_each_def
  by (rule run_steps_pair)
     (auto simp: steps_pair_def list_all2_map1 list_all2_map2 list_all2_same step_embedded [OF assms] split: prod.split)

lemmas step_checks = steps_pair_def step_rule list_all2_Cons

text \<open>A message whose checks come in pairs is a validator.\<close>

lemma validator_validated:
  assumes "\<And>m. steps_pair (steps False m) (steps True m)"
  shows "validator (\<lambda>all. validated T (steps all))"
proof
  fix v
  show "validated T (steps False) v = map_option first_error (validated T (steps True) v)"
  proof (cases v)
    case (Some m)
    from run_steps_pair [OF assms [of m]] show ?thesis
      by (auto simp: step_pair_def validated_def Some dest: spec [of _ "[]"])
  qed (simp add: validated_def)
qed (simp add: validated_def)

declare run_steps.simps(2) [simp del]

text \<open>A message is valid if it passes check after check.\<close>

lemma validated_None_iff: "validated T steps (Some m) = None \<longleftrightarrow> run_steps (steps m) [] = Inr []"
  by (auto simp: validated_def split: sum.split)

lemma run_rule_iff: "run_steps (rule False T f r bad # ss) [] = Inr [] \<longleftrightarrow> \<not> bad \<and> run_steps ss [] = Inr []"
  by (simp add: rule_def run_steps.simps(2))

lemma run_embedded_iff:
  "run_steps (embedded False T f validate v # ss) [] = Inr [] \<longleftrightarrow> validate False v = None \<and> run_steps ss [] = Inr []"
  by (simp add: embedded_def run_steps.simps(2) split: option.split)

lemma validated_nil: "validated T steps None = None"
  by (simp add: validated_def)

lemmas valid_iff_simps = validated_None_iff run_rule_iff run_embedded_iff run_steps.simps(1) validated_nil

lemma RuneCount_bounds:
  "RuneCountInString s \<le> length s" "length s \<le> 4 * RuneCountInString s"
  using rune_count_bounds [of "map of_char s"] by (simp_all add: RuneCountInString_def)

text \<open>What \<open>ValidateAll\<close> collects from a repeated field: the errors of its items, each under its index.\<close>

definition item_errors :: "string \<Rightarrow> string \<Rightarrow> (bool \<Rightarrow> 'm option \<Rightarrow> verr option) \<Rightarrow> 'm option list \<Rightarrow> verr list" where
  "item_errors T field validate items =
     concat (map (\<lambda>(idx, item). case validate True item of
                    None \<Rightarrow> []
                  | Some err \<Rightarrow> [ValidationError T (field @ ''['' @ Itoa (int idx) @ '']'') ''embedded message failed validation'' (Some err)])
       (enumerate 0 items))"

lemma embedded_each_collects:
  "embedded_each True T field validate items errors = Inr (errors @ item_errors T field validate items)"
proof -
  have "run_steps (map (\<lambda>(idx, item). embedded True T (field @ ''['' @ Itoa (int idx) @ '']'') validate item) xs) errors =
      Inr (errors @ concat (map (\<lambda>(idx, item). case validate True item of
                    None \<Rightarrow> []
                  | Some err \<Rightarrow> [ValidationError T (field @ ''['' @ Itoa (int idx) @ '']'') ''embedded message failed validation'' (Some err)]) xs))"
    for xs :: "(nat \<times> 'a option) list"
    by (induction xs arbitrary: errors) (auto simp: embedded_def run_steps.simps(2) split: option.split prod.split)
  then show ?thesis by (simp add: embedded_each_def item_errors_def)
qed

text \<open>The rules of a \<open>.proto\<close> file, as they are written there.\<close>

definition string_rule :: "nat \<Rightarrow> nat \<Rightarrow> string \<Rightarrow> bool" where
  "string_rule min_len max_len s \<longleftrightarrow> min_len \<le> RuneCountInString s \<and> RuneCountInString s \<le> max_len"

definition enum_rule :: "(int \<times> string) list \<Rightarrow> int \<Rightarrow> bool" where
  "enum_rule names x \<longleftrightarrow> x \<in> fst ` set names \<and> x \<noteq> 0"

lemma enum_rule_iff: "enum_rule names x \<longleftrightarrow> \<not> (x \<in> set [0]) \<and> \<not> (map_of names x = None)"
  by (auto simp: enum_rule_def map_of_eq_None_iff)

end
