(* ===== verification/Validation.thy ===== *)
theory Validation
  imports Validation_Base
begin

text \<open>
  Validation of the messages of \<open>common.proto\<close> (\<open>gen/gateway/v1/common.pb.validate.go\<close>): the frame, its control messages and
  the dispatched event with its routing, delivery and tracing parts.
  A message without a rule has no checks; a \<open>float32\<close> is its bit pattern.
\<close>

definition OpCode_name :: "(int \<times> string) list" where
  "OpCode_name =
     [(0, ''OP_CODE_UNSPECIFIED''), (1, ''DISPATCH''), (2, ''HELLO''), (3, ''HANDSHAKE''), (4, ''READY''),
      (5, ''HEARTBEAT''), (6, ''HEARTBEAT_ACK''), (7, ''RESUME''), (8, ''RECONNECT''), (9, ''ACK''), (10, ''ERROR''),
      (11, ''KICK''), (12, ''AUTH_REFRESH''), (13, ''AUTH_REFRESH_ACK'')]"

definition RouteTargetType_name :: "(int \<times> string) list" where
  "RouteTargetType_name =
     [(0, ''ROUTE_TARGET_TYPE_UNSPECIFIED''), (1, ''USER''), (2, ''DEVICE''), (3, ''SESSION''), (4, ''ROOM''),
      (5, ''TOPIC''), (6, ''GROUP''), (7, ''NODE''), (8, ''BROADCAST'')]"

definition QosClass_name :: "(int \<times> string) list" where
  "QosClass_name =
     [(0, ''QOS_CLASS_UNSPECIFIED''), (1, ''AT_MOST_ONCE''), (2, ''AT_LEAST_ONCE'')]"

definition MessageOrigin_name :: "(int \<times> string) list" where
  "MessageOrigin_name =
     [(0, ''ORIGIN_UNSPECIFIED''), (1, ''CLIENT''), (2, ''RETRY''), (3, ''REPLAY''), (4, ''ORIGIN_BROADCAST''),
      (5, ''PUSHAPI''), (6, ''SYSTEM'')]"

definition Codec_name :: "(int \<times> string) list" where
  "Codec_name =
     [(0, ''CODEC_UNSPECIFIED''), (1, ''JSON''), (2, ''PROTOBUF''), (3, ''MSGPACK'')]"

definition CompressAlgo_name :: "(int \<times> string) list" where
  "CompressAlgo_name =
     [(0, ''COMPRESS_ALGO_UNSPECIFIED''), (1, ''NONE''), (2, ''GZIP''), (3, ''ZSTD''), (4, ''SNAPPY'')]"

definition ErrorCode_name :: "(int \<times> string) list" where
  "ErrorCode_name =
     [(0, ''ERROR_CODE_UNSPECIFIED''), (1001, ''ERR_HEARTBEAT_TIMEOUT''), (1002, ''ERR_HANDSHAKE_FAILED''),
      (1003, ''ERR_AUTH_EXPIRED''), (1004, ''ERR_REPLACED_BY_NEW_LOGIN''), (1005, ''ERR_SESSION_SUSPENDED''),
      (1006, ''ERR_SESSION_CLOSED''), (1007, ''ERR_PROTOCOL_VERSION''), (1008, ''ERR_CONN_RATE_LIMITED''),
      (1009, ''ERR_RESUME_FAILED''), (2001, ''ERR_TOKEN_INVALID''), (2002, ''ERR_TOKEN_EXPIRED''),
      (2003, ''ERR_PERMISSION_DENIED''), (2004, ''ERR_DEVICE_BLOCKED''), (2005, ''ERR_IP_BLOCKED''),
      (2006, ''ERR_APP_ID_INVALID''), (3001, ''ERR_MESSAGE_TOO_LARGE''), (3002, ''ERR_INVALID_OPCODE''),
      (3003, ''ERR_MESSAGE_MALFORMED''), (3004, ''ERR_MESSAGE_EXPIRED''), (3005, ''ERR_RATE_LIMITED''),
      (3006, ''ERR_BAD_REQUEST''), (3007, ''ERR_OPCODE_UNEXPECTED''), (4001, ''ERR_UPSTREAM_SEND_FAILED''),
      (4002, ''ERR_OFFLINE_STORE_FAILED''), (4003, ''ERR_MAX_RETRY_EXCEEDED''), (4004, ''ERR_ROUTE_NOT_FOUND''),
      (4005, ''ERR_TARGET_UNAVAILABLE''), (4006, ''ERR_DELIVERY_TIMEOUT''), (5001, ''ERR_ROOM_NOT_FOUND''),
      (5002, ''ERR_TOPIC_NOT_FOUND''), (5003, ''ERR_ALREADY_SUBSCRIBED''), (5004, ''ERR_NOT_SUBSCRIBED''),
      (5005, ''ERR_ROOM_FULL'')]"

definition HeartbeatBufferLevel_name :: "(int \<times> string) list" where
  "HeartbeatBufferLevel_name =
     [(0, ''BUFFER_LEVEL_UNSPECIFIED''), (1, ''NORMAL''), (2, ''WARNING''), (3, ''FULL'')]"

record pb_GatewayFrame =
  GatewayFrame_Op :: int
  GatewayFrame_Data :: bytes

definition validate_GatewayFrame :: "bool \<Rightarrow> pb_GatewayFrame option \<Rightarrow> verr option" where
  "validate_GatewayFrame = (\<lambda>all. validated ''GatewayFrame''
     (\<lambda>m. [rule all ''GatewayFrame'' ''Op'' ''value must not be in list [0]''
            (GatewayFrame_Op m \<in> set [0]),
         rule all ''GatewayFrame'' ''Op'' ''value must be one of the defined enum values''
            (map_of OpCode_name (GatewayFrame_Op m) = None)]))"

interpretation v_GatewayFrame: validator validate_GatewayFrame
  unfolding validate_GatewayFrame_def by (rule validator_validated) (simp add: step_checks)

record pb_RouteTarget =
  RouteTarget_Type :: int
  RouteTarget_Target :: string
  RouteTarget_Labels :: "(string, string) gomap"

definition validate_RouteTarget :: "bool \<Rightarrow> pb_RouteTarget option \<Rightarrow> verr option" where
  "validate_RouteTarget = (\<lambda>all. validated ''RouteTarget''
     (\<lambda>m. [rule all ''RouteTarget'' ''Type'' ''value must not be in list [0]''
            (RouteTarget_Type m \<in> set [0]),
         rule all ''RouteTarget'' ''Type'' ''value must be one of the defined enum values''
            (map_of RouteTargetType_name (RouteTarget_Type m) = None),
         rule all ''RouteTarget'' ''Target'' ''value length must be between 1 and 128 runes, inclusive''
            ((let l = RuneCountInString (RouteTarget_Target m) in l < 1 \<or> l > 128)),
         rule all ''RouteTarget'' ''Labels'' ''value must contain no more than 32 pair(s)''
            (length (RouteTarget_Labels m) > 32)]))"

interpretation v_RouteTarget: validator validate_RouteTarget
  unfolding validate_RouteTarget_def by (rule validator_validated) (simp add: step_checks)

record pb_Delivery =
  Delivery_Qos :: int
  Delivery_Offline :: bool
  Delivery_Priority :: int

definition validate_Delivery :: "bool \<Rightarrow> pb_Delivery option \<Rightarrow> verr option" where
  "validate_Delivery = (\<lambda>all. validated ''Delivery''
     (\<lambda>m. [rule all ''Delivery'' ''Qos'' ''value must not be in list [0]''
            (Delivery_Qos m \<in> set [0]),
         rule all ''Delivery'' ''Qos'' ''value must be one of the defined enum values''
            (map_of QosClass_name (Delivery_Qos m) = None),
         rule all ''Delivery'' ''Priority'' ''value must be inside range [0, 9]''
            ((let val = Delivery_Priority m in val < 0 \<or> val > 9))]))"

interpretation v_Delivery: validator validate_Delivery
  unfolding validate_Delivery_def by (rule validator_validated) (simp add: step_checks)

record pb_TraceContext =
  TraceContext_TraceId :: string
  TraceContext_SpanId :: string
  TraceContext_ParentSpanId :: string
  TraceContext_Sampled :: bool
  TraceContext_Baggage :: "(string, string) gomap"

definition validate_TraceContext :: "bool \<Rightarrow> pb_TraceContext option \<Rightarrow> verr option" where
  "validate_TraceContext = (\<lambda>all. validated ''TraceContext''
     (\<lambda>m. [rule all ''TraceContext'' ''TraceId'' ''value length must be at most 128 runes''
            (RuneCountInString (TraceContext_TraceId m) > 128),
         rule all ''TraceContext'' ''SpanId'' ''value length must be at most 64 runes''
            (RuneCountInString (TraceContext_SpanId m) > 64),
         rule all ''TraceContext'' ''ParentSpanId'' ''value length must be at most 64 runes''
            (RuneCountInString (TraceContext_ParentSpanId m) > 64),
         rule all ''TraceContext'' ''Baggage'' ''value must contain no more than 64 pair(s)''
            (length (TraceContext_Baggage m) > 64)]))"

interpretation v_TraceContext: validator validate_TraceContext
  unfolding validate_TraceContext_def by (rule validator_validated) (simp add: step_checks)

record pb_Dispatch =
  Dispatch_Payload :: bytes
  Dispatch_SeqId :: "64 word"
  Dispatch_MsgId :: string
  Dispatch_BizCode :: string
  Dispatch_EventType :: string
  Dispatch_ExpireAt :: int
  Dispatch_From :: "pb_RouteTarget option"
  Dispatch_To :: "pb_RouteTarget option"
  Dispatch_Delivery :: "pb_Delivery option"
  Dispatch_Trace :: "pb_TraceContext option"
  Dispatch_Timestamp :: int
  Dispatch_Origin :: int
  Dispatch_RecvAt :: int
  Dispatch_Metadata :: "(string, string) gomap"

definition validate_Dispatch :: "bool \<Rightarrow> pb_Dispatch option \<Rightarrow> verr option" where
  "validate_Dispatch = (\<lambda>all. validated ''Dispatch''
     (\<lambda>m. [rule all ''Dispatch'' ''SeqId'' ''value must be greater than or equal to 0''
            (Dispatch_SeqId m < 0),
         rule all ''Dispatch'' ''MsgId'' ''value length must be between 1 and 128 runes, inclusive''
            ((let l = RuneCountInString (Dispatch_MsgId m) in l < 1 \<or> l > 128)),
         rule all ''Dispatch'' ''BizCode'' ''value length must be between 1 and 128 runes, inclusive''
            ((let l = RuneCountInString (Dispatch_BizCode m) in l < 1 \<or> l > 128)),
         rule all ''Dispatch'' ''EventType'' ''value length must be between 1 and 128 runes, inclusive''
            ((let l = RuneCountInString (Dispatch_EventType m) in l < 1 \<or> l > 128)),
         embedded all ''Dispatch'' ''From'' validate_RouteTarget (Dispatch_From m),
         embedded all ''Dispatch'' ''To'' validate_RouteTarget (Dispatch_To m),
         embedded all ''Dispatch'' ''Delivery'' validate_Delivery (Dispatch_Delivery m),
         embedded all ''Dispatch'' ''Trace'' validate_TraceContext (Dispatch_Trace m),
         rule all ''Dispatch'' ''Timestamp'' ''value must be greater than or equal to 0''
            (Dispatch_Timestamp m < 0),
         rule all ''Dispatch'' ''Origin'' ''value must not be in list [0]''
            (Dispatch_Origin m \<in> set [0]),
         rule all ''Dispatch'' ''Origin'' ''value must be one of the defined enum values''
            (map_of MessageOrigin_name (Dispatch_Origin m) = None),
         rule all ''Dispatch'' ''RecvAt'' ''value must be greater than or equal to 0''
            (Dispatch_RecvAt m < 0),
         rule all ''Dispatch'' ''Metadata'' ''value must contain no more than 64 pair(s)''
            (length (Dispatch_Metadata m) > 64)]))"

interpretation v_Dispatch: validator validate_Dispatch
  unfolding validate_Dispatch_def by (rule validator_validated) (simp add: step_checks step_embedded [OF v_RouteTarget.validator_axioms] step_embedded [OF v_Delivery.validator_axioms] step_embedded [OF v_TraceContext.validator_axioms])

record pb_Hello =
  Hello_SupportedCodecs :: "int list"
  Hello_SupportedCompress :: "int list"
  Hello_HeartbeatInterval :: int
  Hello_MaxBodySize :: int
  Hello_ProtocolVersion :: string
  Hello_NodeId :: string
  Hello_ServerTime :: int

definition validate_Hello :: "bool \<Rightarrow> pb_Hello option \<Rightarrow> verr option" where
  "validate_Hello = (\<lambda>all. validated ''Hello''
     (\<lambda>m. [rule all ''Hello'' ''SupportedCodecs'' ''value must contain at least 1 item(s)''
            (length (Hello_SupportedCodecs m) < 1),
         rule all ''Hello'' ''SupportedCompress'' ''value must contain at least 1 item(s)''
            (length (Hello_SupportedCompress m) < 1),
         rule all ''Hello'' ''HeartbeatInterval'' ''value must be inside range [1, 3600]''
            ((let val = Hello_HeartbeatInterval m in val < 1 \<or> val > 3600)),
         rule all ''Hello'' ''MaxBodySize'' ''value must be greater than or equal to 1''
            (Hello_MaxBodySize m < 1),
         rule all ''Hello'' ''ProtocolVersion'' ''value length must be between 1 and 32 runes, inclusive''
            ((let l = RuneCountInString (Hello_ProtocolVersion m) in l < 1 \<or> l > 32)),
         rule all ''Hello'' ''NodeId'' ''value length must be between 1 and 128 runes, inclusive''
            ((let l = RuneCountInString (Hello_NodeId m) in l < 1 \<or> l > 128)),
         rule all ''Hello'' ''ServerTime'' ''value must be greater than or equal to 0''
            (Hello_ServerTime m < 0)]))"

interpretation v_Hello: validator validate_Hello
  unfolding validate_Hello_def by (rule validator_validated) (simp add: step_checks)

record pb_Handshake =
  Handshake_Token :: string
  Handshake_DeviceId :: string
  Handshake_DeviceType :: string
  Handshake_SdkVersion :: string
  Handshake_SupportedExtensions :: "string list"

definition validate_Handshake :: "bool \<Rightarrow> pb_Handshake option \<Rightarrow> verr option" where
  "validate_Handshake = (\<lambda>all. validated ''Handshake''
     (\<lambda>m. [rule all ''Handshake'' ''Token'' ''value length must be between 1 and 4096 runes, inclusive''
            ((let l = RuneCountInString (Handshake_Token m) in l < 1 \<or> l > 4096)),
         rule all ''Handshake'' ''DeviceId'' ''value length must be between 1 and 128 runes, inclusive''
            ((let l = RuneCountInString (Handshake_DeviceId m) in l < 1 \<or> l > 128)),
         rule all ''Handshake'' ''DeviceType'' ''value length must be between 1 and 128 runes, inclusive''
            ((let l = RuneCountInString (Handshake_DeviceType m) in l < 1 \<or> l > 128)),
         rule all ''Handshake'' ''SdkVersion'' ''value length must be between 1 and 128 runes, inclusive''
            ((let l = RuneCountInString (Handshake_SdkVersion m) in l < 1 \<or> l > 128)),
         rule all ''Handshake'' ''SupportedExtensions'' ''value must contain no more than 64 item(s)''
            (length (Handshake_SupportedExtensions m) > 64)]))"

interpretation v_Handshake: validator validate_Handshake
  unfolding validate_Handshake_def by (rule validator_validated) (simp add: step_checks)

record pb_Ready =
  Ready_SessionId :: string
  Ready_UserId :: string
  Ready_ServerTime :: int
  Ready_HeartbeatInterval :: int
  Ready_ReplayFrom :: "64 word"
  Ready_SelectedCodec :: int
  Ready_SelectedCompress :: int
  Ready_Extensions :: "string list"

definition validate_Ready :: "bool \<Rightarrow> pb_Ready option \<Rightarrow> verr option" where
  "validate_Ready = (\<lambda>all. validated ''Ready''
     (\<lambda>m. [rule all ''Ready'' ''SessionId'' ''value length must be between 1 and 128 runes, inclusive''
            ((let l = RuneCountInString (Ready_SessionId m) in l < 1 \<or> l > 128)),
         rule all ''Ready'' ''UserId'' ''value length must be between 1 and 128 runes, inclusive''
            ((let l = RuneCountInString (Ready_UserId m) in l < 1 \<or> l > 128)),
         rule all ''Ready'' ''ServerTime'' ''value must be greater than or equal to 0''
            (Ready_ServerTime m < 0),
         rule all ''Ready'' ''HeartbeatInterval'' ''value must be inside range [1, 3600]''
            ((let val = Ready_HeartbeatInterval m in val < 1 \<or> val > 3600)),
         rule all ''Ready'' ''ReplayFrom'' ''value must be greater than or equal to 0''
            (Ready_ReplayFrom m < 0),
         rule all ''Ready'' ''SelectedCodec'' ''value must not be in list [0]''
            (Ready_SelectedCodec m \<in> set [0]),
         rule all ''Ready'' ''SelectedCodec'' ''value must be one of the defined enum values''
            (map_of Codec_name (Ready_SelectedCodec m) = None),
         rule all ''Ready'' ''SelectedCompress'' ''value must not be in list [0]''
            (Ready_SelectedCompress m \<in> set [0]),
         rule all ''Ready'' ''SelectedCompress'' ''value must be one of the defined enum values''
            (map_of CompressAlgo_name (Ready_SelectedCompress m) = None),
         rule all ''Ready'' ''Extensions'' ''value must contain no more than 64 item(s)''
            (length (Ready_Extensions m) > 64)]))"

interpretation v_Ready: validator validate_Ready
  unfolding validate_Ready_def by (rule validator_validated) (simp add: step_checks)

record pb_Error =
  Error_Code :: int
  Error_Message :: string
  Error_RefMsgId :: string
  Error_Details :: "(string, string) gomap"

definition validate_Error :: "bool \<Rightarrow> pb_Error option \<Rightarrow> verr option" where
  "validate_Error = (\<lambda>all. validated ''Error''
     (\<lambda>m. [rule all ''Error'' ''Code'' ''value must not be in list [0]''
            (Error_Code m \<in> set [0]),
         rule all ''Error'' ''Code'' ''value must be one of the defined enum values''
            (map_of ErrorCode_name (Error_Code m) = None),
         rule all ''Error'' ''Message'' ''value length must be between 1 and 1024 runes, inclusive''
            ((let l = RuneCountInString (Error_Message m) in l < 1 \<or> l > 1024)),
         rule all ''Error'' ''RefMsgId'' ''value length must be at most 128 runes''
            (RuneCountInString (Error_RefMsgId m) > 128),
         rule all ''Error'' ''Details'' ''value must contain no more than 64 pair(s)''
            (length (Error_Details m) > 64)]))"

interpretation v_Error: validator validate_Error
  unfolding validate_Error_def by (rule validator_validated) (simp add: step_checks)

record pb_Resume =
  Resume_SessionId :: string
  Resume_LastSeq :: "64 word"
  Resume_Token :: string

definition validate_Resume :: "bool \<Rightarrow> pb_Resume option \<Rightarrow> verr option" where
  "validate_Resume = (\<lambda>all. validated ''Resume''
     (\<lambda>m. [rule all ''Resume'' ''SessionId'' ''value length must be between 1 and 128 runes, inclusive''
            ((let l = RuneCountInString (Resume_SessionId m) in l < 1 \<or> l > 128)),
         rule all ''Resume'' ''LastSeq'' ''value must be greater than or equal to 0''
            (Resume_LastSeq m < 0),
         rule all ''Resume'' ''Token'' ''value length must be between 1 and 4096 runes, inclusive''
            ((let l = RuneCountInString (Resume_Token m) in l < 1 \<or> l > 4096))]))"

interpretation v_Resume: validator validate_Resume
  unfolding validate_Resume_def by (rule validator_validated) (simp add: step_checks)

record pb_Heartbeat =
  Heartbeat_ClientTime :: int
  Heartbeat_BufferLevel :: int

definition validate_Heartbeat :: "bool \<Rightarrow> pb_Heartbeat option \<Rightarrow> verr option" where
  "validate_Heartbeat = (\<lambda>all. validated ''Heartbeat''
     (\<lambda>m. [rule all ''Heartbeat'' ''ClientTime'' ''value must be greater than or equal to 0''
            (Heartbeat_ClientTime m < 0),
         rule all ''Heartbeat'' ''BufferLevel'' ''value must not be in list [0]''
            (Heartbeat_BufferLevel m \<in> set [0]),
         rule all ''Heartbeat'' ''BufferLevel'' ''value must be one of the defined enum values''
            (map_of HeartbeatBufferLevel_name (Heartbeat_BufferLevel m) = None)]))"

interpretation v_Heartbeat: validator validate_Heartbeat
  unfolding validate_Heartbeat_def by (rule validator_validated) (simp add: step_checks)

record pb_HeartbeatAck =
  HeartbeatAck_ServerTime :: int
  HeartbeatAck_HeartbeatInterval :: int

definition validate_HeartbeatAck :: "bool \<Rightarrow> pb_HeartbeatAck option \<Rightarrow> verr option" where
  "validate_HeartbeatAck = (\<lambda>all. validated ''HeartbeatAck''
     (\<lambda>m. [rule all ''HeartbeatAck'' ''ServerTime'' ''value must be greater than or equal to 0''
            (HeartbeatAck_ServerTime m < 0),
         rule all ''HeartbeatAck'' ''HeartbeatInterval'' ''value must be inside range [1, 3600]''
            ((let val = HeartbeatAck_HeartbeatInterval m in val < 1 \<or> val > 3600))]))"

interpretation v_HeartbeatAck: validator validate_HeartbeatAck
  unfolding validate_HeartbeatAck_def by (rule validator_validated) (simp add: step_checks)

record pb_AuthRefresh =
  AuthRefresh_Token :: string
  AuthRefresh_DeviceId :: string

definition validate_AuthRefresh :: "bool \<Rightarrow> pb_AuthRefresh option \<Rightarrow> verr option" where
  "validate_AuthRefresh = (\<lambda>all. validated ''AuthRefresh''
     (\<lambda>m. [rule all ''AuthRefresh'' ''Token'' ''value length must be between 1 and 4096 runes, inclusive''
            ((let l = RuneCountInString (AuthRefresh_Token m) in l < 1 \<or> l > 4096)),
         rule all ''AuthRefresh'' ''DeviceId'' ''value length must be between 1 and 128 runes, inclusive''
            ((let l = RuneCountInString (AuthRefresh_DeviceId m) in l < 1 \<or> l > 128))]))"

interpretation v_AuthRefresh: validator validate_AuthRefresh
  unfolding validate_AuthRefresh_def by (rule validator_validated) (simp add: step_checks)

record pb_AuthRefreshAck =
  AuthRefreshAck_Success :: bool
  AuthRefreshAck_ExpireAt :: int

definition validate_AuthRefreshAck :: "bool \<Rightarrow> pb_AuthRefreshAck option \<Rightarrow> verr option" where
  "validate_AuthRefreshAck = (\<lambda>all. validated ''AuthRefreshAck''
     (\<lambda>m. []))"

interpretation v_AuthRefreshAck: validator validate_AuthRefreshAck
  unfolding validate_AuthRefreshAck_def by (rule validator_validated) (simp add: step_checks)

record pb_Reconnect =
  Reconnect_AfterMs :: int
  Reconnect_ResumeUrl :: string
  Reconnect_CanResume :: bool

definition validate_Reconnect :: "bool \<Rightarrow> pb_Reconnect option \<Rightarrow> verr option" where
  "validate_Reconnect = (\<lambda>all. validated ''Reconnect''
     (\<lambda>m. [rule all ''Reconnect'' ''AfterMs'' ''value must be inside range [0, 600000]''
            ((let val = Reconnect_AfterMs m in val < 0 \<or> val > 600000)),
         rule all ''Reconnect'' ''ResumeUrl'' ''value length must be at most 2048 runes''
            (RuneCountInString (Reconnect_ResumeUrl m) > 2048)]))"

interpretation v_Reconnect: validator validate_Reconnect
  unfolding validate_Reconnect_def by (rule validator_validated) (simp add: step_checks)

record pb_Kick =
  Kick_Code :: int
  Kick_Reason :: string
  Kick_ReconnectAfter :: int
  Kick_Permanent :: bool

definition validate_Kick :: "bool \<Rightarrow> pb_Kick option \<Rightarrow> verr option" where
  "validate_Kick = (\<lambda>all. validated ''Kick''
     (\<lambda>m. [rule all ''Kick'' ''Code'' ''value must not be in list [0]''
            (Kick_Code m \<in> set [0]),
         rule all ''Kick'' ''Code'' ''value must be one of the defined enum values''
            (map_of ErrorCode_name (Kick_Code m) = None),
         rule all ''Kick'' ''Reason'' ''value length must be between 1 and 1024 runes, inclusive''
            ((let l = RuneCountInString (Kick_Reason m) in l < 1 \<or> l > 1024)),
         rule all ''Kick'' ''ReconnectAfter'' ''value must be inside range [0, 600000]''
            ((let val = Kick_ReconnectAfter m in val < 0 \<or> val > 600000))]))"

interpretation v_Kick: validator validate_Kick
  unfolding validate_Kick_def by (rule validator_validated) (simp add: step_checks)

record pb_Ack =
  Ack_MsgIds :: "string list"
  Ack_RecvTime :: int

definition validate_Ack :: "bool \<Rightarrow> pb_Ack option \<Rightarrow> verr option" where
  "validate_Ack = (\<lambda>all. validated ''Ack''
     (\<lambda>m. [rule all ''Ack'' ''MsgIds'' ''value must contain between 1 and 100 items, inclusive''
            ((let l = length (Ack_MsgIds m) in l < 1 \<or> l > 100)),
         rule all ''Ack'' ''RecvTime'' ''value must be greater than or equal to 0''
            (Ack_RecvTime m < 0)]))"

interpretation v_Ack: validator validate_Ack
  unfolding validate_Ack_def by (rule validator_validated) (simp add: step_checks)

section \<open>The rules of \<open>common.proto\<close>\<close>

definition rules_RouteTarget :: "pb_RouteTarget \<Rightarrow> bool" where
  "rules_RouteTarget m \<longleftrightarrow>
     enum_rule RouteTargetType_name (RouteTarget_Type m) \<and> string_rule 1 128 (RouteTarget_Target m)
   \<and> length (RouteTarget_Labels m) \<le> 32"

definition rules_Delivery :: "pb_Delivery \<Rightarrow> bool" where
  "rules_Delivery m \<longleftrightarrow> enum_rule QosClass_name (Delivery_Qos m) \<and> 0 \<le> Delivery_Priority m \<and> Delivery_Priority m \<le> 9"

definition rules_TraceContext :: "pb_TraceContext \<Rightarrow> bool" where
  "rules_TraceContext m \<longleftrightarrow>
     string_rule 0 128 (TraceContext_TraceId m) \<and> string_rule 0 64 (TraceContext_SpanId m)
   \<and> string_rule 0 64 (TraceContext_ParentSpanId m) \<and> length (TraceContext_Baggage m) \<le> 64"

definition rules_Dispatch :: "pb_Dispatch \<Rightarrow> bool" where
  "rules_Dispatch m \<longleftrightarrow>
     string_rule 1 128 (Dispatch_MsgId m) \<and> string_rule 1 128 (Dispatch_BizCode m) \<and> string_rule 1 128 (Dispatch_EventType m)
   \<and> pred_option rules_RouteTarget (Dispatch_From m) \<and> pred_option rules_RouteTarget (Dispatch_To m)
   \<and> pred_option rules_Delivery (Dispatch_Delivery m) \<and> pred_option rules_TraceContext (Dispatch_Trace m)
   \<and> 0 \<le> Dispatch_Timestamp m \<and> enum_rule MessageOrigin_name (Dispatch_Origin m) \<and> 0 \<le> Dispatch_RecvAt m
   \<and> length (Dispatch_Metadata m) \<le> 64"

lemma valid_RouteTarget: "validate_RouteTarget False v = None \<longleftrightarrow> pred_option rules_RouteTarget v"
  by (cases v) (auto simp: validate_RouteTarget_def valid_iff_simps rules_RouteTarget_def enum_rule_iff string_rule_def Let_def)

lemma valid_Delivery: "validate_Delivery False v = None \<longleftrightarrow> pred_option rules_Delivery v"
  by (cases v) (auto simp: validate_Delivery_def valid_iff_simps rules_Delivery_def enum_rule_iff Let_def)

lemma valid_TraceContext: "validate_TraceContext False v = None \<longleftrightarrow> pred_option rules_TraceContext v"
  by (cases v) (auto simp: validate_TraceContext_def valid_iff_simps rules_TraceContext_def string_rule_def)

lemma valid_Dispatch: "validate_Dispatch False v = None \<longleftrightarrow> pred_option rules_Dispatch v"
  by (cases v) (auto simp: validate_Dispatch_def valid_iff_simps rules_Dispatch_def enum_rule_iff string_rule_def Let_def
       valid_RouteTarget valid_Delivery valid_TraceContext)

text \<open>
  C17. The checks of an event are its rules, and its two methods agree. An event passes \<open>Validate\<close> exactly if it
  meets the rules written in \<open>common.proto\<close>, in its own fields and in those of its routing, delivery and tracing
  parts; and the error that \<open>Validate\<close> returns is the first of those that \<open>ValidateAll\<close> collects, with the first
  violation of the embedded message as its cause.
\<close>

theorem dispatch_validation_exact:
  "(validate_Dispatch False (Some m) = None \<longleftrightarrow> rules_Dispatch m)
   \<and> validate_Dispatch False (Some m) = map_option first_error (validate_Dispatch True (Some m))"
  using valid_Dispatch [of "Some m"] v_Dispatch.first_of_all by simp

text \<open>
  C36. A valid event is small where it is indexed. Its message identifier, business code and event type are not empty
  and have at most 512 bytes each, because a rune has at most four; it has at most 64 pairs of metadata, and
  a route to it names a target of at most 512 bytes with at most 32 labels.
\<close>

theorem valid_dispatch_bounds:
  assumes "validate_Dispatch False (Some m) = None"
  shows "length (Dispatch_MsgId m) \<in> {1..512} \<and> length (Dispatch_BizCode m) \<in> {1..512} \<and> length (Dispatch_EventType m) \<in> {1..512}
    \<and> length (Dispatch_Metadata m) \<le> 64
    \<and> pred_option (\<lambda>t. length (RouteTarget_Target t) \<in> {1..512} \<and> length (RouteTarget_Labels t) \<le> 32) (Dispatch_To m)"
proof -
  have s: "length s \<in> {1..512}" if "string_rule 1 128 s" for s
    using that RuneCount_bounds [of s] by (auto simp: string_rule_def)
  have r: "rules_Dispatch m" using assms valid_Dispatch [of "Some m"] by simp
  then have "pred_option (\<lambda>t. length (RouteTarget_Target t) \<in> {1..512} \<and> length (RouteTarget_Labels t) \<le> 32) (Dispatch_To m)"
    by (cases "Dispatch_To m") (use s in \<open>auto simp: rules_Dispatch_def rules_RouteTarget_def\<close>)
  with r s show ?thesis by (simp add: rules_Dispatch_def)
qed

definition sample_dispatch :: pb_Dispatch where
  "sample_dispatch = \<lparr>Dispatch_Payload = [1], Dispatch_SeqId = 7, Dispatch_MsgId = ''m1'', Dispatch_BizCode = ''im'',
     Dispatch_EventType = ''im.chat'', Dispatch_ExpireAt = 0, Dispatch_From = None,
     Dispatch_To = Some \<lparr>RouteTarget_Type = 1, RouteTarget_Target = ''u1'', RouteTarget_Labels = []\<rparr>,
     Dispatch_Delivery = Some \<lparr>Delivery_Qos = 2, Delivery_Offline = True, Delivery_Priority = 9\<rparr>, Dispatch_Trace = None,
     Dispatch_Timestamp = 1, Dispatch_Origin = 1, Dispatch_RecvAt = 1, Dispatch_Metadata = []\<rparr>"

theorem valid_dispatch_bounds_witness:
  "validate_Dispatch False (Some sample_dispatch) = None \<and> length (Dispatch_MsgId sample_dispatch) \<in> {1..512}"
proof -
  have "validate_Dispatch False (Some sample_dispatch) = None" by code_simp
  then show ?thesis using valid_dispatch_bounds [of sample_dispatch] by blast
qed

end
