(* ===== verification/Validation_Events.thy ===== *)
theory Validation_Events
  imports Validation
begin

text \<open>
  Validation of the messages of the business events (\<open>client\<close>, \<open>batch\<close>, \<open>social\<close>, \<open>call\<close>, \<open>file\<close>, \<open>im\<close>, \<open>live\<close>, ...
  under \<open>src/common-protocol/gen\<close>).
  A message without a rule has no checks; a \<open>float32\<close> is its bit pattern.
\<close>

record pb_RateLimited =
  RateLimited_Code :: int
  RateLimited_LimitType :: string
  RateLimited_CurrentQps :: int
  RateLimited_LimitQps :: int
  RateLimited_RetryAfterMs :: int
  RateLimited_Details :: "(string, string) gomap"

definition validate_RateLimited :: "bool \<Rightarrow> pb_RateLimited option \<Rightarrow> verr option" where
  "validate_RateLimited = (\<lambda>all. validated ''RateLimited''
     (\<lambda>m. []))"

interpretation v_RateLimited: validator validate_RateLimited
  unfolding validate_RateLimited_def by (rule validator_validated) (simp add: step_checks)

record pb_SystemBroadcast =
  SystemBroadcast_BroadcastId :: string
  SystemBroadcast_Title :: string
  SystemBroadcast_Content :: string
  SystemBroadcast_Priority :: string
  SystemBroadcast_ExpireAt :: int
  SystemBroadcast_Ext :: "(string, string) gomap"

definition validate_SystemBroadcast :: "bool \<Rightarrow> pb_SystemBroadcast option \<Rightarrow> verr option" where
  "validate_SystemBroadcast = (\<lambda>all. validated ''SystemBroadcast''
     (\<lambda>m. [rule all ''SystemBroadcast'' ''BroadcastId'' ''value length must be at most 128 runes''
            (RuneCountInString (SystemBroadcast_BroadcastId m) > 128)]))"

interpretation v_SystemBroadcast: validator validate_SystemBroadcast
  unfolding validate_SystemBroadcast_def by (rule validator_validated) (simp add: step_checks)

record pb_AdminNotice =
  AdminNotice_Code :: int
  AdminNotice_Message :: string
  AdminNotice_EffectiveAt :: int
  AdminNotice_ExpireAt :: int
  AdminNotice_Actions :: "(string, string) gomap"

definition validate_AdminNotice :: "bool \<Rightarrow> pb_AdminNotice option \<Rightarrow> verr option" where
  "validate_AdminNotice = (\<lambda>all. validated ''AdminNotice''
     (\<lambda>m. []))"

interpretation v_AdminNotice: validator validate_AdminNotice
  unfolding validate_AdminNotice_def by (rule validator_validated) (simp add: step_checks)

record pb_BatchDispatch_SharedMeta =
  BatchDispatch_SharedMeta_From :: "pb_RouteTarget option"
  BatchDispatch_SharedMeta_BizCode :: string
  BatchDispatch_SharedMeta_EventType :: string
  BatchDispatch_SharedMeta_Trace :: "pb_TraceContext option"
  BatchDispatch_SharedMeta_Delivery :: "pb_Delivery option"
  BatchDispatch_SharedMeta_Metadata :: "(string, string) gomap"

definition validate_BatchDispatch_SharedMeta :: "bool \<Rightarrow> pb_BatchDispatch_SharedMeta option \<Rightarrow> verr option" where
  "validate_BatchDispatch_SharedMeta = (\<lambda>all. validated ''BatchDispatch_SharedMeta''
     (\<lambda>m. [embedded all ''BatchDispatch_SharedMeta'' ''From'' validate_RouteTarget (BatchDispatch_SharedMeta_From m),
         embedded all ''BatchDispatch_SharedMeta'' ''Trace'' validate_TraceContext (BatchDispatch_SharedMeta_Trace m),
         embedded all ''BatchDispatch_SharedMeta'' ''Delivery'' validate_Delivery (BatchDispatch_SharedMeta_Delivery m)]))"

interpretation v_BatchDispatch_SharedMeta: validator validate_BatchDispatch_SharedMeta
  unfolding validate_BatchDispatch_SharedMeta_def by (rule validator_validated) (simp add: step_checks step_embedded [OF v_RouteTarget.validator_axioms] step_embedded [OF v_TraceContext.validator_axioms] step_embedded [OF v_Delivery.validator_axioms])

record pb_BatchDispatch_Item =
  BatchDispatch_Item_MsgId :: string
  BatchDispatch_Item_SeqId :: int
  BatchDispatch_Item_To :: "pb_RouteTarget option"
  BatchDispatch_Item_Payload :: bytes
  BatchDispatch_Item_ExpireAt :: int

definition validate_BatchDispatch_Item :: "bool \<Rightarrow> pb_BatchDispatch_Item option \<Rightarrow> verr option" where
  "validate_BatchDispatch_Item = (\<lambda>all. validated ''BatchDispatch_Item''
     (\<lambda>m. [embedded all ''BatchDispatch_Item'' ''To'' validate_RouteTarget (BatchDispatch_Item_To m)]))"

interpretation v_BatchDispatch_Item: validator validate_BatchDispatch_Item
  unfolding validate_BatchDispatch_Item_def by (rule validator_validated) (simp add: step_checks step_embedded [OF v_RouteTarget.validator_axioms])

record pb_BatchDispatch =
  BatchDispatch_Shared :: "pb_BatchDispatch_SharedMeta option"
  BatchDispatch_Items :: "pb_BatchDispatch_Item option list"

definition validate_BatchDispatch :: "bool \<Rightarrow> pb_BatchDispatch option \<Rightarrow> verr option" where
  "validate_BatchDispatch = (\<lambda>all. validated ''BatchDispatch''
     (\<lambda>m. [embedded all ''BatchDispatch'' ''Shared'' validate_BatchDispatch_SharedMeta (BatchDispatch_Shared m),
         rule all ''BatchDispatch'' ''Items'' ''value must contain between 1 and 100 items, inclusive''
            ((let l = length (BatchDispatch_Items m) in l < 1 \<or> l > 100)),
         embedded_each all ''BatchDispatch'' ''Items'' validate_BatchDispatch_Item (BatchDispatch_Items m)]))"

interpretation v_BatchDispatch: validator validate_BatchDispatch
  unfolding validate_BatchDispatch_def by (rule validator_validated) (simp add: step_checks step_embedded [OF v_BatchDispatch_SharedMeta.validator_axioms] step_embedded_each [OF v_BatchDispatch_Item.validator_axioms])

record pb_PresenceUpdate =
  PresenceUpdate_State :: int
  PresenceUpdate_StatusText :: string
  PresenceUpdate_LastActiveAt :: int
  PresenceUpdate_ChangeReason :: string
  PresenceUpdate_Ext :: "(string, string) gomap"

definition validate_PresenceUpdate :: "bool \<Rightarrow> pb_PresenceUpdate option \<Rightarrow> verr option" where
  "validate_PresenceUpdate = (\<lambda>all. validated ''PresenceUpdate''
     (\<lambda>m. []))"

interpretation v_PresenceUpdate: validator validate_PresenceUpdate
  unfolding validate_PresenceUpdate_def by (rule validator_validated) (simp add: step_checks)

record pb_PresenceBatch_Item =
  PresenceBatch_Item_UserId :: string
  PresenceBatch_Item_State :: int
  PresenceBatch_Item_StatusText :: string
  PresenceBatch_Item_LastActiveAt :: int
  PresenceBatch_Item_ChangeReason :: string

definition validate_PresenceBatch_Item :: "bool \<Rightarrow> pb_PresenceBatch_Item option \<Rightarrow> verr option" where
  "validate_PresenceBatch_Item = (\<lambda>all. validated ''PresenceBatch_Item''
     (\<lambda>m. []))"

interpretation v_PresenceBatch_Item: validator validate_PresenceBatch_Item
  unfolding validate_PresenceBatch_Item_def by (rule validator_validated) (simp add: step_checks)

record pb_PresenceBatch =
  PresenceBatch_BatchTime :: int
  PresenceBatch_BatchWindowMs :: int
  PresenceBatch_Items :: "pb_PresenceBatch_Item option list"

definition validate_PresenceBatch :: "bool \<Rightarrow> pb_PresenceBatch option \<Rightarrow> verr option" where
  "validate_PresenceBatch = (\<lambda>all. validated ''PresenceBatch''
     (\<lambda>m. [embedded_each all ''PresenceBatch'' ''Items'' validate_PresenceBatch_Item (PresenceBatch_Items m)]))"

interpretation v_PresenceBatch: validator validate_PresenceBatch
  unfolding validate_PresenceBatch_def by (rule validator_validated) (simp add: step_checks step_embedded_each [OF v_PresenceBatch_Item.validator_axioms])

record pb_SubscribeAck =
  SubscribeAck_ErrorCode :: int
  SubscribeAck_ErrorMessage :: string
  SubscribeAck_MemberCount :: int
  SubscribeAck_LastSeq :: int

definition validate_SubscribeAck :: "bool \<Rightarrow> pb_SubscribeAck option \<Rightarrow> verr option" where
  "validate_SubscribeAck = (\<lambda>all. validated ''SubscribeAck''
     (\<lambda>m. []))"

interpretation v_SubscribeAck: validator validate_SubscribeAck
  unfolding validate_SubscribeAck_def by (rule validator_validated) (simp add: step_checks)

record pb_UnsubscribeAck =
  UnsubscribeAck_ErrorCode :: int
  UnsubscribeAck_ErrorMessage :: string

definition validate_UnsubscribeAck :: "bool \<Rightarrow> pb_UnsubscribeAck option \<Rightarrow> verr option" where
  "validate_UnsubscribeAck = (\<lambda>all. validated ''UnsubscribeAck''
     (\<lambda>m. []))"

interpretation v_UnsubscribeAck: validator validate_UnsubscribeAck
  unfolding validate_UnsubscribeAck_def by (rule validator_validated) (simp add: step_checks)

record pb_Subscribe_RoomTarget =
  Subscribe_RoomTarget_RoomId :: string
  Subscribe_RoomTarget_Password :: string

definition validate_Subscribe_RoomTarget :: "bool \<Rightarrow> pb_Subscribe_RoomTarget option \<Rightarrow> verr option" where
  "validate_Subscribe_RoomTarget = (\<lambda>all. validated ''Subscribe_RoomTarget''
     (\<lambda>m. []))"

interpretation v_Subscribe_RoomTarget: validator validate_Subscribe_RoomTarget
  unfolding validate_Subscribe_RoomTarget_def by (rule validator_validated) (simp add: step_checks)

record pb_Subscribe_TopicTarget =
  Subscribe_TopicTarget_Topic :: string
  Subscribe_TopicTarget_LastSeq :: int

definition validate_Subscribe_TopicTarget :: "bool \<Rightarrow> pb_Subscribe_TopicTarget option \<Rightarrow> verr option" where
  "validate_Subscribe_TopicTarget = (\<lambda>all. validated ''Subscribe_TopicTarget''
     (\<lambda>m. []))"

interpretation v_Subscribe_TopicTarget: validator validate_Subscribe_TopicTarget
  unfolding validate_Subscribe_TopicTarget_def by (rule validator_validated) (simp add: step_checks)

record pb_Subscribe_GroupTarget =
  Subscribe_GroupTarget_GroupId :: string

definition validate_Subscribe_GroupTarget :: "bool \<Rightarrow> pb_Subscribe_GroupTarget option \<Rightarrow> verr option" where
  "validate_Subscribe_GroupTarget = (\<lambda>all. validated ''Subscribe_GroupTarget''
     (\<lambda>m. []))"

interpretation v_Subscribe_GroupTarget: validator validate_Subscribe_GroupTarget
  unfolding validate_Subscribe_GroupTarget_def by (rule validator_validated) (simp add: step_checks)

record pb_CallOffer =
  CallOffer_CallId :: string
  CallOffer_CalleeId :: string
  CallOffer_CallType :: string
  CallOffer_Sdp :: bytes
  CallOffer_Ext :: "(string, string) gomap"

definition validate_CallOffer :: "bool \<Rightarrow> pb_CallOffer option \<Rightarrow> verr option" where
  "validate_CallOffer = (\<lambda>all. validated ''CallOffer''
     (\<lambda>m. [rule all ''CallOffer'' ''CallId'' ''value length must be at most 128 runes''
            (RuneCountInString (CallOffer_CallId m) > 128)]))"

interpretation v_CallOffer: validator validate_CallOffer
  unfolding validate_CallOffer_def by (rule validator_validated) (simp add: step_checks)

record pb_CallAnswer =
  CallAnswer_CallId :: string
  CallAnswer_Accepted :: bool
  CallAnswer_Reason :: string
  CallAnswer_Sdp :: bytes

definition validate_CallAnswer :: "bool \<Rightarrow> pb_CallAnswer option \<Rightarrow> verr option" where
  "validate_CallAnswer = (\<lambda>all. validated ''CallAnswer''
     (\<lambda>m. [rule all ''CallAnswer'' ''CallId'' ''value length must be at most 128 runes''
            (RuneCountInString (CallAnswer_CallId m) > 128)]))"

interpretation v_CallAnswer: validator validate_CallAnswer
  unfolding validate_CallAnswer_def by (rule validator_validated) (simp add: step_checks)

record pb_CallICE =
  CallICE_CallId :: string
  CallICE_Candidate :: string
  CallICE_SdpMid :: string
  CallICE_SdpMlineIndex :: int

definition validate_CallICE :: "bool \<Rightarrow> pb_CallICE option \<Rightarrow> verr option" where
  "validate_CallICE = (\<lambda>all. validated ''CallICE''
     (\<lambda>m. [rule all ''CallICE'' ''CallId'' ''value length must be at most 128 runes''
            (RuneCountInString (CallICE_CallId m) > 128)]))"

interpretation v_CallICE: validator validate_CallICE
  unfolding validate_CallICE_def by (rule validator_validated) (simp add: step_checks)

record pb_CallHangup =
  CallHangup_CallId :: string
  CallHangup_Reason :: string
  CallHangup_DurationMs :: int

definition validate_CallHangup :: "bool \<Rightarrow> pb_CallHangup option \<Rightarrow> verr option" where
  "validate_CallHangup = (\<lambda>all. validated ''CallHangup''
     (\<lambda>m. [rule all ''CallHangup'' ''CallId'' ''value length must be at most 128 runes''
            (RuneCountInString (CallHangup_CallId m) > 128)]))"

interpretation v_CallHangup: validator validate_CallHangup
  unfolding validate_CallHangup_def by (rule validator_validated) (simp add: step_checks)

record pb_CallModify =
  CallModify_CallId :: string
  CallModify_Action :: string
  CallModify_Enabled :: bool

definition validate_CallModify :: "bool \<Rightarrow> pb_CallModify option \<Rightarrow> verr option" where
  "validate_CallModify = (\<lambda>all. validated ''CallModify''
     (\<lambda>m. [rule all ''CallModify'' ''CallId'' ''value length must be at most 128 runes''
            (RuneCountInString (CallModify_CallId m) > 128)]))"

interpretation v_CallModify: validator validate_CallModify
  unfolding validate_CallModify_def by (rule validator_validated) (simp add: step_checks)

record pb_DataUpdate =
  DataUpdate_DataType :: string
  DataUpdate_DataId :: string
  DataUpdate_Payload :: bytes
  DataUpdate_Version :: int
  DataUpdate_IsDelta :: bool
  DataUpdate_ExpireAt :: int
  DataUpdate_Seq :: int

definition validate_DataUpdate :: "bool \<Rightarrow> pb_DataUpdate option \<Rightarrow> verr option" where
  "validate_DataUpdate = (\<lambda>all. validated ''DataUpdate''
     (\<lambda>m. [rule all ''DataUpdate'' ''DataType'' ''value length must be at most 64 runes''
            (RuneCountInString (DataUpdate_DataType m) > 64),
         rule all ''DataUpdate'' ''DataId'' ''value length must be at most 128 runes''
            (RuneCountInString (DataUpdate_DataId m) > 128)]))"

interpretation v_DataUpdate: validator validate_DataUpdate
  unfolding validate_DataUpdate_def by (rule validator_validated) (simp add: step_checks)

record pb_FileOffer =
  FileOffer_FileId :: string
  FileOffer_FileName :: string
  FileOffer_MimeType :: string
  FileOffer_FileSize :: int
  FileOffer_Checksum :: string
  FileOffer_UploadUrl :: string
  FileOffer_DownloadUrl :: string
  FileOffer_TtlSeconds :: int

definition validate_FileOffer :: "bool \<Rightarrow> pb_FileOffer option \<Rightarrow> verr option" where
  "validate_FileOffer = (\<lambda>all. validated ''FileOffer''
     (\<lambda>m. [rule all ''FileOffer'' ''FileId'' ''value length must be at most 128 runes''
            (RuneCountInString (FileOffer_FileId m) > 128),
         rule all ''FileOffer'' ''FileName'' ''value length must be at most 256 runes''
            (RuneCountInString (FileOffer_FileName m) > 256)]))"

interpretation v_FileOffer: validator validate_FileOffer
  unfolding validate_FileOffer_def by (rule validator_validated) (simp add: step_checks)

record pb_FileAccept =
  FileAccept_FileId :: string
  FileAccept_Accepted :: bool
  FileAccept_Reason :: string

definition validate_FileAccept :: "bool \<Rightarrow> pb_FileAccept option \<Rightarrow> verr option" where
  "validate_FileAccept = (\<lambda>all. validated ''FileAccept''
     (\<lambda>m. [rule all ''FileAccept'' ''FileId'' ''value length must be at most 128 runes''
            (RuneCountInString (FileAccept_FileId m) > 128)]))"

interpretation v_FileAccept: validator validate_FileAccept
  unfolding validate_FileAccept_def by (rule validator_validated) (simp add: step_checks)

record pb_FileChunk =
  FileChunk_FileId :: string
  FileChunk_Offset :: int
  FileChunk_Total :: int
  FileChunk_ChunkIndex :: int
  FileChunk_TotalChunks :: int

definition validate_FileChunk :: "bool \<Rightarrow> pb_FileChunk option \<Rightarrow> verr option" where
  "validate_FileChunk = (\<lambda>all. validated ''FileChunk''
     (\<lambda>m. [rule all ''FileChunk'' ''FileId'' ''value length must be at most 128 runes''
            (RuneCountInString (FileChunk_FileId m) > 128)]))"

interpretation v_FileChunk: validator validate_FileChunk
  unfolding validate_FileChunk_def by (rule validator_validated) (simp add: step_checks)

record pb_FileDone =
  FileDone_FileId :: string
  FileDone_Checksum :: string
  FileDone_FileSize :: int

definition validate_FileDone :: "bool \<Rightarrow> pb_FileDone option \<Rightarrow> verr option" where
  "validate_FileDone = (\<lambda>all. validated ''FileDone''
     (\<lambda>m. [rule all ''FileDone'' ''FileId'' ''value length must be at most 128 runes''
            (RuneCountInString (FileDone_FileId m) > 128)]))"

interpretation v_FileDone: validator validate_FileDone
  unfolding validate_FileDone_def by (rule validator_validated) (simp add: step_checks)

record pb_FileCancel =
  FileCancel_FileId :: string
  FileCancel_Reason :: string

definition validate_FileCancel :: "bool \<Rightarrow> pb_FileCancel option \<Rightarrow> verr option" where
  "validate_FileCancel = (\<lambda>all. validated ''FileCancel''
     (\<lambda>m. [rule all ''FileCancel'' ''FileId'' ''value length must be at most 128 runes''
            (RuneCountInString (FileCancel_FileId m) > 128)]))"

interpretation v_FileCancel: validator validate_FileCancel
  unfolding validate_FileCancel_def by (rule validator_validated) (simp add: step_checks)

record pb_IMChat =
  IMChat_ConvId :: string
  IMChat_ContentType :: string
  IMChat_Content :: bytes
  IMChat_Mentions :: "string list"
  IMChat_ReplyTo :: string
  IMChat_Ext :: "(string, string) gomap"

definition validate_IMChat :: "bool \<Rightarrow> pb_IMChat option \<Rightarrow> verr option" where
  "validate_IMChat = (\<lambda>all. validated ''IMChat''
     (\<lambda>m. [rule all ''IMChat'' ''ConvId'' ''value length must be at most 256 runes''
            (RuneCountInString (IMChat_ConvId m) > 256),
         rule all ''IMChat'' ''ContentType'' ''value length must be at most 64 runes''
            (RuneCountInString (IMChat_ContentType m) > 64),
         rule all ''IMChat'' ''ReplyTo'' ''value length must be at most 128 runes''
            (RuneCountInString (IMChat_ReplyTo m) > 128)]))"

interpretation v_IMChat: validator validate_IMChat
  unfolding validate_IMChat_def by (rule validator_validated) (simp add: step_checks)

record pb_IMReceipt =
  IMReceipt_ConvId :: string
  IMReceipt_ReceiptType :: string
  IMReceipt_MsgIds :: "string list"
  IMReceipt_ReadSeq :: "64 word"

definition validate_IMReceipt :: "bool \<Rightarrow> pb_IMReceipt option \<Rightarrow> verr option" where
  "validate_IMReceipt = (\<lambda>all. validated ''IMReceipt''
     (\<lambda>m. [rule all ''IMReceipt'' ''ReceiptType'' ''value length must be at most 32 runes''
            (RuneCountInString (IMReceipt_ReceiptType m) > 32),
         rule all ''IMReceipt'' ''MsgIds'' ''value must contain no more than 100 item(s)''
            (length (IMReceipt_MsgIds m) > 100)]))"

interpretation v_IMReceipt: validator validate_IMReceipt
  unfolding validate_IMReceipt_def by (rule validator_validated) (simp add: step_checks)

record pb_IMRevoke =
  IMRevoke_ConvId :: string
  IMRevoke_MsgId :: string
  IMRevoke_Reason :: string

definition validate_IMRevoke :: "bool \<Rightarrow> pb_IMRevoke option \<Rightarrow> verr option" where
  "validate_IMRevoke = (\<lambda>all. validated ''IMRevoke''
     (\<lambda>m. [rule all ''IMRevoke'' ''MsgId'' ''value length must be at most 128 runes''
            (RuneCountInString (IMRevoke_MsgId m) > 128)]))"

interpretation v_IMRevoke: validator validate_IMRevoke
  unfolding validate_IMRevoke_def by (rule validator_validated) (simp add: step_checks)

record pb_IMEdit =
  IMEdit_ConvId :: string
  IMEdit_MsgId :: string
  IMEdit_Content :: bytes
  IMEdit_ContentType :: string
  IMEdit_EditAt :: int
  IMEdit_EditCount :: int

definition validate_IMEdit :: "bool \<Rightarrow> pb_IMEdit option \<Rightarrow> verr option" where
  "validate_IMEdit = (\<lambda>all. validated ''IMEdit''
     (\<lambda>m. [rule all ''IMEdit'' ''ConvId'' ''value length must be at most 256 runes''
            (RuneCountInString (IMEdit_ConvId m) > 256),
         rule all ''IMEdit'' ''MsgId'' ''value length must be at most 128 runes''
            (RuneCountInString (IMEdit_MsgId m) > 128),
         rule all ''IMEdit'' ''ContentType'' ''value length must be at most 64 runes''
            (RuneCountInString (IMEdit_ContentType m) > 64)]))"

interpretation v_IMEdit: validator validate_IMEdit
  unfolding validate_IMEdit_def by (rule validator_validated) (simp add: step_checks)

record pb_IMTyping =
  IMTyping_ConvId :: string
  IMTyping_ContentType :: string
  IMTyping_DurationMs :: int

definition validate_IMTyping :: "bool \<Rightarrow> pb_IMTyping option \<Rightarrow> verr option" where
  "validate_IMTyping = (\<lambda>all. validated ''IMTyping''
     (\<lambda>m. []))"

interpretation v_IMTyping: validator validate_IMTyping
  unfolding validate_IMTyping_def by (rule validator_validated) (simp add: step_checks)

record pb_IMReaction =
  IMReaction_ConvId :: string
  IMReaction_MsgId :: string
  IMReaction_Reaction :: string
  IMReaction_IsAdd :: bool

definition validate_IMReaction :: "bool \<Rightarrow> pb_IMReaction option \<Rightarrow> verr option" where
  "validate_IMReaction = (\<lambda>all. validated ''IMReaction''
     (\<lambda>m. [rule all ''IMReaction'' ''MsgId'' ''value length must be at most 128 runes''
            (RuneCountInString (IMReaction_MsgId m) > 128)]))"

interpretation v_IMReaction: validator validate_IMReaction
  unfolding validate_IMReaction_def by (rule validator_validated) (simp add: step_checks)

record pb_IMPin =
  IMPin_ConvId :: string
  IMPin_MsgId :: string
  IMPin_IsPin :: bool

definition validate_IMPin :: "bool \<Rightarrow> pb_IMPin option \<Rightarrow> verr option" where
  "validate_IMPin = (\<lambda>all. validated ''IMPin''
     (\<lambda>m. [rule all ''IMPin'' ''MsgId'' ''value length must be at most 128 runes''
            (RuneCountInString (IMPin_MsgId m) > 128)]))"

interpretation v_IMPin: validator validate_IMPin
  unfolding validate_IMPin_def by (rule validator_validated) (simp add: step_checks)

record pb_LiveJoin =
  LiveJoin_RoomId :: string
  LiveJoin_Password :: string
  LiveJoin_Ext :: "(string, string) gomap"

definition validate_LiveJoin :: "bool \<Rightarrow> pb_LiveJoin option \<Rightarrow> verr option" where
  "validate_LiveJoin = (\<lambda>all. validated ''LiveJoin''
     (\<lambda>m. [rule all ''LiveJoin'' ''RoomId'' ''value length must be at most 128 runes''
            (RuneCountInString (LiveJoin_RoomId m) > 128)]))"

interpretation v_LiveJoin: validator validate_LiveJoin
  unfolding validate_LiveJoin_def by (rule validator_validated) (simp add: step_checks)

record pb_LiveLeave =
  LiveLeave_RoomId :: string
  LiveLeave_Reason :: string

definition validate_LiveLeave :: "bool \<Rightarrow> pb_LiveLeave option \<Rightarrow> verr option" where
  "validate_LiveLeave = (\<lambda>all. validated ''LiveLeave''
     (\<lambda>m. [rule all ''LiveLeave'' ''RoomId'' ''value length must be at most 128 runes''
            (RuneCountInString (LiveLeave_RoomId m) > 128)]))"

interpretation v_LiveLeave: validator validate_LiveLeave
  unfolding validate_LiveLeave_def by (rule validator_validated) (simp add: step_checks)

record pb_LiveComment =
  LiveComment_RoomId :: string
  LiveComment_Content :: string
  LiveComment_Color :: string
  LiveComment_Level :: int

definition validate_LiveComment :: "bool \<Rightarrow> pb_LiveComment option \<Rightarrow> verr option" where
  "validate_LiveComment = (\<lambda>all. validated ''LiveComment''
     (\<lambda>m. [rule all ''LiveComment'' ''RoomId'' ''value length must be at most 128 runes''
            (RuneCountInString (LiveComment_RoomId m) > 128),
         rule all ''LiveComment'' ''Content'' ''value length must be at most 512 runes''
            (RuneCountInString (LiveComment_Content m) > 512)]))"

interpretation v_LiveComment: validator validate_LiveComment
  unfolding validate_LiveComment_def by (rule validator_validated) (simp add: step_checks)

record pb_LiveGift =
  LiveGift_RoomId :: string
  LiveGift_GiftId :: string
  LiveGift_GiftName :: string
  LiveGift_Count :: int
  LiveGift_TotalCost :: int
  LiveGift_ComboId :: string

definition validate_LiveGift :: "bool \<Rightarrow> pb_LiveGift option \<Rightarrow> verr option" where
  "validate_LiveGift = (\<lambda>all. validated ''LiveGift''
     (\<lambda>m. [rule all ''LiveGift'' ''RoomId'' ''value length must be at most 128 runes''
            (RuneCountInString (LiveGift_RoomId m) > 128),
         rule all ''LiveGift'' ''GiftId'' ''value length must be at most 128 runes''
            (RuneCountInString (LiveGift_GiftId m) > 128)]))"

interpretation v_LiveGift: validator validate_LiveGift
  unfolding validate_LiveGift_def by (rule validator_validated) (simp add: step_checks)

record pb_LiveSignal =
  LiveSignal_RoomId :: string
  LiveSignal_SignalType :: string
  LiveSignal_Payload :: bytes

definition validate_LiveSignal :: "bool \<Rightarrow> pb_LiveSignal option \<Rightarrow> verr option" where
  "validate_LiveSignal = (\<lambda>all. validated ''LiveSignal''
     (\<lambda>m. [rule all ''LiveSignal'' ''RoomId'' ''value length must be at most 128 runes''
            (RuneCountInString (LiveSignal_RoomId m) > 128)]))"

interpretation v_LiveSignal: validator validate_LiveSignal
  unfolding validate_LiveSignal_def by (rule validator_validated) (simp add: step_checks)

record pb_LiveState =
  LiveState_RoomId :: string
  LiveState_State :: string
  LiveState_ViewerCount :: int
  LiveState_LikeCount :: int

definition validate_LiveState :: "bool \<Rightarrow> pb_LiveState option \<Rightarrow> verr option" where
  "validate_LiveState = (\<lambda>all. validated ''LiveState''
     (\<lambda>m. [rule all ''LiveState'' ''RoomId'' ''value length must be at most 128 runes''
            (RuneCountInString (LiveState_RoomId m) > 128)]))"

interpretation v_LiveState: validator validate_LiveState
  unfolding validate_LiveState_def by (rule validator_validated) (simp add: step_checks)

record pb_PushNotify =
  PushNotify_Title :: string
  PushNotify_Body :: string
  PushNotify_Sound :: string
  PushNotify_Badge :: int
  PushNotify_Data :: "(string, string) gomap"
  PushNotify_Priority :: string
  PushNotify_CollapseKey :: string
  PushNotify_ChannelId :: string

definition validate_PushNotify :: "bool \<Rightarrow> pb_PushNotify option \<Rightarrow> verr option" where
  "validate_PushNotify = (\<lambda>all. validated ''PushNotify''
     (\<lambda>m. [rule all ''PushNotify'' ''Title'' ''value length must be at most 256 runes''
            (RuneCountInString (PushNotify_Title m) > 256),
         rule all ''PushNotify'' ''Body'' ''value length must be at most 1024 runes''
            (RuneCountInString (PushNotify_Body m) > 1024)]))"

interpretation v_PushNotify: validator validate_PushNotify
  unfolding validate_PushNotify_def by (rule validator_validated) (simp add: step_checks)

section \<open>Batches\<close>

text \<open>The violations of a batch, as the rules of \<open>batch.proto\<close> give them.\<close>

definition batch_violations :: "pb_BatchDispatch \<Rightarrow> verr list" where
  "batch_violations m =
     (case validate_BatchDispatch_SharedMeta True (BatchDispatch_Shared m) of
        None \<Rightarrow> []
      | Some err \<Rightarrow> [ValidationError ''BatchDispatch'' ''Shared'' ''embedded message failed validation'' (Some err)])
     @ (if length (BatchDispatch_Items m) \<in> {1..100} then []
        else [ValidationError ''BatchDispatch'' ''Items'' ''value must contain between 1 and 100 items, inclusive'' None])
     @ item_errors ''BatchDispatch'' ''Items'' validate_BatchDispatch_Item (BatchDispatch_Items m)"

text \<open>
  C34. A batch is reported item by item. \<open>ValidateAll\<close> returns the violation of the shared part, that of the number of items
  and one for each invalid item, under its index and in order, and nothing exactly for a batch without any;
  \<open>Validate\<close> returns the first of them, with the first violation inside the item as its cause.
\<close>

theorem batch_validation:
  "validate_BatchDispatch True (Some m) =
     (if batch_violations m = [] then None else Some (MultiError ''BatchDispatch'' (batch_violations m)))
   \<and> validate_BatchDispatch False (Some m) =
       (case batch_violations m of [] \<Rightarrow> None | err # errs \<Rightarrow> Some (first_error err))"
proof -
  have a: "validate_BatchDispatch True (Some m) =
      (if batch_violations m = [] then None else Some (MultiError ''BatchDispatch'' (batch_violations m)))"
    by (auto simp: validate_BatchDispatch_def validated_def run_steps.simps(2) embedded_def rule_def embedded_each_collects
        batch_violations_def Let_def Suc_le_eq split: option.split)
  then show ?thesis
    using v_BatchDispatch.first_of_all [of "Some m"] by (auto split: list.split)
qed

section \<open>A choice of targets\<close>

text \<open>
  \<open>Subscribe\<close> has a \<open>oneof\<close>: an interface that holds a pointer to one of three wrappers. A wrapper pointer may be
  nil (\<open>None\<close> of the outer option), and so may the message in it. The case of a wrapper reports a nil pointer and,
  when it collects, goes on to the getter, which dereferences it: \<open>None\<close> of the result is that panic.
\<close>

datatype subscribe_target =
    Subscribe_Room "pb_Subscribe_RoomTarget option option"
  | Subscribe_Topic "pb_Subscribe_TopicTarget option option"
  | Subscribe_Group "pb_Subscribe_GroupTarget option option"

record pb_Subscribe =
  Subscribe_Target :: "subscribe_target option"
  Subscribe_Subscribe :: bool

definition subscribe_case ::
    "bool \<Rightarrow> string \<Rightarrow> (bool \<Rightarrow> 'm option \<Rightarrow> verr option) \<Rightarrow> 'm option option \<Rightarrow> (verr, verr list) result option" where
  "subscribe_case all field validate wrapper =
     (let typed_nil = ValidationError ''Subscribe'' ''Target'' ''oneof value cannot be a typed-nil'' None
      in case wrapper of
           None \<Rightarrow> if \<not> all then Some (Inl typed_nil) else None
         | Some v \<Rightarrow> Some (embedded all ''Subscribe'' field validate v []))"

definition validate_Subscribe :: "bool \<Rightarrow> pb_Subscribe option \<Rightarrow> verr option option" where
  "validate_Subscribe all v =
     (case v of
        None \<Rightarrow> Some None
      | Some m \<Rightarrow>
          map_option (\<lambda>r. case r of Inl err \<Rightarrow> Some err | Inr errors \<Rightarrow> if errors = [] then None else Some (MultiError ''Subscribe'' errors))
            (case Subscribe_Target m of
               None \<Rightarrow> Some (Inr [])
             | Some (Subscribe_Room w) \<Rightarrow> subscribe_case all ''Room'' validate_Subscribe_RoomTarget w
             | Some (Subscribe_Topic w) \<Rightarrow> subscribe_case all ''Topic'' validate_Subscribe_TopicTarget w
             | Some (Subscribe_Group w) \<Rightarrow> subscribe_case all ''Group'' validate_Subscribe_GroupTarget w))"

text \<open>
  \<open>Validate\<close> never panics and accepts exactly the subscriptions whose wrapper is not a nil pointer; \<open>ValidateAll\<close> panics
  on the others instead of reporting them.
\<close>

theorem subscribe_validation:
  "(\<exists>r. validate_Subscribe False v = Some r) \<and>
   (validate_Subscribe False v \<noteq> Some None \<longleftrightarrow> validate_Subscribe True v = None)"
proof (cases v)
  case (Some m)
  have valid: "validate_Subscribe_RoomTarget all r = None" "validate_Subscribe_TopicTarget all t = None"
      "validate_Subscribe_GroupTarget all g = None" for all r t g
    by (simp_all add: validate_Subscribe_RoomTarget_def validate_Subscribe_TopicTarget_def validate_Subscribe_GroupTarget_def
          validated_def split: option.split)
  show ?thesis
  proof (cases "Subscribe_Target m")
    case (Some target)
    then show ?thesis
      by (cases target) (auto simp: validate_Subscribe_def \<open>v = Some m\<close> subscribe_case_def embedded_def valid split: option.split)
  qed (simp add: validate_Subscribe_def Some)
qed (simp add: validate_Subscribe_def)

end
