(* ===== verification/Validation_Service.thy ===== *)
theory Validation_Service
  imports Validation_Events
begin

text \<open>
  Validation of the requests and answers of the gateway's gRPC service (\<open>gen/gateway/v1/gateway_service.pb.validate.go\<close>).
  A message without a rule has no checks; a \<open>float32\<close> is its bit pattern.
\<close>

record pb_Payload =
  Payload_EventType :: string
  Payload_Data :: bytes
  Payload_Codec :: int
  Payload_Compress :: int

definition validate_Payload :: "bool \<Rightarrow> pb_Payload option \<Rightarrow> verr option" where
  "validate_Payload = (\<lambda>all. validated ''Payload''
     (\<lambda>m. [rule all ''Payload'' ''EventType'' ''value length must be at most 128 runes''
            (RuneCountInString (Payload_EventType m) > 128),
         rule all ''Payload'' ''Codec'' ''value must not be in list [0]''
            (Payload_Codec m \<in> set [0]),
         rule all ''Payload'' ''Codec'' ''value must be one of the defined enum values''
            (map_of Codec_name (Payload_Codec m) = None),
         rule all ''Payload'' ''Compress'' ''value must not be in list [0]''
            (Payload_Compress m \<in> set [0]),
         rule all ''Payload'' ''Compress'' ''value must be one of the defined enum values''
            (map_of CompressAlgo_name (Payload_Compress m) = None)]))"

interpretation v_Payload: validator validate_Payload
  unfolding validate_Payload_def by (rule validator_validated) (simp add: step_checks)

record pb_PushMessageReq =
  PushMessageReq_To :: "pb_RouteTarget option"
  PushMessageReq_BizCode :: string
  PushMessageReq_Delivery :: "pb_Delivery option"
  PushMessageReq_Payload :: "pb_Payload option"
  PushMessageReq_Origin :: string
  PushMessageReq_Headers :: "(string, string) gomap"

definition validate_PushMessageReq :: "bool \<Rightarrow> pb_PushMessageReq option \<Rightarrow> verr option" where
  "validate_PushMessageReq = (\<lambda>all. validated ''PushMessageReq''
     (\<lambda>m. [rule all ''PushMessageReq'' ''To'' ''value is required''
            (PushMessageReq_To m = None),
         embedded all ''PushMessageReq'' ''To'' validate_RouteTarget (PushMessageReq_To m),
         rule all ''PushMessageReq'' ''BizCode'' ''value length must be at most 128 runes''
            (RuneCountInString (PushMessageReq_BizCode m) > 128),
         embedded all ''PushMessageReq'' ''Delivery'' validate_Delivery (PushMessageReq_Delivery m),
         rule all ''PushMessageReq'' ''Payload'' ''value is required''
            (PushMessageReq_Payload m = None),
         embedded all ''PushMessageReq'' ''Payload'' validate_Payload (PushMessageReq_Payload m)]))"

interpretation v_PushMessageReq: validator validate_PushMessageReq
  unfolding validate_PushMessageReq_def by (rule validator_validated) (simp add: step_checks step_embedded [OF v_RouteTarget.validator_axioms] step_embedded [OF v_Delivery.validator_axioms] step_embedded [OF v_Payload.validator_axioms])

record pb_PushMessageResp =
  PushMessageResp_Accepted :: bool
  PushMessageResp_Status :: int
  PushMessageResp_SessionId :: string
  PushMessageResp_SeqId :: "64 word"
  PushMessageResp_ErrorCode :: int
  PushMessageResp_ErrorMessage :: string

definition validate_PushMessageResp :: "bool \<Rightarrow> pb_PushMessageResp option \<Rightarrow> verr option" where
  "validate_PushMessageResp = (\<lambda>all. validated ''PushMessageResp''
     (\<lambda>m. []))"

interpretation v_PushMessageResp: validator validate_PushMessageResp
  unfolding validate_PushMessageResp_def by (rule validator_validated) (simp add: step_checks)

record pb_BatchPushMessageReq =
  BatchPushMessageReq_ToList :: "pb_RouteTarget option list"
  BatchPushMessageReq_BizCode :: string
  BatchPushMessageReq_Delivery :: "pb_Delivery option"
  BatchPushMessageReq_Payload :: "pb_Payload option"
  BatchPushMessageReq_Origin :: string

definition validate_BatchPushMessageReq :: "bool \<Rightarrow> pb_BatchPushMessageReq option \<Rightarrow> verr option" where
  "validate_BatchPushMessageReq = (\<lambda>all. validated ''BatchPushMessageReq''
     (\<lambda>m. [rule all ''BatchPushMessageReq'' ''ToList'' ''value must contain between 1 and 1000 items, inclusive''
            ((let l = length (BatchPushMessageReq_ToList m) in l < 1 \<or> l > 1000)),
         embedded_each all ''BatchPushMessageReq'' ''ToList'' validate_RouteTarget (BatchPushMessageReq_ToList m),
         rule all ''BatchPushMessageReq'' ''BizCode'' ''value length must be at most 128 runes''
            (RuneCountInString (BatchPushMessageReq_BizCode m) > 128),
         embedded all ''BatchPushMessageReq'' ''Delivery'' validate_Delivery (BatchPushMessageReq_Delivery m),
         rule all ''BatchPushMessageReq'' ''Payload'' ''value is required''
            (BatchPushMessageReq_Payload m = None),
         embedded all ''BatchPushMessageReq'' ''Payload'' validate_Payload (BatchPushMessageReq_Payload m)]))"

interpretation v_BatchPushMessageReq: validator validate_BatchPushMessageReq
  unfolding validate_BatchPushMessageReq_def by (rule validator_validated) (simp add: step_checks step_embedded_each [OF v_RouteTarget.validator_axioms] step_embedded [OF v_Delivery.validator_axioms] step_embedded [OF v_Payload.validator_axioms])

record pb_BatchPushMessageResp_SuccessItem =
  BatchPushMessageResp_SuccessItem_TargetKey :: string
  BatchPushMessageResp_SuccessItem_SessionId :: string
  BatchPushMessageResp_SuccessItem_SeqId :: "64 word"
  BatchPushMessageResp_SuccessItem_DeliverType :: int

definition validate_BatchPushMessageResp_SuccessItem :: "bool \<Rightarrow> pb_BatchPushMessageResp_SuccessItem option \<Rightarrow> verr option" where
  "validate_BatchPushMessageResp_SuccessItem = (\<lambda>all. validated ''BatchPushMessageResp_SuccessItem''
     (\<lambda>m. []))"

interpretation v_BatchPushMessageResp_SuccessItem: validator validate_BatchPushMessageResp_SuccessItem
  unfolding validate_BatchPushMessageResp_SuccessItem_def by (rule validator_validated) (simp add: step_checks)

record pb_BatchPushMessageResp_FailedItem =
  BatchPushMessageResp_FailedItem_TargetKey :: string
  BatchPushMessageResp_FailedItem_ErrorCode :: int
  BatchPushMessageResp_FailedItem_ErrorMessage :: string

definition validate_BatchPushMessageResp_FailedItem :: "bool \<Rightarrow> pb_BatchPushMessageResp_FailedItem option \<Rightarrow> verr option" where
  "validate_BatchPushMessageResp_FailedItem = (\<lambda>all. validated ''BatchPushMessageResp_FailedItem''
     (\<lambda>m. []))"

interpretation v_BatchPushMessageResp_FailedItem: validator validate_BatchPushMessageResp_FailedItem
  unfolding validate_BatchPushMessageResp_FailedItem_def by (rule validator_validated) (simp add: step_checks)

record pb_BatchPushMessageResp =
  BatchPushMessageResp_TotalCount :: int
  BatchPushMessageResp_SuccessCount :: int
  BatchPushMessageResp_FailCount :: int
  BatchPushMessageResp_SuccessItems :: "pb_BatchPushMessageResp_SuccessItem option list"
  BatchPushMessageResp_FailedItems :: "pb_BatchPushMessageResp_FailedItem option list"
  BatchPushMessageResp_PendingItems :: "string list"

definition validate_BatchPushMessageResp :: "bool \<Rightarrow> pb_BatchPushMessageResp option \<Rightarrow> verr option" where
  "validate_BatchPushMessageResp = (\<lambda>all. validated ''BatchPushMessageResp''
     (\<lambda>m. [embedded_each all ''BatchPushMessageResp'' ''SuccessItems'' validate_BatchPushMessageResp_SuccessItem (BatchPushMessageResp_SuccessItems m),
         embedded_each all ''BatchPushMessageResp'' ''FailedItems'' validate_BatchPushMessageResp_FailedItem (BatchPushMessageResp_FailedItems m)]))"

interpretation v_BatchPushMessageResp: validator validate_BatchPushMessageResp
  unfolding validate_BatchPushMessageResp_def by (rule validator_validated) (simp add: step_checks step_embedded_each [OF v_BatchPushMessageResp_SuccessItem.validator_axioms] step_embedded_each [OF v_BatchPushMessageResp_FailedItem.validator_axioms])

record pb_BroadcastToRoomReq =
  BroadcastToRoomReq_RoomId :: string
  BroadcastToRoomReq_BizCode :: string
  BroadcastToRoomReq_Delivery :: "pb_Delivery option"
  BroadcastToRoomReq_Payload :: "pb_Payload option"
  BroadcastToRoomReq_ExcludeSender :: bool
  BroadcastToRoomReq_SenderUserId :: string
  BroadcastToRoomReq_FilterLabels :: "(string, string) gomap"

definition validate_BroadcastToRoomReq :: "bool \<Rightarrow> pb_BroadcastToRoomReq option \<Rightarrow> verr option" where
  "validate_BroadcastToRoomReq = (\<lambda>all. validated ''BroadcastToRoomReq''
     (\<lambda>m. [rule all ''BroadcastToRoomReq'' ''RoomId'' ''value length must be between 1 and 256 runes, inclusive''
            ((let l = RuneCountInString (BroadcastToRoomReq_RoomId m) in l < 1 \<or> l > 256)),
         rule all ''BroadcastToRoomReq'' ''BizCode'' ''value length must be at most 128 runes''
            (RuneCountInString (BroadcastToRoomReq_BizCode m) > 128),
         embedded all ''BroadcastToRoomReq'' ''Delivery'' validate_Delivery (BroadcastToRoomReq_Delivery m),
         rule all ''BroadcastToRoomReq'' ''Payload'' ''value is required''
            (BroadcastToRoomReq_Payload m = None),
         embedded all ''BroadcastToRoomReq'' ''Payload'' validate_Payload (BroadcastToRoomReq_Payload m)]))"

interpretation v_BroadcastToRoomReq: validator validate_BroadcastToRoomReq
  unfolding validate_BroadcastToRoomReq_def by (rule validator_validated) (simp add: step_checks step_embedded [OF v_Delivery.validator_axioms] step_embedded [OF v_Payload.validator_axioms])

record pb_BroadcastToRoomResp =
  BroadcastToRoomResp_Accepted :: bool
  BroadcastToRoomResp_TargetCount :: int
  BroadcastToRoomResp_OnlineCount :: int
  BroadcastToRoomResp_NodeCount :: int
  BroadcastToRoomResp_ErrorCode :: int
  BroadcastToRoomResp_ErrorMessage :: string

definition validate_BroadcastToRoomResp :: "bool \<Rightarrow> pb_BroadcastToRoomResp option \<Rightarrow> verr option" where
  "validate_BroadcastToRoomResp = (\<lambda>all. validated ''BroadcastToRoomResp''
     (\<lambda>m. []))"

interpretation v_BroadcastToRoomResp: validator validate_BroadcastToRoomResp
  unfolding validate_BroadcastToRoomResp_def by (rule validator_validated) (simp add: step_checks)

record pb_BroadcastToTopicReq =
  BroadcastToTopicReq_Topic :: string
  BroadcastToTopicReq_BizCode :: string
  BroadcastToTopicReq_Delivery :: "pb_Delivery option"
  BroadcastToTopicReq_Payload :: "pb_Payload option"
  BroadcastToTopicReq_ExcludeSender :: bool
  BroadcastToTopicReq_SenderUserId :: string

definition validate_BroadcastToTopicReq :: "bool \<Rightarrow> pb_BroadcastToTopicReq option \<Rightarrow> verr option" where
  "validate_BroadcastToTopicReq = (\<lambda>all. validated ''BroadcastToTopicReq''
     (\<lambda>m. [rule all ''BroadcastToTopicReq'' ''Topic'' ''value length must be between 1 and 256 runes, inclusive''
            ((let l = RuneCountInString (BroadcastToTopicReq_Topic m) in l < 1 \<or> l > 256)),
         rule all ''BroadcastToTopicReq'' ''BizCode'' ''value length must be at most 128 runes''
            (RuneCountInString (BroadcastToTopicReq_BizCode m) > 128),
         embedded all ''BroadcastToTopicReq'' ''Delivery'' validate_Delivery (BroadcastToTopicReq_Delivery m),
         rule all ''BroadcastToTopicReq'' ''Payload'' ''value is required''
            (BroadcastToTopicReq_Payload m = None),
         embedded all ''BroadcastToTopicReq'' ''Payload'' validate_Payload (BroadcastToTopicReq_Payload m)]))"

interpretation v_BroadcastToTopicReq: validator validate_BroadcastToTopicReq
  unfolding validate_BroadcastToTopicReq_def by (rule validator_validated) (simp add: step_checks step_embedded [OF v_Delivery.validator_axioms] step_embedded [OF v_Payload.validator_axioms])

record pb_BroadcastToTopicResp =
  BroadcastToTopicResp_Accepted :: bool
  BroadcastToTopicResp_SubscriberCount :: int
  BroadcastToTopicResp_NodeCount :: int
  BroadcastToTopicResp_ErrorCode :: int
  BroadcastToTopicResp_ErrorMessage :: string

definition validate_BroadcastToTopicResp :: "bool \<Rightarrow> pb_BroadcastToTopicResp option \<Rightarrow> verr option" where
  "validate_BroadcastToTopicResp = (\<lambda>all. validated ''BroadcastToTopicResp''
     (\<lambda>m. []))"

interpretation v_BroadcastToTopicResp: validator validate_BroadcastToTopicResp
  unfolding validate_BroadcastToTopicResp_def by (rule validator_validated) (simp add: step_checks)

record pb_BroadcastToAllReq =
  BroadcastToAllReq_BizCode :: string
  BroadcastToAllReq_Delivery :: "pb_Delivery option"
  BroadcastToAllReq_Payload :: "pb_Payload option"
  BroadcastToAllReq_FilterBizCodes :: "string list"
  BroadcastToAllReq_BatchSize :: int
  BroadcastToAllReq_BatchIntervalMs :: int

definition validate_BroadcastToAllReq :: "bool \<Rightarrow> pb_BroadcastToAllReq option \<Rightarrow> verr option" where
  "validate_BroadcastToAllReq = (\<lambda>all. validated ''BroadcastToAllReq''
     (\<lambda>m. [rule all ''BroadcastToAllReq'' ''BizCode'' ''value length must be at most 128 runes''
            (RuneCountInString (BroadcastToAllReq_BizCode m) > 128),
         embedded all ''BroadcastToAllReq'' ''Delivery'' validate_Delivery (BroadcastToAllReq_Delivery m),
         rule all ''BroadcastToAllReq'' ''Payload'' ''value is required''
            (BroadcastToAllReq_Payload m = None),
         embedded all ''BroadcastToAllReq'' ''Payload'' validate_Payload (BroadcastToAllReq_Payload m)]))"

interpretation v_BroadcastToAllReq: validator validate_BroadcastToAllReq
  unfolding validate_BroadcastToAllReq_def by (rule validator_validated) (simp add: step_checks step_embedded [OF v_Delivery.validator_axioms] step_embedded [OF v_Payload.validator_axioms])

record pb_BroadcastToAllResp =
  BroadcastToAllResp_Accepted :: bool
  BroadcastToAllResp_TotalOnlineUsers :: int
  BroadcastToAllResp_EstimatedDurationMs :: int
  BroadcastToAllResp_ErrorCode :: int
  BroadcastToAllResp_ErrorMessage :: string

definition validate_BroadcastToAllResp :: "bool \<Rightarrow> pb_BroadcastToAllResp option \<Rightarrow> verr option" where
  "validate_BroadcastToAllResp = (\<lambda>all. validated ''BroadcastToAllResp''
     (\<lambda>m. []))"

interpretation v_BroadcastToAllResp: validator validate_BroadcastToAllResp
  unfolding validate_BroadcastToAllResp_def by (rule validator_validated) (simp add: step_checks)

record pb_ForwardToSessionReq =
  ForwardToSessionReq_SessionId :: string
  ForwardToSessionReq_UserId :: string
  ForwardToSessionReq_DeviceId :: string
  ForwardToSessionReq_MsgId :: string
  ForwardToSessionReq_SeqId :: "64 word"
  ForwardToSessionReq_BizCode :: string
  ForwardToSessionReq_EventType :: string
  ForwardToSessionReq_Delivery :: "pb_Delivery option"
  ForwardToSessionReq_Payload :: "pb_Payload option"
  ForwardToSessionReq_Headers :: "(string, string) gomap"
  ForwardToSessionReq_FromNodeId :: string
  ForwardToSessionReq_HopCount :: int
  ForwardToSessionReq_Reliability :: int
  ForwardToSessionReq_DeliveryTag :: string

definition validate_ForwardToSessionReq :: "bool \<Rightarrow> pb_ForwardToSessionReq option \<Rightarrow> verr option" where
  "validate_ForwardToSessionReq = (\<lambda>all. validated ''ForwardToSessionReq''
     (\<lambda>m. [rule all ''ForwardToSessionReq'' ''SessionId'' ''value length must be at most 128 runes''
            (RuneCountInString (ForwardToSessionReq_SessionId m) > 128),
         rule all ''ForwardToSessionReq'' ''UserId'' ''value length must be at most 128 runes''
            (RuneCountInString (ForwardToSessionReq_UserId m) > 128),
         rule all ''ForwardToSessionReq'' ''DeviceId'' ''value length must be at most 128 runes''
            (RuneCountInString (ForwardToSessionReq_DeviceId m) > 128),
         embedded all ''ForwardToSessionReq'' ''Delivery'' validate_Delivery (ForwardToSessionReq_Delivery m),
         embedded all ''ForwardToSessionReq'' ''Payload'' validate_Payload (ForwardToSessionReq_Payload m)]))"

interpretation v_ForwardToSessionReq: validator validate_ForwardToSessionReq
  unfolding validate_ForwardToSessionReq_def by (rule validator_validated) (simp add: step_checks step_embedded [OF v_Delivery.validator_axioms] step_embedded [OF v_Payload.validator_axioms])

record pb_ForwardToSessionResp =
  ForwardToSessionResp_Status :: int
  ForwardToSessionResp_ErrorCode :: int
  ForwardToSessionResp_ErrorMessage :: string
  ForwardToSessionResp_QueryToken :: string

definition validate_ForwardToSessionResp :: "bool \<Rightarrow> pb_ForwardToSessionResp option \<Rightarrow> verr option" where
  "validate_ForwardToSessionResp = (\<lambda>all. validated ''ForwardToSessionResp''
     (\<lambda>m. []))"

interpretation v_ForwardToSessionResp: validator validate_ForwardToSessionResp
  unfolding validate_ForwardToSessionResp_def by (rule validator_validated) (simp add: step_checks)

record pb_ForwardToRoomReq =
  ForwardToRoomReq_RoomId :: string
  ForwardToRoomReq_BizCode :: string
  ForwardToRoomReq_Delivery :: "pb_Delivery option"
  ForwardToRoomReq_Payload :: "pb_Payload option"
  ForwardToRoomReq_TargetNodeIds :: "string list"
  ForwardToRoomReq_FromNodeId :: string
  ForwardToRoomReq_HopCount :: int

definition validate_ForwardToRoomReq :: "bool \<Rightarrow> pb_ForwardToRoomReq option \<Rightarrow> verr option" where
  "validate_ForwardToRoomReq = (\<lambda>all. validated ''ForwardToRoomReq''
     (\<lambda>m. [rule all ''ForwardToRoomReq'' ''RoomId'' ''value length must be between 1 and 256 runes, inclusive''
            ((let l = RuneCountInString (ForwardToRoomReq_RoomId m) in l < 1 \<or> l > 256)),
         rule all ''ForwardToRoomReq'' ''BizCode'' ''value length must be at most 128 runes''
            (RuneCountInString (ForwardToRoomReq_BizCode m) > 128),
         embedded all ''ForwardToRoomReq'' ''Delivery'' validate_Delivery (ForwardToRoomReq_Delivery m),
         rule all ''ForwardToRoomReq'' ''Payload'' ''value is required''
            (ForwardToRoomReq_Payload m = None),
         embedded all ''ForwardToRoomReq'' ''Payload'' validate_Payload (ForwardToRoomReq_Payload m)]))"

interpretation v_ForwardToRoomReq: validator validate_ForwardToRoomReq
  unfolding validate_ForwardToRoomReq_def by (rule validator_validated) (simp add: step_checks step_embedded [OF v_Delivery.validator_axioms] step_embedded [OF v_Payload.validator_axioms])

record pb_ForwardToRoomResp =
  ForwardToRoomResp_Accepted :: bool
  ForwardToRoomResp_ForwardedNodes :: int
  ForwardToRoomResp_ErrorCode :: int
  ForwardToRoomResp_ErrorMessage :: string

definition validate_ForwardToRoomResp :: "bool \<Rightarrow> pb_ForwardToRoomResp option \<Rightarrow> verr option" where
  "validate_ForwardToRoomResp = (\<lambda>all. validated ''ForwardToRoomResp''
     (\<lambda>m. []))"

interpretation v_ForwardToRoomResp: validator validate_ForwardToRoomResp
  unfolding validate_ForwardToRoomResp_def by (rule validator_validated) (simp add: step_checks)

record pb_KickUserReq =
  KickUserReq_UserId :: string
  KickUserReq_DeviceId :: string
  KickUserReq_Code :: int
  KickUserReq_Reason :: string
  KickUserReq_ReconnectAfter :: int
  KickUserReq_Permanent :: bool

definition validate_KickUserReq :: "bool \<Rightarrow> pb_KickUserReq option \<Rightarrow> verr option" where
  "validate_KickUserReq = (\<lambda>all. validated ''KickUserReq''
     (\<lambda>m. [rule all ''KickUserReq'' ''UserId'' ''value length must be at most 128 runes''
            (RuneCountInString (KickUserReq_UserId m) > 128)]))"

interpretation v_KickUserReq: validator validate_KickUserReq
  unfolding validate_KickUserReq_def by (rule validator_validated) (simp add: step_checks)

record pb_KickUserResp =
  KickUserResp_KickedSessions :: int
  KickUserResp_KickedDevices :: int

definition validate_KickUserResp :: "bool \<Rightarrow> pb_KickUserResp option \<Rightarrow> verr option" where
  "validate_KickUserResp = (\<lambda>all. validated ''KickUserResp''
     (\<lambda>m. []))"

interpretation v_KickUserResp: validator validate_KickUserResp
  unfolding validate_KickUserResp_def by (rule validator_validated) (simp add: step_checks)

record pb_KickSessionReq =
  KickSessionReq_SessionId :: string
  KickSessionReq_Code :: int
  KickSessionReq_Reason :: string

definition validate_KickSessionReq :: "bool \<Rightarrow> pb_KickSessionReq option \<Rightarrow> verr option" where
  "validate_KickSessionReq = (\<lambda>all. validated ''KickSessionReq''
     (\<lambda>m. [rule all ''KickSessionReq'' ''SessionId'' ''value length must be at most 128 runes''
            (RuneCountInString (KickSessionReq_SessionId m) > 128)]))"

interpretation v_KickSessionReq: validator validate_KickSessionReq
  unfolding validate_KickSessionReq_def by (rule validator_validated) (simp add: step_checks)

record pb_KickSessionResp =
  KickSessionResp_Found :: bool
  KickSessionResp_Kicked :: bool
  KickSessionResp_ErrorCode :: int
  KickSessionResp_ErrorMessage :: string

definition validate_KickSessionResp :: "bool \<Rightarrow> pb_KickSessionResp option \<Rightarrow> verr option" where
  "validate_KickSessionResp = (\<lambda>all. validated ''KickSessionResp''
     (\<lambda>m. []))"

interpretation v_KickSessionResp: validator validate_KickSessionResp
  unfolding validate_KickSessionResp_def by (rule validator_validated) (simp add: step_checks)

record pb_KickDeviceReq =
  KickDeviceReq_DeviceId :: string
  KickDeviceReq_Code :: int
  KickDeviceReq_Reason :: string

definition validate_KickDeviceReq :: "bool \<Rightarrow> pb_KickDeviceReq option \<Rightarrow> verr option" where
  "validate_KickDeviceReq = (\<lambda>all. validated ''KickDeviceReq''
     (\<lambda>m. [rule all ''KickDeviceReq'' ''DeviceId'' ''value length must be at most 128 runes''
            (RuneCountInString (KickDeviceReq_DeviceId m) > 128)]))"

interpretation v_KickDeviceReq: validator validate_KickDeviceReq
  unfolding validate_KickDeviceReq_def by (rule validator_validated) (simp add: step_checks)

record pb_KickDeviceResp =
  KickDeviceResp_KickedSessions :: int

definition validate_KickDeviceResp :: "bool \<Rightarrow> pb_KickDeviceResp option \<Rightarrow> verr option" where
  "validate_KickDeviceResp = (\<lambda>all. validated ''KickDeviceResp''
     (\<lambda>m. []))"

interpretation v_KickDeviceResp: validator validate_KickDeviceResp
  unfolding validate_KickDeviceResp_def by (rule validator_validated) (simp add: step_checks)

record pb_DrainNodeReq =
  DrainNodeReq_TimeoutSec :: int
  DrainNodeReq_Graceful :: bool
  DrainNodeReq_Reason :: string

definition validate_DrainNodeReq :: "bool \<Rightarrow> pb_DrainNodeReq option \<Rightarrow> verr option" where
  "validate_DrainNodeReq = (\<lambda>all. validated ''DrainNodeReq''
     (\<lambda>m. []))"

interpretation v_DrainNodeReq: validator validate_DrainNodeReq
  unfolding validate_DrainNodeReq_def by (rule validator_validated) (simp add: step_checks)

record pb_DrainNodeResp =
  DrainNodeResp_Accepted :: bool
  DrainNodeResp_State :: int
  DrainNodeResp_RemainingConnections :: int
  DrainNodeResp_RemainingSessions :: int

definition validate_DrainNodeResp :: "bool \<Rightarrow> pb_DrainNodeResp option \<Rightarrow> verr option" where
  "validate_DrainNodeResp = (\<lambda>all. validated ''DrainNodeResp''
     (\<lambda>m. []))"

interpretation v_DrainNodeResp: validator validate_DrainNodeResp
  unfolding validate_DrainNodeResp_def by (rule validator_validated) (simp add: step_checks)

type_synonym pb_UndrainNodeReq = unit

definition validate_UndrainNodeReq :: "bool \<Rightarrow> pb_UndrainNodeReq option \<Rightarrow> verr option" where
  "validate_UndrainNodeReq = (\<lambda>all. validated ''UndrainNodeReq''
     (\<lambda>m. []))"

interpretation v_UndrainNodeReq: validator validate_UndrainNodeReq
  unfolding validate_UndrainNodeReq_def by (rule validator_validated) (simp add: step_checks)

record pb_UndrainNodeResp =
  UndrainNodeResp_Success :: bool
  UndrainNodeResp_PreviousState :: int

definition validate_UndrainNodeResp :: "bool \<Rightarrow> pb_UndrainNodeResp option \<Rightarrow> verr option" where
  "validate_UndrainNodeResp = (\<lambda>all. validated ''UndrainNodeResp''
     (\<lambda>m. []))"

interpretation v_UndrainNodeResp: validator validate_UndrainNodeResp
  unfolding validate_UndrainNodeResp_def by (rule validator_validated) (simp add: step_checks)

type_synonym pb_GetNodeStatusReq = unit

definition validate_GetNodeStatusReq :: "bool \<Rightarrow> pb_GetNodeStatusReq option \<Rightarrow> verr option" where
  "validate_GetNodeStatusReq = (\<lambda>all. validated ''GetNodeStatusReq''
     (\<lambda>m. []))"

interpretation v_GetNodeStatusReq: validator validate_GetNodeStatusReq
  unfolding validate_GetNodeStatusReq_def by (rule validator_validated) (simp add: step_checks)

record pb_GetNodeStatusResp =
  GetNodeStatusResp_NodeId :: string
  GetNodeStatusResp_NodeAddr :: string
  GetNodeStatusResp_DrainState :: int
  GetNodeStatusResp_ConnectionCount :: int
  GetNodeStatusResp_SessionCount :: int
  GetNodeStatusResp_UserCount :: int
  GetNodeStatusResp_CpuPercent :: "32 word"
  GetNodeStatusResp_MemoryPercent :: "32 word"
  GetNodeStatusResp_GoroutineCount :: int
  GetNodeStatusResp_UpstreamQps :: int
  GetNodeStatusResp_DownstreamQps :: int
  GetNodeStatusResp_BroadcastQps :: int
  GetNodeStatusResp_StartTime :: int

definition validate_GetNodeStatusResp :: "bool \<Rightarrow> pb_GetNodeStatusResp option \<Rightarrow> verr option" where
  "validate_GetNodeStatusResp = (\<lambda>all. validated ''GetNodeStatusResp''
     (\<lambda>m. []))"

interpretation v_GetNodeStatusResp: validator validate_GetNodeStatusResp
  unfolding validate_GetNodeStatusResp_def by (rule validator_validated) (simp add: step_checks)

record pb_GetStatsReq =
  GetStatsReq_WindowSec :: int
  GetStatsReq_IncludeBizBreakdown :: bool
  GetStatsReq_TopRooms :: int

definition validate_GetStatsReq :: "bool \<Rightarrow> pb_GetStatsReq option \<Rightarrow> verr option" where
  "validate_GetStatsReq = (\<lambda>all. validated ''GetStatsReq''
     (\<lambda>m. []))"

interpretation v_GetStatsReq: validator validate_GetStatsReq
  unfolding validate_GetStatsReq_def by (rule validator_validated) (simp add: step_checks)

record pb_GetStatsResp_BizStat =
  GetStatsResp_BizStat_BizCode :: string
  GetStatsResp_BizStat_ConnectionCount :: int
  GetStatsResp_BizStat_SessionCount :: int
  GetStatsResp_BizStat_UpstreamQps :: int
  GetStatsResp_BizStat_DownstreamQps :: int

definition validate_GetStatsResp_BizStat :: "bool \<Rightarrow> pb_GetStatsResp_BizStat option \<Rightarrow> verr option" where
  "validate_GetStatsResp_BizStat = (\<lambda>all. validated ''GetStatsResp_BizStat''
     (\<lambda>m. []))"

interpretation v_GetStatsResp_BizStat: validator validate_GetStatsResp_BizStat
  unfolding validate_GetStatsResp_BizStat_def by (rule validator_validated) (simp add: step_checks)

record pb_GetStatsResp_RoomStat =
  GetStatsResp_RoomStat_RoomId :: string
  GetStatsResp_RoomStat_MemberCount :: int
  GetStatsResp_RoomStat_OnlineCount :: int
  GetStatsResp_RoomStat_MsgQps :: int

definition validate_GetStatsResp_RoomStat :: "bool \<Rightarrow> pb_GetStatsResp_RoomStat option \<Rightarrow> verr option" where
  "validate_GetStatsResp_RoomStat = (\<lambda>all. validated ''GetStatsResp_RoomStat''
     (\<lambda>m. []))"

interpretation v_GetStatsResp_RoomStat: validator validate_GetStatsResp_RoomStat
  unfolding validate_GetStatsResp_RoomStat_def by (rule validator_validated) (simp add: step_checks)

record pb_GetStatsResp =
  GetStatsResp_TotalNodes :: int
  GetStatsResp_TotalConnections :: int
  GetStatsResp_TotalSessions :: int
  GetStatsResp_TotalUsers :: int
  GetStatsResp_UpstreamQps :: int
  GetStatsResp_DownstreamQps :: int
  GetStatsResp_BroadcastQps :: int
  GetStatsResp_BizStats :: "pb_GetStatsResp_BizStat option list"
  GetStatsResp_RoomStats :: "pb_GetStatsResp_RoomStat option list"

definition validate_GetStatsResp :: "bool \<Rightarrow> pb_GetStatsResp option \<Rightarrow> verr option" where
  "validate_GetStatsResp = (\<lambda>all. validated ''GetStatsResp''
     (\<lambda>m. [embedded_each all ''GetStatsResp'' ''BizStats'' validate_GetStatsResp_BizStat (GetStatsResp_BizStats m),
         embedded_each all ''GetStatsResp'' ''RoomStats'' validate_GetStatsResp_RoomStat (GetStatsResp_RoomStats m)]))"

interpretation v_GetStatsResp: validator validate_GetStatsResp
  unfolding validate_GetStatsResp_def by (rule validator_validated) (simp add: step_checks step_embedded_each [OF v_GetStatsResp_BizStat.validator_axioms] step_embedded_each [OF v_GetStatsResp_RoomStat.validator_axioms])

record pb_GetBizStatsReq =
  GetBizStatsReq_BizCode :: string

definition validate_GetBizStatsReq :: "bool \<Rightarrow> pb_GetBizStatsReq option \<Rightarrow> verr option" where
  "validate_GetBizStatsReq = (\<lambda>all. validated ''GetBizStatsReq''
     (\<lambda>m. [rule all ''GetBizStatsReq'' ''BizCode'' ''value length must be at most 128 runes''
            (RuneCountInString (GetBizStatsReq_BizCode m) > 128)]))"

interpretation v_GetBizStatsReq: validator validate_GetBizStatsReq
  unfolding validate_GetBizStatsReq_def by (rule validator_validated) (simp add: step_checks)

record pb_GetBizStatsResp =
  GetBizStatsResp_BizCode :: string
  GetBizStatsResp_ConnectionCount :: int
  GetBizStatsResp_SessionCount :: int
  GetBizStatsResp_UserCount :: int
  GetBizStatsResp_UpstreamQps :: int
  GetBizStatsResp_DownstreamQps :: int
  GetBizStatsResp_OfflineQueueSize :: int

definition validate_GetBizStatsResp :: "bool \<Rightarrow> pb_GetBizStatsResp option \<Rightarrow> verr option" where
  "validate_GetBizStatsResp = (\<lambda>all. validated ''GetBizStatsResp''
     (\<lambda>m. []))"

interpretation v_GetBizStatsResp: validator validate_GetBizStatsResp
  unfolding validate_GetBizStatsResp_def by (rule validator_validated) (simp add: step_checks)

record pb_GetRoomStatsReq =
  GetRoomStatsReq_RoomId :: string

definition validate_GetRoomStatsReq :: "bool \<Rightarrow> pb_GetRoomStatsReq option \<Rightarrow> verr option" where
  "validate_GetRoomStatsReq = (\<lambda>all. validated ''GetRoomStatsReq''
     (\<lambda>m. [rule all ''GetRoomStatsReq'' ''RoomId'' ''value length must be between 1 and 256 runes, inclusive''
            ((let l = RuneCountInString (GetRoomStatsReq_RoomId m) in l < 1 \<or> l > 256))]))"

interpretation v_GetRoomStatsReq: validator validate_GetRoomStatsReq
  unfolding validate_GetRoomStatsReq_def by (rule validator_validated) (simp add: step_checks)

record pb_GetRoomStatsResp =
  GetRoomStatsResp_RoomId :: string
  GetRoomStatsResp_TotalMembers :: int
  GetRoomStatsResp_OnlineMembers :: int
  GetRoomStatsResp_NodeIds :: "string list"
  GetRoomStatsResp_MsgQps :: int

definition validate_GetRoomStatsResp :: "bool \<Rightarrow> pb_GetRoomStatsResp option \<Rightarrow> verr option" where
  "validate_GetRoomStatsResp = (\<lambda>all. validated ''GetRoomStatsResp''
     (\<lambda>m. []))"

interpretation v_GetRoomStatsResp: validator validate_GetRoomStatsResp
  unfolding validate_GetRoomStatsResp_def by (rule validator_validated) (simp add: step_checks)

record pb_QueryRouteReq =
  QueryRouteReq_UserId :: string
  QueryRouteReq_DeviceId :: string

definition validate_QueryRouteReq :: "bool \<Rightarrow> pb_QueryRouteReq option \<Rightarrow> verr option" where
  "validate_QueryRouteReq = (\<lambda>all. validated ''QueryRouteReq''
     (\<lambda>m. [rule all ''QueryRouteReq'' ''UserId'' ''value length must be at most 128 runes''
            (RuneCountInString (QueryRouteReq_UserId m) > 128)]))"

interpretation v_QueryRouteReq: validator validate_QueryRouteReq
  unfolding validate_QueryRouteReq_def by (rule validator_validated) (simp add: step_checks)

record pb_QueryRouteResp_RouteInfo =
  QueryRouteResp_RouteInfo_DeviceId :: string
  QueryRouteResp_RouteInfo_NodeId :: string
  QueryRouteResp_RouteInfo_NodeAddr :: string
  QueryRouteResp_RouteInfo_SessionId :: string
  QueryRouteResp_RouteInfo_ConnId :: string
  QueryRouteResp_RouteInfo_State :: string
  QueryRouteResp_RouteInfo_LastActiveAt :: int
  QueryRouteResp_RouteInfo_ConnectTime :: int

definition validate_QueryRouteResp_RouteInfo :: "bool \<Rightarrow> pb_QueryRouteResp_RouteInfo option \<Rightarrow> verr option" where
  "validate_QueryRouteResp_RouteInfo = (\<lambda>all. validated ''QueryRouteResp_RouteInfo''
     (\<lambda>m. []))"

interpretation v_QueryRouteResp_RouteInfo: validator validate_QueryRouteResp_RouteInfo
  unfolding validate_QueryRouteResp_RouteInfo_def by (rule validator_validated) (simp add: step_checks)

record pb_QueryRouteResp =
  QueryRouteResp_Found :: bool
  QueryRouteResp_Routes :: "pb_QueryRouteResp_RouteInfo option list"

definition validate_QueryRouteResp :: "bool \<Rightarrow> pb_QueryRouteResp option \<Rightarrow> verr option" where
  "validate_QueryRouteResp = (\<lambda>all. validated ''QueryRouteResp''
     (\<lambda>m. [embedded_each all ''QueryRouteResp'' ''Routes'' validate_QueryRouteResp_RouteInfo (QueryRouteResp_Routes m)]))"

interpretation v_QueryRouteResp: validator validate_QueryRouteResp
  unfolding validate_QueryRouteResp_def by (rule validator_validated) (simp add: step_checks step_embedded_each [OF v_QueryRouteResp_RouteInfo.validator_axioms])

record pb_QuerySessionReq =
  QuerySessionReq_SessionId :: string

definition validate_QuerySessionReq :: "bool \<Rightarrow> pb_QuerySessionReq option \<Rightarrow> verr option" where
  "validate_QuerySessionReq = (\<lambda>all. validated ''QuerySessionReq''
     (\<lambda>m. [rule all ''QuerySessionReq'' ''SessionId'' ''value length must be at most 128 runes''
            (RuneCountInString (QuerySessionReq_SessionId m) > 128)]))"

interpretation v_QuerySessionReq: validator validate_QuerySessionReq
  unfolding validate_QuerySessionReq_def by (rule validator_validated) (simp add: step_checks)

record pb_QuerySessionResp =
  QuerySessionResp_Found :: bool
  QuerySessionResp_UserId :: string
  QuerySessionResp_DeviceId :: string
  QuerySessionResp_State :: string
  QuerySessionResp_LastActiveAt :: int
  QuerySessionResp_CreateTime :: int
  QuerySessionResp_BizCode :: string
  QuerySessionResp_Rooms :: "string list"
  QuerySessionResp_Topics :: "string list"
  QuerySessionResp_ConnId :: string
  QuerySessionResp_RemoteAddr :: string
  QuerySessionResp_DeviceType :: string

definition validate_QuerySessionResp :: "bool \<Rightarrow> pb_QuerySessionResp option \<Rightarrow> verr option" where
  "validate_QuerySessionResp = (\<lambda>all. validated ''QuerySessionResp''
     (\<lambda>m. []))"

interpretation v_QuerySessionResp: validator validate_QuerySessionResp
  unfolding validate_QuerySessionResp_def by (rule validator_validated) (simp add: step_checks)

record pb_ListSessionsReq =
  ListSessionsReq_UserId :: string
  ListSessionsReq_RoomId :: string
  ListSessionsReq_Topic :: string
  ListSessionsReq_BizCode :: string
  ListSessionsReq_Page :: int
  ListSessionsReq_PageSize :: int

definition validate_ListSessionsReq :: "bool \<Rightarrow> pb_ListSessionsReq option \<Rightarrow> verr option" where
  "validate_ListSessionsReq = (\<lambda>all. validated ''ListSessionsReq''
     (\<lambda>m. [rule all ''ListSessionsReq'' ''Page'' ''value must be greater than or equal to 1''
            (ListSessionsReq_Page m < 1),
         rule all ''ListSessionsReq'' ''PageSize'' ''value must be inside range [1, 1000]''
            ((let val = ListSessionsReq_PageSize m in val < 1 \<or> val > 1000))]))"

interpretation v_ListSessionsReq: validator validate_ListSessionsReq
  unfolding validate_ListSessionsReq_def by (rule validator_validated) (simp add: step_checks)

record pb_ListSessionsResp_SessionItem =
  ListSessionsResp_SessionItem_SessionId :: string
  ListSessionsResp_SessionItem_UserId :: string
  ListSessionsResp_SessionItem_DeviceId :: string
  ListSessionsResp_SessionItem_State :: string
  ListSessionsResp_SessionItem_LastActiveAt :: int
  ListSessionsResp_SessionItem_NodeId :: string

definition validate_ListSessionsResp_SessionItem :: "bool \<Rightarrow> pb_ListSessionsResp_SessionItem option \<Rightarrow> verr option" where
  "validate_ListSessionsResp_SessionItem = (\<lambda>all. validated ''ListSessionsResp_SessionItem''
     (\<lambda>m. []))"

interpretation v_ListSessionsResp_SessionItem: validator validate_ListSessionsResp_SessionItem
  unfolding validate_ListSessionsResp_SessionItem_def by (rule validator_validated) (simp add: step_checks)

record pb_ListSessionsResp =
  ListSessionsResp_Total :: int
  ListSessionsResp_Page :: int
  ListSessionsResp_PageSize :: int
  ListSessionsResp_Items :: "pb_ListSessionsResp_SessionItem option list"

definition validate_ListSessionsResp :: "bool \<Rightarrow> pb_ListSessionsResp option \<Rightarrow> verr option" where
  "validate_ListSessionsResp = (\<lambda>all. validated ''ListSessionsResp''
     (\<lambda>m. [embedded_each all ''ListSessionsResp'' ''Items'' validate_ListSessionsResp_SessionItem (ListSessionsResp_Items m)]))"

interpretation v_ListSessionsResp: validator validate_ListSessionsResp
  unfolding validate_ListSessionsResp_def by (rule validator_validated) (simp add: step_checks step_embedded_each [OF v_ListSessionsResp_SessionItem.validator_axioms])

end
