(* ===== verification/Delivery_Path.thy ===== *)
theory Delivery_Path
  imports Downlink
begin

text \<open>
  From the downlink chain to the wire. A fan-out puts a message into write queues; here is shown what it leaves alone
  on the way, so that what the write loop of a connection then encodes is the message that was sent: submitting
  changes the sequence number of a message and nothing else of any message, and nothing on any wire.
\<close>

text \<open>A message without its sequence number, which every connection sets anew.\<close>

definition content :: "Message \<Rightarrow> Message" where
  "content m = m\<lparr>m_SeqId := 0\<rparr>"

definition delivery_kept :: "world \<Rightarrow> world \<Rightarrow> bool" where
  "delivery_kept w w' \<longleftrightarrow>
     (\<forall>r. content (msg_of w' r) = content (msg_of w r))
   \<and> (\<forall>c. cn_wire (wd_conns w' c) = cn_wire (wd_conns w c) \<and> (conn_ok (wd_conns w c) \<longrightarrow> conn_ok (wd_conns w' c)))"

lemma delivery_kept_refl [simp, intro]: "delivery_kept w w"
  by (simp add: delivery_kept_def)

lemma delivery_kept_trans: "delivery_kept w w1 \<Longrightarrow> delivery_kept w1 w' \<Longrightarrow> delivery_kept w w'"
  by (simp add: delivery_kept_def)

lemma delivery_kept_same: "msg_of w' = msg_of w \<Longrightarrow> wd_conns w' = wd_conns w \<Longrightarrow> delivery_kept w w'"
  by (simp add: delivery_kept_def)

lemma offline_Store_kept: "delivery_kept w (snd (offline_Store m w))"
  by (rule delivery_kept_same) (simp_all add: offline_Store_def msg_of_def fun_eq_iff)

lemma world_conn_Submit_kept: "delivery_kept w (snd (world_conn_Submit c m w))"
proof -
  have "conn_ok (wd_conns w c) \<Longrightarrow> conn_ok (fst (snd (conn_Submit m (wd_conns w c, wd_heap w))))" by (rule conn_ok_Submit)
  then show ?thesis
    by (auto simp: delivery_kept_def world_conn_Submit_def conn_Submit_def Let_def msg_of_def content_def split: send_result.split)
qed

lemma handleUndelivered_kept: "sess_handleUndelivered s m w = Ret u w' \<Longrightarrow> delivery_kept w w'"
  by (auto simp: sess_handleUndelivered_def offline_Store_kept split: option.splits if_splits)

lemma sess_Submit_kept:
  assumes "sess_Submit s m w = Ret b w'"
  shows "delivery_kept w w'"
proof (cases "\<exists>c. se_conn (wd_sess w s) = Some c \<and> conn_IsActive (wd_conns w c)")
  case False
  then have "sess_Submit s m w = bindG (sess_handleUndelivered s m) (\<lambda>_. retG False) w"
    by (auto intro!: sess_Submit_offline split: option.splits)
  with assms show ?thesis
    by (auto simp: bindG_def retG_def handleUndelivered_kept split: res.splits)
next
  case True
  then obtain c where c: "se_conn (wd_sess w s) = Some c" "conn_IsActive (wd_conns w c)" by blast
  obtain ok w1 where r: "world_conn_Submit c m w = (ok, w1)" by (cases "world_conn_Submit c m w")
  have k: "delivery_kept w w1" using world_conn_Submit_kept [of w c m] r by simp
  have "delivery_kept w1 w'"
    using assms unfolding sess_Submit_active [OF c r]
    by (auto simp: Let_def bindG_def retG_def msg_of_def fun_eq_iff
        intro: delivery_kept_same handleUndelivered_kept split: if_splits res.splits)
  with k show ?thesis by (rule delivery_kept_trans)
qed

lemma fanout_loop_kept: "fanout_loop store m targets res w = Ret res' w' \<Longrightarrow> delivery_kept w w'"
proof (induction targets arbitrary: res w)
  case (Cons s rest)
  obtain b w1 where b: "sess_Submit s m w = Ret b w1"
    using Cons.prems by (auto simp: bindG_def split: res.splits)
  have "\<exists>w2 res2. delivery_kept w1 w2 \<and> fanout_loop store m rest res2 w2 = Ret res' w'"
    using Cons.prems b offline_Store_kept [of w1 m]
    by (auto simp: bindG_def Let_def split: if_splits option.splits)
  with Cons.IH sess_Submit_kept [OF b] show ?case by (blast intro: delivery_kept_trans)
qed simp

text \<open>What the write loop then puts on the wire: the codec's frames of the queued messages, in order.\<close>

lemma writeLoop_frames:
  assumes "conn_ok c" and enc: "\<And>r. r \<in> set (ch_buf (cn_writeCh c)) \<Longrightarrow> \<exists>d. FrameCodec_Encode L fc (mh_obj h r) = Inr d"
  shows "\<exists>frames. cn_wire (snd (writeLoop (Suc (length (ch_buf (cn_writeCh c)))) L fc h c)) = cn_wire c @ frames
    \<and> list_all2 (\<lambda>r d. FrameCodec_Encode L fc (mh_obj h r) = Inr d) (ch_buf (cn_writeCh c)) frames"
proof -
  obtain e where e: "FrameCodec_Encode L fc (mh_obj h r) = Inr (e r)" if "r \<in> set (ch_buf (cn_writeCh c))" for r
    using enc by metis
  have "cn_wire (snd (writeLoop (Suc (length (ch_buf (cn_writeCh c)))) L fc h c)) = cn_wire c @ map e (ch_buf (cn_writeCh c))"
    using writeLoop_queue [OF assms(1) e] by (simp split: prod.splits)
  moreover have "list_all2 (\<lambda>r d. FrameCodec_Encode L fc (mh_obj h r) = Inr d) (ch_buf (cn_writeCh c)) (map e (ch_buf (cn_writeCh c)))"
    using e by (simp add: list_all2_map2 list.rel_refl_strong)
  ultimately show ?thesis by blast
qed

end
