(* ===== verification/Go_Url.thy ===== *)
theory Go_Url
  imports Go_Prelude
begin

text \<open>
  The part of the standard library's \<open>net/url\<close> that the SDK uses to turn an address into the address of a
  WebSocket: \<open>Parse\<close>, \<open>Port\<close> and \<open>String\<close>. A string is a list of bytes. An error of the library is \<open>None\<close>, because
  its caller does not look at it. What recent releases check in addition inside the brackets of an IPv6 literal is not
  modelled.
\<close>

section \<open>Strings\<close>

text \<open>\<open>strings.Cut\<close> at a byte, \<open>strings.LastIndexByte\<close>, \<open>strings.Index\<close>.\<close>

definition cut_at :: "char \<Rightarrow> string \<Rightarrow> string \<times> string" where
  "cut_at c s = (takeWhile (\<lambda>x. x \<noteq> c) s, tl (dropWhile (\<lambda>x. x \<noteq> c) s))"

definition last_index :: "char \<Rightarrow> string \<Rightarrow> nat option" where
  "last_index c s = (if c \<in> set s then Some (length s - Suc (length (takeWhile (\<lambda>x. x \<noteq> c) (rev s)))) else None)"

fun has_prefix :: "string \<Rightarrow> string \<Rightarrow> bool" where
  "has_prefix [] s = True"
| "has_prefix (p # ps) [] = False"
| "has_prefix (p # ps) (c # s) = (p = c \<and> has_prefix ps s)"

fun sub_index :: "string \<Rightarrow> string \<Rightarrow> nat option" where
  "sub_index p s = (if has_prefix p s then Some 0 else (case s of [] \<Rightarrow> None | c # s' \<Rightarrow> map_option Suc (sub_index p s')))"

declare sub_index.simps [simp del]

definition is_lower :: "char \<Rightarrow> bool" where
  "is_lower c \<longleftrightarrow> 97 \<le> (of_char c :: nat) \<and> (of_char c :: nat) \<le> 122"

definition is_upper :: "char \<Rightarrow> bool" where
  "is_upper c \<longleftrightarrow> 65 \<le> (of_char c :: nat) \<and> (of_char c :: nat) \<le> 90"

definition is_digit :: "char \<Rightarrow> bool" where
  "is_digit c \<longleftrightarrow> 48 \<le> (of_char c :: nat) \<and> (of_char c :: nat) \<le> 57"

definition to_lower :: "char \<Rightarrow> char" where
  "to_lower c = (if is_upper c then char_of ((of_char c :: nat) + 32) else c)"

section \<open>Escaping\<close>

datatype encoding = EncodePath | EncodeHost | EncodeZone | EncodeUserPassword | EncodeFragment

definition should_escape :: "encoding \<Rightarrow> char \<Rightarrow> bool" where
  "should_escape mode c =
     (if is_lower c \<or> is_upper c \<or> is_digit c then False
      else if (mode = EncodeHost \<or> mode = EncodeZone) \<and> c \<in> set ''!$&()*+,;=:[]<>'' \<union> {CHR 0x27, CHR 0x22} then False
      else if c \<in> set ''-_.~'' then False
      else if c \<in> set ''$&+,/:;=?@'' then
        (case mode of
           EncodePath \<Rightarrow> c = CHR ''?''
         | EncodeUserPassword \<Rightarrow> c \<in> set ''@/?:''
         | EncodeFragment \<Rightarrow> False
         | _ \<Rightarrow> True)
      else if mode = EncodeFragment \<and> c \<in> set ''!()*'' then False
      else True)"

definition hex_value :: "char \<Rightarrow> nat option" where
  "hex_value c =
     (let n = (of_char c :: nat)
      in if is_digit c then Some (n - 48)
         else if 97 \<le> n \<and> n \<le> 102 then Some (n - 87)
         else if 65 \<le> n \<and> n \<le> 70 then Some (n - 55)
         else None)"

fun unescape :: "encoding \<Rightarrow> string \<Rightarrow> string option" where
  "unescape mode [] = Some []"
| "unescape mode (c # s) =
     (if c = CHR ''%'' then
        (case s of
           a # b # s' \<Rightarrow>
             (case (hex_value a, hex_value b) of
                (Some x, Some y) \<Rightarrow>
                  if mode = EncodeHost \<and> x < 8 \<and> \<not> (a = CHR ''2'' \<and> b = CHR ''5'') then None
                  else if mode = EncodeZone \<and> \<not> (a = CHR ''2'' \<and> b = CHR ''5'') \<and> 16 * x + y \<noteq> 32
                      \<and> should_escape EncodeHost (char_of (16 * x + y)) then None
                  else map_option ((#) (char_of (16 * x + y))) (unescape mode s')
              | _ \<Rightarrow> None)
         | _ \<Rightarrow> None)
      else if (mode = EncodeHost \<or> mode = EncodeZone) \<and> (of_char c :: nat) < 128 \<and> should_escape mode c then None
      else map_option ((#) c) (unescape mode s))"

definition hex_digit :: "nat \<Rightarrow> char" where
  "hex_digit n = ''0123456789ABCDEF'' ! n"

definition escape :: "encoding \<Rightarrow> string \<Rightarrow> string" where
  "escape mode s =
     concat (map (\<lambda>c. if should_escape mode c then [CHR ''%'', hex_digit ((of_char c :: nat) div 16), hex_digit ((of_char c :: nat) mod 16)] else [c]) s)"

definition valid_encoded :: "encoding \<Rightarrow> string \<Rightarrow> bool" where
  "valid_encoded mode s \<longleftrightarrow> list_all (\<lambda>c. c \<in> set ''!$&()*+,;=:@[]%'' \<union> {CHR 0x27} \<or> \<not> should_escape mode c) s"

section \<open>Parsing\<close>

record URL =
  url_Scheme :: string
  url_Opaque :: string
  url_User :: "(string \<times> string option) option"
  url_Host :: string
  url_Path :: string
  url_RawPath :: string
  url_OmitHost :: bool
  url_ForceQuery :: bool
  url_RawQuery :: string
  url_Fragment :: string
  url_RawFragment :: string

definition new_URL :: URL where
  "new_URL = \<lparr>url_Scheme = '''', url_Opaque = '''', url_User = None, url_Host = '''', url_Path = '''', url_RawPath = '''',
     url_OmitHost = False, url_ForceQuery = False, url_RawQuery = '''', url_Fragment = '''', url_RawFragment = ''''\<rparr>"

text \<open>\<open>getScheme\<close>: \<open>acc\<close> holds the bytes before the position that is looked at.\<close>

fun get_scheme :: "string \<Rightarrow> string \<Rightarrow> (string \<times> string) option" where
  "get_scheme acc [] = Some ('''', acc)"
| "get_scheme acc (c # s) =
     (if is_lower c \<or> is_upper c then get_scheme (acc @ [c]) s
      else if is_digit c \<or> c \<in> set ''+-.'' then (if acc = [] then Some ('''', acc @ c # s) else get_scheme (acc @ [c]) s)
      else if c = CHR '':'' then (if acc = [] then None else Some (acc, s))
      else Some ('''', acc @ c # s))"

definition valid_optional_port :: "string \<Rightarrow> bool" where
  "valid_optional_port port \<longleftrightarrow> (case port of [] \<Rightarrow> True | c # s \<Rightarrow> c = CHR '':'' \<and> list_all is_digit s)"

definition parse_host :: "string \<Rightarrow> string option" where
  "parse_host host =
     (if has_prefix ''['' host then
        (case last_index (CHR '']'') host of
           None \<Rightarrow> None
         | Some i \<Rightarrow>
             if \<not> valid_optional_port (drop (Suc i) host) then None
             else
               (case sub_index ''%25'' (take i host) of
                  Some zone \<Rightarrow>
                    (case (unescape EncodeHost (take zone host), unescape EncodeZone (take (i - zone) (drop zone host)),
                           unescape EncodeHost (drop i host)) of
                       (Some host1, Some host2, Some host3) \<Rightarrow> Some (host1 @ host2 @ host3)
                     | _ \<Rightarrow> None)
                | None \<Rightarrow> unescape EncodeHost host))
      else
        (case last_index (CHR '':'') host of
           Some i \<Rightarrow> if valid_optional_port (drop i host) then unescape EncodeHost host else None
         | None \<Rightarrow> unescape EncodeHost host))"

definition valid_userinfo :: "string \<Rightarrow> bool" where
  "valid_userinfo s \<longleftrightarrow> list_all (\<lambda>c. is_lower c \<or> is_upper c \<or> is_digit c \<or> c \<in> set ''-._:~!$&()*+,;=%@'' \<union> {CHR 0x27}) s"

definition parse_authority :: "string \<Rightarrow> ((string \<times> string option) option \<times> string) option" where
  "parse_authority authority =
     (case last_index (CHR ''@'') authority of
        None \<Rightarrow> map_option (\<lambda>host. (None, host)) (parse_host authority)
      | Some i \<Rightarrow>
          (case parse_host (drop (Suc i) authority) of
             None \<Rightarrow> None
           | Some host \<Rightarrow>
               (let userinfo = take i authority
                in if \<not> valid_userinfo userinfo then None
                   else if CHR '':'' \<notin> set userinfo then
                     map_option (\<lambda>u. (Some (u, None), host)) (unescape EncodeUserPassword userinfo)
                   else
                     (case cut_at (CHR '':'') userinfo of
                        (username, password) \<Rightarrow>
                          (case (unescape EncodeUserPassword username, unescape EncodeUserPassword password) of
                             (Some u, Some p) \<Rightarrow> Some (Some (u, Some p), host)
                           | _ \<Rightarrow> None)))))"

definition set_path :: "string \<Rightarrow> URL \<Rightarrow> URL option" where
  "set_path p u =
     map_option (\<lambda>path. u\<lparr>url_Path := path, url_RawPath := if p = escape EncodePath path then '''' else p\<rparr>)
       (unescape EncodePath p)"

definition set_fragment :: "string \<Rightarrow> URL \<Rightarrow> URL option" where
  "set_fragment f u =
     map_option (\<lambda>frag. u\<lparr>url_Fragment := frag, url_RawFragment := if f = escape EncodeFragment frag then '''' else f\<rparr>)
       (unescape EncodeFragment f)"

definition is_ctl :: "char \<Rightarrow> bool" where
  "is_ctl c \<longleftrightarrow> (of_char c :: nat) < 32 \<or> (of_char c :: nat) = 127"

text \<open>\<open>parse\<close> after the scheme has been taken off.\<close>

definition parse_rest :: "string \<Rightarrow> string \<Rightarrow> URL option" where
  "parse_rest scheme rest0 =
     (let force = rest0 \<noteq> [] \<and> last rest0 = CHR ''?'' \<and> count_list rest0 (CHR ''?'') = 1;
          rest = fst (cut_at (CHR ''?'') rest0);
          u = new_URL\<lparr>url_Scheme := map to_lower scheme, url_ForceQuery := force,
                      url_RawQuery := if force then '''' else snd (cut_at (CHR ''?'') rest0)\<rparr>
      in if \<not> has_prefix ''/'' rest \<and> scheme \<noteq> '''' then Some (u\<lparr>url_Opaque := rest\<rparr>)
         else if \<not> has_prefix ''/'' rest \<and> CHR '':'' \<in> set (fst (cut_at (CHR ''/'') rest)) then None
         else if (scheme \<noteq> '''' \<or> \<not> has_prefix ''///'' rest) \<and> has_prefix ''//'' rest then
           (let authority = takeWhile (\<lambda>c. c \<noteq> CHR ''/'') (drop 2 rest);
                path = dropWhile (\<lambda>c. c \<noteq> CHR ''/'') (drop 2 rest)
            in case parse_authority authority of
                 None \<Rightarrow> None
               | Some (user, host) \<Rightarrow> set_path path (u\<lparr>url_User := user, url_Host := host\<rparr>))
         else set_path rest (u\<lparr>url_OmitHost := scheme \<noteq> '''' \<and> has_prefix ''/'' rest\<rparr>))"

definition url_parse :: "string \<Rightarrow> URL option" where
  "url_parse rawURL =
     (if list_ex is_ctl rawURL then None
      else if rawURL = ''*'' then Some (new_URL\<lparr>url_Path := ''*''\<rparr>)
      else (case get_scheme [] rawURL of None \<Rightarrow> None | Some (scheme, rest) \<Rightarrow> parse_rest scheme rest))"

definition url_Parse :: "string \<Rightarrow> URL option" where
  "url_Parse rawURL =
     (case cut_at (CHR ''#'') rawURL of
        (u, frag) \<Rightarrow>
          (case url_parse u of
             None \<Rightarrow> None
           | Some url \<Rightarrow> if frag = '''' then Some url else set_fragment frag url))"

section \<open>Printing\<close>

definition host_port :: "string \<Rightarrow> string" where
  "host_port host =
     (case last_index (CHR '':'') host of
        Some colon \<Rightarrow> if valid_optional_port (drop colon host) then drop (Suc colon) host else ''''
      | None \<Rightarrow> '''')"

definition url_Port :: "URL \<Rightarrow> string" where
  "url_Port u = host_port (url_Host u)"

definition escaped :: "encoding \<Rightarrow> string \<Rightarrow> string \<Rightarrow> string" where
  "escaped mode raw s =
     (if raw \<noteq> '''' \<and> valid_encoded mode raw \<and> unescape mode raw = Some s then raw
      else if mode = EncodePath \<and> s = ''*'' then ''*''
      else escape mode s)"

definition userinfo_String :: "string \<times> string option \<Rightarrow> string" where
  "userinfo_String ui =
     escape EncodeUserPassword (fst ui) @ (case snd ui of None \<Rightarrow> '''' | Some p \<Rightarrow> '':'' @ escape EncodeUserPassword p)"

definition url_authority :: "URL \<Rightarrow> string" where
  "url_authority u =
     (if (url_Scheme u \<noteq> '''' \<or> url_Host u \<noteq> '''' \<or> url_User u \<noteq> None)
         \<and> \<not> (url_OmitHost u \<and> url_Host u = '''' \<and> url_User u = None) then
        (if url_Host u \<noteq> '''' \<or> url_Path u \<noteq> '''' \<or> url_User u \<noteq> None then ''//'' else '''')
        @ (case url_User u of None \<Rightarrow> '''' | Some ui \<Rightarrow> userinfo_String ui @ ''@'')
        @ escape EncodeHost (url_Host u)
      else '''')"

definition url_String :: "URL \<Rightarrow> string" where
  "url_String u =
     (let scheme = (if url_Scheme u \<noteq> '''' then url_Scheme u @ '':'' else '''')
      in (if url_Opaque u \<noteq> '''' then scheme @ url_Opaque u
          else
            (let start = scheme @ url_authority u;
                 path = escaped EncodePath (url_RawPath u) (url_Path u)
             in start
                @ (if path \<noteq> '''' \<and> hd path \<noteq> CHR ''/'' \<and> url_Host u \<noteq> '''' then ''/''
                   else if start = '''' \<and> CHR '':'' \<in> set (fst (cut_at (CHR ''/'') path)) then ''./'' else '''')
                @ path)))
     @ (if url_ForceQuery u \<or> url_RawQuery u \<noteq> '''' then ''?'' @ url_RawQuery u else '''')
     @ (if url_Fragment u \<noteq> '''' then ''#'' @ escaped EncodeFragment (url_RawFragment u) (url_Fragment u) else '''')"

end
