(* ===== verification/Sdk_Url.thy ===== *)
theory Sdk_Url
  imports Go_Url Sdk_Run
begin

text \<open>
  The address that the WebSocket client of the SDK dials (\<open>src/sdk/ws/client.go\<close>): \<open>getWsURL\<close> on the configured
  address with the path of the gateway's endpoint, and what it makes of the forms an address can have.
\<close>

definition ws_endpoint :: string where
  "ws_endpoint = ''/v1/ws/connect''"

definition getWsURL :: "string \<Rightarrow> string" where
  "getWsURL addr =
     (if addr = '''' then ''''
      else if length addr > 2 \<and> take 2 addr = ''ws'' then addr
      else
        (case url_Parse addr of
           None \<Rightarrow> ''ws://'' @ addr
         | Some u \<Rightarrow>
             (let u1 = (if url_Scheme u = ''http'' then u\<lparr>url_Scheme := ''ws''\<rparr>
                        else if url_Scheme u = ''https'' then u\<lparr>url_Scheme := ''wss''\<rparr> else u);
                  u2 = (if url_Port u1 = '''' then
                          (if url_Scheme u1 = ''ws'' then u1\<lparr>url_Host := url_Host u1 @ '':80''\<rparr>
                           else u1\<lparr>url_Host := url_Host u1 @ '':443''\<rparr>)
                        else u1)
              in url_String u2)))"

section \<open>Addresses of hosts\<close>

definition name_char :: "char \<Rightarrow> bool" where
  "name_char c \<longleftrightarrow> is_lower c \<or> is_upper c \<or> is_digit c \<or> c = CHR ''-'' \<or> c = CHR ''.''"

definition host_char :: "char \<Rightarrow> bool" where
  "host_char c \<longleftrightarrow> name_char c \<or> c = CHR '':''"

lemmas char_class_defs = name_char_def host_char_def is_lower_def is_upper_def is_digit_def is_ctl_def

lemma digit_name: "is_digit c \<Longrightarrow> name_char c"
  by (simp add: name_char_def)

lemma host_char_not [simp]:
  "\<not> host_char (CHR ''#'')" "\<not> host_char (CHR ''?'')" "\<not> host_char (CHR ''/'')" "\<not> host_char (CHR ''@'')"
  "\<not> host_char (CHR ''%'')" "\<not> host_char (CHR ''['')"
  by (simp_all add: char_class_defs)

lemma host_char_plain: "host_char c \<Longrightarrow> \<not> is_ctl c"
  by (auto simp: char_class_defs)

lemma name_char_colon: "name_char c \<Longrightarrow> c \<noteq> CHR '':''"
  by (auto simp: char_class_defs)

lemma host_char_host: "host_char c \<Longrightarrow> \<not> should_escape EncodeHost c"
  by (auto simp: should_escape_def host_char_def name_char_def)

lemma unescape_plain:
  "list_all (\<lambda>c. c \<noteq> CHR ''%'' \<and> ((mode = EncodeHost \<or> mode = EncodeZone) \<longrightarrow> \<not> should_escape mode c)) s \<Longrightarrow> unescape mode s = Some s"
  by (induction s) auto

lemma unescape_host: "list_all host_char s \<Longrightarrow> unescape EncodeHost s = Some s"
  by (rule unescape_plain) (auto simp: list_all_iff host_char_host)

lemma escape_plain: "list_all (\<lambda>c. \<not> should_escape mode c) s \<Longrightarrow> escape mode s = s"
  unfolding escape_def by (induction s) auto

lemma escape_host: "list_all host_char s \<Longrightarrow> escape EncodeHost s = s"
  by (rule escape_plain) (auto simp: list_all_iff host_char_host)

lemma escape_colon: "escape mode (s @ t) = escape mode s @ escape mode t"
  by (simp add: escape_def)

text \<open>The text after a separator that does not occur before it.\<close>

lemma last_index_none: "c \<notin> set s \<Longrightarrow> last_index c s = None"
  by (simp add: last_index_def)

lemma last_index_append: "c \<notin> set t \<Longrightarrow> last_index c (s @ c # t) = Some (length s)"
proof -
  assume "c \<notin> set t"
  then have "takeWhile (\<lambda>x. x \<noteq> c) (rev t @ c # rev s) = rev t"
    by (subst takeWhile_append2) auto
  then show ?thesis by (simp add: last_index_def)
qed

lemma cut_at_none: "c \<notin> set s \<Longrightarrow> cut_at c s = (s, [])"
  unfolding cut_at_def by (induction s) auto

text \<open>A host, with or without a port: what the parser has to find in it.\<close>

definition ok_host :: "string \<Rightarrow> bool" where
  "ok_host hp \<longleftrightarrow> hp \<noteq> [] \<and> list_all host_char hp \<and> parse_host hp = Some hp"

lemma ok_host_name: "h \<noteq> [] \<Longrightarrow> list_all name_char h \<Longrightarrow> ok_host h"
proof -
  assume h: "h \<noteq> []" "list_all name_char h"
  then have a: "list_all host_char h" by (auto simp: list_all_iff host_char_def)
  have b: "\<not> has_prefix ''['' h" using a by (cases h) auto
  have "CHR '':'' \<notin> set h" using h(2) by (auto simp: list_all_iff dest: name_char_colon)
  then show ?thesis using h(1) a b by (simp add: ok_host_def parse_host_def last_index_none unescape_host)
qed

lemma ok_host_port:
  "h \<noteq> [] \<Longrightarrow> list_all name_char h \<Longrightarrow> list_all is_digit p \<Longrightarrow> ok_host (h @ CHR '':'' # p)"
proof -
  assume h: "h \<noteq> []" "list_all name_char h" and p: "list_all is_digit p"
  have a: "list_all host_char (h @ CHR '':'' # p)" using h p by (auto simp: list_all_iff host_char_def dest: digit_name)
  have b: "\<not> has_prefix ''['' (h @ CHR '':'' # p)" using a h(1) by (cases h) auto
  have "CHR '':'' \<notin> set p" using p by (auto simp: list_all_iff dest: digit_name name_char_colon)
  then show ?thesis
    using a b p by (simp add: ok_host_def parse_host_def last_index_append valid_optional_port_def unescape_host)
qed

section \<open>What \<open>getWsURL\<close> makes of an address\<close>

lemma endpoint_facts:
  "hd ws_endpoint = CHR ''/''" "ws_endpoint \<noteq> []" "CHR ''#'' \<notin> set ws_endpoint" "CHR ''?'' \<notin> set ws_endpoint"
  "\<not> list_ex is_ctl ws_endpoint" "unescape EncodePath ws_endpoint = Some ws_endpoint" "escape EncodePath ws_endpoint = ws_endpoint"
  "ws_endpoint \<noteq> ''*''"
  by code_simp+

lemma until_slash:
  assumes "CHR ''/'' \<notin> set s"
  shows "takeWhile (\<lambda>c. c \<noteq> CHR ''/'') (s @ ws_endpoint) = s" "dropWhile (\<lambda>c. c \<noteq> CHR ''/'') (s @ ws_endpoint) = ws_endpoint"
proof -
  obtain p where p: "ws_endpoint = CHR ''/'' # p" by (simp add: ws_endpoint_def)
  have "\<And>x. x \<in> set s \<Longrightarrow> x \<noteq> CHR ''/''" using assms by blast
  then show "takeWhile (\<lambda>c. c \<noteq> CHR ''/'') (s @ ws_endpoint) = s" "dropWhile (\<lambda>c. c \<noteq> CHR ''/'') (s @ ws_endpoint) = ws_endpoint"
    by (simp_all add: p takeWhile_append2 dropWhile_append2)
qed

lemma parse_hierarchical:
  assumes sc: "sc = ''http'' \<or> sc = ''https''" and hp: "ok_host hp"
  shows "url_Parse (sc @ ''://'' @ hp @ ws_endpoint) = Some (new_URL\<lparr>url_Scheme := sc, url_Host := hp, url_Path := ws_endpoint\<rparr>)"
proof -
  have hs: "host_char c" if "c \<in> set hp" for c using hp that by (simp add: ok_host_def list_all_iff)
  then have hc: "CHR ''#'' \<notin> set hp" "CHR ''?'' \<notin> set hp" "CHR ''/'' \<notin> set hp" "CHR ''@'' \<notin> set hp" "\<forall>c\<in>set hp. \<not> is_ctl c"
    using host_char_not host_char_plain by blast+
  let ?rest = "''//'' @ hp @ ws_endpoint"
  have plain: "CHR ''#'' \<notin> set (sc @ '':'' @ ?rest)" "CHR ''?'' \<notin> set ?rest" "\<not> list_ex is_ctl (sc @ '':'' @ ?rest)"
    using hc sc endpoint_facts(3,4,5) by (auto simp: list_ex_iff is_ctl_def)
  have gs: "get_scheme [] (sc @ '':'' @ ?rest) = Some (sc, ?rest)"
    using sc by (auto simp: is_lower_def is_digit_def is_upper_def)
  have low: "map to_lower sc = sc" using sc by (auto simp: to_lower_def is_upper_def)
  have auth: "parse_authority hp = Some (None, hp)"
    using hc hp by (auto simp: parse_authority_def ok_host_def last_index_none)
  have force: "\<not> (last ?rest = CHR ''?'' \<and> count_list ?rest (CHR ''?'') = 1)"
    using plain(2) by (metis count_list_0_iff zero_neq_one)
  have "\<not> has_prefix ''///'' ?rest" using hc(3) hp by (cases hp) (auto simp: ok_host_def)
  then have pr: "parse_rest sc ?rest = Some (new_URL\<lparr>url_Scheme := sc, url_Host := hp, url_Path := ws_endpoint\<rparr>)"
    using sc force plain(2) until_slash [of hp] hc
    by (auto simp: parse_rest_def Let_def cut_at_none low auth set_path_def endpoint_facts new_URL_def)
  have "sc @ '':'' @ ?rest \<noteq> ''*''" using sc by auto
  then have "url_parse (sc @ '':'' @ ?rest) = Some (new_URL\<lparr>url_Scheme := sc, url_Host := hp, url_Path := ws_endpoint\<rparr>)"
    using plain(3) pr gs by (simp add: url_parse_def)
  then show ?thesis using plain(1) by (simp add: url_Parse_def cut_at_none)
qed


lemma String_hierarchical:
  assumes "sc \<noteq> ''''" "hp \<noteq> []" "list_all host_char hp"
  shows "url_String (new_URL\<lparr>url_Scheme := sc, url_Host := hp, url_Path := ws_endpoint\<rparr>) = sc @ ''://'' @ hp @ ws_endpoint"
  using assms endpoint_facts
  by (simp add: url_String_def url_authority_def new_URL_def escaped_def escape_host Let_def)

lemma host_port_name: "list_all name_char h \<Longrightarrow> host_port h = ''''"
  using name_char_colon by (auto simp: host_port_def list_all_iff last_index_def)

lemma host_port_port: "list_all is_digit p \<Longrightarrow> host_port (h @ CHR '':'' # p) = p"
proof -
  assume p: "list_all is_digit p"
  then have "CHR '':'' \<notin> set p" by (auto simp: list_all_iff dest: digit_name name_char_colon)
  with p show ?thesis by (simp add: host_port_def last_index_append valid_optional_port_def)
qed

definition ws_scheme_of :: "string \<Rightarrow> string" where
  "ws_scheme_of sc = (if sc = ''http'' then ''ws'' else ''wss'')"

definition default_port :: "string \<Rightarrow> string" where
  "default_port sc = (if sc = ''http'' then ''80'' else ''443'')"

lemma getWsURL_hierarchical:
  assumes sc: "sc = ''http'' \<or> sc = ''https''" and hp: "ok_host hp"
  shows "getWsURL (sc @ ''://'' @ hp @ ws_endpoint) =
    ws_scheme_of sc @ ''://'' @ (if host_port hp = '''' then hp @ '':'' @ default_port sc else hp) @ ws_endpoint"
proof -
  let ?U = "\<lambda>z x. new_URL\<lparr>url_Scheme := z, url_Host := x, url_Path := ws_endpoint\<rparr>"
  have s: "hp \<noteq> []" "list_all host_char hp" using hp by (simp_all add: ok_host_def)
  have d: "list_all host_char (hp @ '':'' @ default_port sc)"
    using s(2) by (simp add: default_port_def host_char_def name_char_def is_digit_def)
  have f: "(?U sc hp)\<lparr>url_Scheme := z\<rparr> = ?U z hp" "(?U z hp)\<lparr>url_Host := x\<rparr> = ?U z x"
    "url_Scheme (?U z x) = z" "url_Host (?U z x) = x" for z x by simp_all
  have "getWsURL (sc @ ''://'' @ hp @ ws_endpoint) =
      url_String (?U (ws_scheme_of sc) (if host_port hp = '''' then hp @ '':'' @ default_port sc else hp))"
    unfolding getWsURL_def parse_hierarchical [OF assms] Let_def option.case url_Port_def
    using sc by (elim disjE) (simp_all only: f ws_scheme_of_def default_port_def, simp_all add: new_URL_def)
  also have "\<dots> = ws_scheme_of sc @ ''://'' @ (if host_port hp = '''' then hp @ '':'' @ default_port sc else hp) @ ws_endpoint"
    by (rule String_hierarchical) (use s d in \<open>simp_all add: ws_scheme_of_def\<close>)
  finally show ?thesis .
qed

text \<open>An address without a scheme.\<close>

lemma get_scheme_name:
  assumes "list_all name_char h" "acc \<noteq> []"
  shows "get_scheme acc (h @ CHR '':'' # t) = Some (acc @ h, t)"
  using assms
proof (induction h arbitrary: acc)
  case Nil
  then show ?case by (simp add: is_lower_def is_upper_def is_digit_def)
next
  case (Cons c h)
  then have "get_scheme (acc @ [c]) (h @ CHR '':'' # t) = Some (acc @ c # h, t)" by simp
  with Cons.prems show ?case by (auto simp: name_char_def)
qed

lemma plain_address:
  assumes h: "list_all name_char h" and p: "list_all is_digit p"
  shows "CHR ''#'' \<notin> set (h @ '':'' @ p @ ws_endpoint)" "CHR ''?'' \<notin> set (p @ ws_endpoint)" "\<not> list_ex is_ctl (h @ '':'' @ p @ ws_endpoint)"
    "CHR ''?'' \<notin> set h" "CHR ''/'' \<notin> set h" "CHR ''/'' \<notin> set p"
proof -
  have hc: "host_char c" if "c \<in> set h \<union> set p" for c
    using h p that by (auto simp: list_all_iff host_char_def dest: digit_name)
  have n: "CHR ''#'' \<notin> set h \<union> set p" "CHR ''?'' \<notin> set h \<union> set p" "CHR ''/'' \<notin> set h \<union> set p" "\<forall>c\<in>set h \<union> set p. \<not> is_ctl c"
    using hc host_char_not host_char_plain by blast+
  then show "CHR ''#'' \<notin> set (h @ '':'' @ p @ ws_endpoint)" "CHR ''?'' \<notin> set (p @ ws_endpoint)" "\<not> list_ex is_ctl (h @ '':'' @ p @ ws_endpoint)"
    "CHR ''?'' \<notin> set h" "CHR ''/'' \<notin> set h" "CHR ''/'' \<notin> set p"
    using endpoint_facts(3,4,5) by (auto simp: list_ex_iff is_ctl_def)
qed

lemma parse_name_port:
  assumes h: "list_all name_char h" "is_lower (hd h) \<or> is_upper (hd h)" "h \<noteq> []" and p: "p \<noteq> []" "list_all is_digit p"
  shows "url_Parse (h @ '':'' @ p @ ws_endpoint) = Some (new_URL\<lparr>url_Scheme := map to_lower h, url_Opaque := p @ ws_endpoint\<rparr>)"
proof -
  note plain = plain_address [OF h(1) p(2)]
  obtain c h' where c: "h = c # h'" using h(3) by (cases h) auto
  have "get_scheme [] (h @ '':'' @ p @ ws_endpoint) = Some (h, p @ ws_endpoint)"
    using h(1,2) get_scheme_name [of h' "[c]" "p @ ws_endpoint"] by (auto simp: c)
  moreover have "\<not> has_prefix ''/'' (p @ ws_endpoint)" using p by (cases p) (auto simp: is_digit_def)
  moreover have "\<not> (last (p @ ws_endpoint) = CHR ''?'' \<and> count_list (p @ ws_endpoint) (CHR ''?'') = 1)"
    using plain(2) by (metis count_list_0_iff zero_neq_one)
  ultimately have "url_parse (h @ '':'' @ p @ ws_endpoint) = Some (new_URL\<lparr>url_Scheme := map to_lower h, url_Opaque := p @ ws_endpoint\<rparr>)"
    using plain c by (auto simp: url_parse_def parse_rest_def cut_at_none Let_def new_URL_def)
  then show ?thesis using plain(1) by (simp add: url_Parse_def cut_at_none)
qed

lemma parse_number_port:
  assumes h: "list_all name_char h" "is_digit (hd h)" "h \<noteq> []" and p: "list_all is_digit p"
  shows "url_Parse (h @ '':'' @ p @ ws_endpoint) = None"
proof -
  note plain = plain_address [OF h(1) p]
  obtain c h' where c: "h = c # h'" using h(3) by (cases h) auto
  have "\<not> is_lower c \<and> \<not> is_upper c" using h(2) by (auto simp: c char_class_defs)
  then have g: "get_scheme [] (h @ '':'' @ p @ ws_endpoint) = Some ('''', h @ '':'' @ p @ ws_endpoint)"
    using h(2) by (simp add: c)
  have q: "CHR ''?'' \<notin> set (h @ '':'' @ p @ ws_endpoint)" using plain by auto
  have s: "\<not> has_prefix ''/'' (h @ '':'' @ p @ ws_endpoint)" using plain(5) by (auto simp: c)
  have "CHR '':'' \<in> set (fst (cut_at (CHR ''/'') (h @ '':'' @ p @ ws_endpoint)))"
    using until_slash(1) [of "h @ '':'' @ p"] plain(5,6) by (auto simp: cut_at_def)
  with q s have "parse_rest '''' (h @ '':'' @ p @ ws_endpoint) = None"
    by (simp add: parse_rest_def cut_at_none Let_def)
  moreover have "h @ '':'' @ p @ ws_endpoint \<noteq> ''*''" by (simp add: c ws_endpoint_def)
  ultimately have "url_parse (h @ '':'' @ p @ ws_endpoint) = None"
    using g plain(3) by (simp add: url_parse_def)
  then show ?thesis using plain(1) by (simp add: url_Parse_def cut_at_none)
qed


lemma to_lower_idem: "to_lower (to_lower c) = to_lower c"
  by (auto simp: to_lower_def is_upper_def)

lemma to_lower_name: "name_char c \<Longrightarrow> name_char (to_lower c)"
  by (auto simp: to_lower_def char_class_defs)

lemma to_lower_letter: "is_lower c \<or> is_upper c \<Longrightarrow> is_lower (to_lower c)"
  by (auto simp: to_lower_def is_lower_def is_upper_def)

lemma getWsURL_name_port:
  assumes h: "list_all name_char h" "is_lower (hd h) \<or> is_upper (hd h)" "h \<noteq> []" and p: "p \<noteq> []" "list_all is_digit p"
    and other: "take 2 h \<noteq> ''ws''" "map to_lower h \<notin> {''http'', ''https''}"
  shows "getWsURL (h @ '':'' @ p @ ws_endpoint) = map to_lower h @ '':'' @ p @ ws_endpoint"
proof -
  have "take 2 (h @ '':'' @ p @ ws_endpoint) \<noteq> ''ws''"
    using h(3) other(1) by (cases h rule: remdups_adj.cases) auto
  then show ?thesis
    using parse_name_port [OF h p] other(2) h(3)
    by (simp add: getWsURL_def Let_def url_String_def url_Port_def host_port_def last_index_def new_URL_def p(1))
qed

text \<open>
  C35. The address that is dialled. A host with the scheme \<open>http\<close> or \<open>https\<close>, with or without a port, becomes the
  WebSocket address of the same host, with the default port of the scheme if it has none. A numeric host with a port
  and no scheme gets the scheme \<open>ws\<close>. A host name with a port and no scheme is left as it is, up to the case
  of its letters, because the parser takes the name for the scheme.
\<close>

theorem getWsURL_forms:
  assumes h: "h \<noteq> []" "list_all name_char h" and p: "p \<noteq> []" "list_all is_digit p"
  shows "getWsURL (''http://'' @ h @ '':'' @ p @ ws_endpoint) = ''ws://'' @ h @ '':'' @ p @ ws_endpoint
    \<and> getWsURL (''https://'' @ h @ '':'' @ p @ ws_endpoint) = ''wss://'' @ h @ '':'' @ p @ ws_endpoint
    \<and> getWsURL (''http://'' @ h @ ws_endpoint) = ''ws://'' @ h @ '':80'' @ ws_endpoint
    \<and> getWsURL (''https://'' @ h @ ws_endpoint) = ''wss://'' @ h @ '':443'' @ ws_endpoint
    \<and> getWsURL (''ws://'' @ h @ '':'' @ p @ ws_endpoint) = ''ws://'' @ h @ '':'' @ p @ ws_endpoint
    \<and> (is_digit (hd h) \<longrightarrow> getWsURL (h @ '':'' @ p @ ws_endpoint) = ''ws://'' @ h @ '':'' @ p @ ws_endpoint)
    \<and> ((is_lower (hd h) \<or> is_upper (hd h)) \<and> take 2 h \<noteq> ''ws'' \<and> map to_lower h \<notin> {''http'', ''https''}
        \<longrightarrow> getWsURL (h @ '':'' @ p @ ws_endpoint) = map to_lower h @ '':'' @ p @ ws_endpoint)"
proof (intro conjI impI)
  note okp = ok_host_port [OF h p(2)] and okn = ok_host_name [OF h]
  note hpp = host_port_port [OF p(2), of h] and hpn = host_port_name [OF h(2)]
  show "getWsURL (''http://'' @ h @ '':'' @ p @ ws_endpoint) = ''ws://'' @ h @ '':'' @ p @ ws_endpoint"
    "getWsURL (''https://'' @ h @ '':'' @ p @ ws_endpoint) = ''wss://'' @ h @ '':'' @ p @ ws_endpoint"
    using getWsURL_hierarchical [OF _ okp, of "''http''"] getWsURL_hierarchical [OF _ okp, of "''https''"] p(1)
    by (simp_all add: hpp ws_scheme_of_def)
  show "getWsURL (''http://'' @ h @ ws_endpoint) = ''ws://'' @ h @ '':80'' @ ws_endpoint"
    "getWsURL (''https://'' @ h @ ws_endpoint) = ''wss://'' @ h @ '':443'' @ ws_endpoint"
    using getWsURL_hierarchical [OF _ okn, of "''http''"] getWsURL_hierarchical [OF _ okn, of "''https''"]
    by (simp_all add: hpn ws_scheme_of_def default_port_def)
  show "getWsURL (''ws://'' @ h @ '':'' @ p @ ws_endpoint) = ''ws://'' @ h @ '':'' @ p @ ws_endpoint"
    by (simp add: getWsURL_def)
  show "getWsURL (h @ '':'' @ p @ ws_endpoint) = ''ws://'' @ h @ '':'' @ p @ ws_endpoint" if "is_digit (hd h)"
  proof -
    have "take 2 (h @ t) \<noteq> ''ws''" for t using h(1) that by (cases h) (auto simp: is_digit_def)
    then show ?thesis using parse_number_port [OF h(2) that h(1) p(2)] h(1) by (simp add: getWsURL_def)
  qed
  show "getWsURL (h @ '':'' @ p @ ws_endpoint) = map to_lower h @ '':'' @ p @ ws_endpoint"
    if "(is_lower (hd h) \<or> is_upper (hd h)) \<and> take 2 h \<noteq> ''ws'' \<and> map to_lower h \<notin> {''http'', ''https''}"
    using getWsURL_name_port [of h p] h p that by metis
qed

section \<open>Connecting\<close>

text \<open>
  \<open>Connect\<close> with the address it dials. The dialer is the WebSocket library; a dialer refuses every address whose
  scheme is neither \<open>ws\<close> nor \<open>wss\<close>.
\<close>

definition ws_Connect_addr :: "(string \<Rightarrow> 't option) \<Rightarrow> ('t client, (client_error, unit) result) act" where
  "ws_Connect_addr dialer c = ws_Connect (dialer (getWsURL (co_Addr (cl_Opts c) @ ''/v1/ws/connect''))) c"

definition ws_dialer :: "(string \<Rightarrow> 't option) \<Rightarrow> bool" where
  "ws_dialer dialer \<longleftrightarrow>
     (\<forall>url u. url_Parse url = Some u \<longrightarrow> url_Scheme u \<notin> {''ws'', ''wss''} \<longrightarrow> dialer url = None)"

text \<open>
  A client that is given a host name and a port, as the manual of the SDK suggests, never connects: \<open>Connect\<close>
  reports that dialling failed, and the client stays disconnected, whatever host and port.
\<close>

theorem host_name_never_connects:
  assumes dialer: "ws_dialer dialer" and c: "client_ok c" "\<not> cl_closed c"
    and addr: "co_Addr (cl_Opts c) = h @ '':'' @ p"
    and h: "list_all name_char h" "is_lower (hd h) \<or> is_upper (hd h)" "h \<noteq> []" "take 2 h \<noteq> ''ws''"
      "map to_lower h \<notin> {''http'', ''https'', ''ws'', ''wss''}"
    and p: "p \<noteq> []" "list_all is_digit p"
  shows "\<exists>c'. ws_Connect_addr dialer c = Done (Inl DialFailed) c' \<and> cl_state c' = ConnStateDisconnected
    \<and> cl_transport c' = cl_transport c"
proof -
  let ?h = "map to_lower h"
  have "getWsURL (h @ '':'' @ p @ ws_endpoint) = ?h @ '':'' @ p @ ws_endpoint"
    using getWsURL_name_port [OF h(1-3) p h(4)] h(5) by auto
  moreover have "url_Parse (?h @ '':'' @ p @ ws_endpoint) = Some (new_URL\<lparr>url_Scheme := map to_lower ?h, url_Opaque := p @ ws_endpoint\<rparr>)"
    by (rule parse_name_port [OF _ _ _ p])
       (use h in \<open>auto simp: list_all_iff to_lower_name to_lower_letter hd_map\<close>)
  moreover have "map to_lower ?h = ?h" by (simp add: to_lower_idem)
  ultimately have "dialer (getWsURL (h @ '':'' @ p @ ws_endpoint)) = None"
    using dialer h(5) unfolding ws_dialer_def by fastforce
  moreover have "IsClosed c = Done False c"
    using c by (simp add: IsClosed_def mu_Lock_def mu_Unlock_def act_simps client_ok_def)
  ultimately show ?thesis
    by (simp add: ws_Connect_addr_def addr ws_endpoint_def ws_Connect_def bindA_def connect_dial_def Let_def
        call_ConnectHandler_def SetState_def)
qed


section \<open>Sample addresses\<close>

theorem getWsURL_forms_witness:
  "getWsURL (''localhost'' @ '':'' @ ''8080'' @ ws_endpoint) = ''localhost:8080/v1/ws/connect''
   \<and> getWsURL (''https://'' @ ''localhost'' @ ws_endpoint) = ''wss://localhost:443/v1/ws/connect''"
proof -
  have h: "''localhost'' \<noteq> ''''" "list_all name_char ''localhost''" "''8080'' \<noteq> ''''" "list_all is_digit ''8080''"
    by (simp_all add: name_char_def is_lower_def is_digit_def)
  have l: "is_lower (hd ''localhost'')" "map to_lower ''localhost'' = ''localhost''"
    by (simp_all add: is_lower_def to_lower_def is_upper_def)
  show ?thesis using getWsURL_forms [OF h] l by (simp add: ws_endpoint_def)
qed

definition sample_dialer :: "string \<Rightarrow> ws_transport option" where
  "sample_dialer url =
     (case url_Parse url of
        Some u \<Rightarrow> if url_Scheme u \<in> {''ws'', ''wss''} then Some \<lparr>wt_in = [], wt_out = []\<rparr> else None
      | None \<Rightarrow> None)"

theorem host_name_never_connects_witness:
  "ws_dialer sample_dialer
   \<and> (\<exists>c'. ws_Connect_addr sample_dialer (NewBaseClient [WithAddr (''localhost'' @ '':'' @ ''8080'')]) = Done (Inl DialFailed) c')"
proof -
  let ?c = "NewBaseClient [WithAddr (''localhost'' @ '':'' @ ''8080'')] :: ws_transport client"
  have l: "is_lower (hd ''localhost'')" "map to_lower ''localhost'' = ''localhost''" "list_all name_char ''localhost''" "list_all is_digit ''8080''"
    by (simp_all add: is_lower_def to_lower_def is_upper_def name_char_def is_digit_def)
  have c: "client_ok ?c" "\<not> cl_closed ?c" "co_Addr (cl_Opts ?c) = ''localhost'' @ '':'' @ ''8080''"
    by (rule NewBaseClient_ok) (simp_all add: NewBaseClient_def WithAddr_def)
  have d: "ws_dialer sample_dialer" by (simp add: ws_dialer_def sample_dialer_def)
  show ?thesis
    using host_name_never_connects [OF d c, simplified l] d l by auto
qed

end
