(* ===== verification/Services.thy ===== *)
theory Services
  imports Consumer_Run Auth_Server Bootstrap Go_Url
begin

text \<open>
  The processes around the handlers: \<open>config.Load\<close> of the gateway and of the two services, the services' loggers
  (\<open>auth/internal/logger\<close>, \<open>business/internal/logger\<close>), their \<open>main\<close> functions, the routes they register and
  the access log of the business service. The configuration library, the logging library and the router of the web
  framework are parameters: what a call of them answers is an argument, what is written to a log is a list.
\<close>

section \<open>Configuration\<close>

text \<open>What has been set on a \<open>viper\<close> object; \<open>vp_read\<close> tells that its file has been read.\<close>

datatype config_source = ConfigFile string | DotEnvFile

record viper =
  vp_EnvPrefix :: string
  vp_Source :: "config_source option"
  vp_read :: bool

definition viper_New :: "string \<Rightarrow> viper" where
  "viper_New prefix = \<lparr>vp_EnvPrefix = prefix, vp_Source = None, vp_read = False\<rparr>"

text \<open>The answers of \<open>ReadInConfig\<close>, an error or none, and of \<open>Unmarshal\<close>.\<close>

record 'c viper_lib =
  vl_ReadInConfig :: "viper \<Rightarrow> string option"
  vl_Unmarshal :: "viper \<Rightarrow> (string, 'c) result"

definition load_file :: "'c viper_lib \<Rightarrow> string \<Rightarrow> viper \<Rightarrow> (string, 'c) result" where
  "load_file L cfgPath v =
     (let v1 = v\<lparr>vp_Source := Some (ConfigFile cfgPath)\<rparr>
      in case vl_ReadInConfig L v1 of
           Some err \<Rightarrow> Inl err
         | None \<Rightarrow> vl_Unmarshal L (v1\<lparr>vp_read := True\<rparr>))"

definition gateway_Load :: "Config viper_lib \<Rightarrow> string \<Rightarrow> (string, Config) result" where
  "gateway_Load L cfgPath =
     (let v = viper_New ''LONG_GW''
      in if cfgPath \<noteq> '''' then load_file L cfgPath v
         else
           (let v1 = v\<lparr>vp_Source := Some DotEnvFile\<rparr>
            in vl_Unmarshal L (if vl_ReadInConfig L v1 = None then v1\<lparr>vp_read := True\<rparr> else v1)))"

record business_Config =
  bc_Addr :: string
  bc_Brokers :: "string list"
  bc_Topics :: business_cfg
  bc_Log :: LogConfig

definition business_Load :: "business_Config viper_lib \<Rightarrow> string \<Rightarrow> (string, business_Config) result" where
  "business_Load L cfgPath =
     (let v = viper_New ''LONG_GW''
      in if cfgPath \<noteq> '''' then load_file L cfgPath v
         else
           (let v1 = v\<lparr>vp_Source := Some DotEnvFile\<rparr>
            in vl_Unmarshal L (if vl_ReadInConfig L v1 = None then v1\<lparr>vp_read := True\<rparr> else v1)))"

record auth_Config =
  ac_Addr :: string
  ac_Log :: LogConfig

definition auth_Load :: "auth_Config viper_lib \<Rightarrow> string \<Rightarrow> (string, auth_Config) result" where
  "auth_Load L cfgPath =
     (let v = viper_New ''LONG_GW_AUTH''
      in if cfgPath \<noteq> '''' then load_file L cfgPath v else vl_Unmarshal L v)"

section \<open>The loggers of the services\<close>

text \<open>\<open>zapcore.Level\<close> and the outputs; \<open>opens file\<close> tells whether the log file can be opened.\<close>

definition zap_DebugLevel :: int where "zap_DebugLevel = -1"

definition zap_InfoLevel :: int where "zap_InfoLevel = 0"

definition zap_WarnLevel :: int where "zap_WarnLevel = 1"

definition zap_ErrorLevel :: int where "zap_ErrorLevel = 2"

definition zap_FatalLevel :: int where "zap_FatalLevel = 5"

datatype zap_sink = Stdout | LogFile string

record zap_Logger =
  zl_level :: int
  zl_console :: bool  \<comment> \<open>the console encoder, not JSON\<close>
  zl_sinks :: "zap_sink list"

definition zap_Init :: "(string \<Rightarrow> bool) \<Rightarrow> string \<Rightarrow> string \<Rightarrow> string \<Rightarrow> zap_Logger" where
  "zap_Init opens level format file =
     \<lparr>zl_level =
        (if level = ''debug'' then zap_DebugLevel
         else if level = ''info'' then zap_InfoLevel
         else if level = ''warn'' then zap_WarnLevel
         else if level = ''error'' then zap_ErrorLevel
         else zap_InfoLevel),
      zl_console = (format = ''console''),
      zl_sinks = (if file \<noteq> '''' then (if opens file then [Stdout, LogFile file] else [Stdout]) else [Stdout])\<rparr>"

text \<open>The package: the global logger, and what has been written.\<close>

record log_package =
  lg_global :: "zap_Logger option"
  lg_written :: "(zap_sink \<times> int \<times> string) list"

definition zap_Get :: "(string \<Rightarrow> bool) \<Rightarrow> log_package \<Rightarrow> zap_Logger \<times> log_package" where
  "zap_Get opens p =
     (case lg_global p of
        Some l \<Rightarrow> (l, p)
      | None \<Rightarrow> (let l = zap_Init opens ''info'' ''json'' '''' in (l, p\<lparr>lg_global := Some l\<rparr>)))"

definition zap_write :: "int \<Rightarrow> string \<Rightarrow> zap_Logger \<Rightarrow> (zap_sink \<times> int \<times> string) list" where
  "zap_write lvl msg l = (if zl_level l \<le> lvl then map (\<lambda>s. (s, lvl, msg)) (zl_sinks l) else [])"

text \<open>\<open>Debug\<close>, \<open>Info\<close>, \<open>Warn\<close> and \<open>Error\<close> are this at their level.\<close>

definition zap_log :: "(string \<Rightarrow> bool) \<Rightarrow> int \<Rightarrow> string \<Rightarrow> log_package \<Rightarrow> log_package" where
  "zap_log opens lvl msg p =
     (case zap_Get opens p of (l, p1) \<Rightarrow> p1\<lparr>lg_written := lg_written p1 @ zap_write lvl msg l\<rparr>)"

definition zap_setup :: "(string \<Rightarrow> bool) \<Rightarrow> LogConfig \<Rightarrow> log_package \<Rightarrow> log_package" where
  "zap_setup opens c p = p\<lparr>lg_global := Some (zap_Init opens (lgc_Level c) (lgc_Format c) (lgc_File c))\<rparr>"

section \<open>Routes\<close>

datatype http_method = GET | POST

type_synonym 'h routes = "((http_method \<times> string) \<times> 'h) list"

text \<open>The router refuses, with a panic, a second handler for the same method and path.\<close>

definition register_route :: "http_method \<Rightarrow> string \<Rightarrow> 'h \<Rightarrow> 'h routes \<Rightarrow> 'h routes option" where
  "register_route meth path h rs = (if (meth, path) \<in> set (map fst rs) then None else Some (rs @ [((meth, path), h)]))"

fun register_routes :: "'h routes \<Rightarrow> 'h routes \<Rightarrow> 'h routes option" where
  "register_routes [] rs = Some rs"
| "register_routes (((meth, path), h) # ms) rs =
     (case register_route meth path h rs of None \<Rightarrow> None | Some rs1 \<Rightarrow> register_routes ms rs1)"

datatype business_route = HandleHealth | HandlePushMessage | HandleBatchPush

definition registerRoutes :: "business_route routes option" where
  "registerRoutes =
     (let api = ''/api/v1''
      in register_routes
           [((GET, ''/health''), HandleHealth),
            ((POST, api @ ''/push''), HandlePushMessage),
            ((POST, api @ ''/push/batch''), HandleBatchPush)] [])"

datatype auth_route = HandleToken | HandleValidate

definition auth_routes :: "auth_route routes option" where
  "auth_routes =
     (let v1 = ''/v1/auth''
      in register_routes [((POST, v1 @ ''/token''), HandleToken), ((POST, v1 @ ''/validate''), HandleValidate)] [])"

section \<open>Requests to the business service\<close>

record http_request =
  hq_method :: http_method
  hq_path :: string
  hq_rawQuery :: string
  hq_body :: bytes
  hq_ip :: string

text \<open>\<open>ShouldBindJSON\<close> for the two bodies, the names of the business types, the clock and the answers of the sender.\<close>

record business_env =
  be_bindPush :: "bytes \<Rightarrow> PushRequest option"
  be_bindBatch :: "bytes \<Rightarrow> PushRequest list option"
  be_bizName :: "int \<Rightarrow> string"
  be_clock :: "nat \<Rightarrow> nat \<Rightarrow> time"
  be_send :: "nat \<Rightarrow> send_env"

fun push_status_code :: "push_response \<Rightarrow> nat" where
  "push_status_code PushBadRequest = 400"
| "push_status_code PushUnsupported = 400"
| "push_status_code PushFailed = 500"
| "push_status_code (PushOK i) = 200"

definition serve_route :: "business_env \<Rightarrow> business_cfg \<Rightarrow> business_route \<Rightarrow> bytes \<Rightarrow> Sender \<Rightarrow> nat \<times> Sender" where
  "serve_route e cfg h body s =
     (case h of
        HandleHealth \<Rightarrow> (200, s)
      | HandlePushMessage \<Rightarrow>
          (case handlePushMessage (be_bizName e) cfg (be_clock e 0) (be_send e 0) (be_bindPush e body) s of
             (r, s1) \<Rightarrow> (push_status_code r, s1))
      | HandleBatchPush \<Rightarrow>
          (case handleBatchPush (be_bizName e) cfg (be_clock e) (be_send e) (be_bindBatch e body) s of
             (None, s1) \<Rightarrow> (400, s1)
           | (Some _, s1) \<Rightarrow> (200, s1)))"

text \<open>One line of the access log: status, method, path with query, client.\<close>

type_synonym access_line = "nat \<times> http_method \<times> string \<times> string"

definition ginLogger :: "http_request \<Rightarrow> nat \<Rightarrow> access_line" where
  "ginLogger q status =
     (status, hq_method q, if hq_rawQuery q \<noteq> '''' then hq_path q @ ''?'' @ hq_rawQuery q else hq_path q, hq_ip q)"

text \<open>A request: the middlewares are in front of every route and of the answer 404.\<close>

definition business_request ::
    "business_env \<Rightarrow> business_cfg \<Rightarrow> business_route routes \<Rightarrow> http_request \<Rightarrow> Sender \<times> access_line list \<Rightarrow> Sender \<times> access_line list" where
  "business_request e cfg rs q st =
     (case st of
        (s, lines) \<Rightarrow>
          (case (case map_of rs (hq_method q, hq_path q) of
                   None \<Rightarrow> (404, s)
                 | Some h \<Rightarrow> serve_route e cfg h (hq_body q) s) of
             (status, s1) \<Rightarrow> (s1, lines @ [ginLogger q status])))"

section \<open>Processes\<close>

datatype 'a process = Exited int | Running 'a

definition zap_Fatal :: "(string \<Rightarrow> bool) \<Rightarrow> string \<Rightarrow> log_package \<Rightarrow> 'a process \<times> log_package" where
  "zap_Fatal opens msg p = (Exited 1, zap_log opens zap_FatalLevel msg p)"

text \<open>\<open>run addr\<close> is the error with which the server of the authentication service ends, if it does.\<close>

definition auth_main ::
    "auth_Config viper_lib \<Rightarrow> (string \<Rightarrow> bool) \<Rightarrow> (string \<Rightarrow> string option) \<Rightarrow> string \<Rightarrow> log_package \<Rightarrow> string process \<times> log_package" where
  "auth_main L opens run cfgPath p =
     (case auth_Load L cfgPath of
        Inl err \<Rightarrow> (Exited 0, zap_log opens zap_ErrorLevel ''failed to load config'' p)
      | Inr cfg \<Rightarrow>
          (let p1 = zap_log opens zap_InfoLevel ''auth server starting'' (zap_setup opens (ac_Log cfg) p)
           in case run (ac_Addr cfg) of
                Some err \<Rightarrow> (Exited 0, zap_log opens zap_ErrorLevel ''auth server error'' p1)
              | None \<Rightarrow> (Running (ac_Addr cfg), p1)))"

text \<open>\<open>main\<close> and \<open>Run\<close> of the business service up to the wait for a signal.\<close>

definition business_main ::
    "business_Config viper_lib \<Rightarrow> (string \<Rightarrow> bool) \<Rightarrow> string \<Rightarrow> log_package \<Rightarrow> (business_Config \<times> business_server) process \<times> log_package" where
  "business_main L opens cfgPath p =
     (case business_Load L cfgPath of
        Inl err \<Rightarrow> (Exited 1, zap_log opens zap_ErrorLevel ''failed to load config'' p)
      | Inr cfg \<Rightarrow>
          (let p1 = zap_log opens zap_InfoLevel ''starting business server'' (zap_setup opens (bc_Log cfg) p);
               p2 = zap_log opens zap_InfoLevel ''business server started'' p1;
               p3 = zap_log opens zap_InfoLevel ''business service running...'' p2
           in (Running (cfg, business_Start (bc_Topics cfg)), p3)))"

section \<open>Properties\<close>

text \<open>Whatever is configured, a logger of the services writes to the console.\<close>

definition logs_to_stdout :: "log_package \<Rightarrow> bool" where
  "logs_to_stdout p \<longleftrightarrow> (\<forall>l. lg_global p = Some l \<longrightarrow> Stdout \<in> set (zl_sinks l))"

lemma zap_Init_stdout: "Stdout \<in> set (zl_sinks (zap_Init opens level format file))"
  by (simp add: zap_Init_def)

lemma zap_Get_stdout: "logs_to_stdout p \<Longrightarrow> Stdout \<in> set (zl_sinks (fst (zap_Get opens p))) \<and> logs_to_stdout (snd (zap_Get opens p))"
  by (auto simp: zap_Get_def logs_to_stdout_def zap_Init_stdout Let_def split: option.splits)

lemma zap_log_stdout:
  assumes "logs_to_stdout p" "zl_level (fst (zap_Get opens p)) \<le> lvl"
  shows "(Stdout, lvl, msg) \<in> set (lg_written (zap_log opens lvl msg p)) \<and> logs_to_stdout (zap_log opens lvl msg p)"
  using zap_Get_stdout [OF assms(1), of opens] assms(2)
  by (cases "zap_Get opens p") (auto simp: zap_log_def zap_write_def logs_to_stdout_def)

subsection \<open>Routing\<close>

definition business_routes :: "business_route routes" where
  "business_routes =
     [((GET, ''/health''), HandleHealth), ((POST, ''/api/v1/push''), HandlePushMessage), ((POST, ''/api/v1/push/batch''), HandleBatchPush)]"

lemma registerRoutes_ok: "registerRoutes = Some business_routes"
  by (simp add: registerRoutes_def business_routes_def register_route_def Let_def)

lemma auth_routes_ok: "auth_routes \<noteq> None"
  by (simp add: auth_routes_def register_route_def Let_def)

definition is_push :: "http_request \<Rightarrow> bool" where
  "is_push q \<longleftrightarrow> hq_method q = POST \<and> hq_path q \<in> {''/api/v1/push'', ''/api/v1/push/batch''}"

lemma route_lookup:
  "map_of business_routes (hq_method q, hq_path q) =
     (if hq_method q = GET then (if hq_path q = ''/health'' then Some HandleHealth else None)
      else if hq_path q = ''/api/v1/push'' then Some HandlePushMessage
      else if hq_path q = ''/api/v1/push/batch'' then Some HandleBatchPush else None)"
  by (cases "hq_method q") (auto simp: business_routes_def)

text \<open>A request writes one line to the access log, and only the two push requests reach the sender.\<close>

lemma business_request_once:
  "\<exists>status s1. business_request e cfg business_routes q (s, lines) = (s1, lines @ [ginLogger q status])
     \<and> (\<not> is_push q \<longrightarrow> s1 = s \<and> status = (if hq_method q = GET \<and> hq_path q = ''/health'' then 200 else 404))"
proof -
  let ?out = "case map_of business_routes (hq_method q, hq_path q) of None \<Rightarrow> (404, s) | Some h \<Rightarrow> serve_route e cfg h (hq_body q) s"
  obtain status s1 where out: "?out = (status, s1)" by (cases ?out)
  have "?out = (if hq_method q = GET \<and> hq_path q = ''/health'' then 200 else 404, s)" if "\<not> is_push q"
    using that unfolding route_lookup by (cases "hq_method q") (simp_all add: is_push_def serve_route_def)
  then show ?thesis
    by (intro exI [of _ status] exI [of _ s1]) (auto simp: business_request_def out)
qed

text \<open>
  Every request to the business service is answered and leaves one line in the access log, in the order in which they
  are served; only a push reaches the sender, the health check answers 200 and everything else 404.
\<close>

theorem business_requests_logged:
  "\<exists>statuses s1. fold (business_request e cfg business_routes) qs (s, lines) = (s1, lines @ map2 ginLogger qs statuses)
     \<and> length statuses = length qs
     \<and> (list_all (\<lambda>q. \<not> is_push q) qs \<longrightarrow>
          s1 = s \<and> statuses = map (\<lambda>q. if hq_method q = GET \<and> hq_path q = ''/health'' then 200 else 404) qs)"
proof (induction qs arbitrary: s lines)
  case (Cons q qs)
  obtain st s1 where q: "business_request e cfg business_routes q (s, lines) = (s1, lines @ [ginLogger q st])"
    "\<not> is_push q \<longrightarrow> s1 = s \<and> st = (if hq_method q = GET \<and> hq_path q = ''/health'' then 200 else 404)"
    using business_request_once [of e cfg q s lines] by blast
  from Cons.IH [of s1 "lines @ [ginLogger q st]"] obtain sts s2 where
    "fold (business_request e cfg business_routes) qs (s1, lines @ [ginLogger q st]) = (s2, lines @ [ginLogger q st] @ map2 ginLogger qs sts)"
    "length sts = length qs" "list_all (\<lambda>q. \<not> is_push q) qs \<longrightarrow>
       s2 = s1 \<and> sts = map (\<lambda>q. if hq_method q = GET \<and> hq_path q = ''/health'' then 200 else 404) qs" by auto
  with q show ?case by (intro exI [of _ "st # sts"] exI [of _ s2]) auto
qed simp

subsection \<open>Topics that are never found\<close>

text \<open>
  The configuration library turns the keys of a map to lower case; the generated names of the business types,
  such as \<open>BusinessType_IM\<close>, have capital letters.
\<close>

definition viper_lowers_keys :: "business_Config viper_lib \<Rightarrow> bool" where
  "viper_lowers_keys L \<longleftrightarrow>
     (\<forall>v cfg. vl_Unmarshal L v = Inr cfg \<longrightarrow> list_all (\<lambda>k. \<not> list_ex is_upper k) (gm_keys (bz_topics (bc_Topics cfg))))"

lemma no_topic:
  assumes "list_all (\<lambda>k. \<not> list_ex is_upper k) (gm_keys (bz_topics cfg))" "list_ex is_upper (bizName b)"
  shows "getDownstreamTopic bizName cfg b = ''''"
proof -
  have "gm_get (bz_topics cfg) (bizName b) = None"
    using assms by (auto simp: gm_get_None_iff list_all_iff)
  then show ?thesis by (simp add: getDownstreamTopic_def)
qed

lemma batch_without_topics:
  assumes "\<And>r. r \<in> set rs \<Longrightarrow> getDownstreamTopic bizName cfg (pq_BusinessType r) = ''''"
  shows "snd (batch_loop bizName cfg clock env i rs results s) = s"
  using assms by (induction rs arbitrary: i results) (simp_all add: Let_def)

text \<open>The business types that a request can carry.\<close>

definition binds_types :: "int set \<Rightarrow> business_env \<Rightarrow> bool" where
  "binds_types B e \<longleftrightarrow>
     (\<forall>x r. be_bindPush e x = Some r \<longrightarrow> pq_BusinessType r \<in> B)
   \<and> (\<forall>x rs. be_bindBatch e x = Some rs \<longrightarrow> (\<forall>r\<in>set rs. pq_BusinessType r \<in> B))"

lemma request_without_topics:
  assumes t: "\<And>b. b \<in> B \<Longrightarrow> getDownstreamTopic (be_bizName e) cfg b = ''''" and B: "binds_types B e"
  shows "fst (business_request e cfg rs q (s, lines)) = s"
proof -
  have p: "snd (handlePushMessage (be_bizName e) cfg clock se (be_bindPush e x) s) = s" for clock se x
    using t B by (auto simp: binds_types_def handlePushMessage_def Let_def split: option.split)
  have b: "snd (handleBatchPush (be_bizName e) cfg clock env (be_bindBatch e x) s) = s" for clock env x
  proof (cases "be_bindBatch e x")
    case (Some qs)
    have "snd (batch_loop (be_bizName e) cfg clock env 0 qs [] s) = s"
      by (rule batch_without_topics) (use t B Some in \<open>auto simp: binds_types_def\<close>)
    then show ?thesis using Some by (auto simp: handleBatchPush_def split: prod.split)
  qed (simp add: handleBatchPush_def)
  have "snd (serve_route e cfg h body s) = s" for h body
    using p b by (cases h) (auto simp: serve_route_def split: prod.split option.split, (metis snd_conv)+)
  then show ?thesis by (auto simp: business_request_def split: option.split prod.split) (metis snd_conv)
qed

text \<open>
  C33. A business service that has come up never produces a message of a named business type. Neither such a message of a
  client nor any sequence of requests makes it write to Kafka: it looks for the topic of a business type under
  its generated name, which has capital letters, and the configuration library has put all keys into lower case.
  Clients get no answer, and the handler reports no error.
\<close>

theorem business_service_is_mute:
  assumes lib: "viper_lowers_keys L" and names: "\<And>b. b \<in> B \<Longrightarrow> list_ex is_upper (bizName b)"
    and run: "fst (business_main L opens cfgPath p) = Running (cfg, srv)"
    and msg: "um_BusinessType msg \<in> B" and e: "be_bizName e = bizName" "binds_types B e"
  shows "handleUpstreamMessage ack bizName (bc_Topics cfg) clock se msg s = (None, s)
    \<and> fst (fold (business_request e (bc_Topics cfg) rs) qs (s, lines)) = s"
proof -
  have "business_Load L cfgPath = Inr cfg"
    using run by (auto simp: business_main_def Let_def split: sum.splits)
  then have "\<exists>v. vl_Unmarshal L v = Inr cfg"
    by (auto simp: business_Load_def load_file_def Let_def split: if_splits option.splits)
  with lib have t: "getDownstreamTopic bizName (bc_Topics cfg) b = ''''" if "b \<in> B" for b
    using no_topic [of "bc_Topics cfg" bizName b] names [OF that] unfolding viper_lowers_keys_def by blast
  have "fst (fold (business_request e (bc_Topics cfg) rs) qs (s, lines)) = s"
  proof (induction qs arbitrary: lines)
    case (Cons q qs)
    from request_without_topics [of B e "bc_Topics cfg" rs q s lines] t e
    obtain lines' where "business_request e (bc_Topics cfg) rs q (s, lines) = (s, lines')" by (metis prod.collapse)
    with Cons show ?case by simp
  qed simp
  with t [OF msg] show ?thesis by (simp add: handleUpstreamMessage_def Let_def)
qed

definition sample_business_config :: business_Config where
  "sample_business_config =
     \<lparr>bc_Addr = '':8082'', bc_Brokers = [''localhost:9092''],
      bc_Topics = \<lparr>bz_topics = [(''im'', \<lparr>tp_UpstreamTopic = ''gateway-im-upstream'', tp_DownstreamTopic = ''gateway-im-downstream''\<rparr>)]\<rparr>,
      bc_Log = \<lparr>lgc_Level = ''info'', lgc_Format = ''json'', lgc_File = ''''\<rparr>\<rparr>"

definition sample_viper :: "business_Config viper_lib" where
  "sample_viper = \<lparr>vl_ReadInConfig = (\<lambda>v. None), vl_Unmarshal = (\<lambda>v. Inr sample_business_config)\<rparr>"

theorem business_service_is_mute_witness:
  "viper_lowers_keys sample_viper
   \<and> (\<exists>b. fst (business_main sample_viper (\<lambda>f. False) ''etc/config.yaml'' \<lparr>lg_global = None, lg_written = []\<rparr>) = Running (sample_business_config, b))
   \<and> handleUpstreamMessage 5 (\<lambda>b. ''BusinessType_IM'') (bc_Topics sample_business_config) (\<lambda>i. 0) \<lparr>sv_marshalErr = None, sv_writeErr = None\<rparr>
       \<lparr>um_CorrelationId = ''1'', um_ConnId = ''c'', um_UserId = ''u'', um_DeviceId = ''d'', um_BusinessType = 1, um_Payload = []\<rparr> NewSender = (None, NewSender)"
proof -
  let ?e = "\<lparr>be_bindPush = \<lambda>b. None, be_bindBatch = \<lambda>b. None, be_bizName = \<lambda>b. ''BusinessType_IM'', be_clock = \<lambda>i j. 0,
    be_send = \<lambda>i. \<lparr>sv_marshalErr = None, sv_writeErr = None\<rparr>\<rparr>"
  have l: "viper_lowers_keys sample_viper"
    by (simp add: viper_lowers_keys_def sample_viper_def sample_business_config_def gm_keys_def is_upper_def)
  have r: "fst (business_main sample_viper (\<lambda>f. False) ''etc/config.yaml'' \<lparr>lg_global = None, lg_written = []\<rparr>)
      = Running (sample_business_config, business_Start (bc_Topics sample_business_config))"
    by (simp add: business_main_def business_Load_def load_file_def sample_viper_def Let_def)
  have n: "list_ex is_upper ''BusinessType_IM''" by (simp add: is_upper_def)
  show ?thesis using business_service_is_mute [OF l n r, where B = "{1}" and e = ?e and se = "\<lparr>sv_marshalErr = None, sv_writeErr = None\<rparr>"] l r
    by (auto simp: binds_types_def)
qed

end
