(* ===== verification/Gateway_Http.thy ===== *)
theory Gateway_Http
  imports Services Logger
begin

text \<open>
  The HTTP side of the gateway (\<open>app/listeners.go\<close>, \<open>logger/middleware.go\<close>, \<open>metrics/metrics.go\<close>): the routes, the
  middleware that gives every request a trace identifier, the upgrade to a WebSocket, and the counters that are
  exported. The upgrade itself is the WebSocket library's; its answer is an argument.
\<close>

section \<open>Counters\<close>

record prometheus =
  pm_connNum :: int
  pm_upstreamMsgTotal :: int
  pm_downstreamMsgTotal :: int
  pm_SessionCreated :: int

definition metrics_init :: "string list" where
  "metrics_init = [''gateway_conn_num'', ''gateway_upstream_msg_total'', ''gateway_downstream_msg_total'']"

definition IncConnNum :: "prometheus \<Rightarrow> prometheus" where
  "IncConnNum p = p\<lparr>pm_connNum := pm_connNum p + 1\<rparr>"

definition DecConnNum :: "prometheus \<Rightarrow> prometheus" where
  "DecConnNum p = p\<lparr>pm_connNum := pm_connNum p - 1\<rparr>"

definition IncUpstreamMsg :: "prometheus \<Rightarrow> prometheus" where
  "IncUpstreamMsg p = p\<lparr>pm_upstreamMsgTotal := pm_upstreamMsgTotal p + 1\<rparr>"

definition IncDownstreamMsg :: "prometheus \<Rightarrow> prometheus" where
  "IncDownstreamMsg p = p\<lparr>pm_downstreamMsgTotal := pm_downstreamMsgTotal p + 1\<rparr>"

definition IncSessionCreated :: "prometheus \<Rightarrow> prometheus" where
  "IncSessionCreated p = p\<lparr>pm_SessionCreated := pm_SessionCreated p + 1\<rparr>"

text \<open>What a scrape of \<open>/metrics\<close> shows: the collectors that have been registered.\<close>

definition all_collectors :: "prometheus \<Rightarrow> (string \<times> int) list" where
  "all_collectors p =
     [(''gateway_conn_num'', pm_connNum p), (''gateway_upstream_msg_total'', pm_upstreamMsgTotal p),
      (''gateway_downstream_msg_total'', pm_downstreamMsgTotal p), (''gateway_session_created'', pm_SessionCreated p)]"

definition scrape :: "prometheus \<Rightarrow> (string \<times> int) list" where
  "scrape p = filter (\<lambda>(name, v). name \<in> set metrics_init) (all_collectors p)"

section \<open>Modules\<close>

text \<open>A module without a multiplexer or a factory refuses to start; \<open>Stop\<close> of every module does nothing.\<close>

record 'f module =
  md_cmux :: bool
  md_connFactory :: "'f option"

definition module_guard :: "'f module \<Rightarrow> string option" where
  "module_guard m = (if \<not> md_cmux m \<or> md_connFactory m = None then Some ''cmux or connFactory is nil'' else None)"

text \<open>How \<open>Serve\<close> ends, and what \<open>Start\<close> of the HTTP module makes of it.\<close>

datatype serve_end = ServeNil | ErrServerClosed | ServeError string

definition HttpModule_Start :: "'f module \<Rightarrow> serve_end \<Rightarrow> string option" where
  "HttpModule_Start m ended =
     (case module_guard m of
        Some err \<Rightarrow> Some err
      | None \<Rightarrow> (case ended of ServeError err \<Rightarrow> Some err | _ \<Rightarrow> None))"

section \<open>Requests\<close>

datatype gateway_route = AdminHealth | AdminStats | AdminKick | WsConnect

definition gateway_routes :: "gateway_route routes option" where
  "gateway_routes =
     (let adminG = ''/v1/admin''; wgG = ''/v1/ws''
      in register_routes
           [((GET, adminG @ ''/health''), AdminHealth), ((GET, adminG @ ''/stats''), AdminStats),
            ((POST, adminG @ ''/kick''), AdminKick), ((GET, wgG @ ''/connect''), WsConnect)] [])"

text \<open>
  A connection that is handed to the factory, with the trace identifier of its context: that of the acceptor for TCP,
  none for a WebSocket, because the handler passes on the context of the module and not that of the request.
\<close>

type_synonym 'c started = "'c \<times> string option"

definition tcp_accepted :: "string \<Rightarrow> 'c \<Rightarrow> 'c started" where
  "tcp_accepted traceID conn = (conn, Some traceID)"

definition wsUpgradeHandler :: "'c option \<Rightarrow> 'c started list \<Rightarrow> 'c started list" where
  "wsUpgradeHandler upgraded cs = (case upgraded of None \<Rightarrow> cs | Some conn \<Rightarrow> cs @ [(conn, None)])"

record http_reply =
  hr_status :: nat
  hr_traceHeader :: "string option"

definition TraceMiddleware :: "string \<Rightarrow> nat \<Rightarrow> http_reply" where
  "TraceMiddleware traceID status = \<lparr>hr_status = status, hr_traceHeader = Some traceID\<rparr>"

fun http_status :: "http_result \<Rightarrow> nat" where
  "http_status HttpOK = 200"
| "http_status (HttpStats a b c) = 200"
| "http_status HttpBadRequest = 400"
| "http_status HttpInternalError = 500"

text \<open>\<open>bind\<close> decodes the body of a kick, \<open>upgrade\<close> answers for a request; a failed upgrade has been answered with 400.\<close>

definition gateway_request ::
    "(bytes \<Rightarrow> KickBody option) \<Rightarrow> (http_request \<Rightarrow> 'c option) \<Rightarrow> gateway_route routes \<Rightarrow> string \<Rightarrow> http_request
       \<Rightarrow> world \<times> 'c started list \<Rightarrow> http_reply \<times> world \<times> 'c started list" where
  "gateway_request bind upgrade rs traceID q st =
     (case st of
        (w, cs) \<Rightarrow>
          (case map_of rs (hq_method q, hq_path q) of
             None \<Rightarrow> (TraceMiddleware traceID 404, w, cs)
           | Some WsConnect \<Rightarrow>
               (TraceMiddleware traceID (if upgrade q = None then 400 else 101), w, wsUpgradeHandler (upgrade q) cs)
           | Some h \<Rightarrow>
               (case setupGinRouter (case h of AdminStats \<Rightarrow> GetStats | AdminKick \<Rightarrow> PostKick (bind (hq_body q)) | _ \<Rightarrow> GetHealth) w of
                  (r, w1) \<Rightarrow> (TraceMiddleware traceID (http_status r), w1, cs))))"

section \<open>Properties\<close>

text \<open>The counter of created sessions is kept but never shown.\<close>

lemma scrape_shows:
  "map_of (scrape p) ''gateway_session_created'' = None" "scrape (IncSessionCreated p) = scrape p"
  "map_of (scrape (IncConnNum p)) ''gateway_conn_num'' = Some (pm_connNum p + 1)"
  "scrape (DecConnNum (IncConnNum p)) = scrape p"
  by (simp_all add: scrape_def all_collectors_def metrics_init_def IncSessionCreated_def IncConnNum_def DecConnNum_def)

definition gateway_table :: "gateway_route routes" where
  "gateway_table =
     [((GET, ''/v1/admin/health''), AdminHealth), ((GET, ''/v1/admin/stats''), AdminStats),
      ((POST, ''/v1/admin/kick''), AdminKick), ((GET, ''/v1/ws/connect''), WsConnect)]"

lemma gateway_routes_ok: "gateway_routes = Some gateway_table"
  by (simp add: gateway_routes_def gateway_table_def register_route_def Let_def)

lemma admin_keeps_world: "snd (setupGinRouter req w) = w"
  by (cases req)
     (auto simp: setupGinRouter_def gin_Recovery_def admin_handler_def StatsHandler_def KickHandler_def derefG_def retG_def panicG_def split: option.split)

text \<open>
  The HTTP port of the gateway only opens connections. Every request is answered with its trace identifier and leaves
  the node as it is, also a kick; a connection is handed to the factory exactly for a request to the WebSocket
  endpoint that the library upgrades, and it carries no trace identifier.
\<close>

theorem gateway_http_only_connects:
  "\<exists>status. gateway_request bind upgrade gateway_table traceID q (w, cs) =
     (\<lparr>hr_status = status, hr_traceHeader = Some traceID\<rparr>, w,
      if hq_method q = GET \<and> hq_path q = ''/v1/ws/connect'' then cs @ (case upgrade q of None \<Rightarrow> [] | Some conn \<Rightarrow> [(conn, None)]) else cs)"
proof (cases "map_of gateway_table (hq_method q, hq_path q)")
  case None
  then show ?thesis
    by (cases "hq_method q") (auto simp: gateway_request_def gateway_table_def TraceMiddleware_def split: if_splits)
next
  case (Some h)
  have ws: "h = WsConnect \<longleftrightarrow> hq_method q = GET \<and> hq_path q = ''/v1/ws/connect''"
    using Some by (auto simp: gateway_table_def split: if_splits)
  show ?thesis
  proof (cases "h = WsConnect")
    case True
    with ws Some show ?thesis
      by (auto simp: gateway_request_def TraceMiddleware_def wsUpgradeHandler_def split: option.split)
  next
    case False
    let ?req = "case h of AdminStats \<Rightarrow> GetStats | AdminKick \<Rightarrow> PostKick (bind (hq_body q)) | _ \<Rightarrow> GetHealth"
    obtain r where r: "setupGinRouter ?req w = (r, w)" using admin_keeps_world [of ?req w] by (metis prod.collapse)
    with False Some have "gateway_request bind upgrade gateway_table traceID q (w, cs) = (TraceMiddleware traceID (http_status r), w, cs)"
      by (cases h) (auto simp: gateway_request_def)
    with False ws show ?thesis by (auto simp: TraceMiddleware_def)
  qed
qed

end
