(* ===== verification/Spec2Isabelle.thy ===== *)
theory Spec2Isabelle
  imports Codec Tcp_Transport Sdk_Transport Timer_Run Timer_Scheduler Factory Worker_Loops Kafka Business Bootstrap Sdk_Run Sdk_Push Chain_Nesting Worker_Start Consumer_Run Lifecycle Logger
    Validation_Service Delivery_Path Sdk_Url Gateway_Http
begin

text \<open>
  \<^bold>\<open>A verified model of the long-connection gateway\<close>

  \<^bold>\<open>The program.\<close> The gateway (\<open>src/gateway\<close>) keeps a TCP or WebSocket connection to every client. A new
  connection makes a handshake that asks the authentication service (\<open>src/auth\<close>) for the owner of
  a token; then a session, which outlives the connection, is created or resumed and entered in the
  node's routers. A frame of the client goes through the uplink chain into the worker pool of its business
  code and from there to Kafka, where the business service (\<open>src/business\<close>) reads it and answers. An
  answer comes back through a consumer, a worker and the downlink chain, which resolves the address to
  sessions and puts the message into the write queue of each. Messages that must arrive are kept until the
  client acknowledges them; a sharded timer wheel drives the retries. \<open>src/sdk\<close> is the client library.

  \<^bold>\<open>How it is modelled.\<close> A struct is a record, an enumeration a datatype, an error a value of a sum or option
  type. What the code reaches through pointers (messages, connections, sessions, timer items) lives in
  stores indexed by references; the record \<open>world\<close> of \<open>Gateway_State\<close> is a node, and a method is a function
  on it. A method that can panic is in the monad \<open>go\<close> of \<open>Go_Prelude\<close>, whose results are \<open>Ret\<close> and \<open>Panic\<close>;
  \<open>recoverG\<close> is \<open>defer recover()\<close>. Maps are association lists with distinct keys, because loops range over
  them. Channels are bounded queues with a closed flag. Times are nanoseconds as integers, sequence numbers,
  hashes and header fields are words of their width. A goroutine is a step function, and a run is a
  schedule: a list of events that says who moves and what the environment answers.

  \<^bold>\<open>The theories\<close>, with the files they model (under \<open>src/gateway/internal\<close> unless said otherwise):

  \<^item> \<open>Go_Prelude\<close>, \<open>Go_Heap\<close>, \<open>Framing\<close>, \<open>Routines\<close>: Go maps, nested maps, the panic monad, channels;
    \<open>container/heap\<close>; sockets as segments and byte order; wait groups. They state the contracts \<open>nested_index\<close>,
    \<open>min_heap\<close>, \<open>frame_stream\<close> and \<open>routines\<close> with its extensions \<open>draining\<close> and \<open>lingering\<close>, and \<open>metered\<close>.
  \<^item> \<open>Proto\<close>, \<open>Codec\<close>: the message type as the gateway uses it; \<open>protocol/codec/codec.go\<close>. What \<open>Decode\<close> makes
    of a frame of \<open>Encode\<close>, and which frames are accepted.
  \<^item> \<open>Tcp_Transport\<close>, \<open>Sdk_Transport\<close>: \<open>access/tcp\<close>, \<open>access/websocket\<close>, \<open>sdk/tcp/client.go\<close>. Round trips; exactly when
    the gateway's reader returns; independence of segmentation of the SDK's reader; that the two headers differ.
  \<^item> \<open>Timer_Heap\<close>, \<open>Timer_Wheel\<close>, \<open>Timer_Scheduler\<close>, \<open>Timer_Run\<close>: \<open>timer\<close>. The heap with its index fields; \<open>popDue\<close>
    is exact; any number of shards refine one map (contract \<open>scheduler\<close>); the loop beside its callers as a step
    relation: no lost wake-up, at most once, not early, never after a cancel.
  \<^item> \<open>Connection\<close>, \<open>Ack_Scanner\<close>: \<open>access/connruntime\<close>, \<open>delivery\<close>. First in, first out up to 4096 messages; what the
    read and write loops hand on; the armed timers are exactly the unacknowledged messages.
  \<^item> \<open>Local_Router\<close>, \<open>Dist_Router\<close>: \<open>router\<close>. Addresses resolve to exactly the members.
  \<^item> \<open>Offline_Storage\<close>: \<open>worker/storage\<close>. The offline store that is wired in, and that it keeps nothing of a message.
  \<^item> \<open>Gateway_State\<close>, \<open>Worker_Pool\<close>, \<open>Session\<close>, \<open>Session_Registry\<close>: the node, \<open>worker/manager.go\<close>, \<open>session\<close>. Bounded
    pools; \<open>Submit\<close> queues an at-least-once message or hands it to the store; subscriptions survive a reconnect; one session per device.
  \<^item> \<open>Pipeline\<close>, \<open>Uplink\<close>, \<open>Downlink\<close>, \<open>Chain_Nesting\<close>: \<open>pipeline\<close>. The chains never panic, forward valid messages, isolate the
    recipients of a fan-out, and are the nesting of their stages (contract \<open>blind_chain\<close>).
  \<^item> \<open>Delivery_Path\<close>: from the downlink chain over the write queue to the wire; a fan-out changes no message but
    its sequence number.
  \<^item> \<open>Worker_Loops\<close>, \<open>Worker_Start\<close>, \<open>Kafka\<close>, \<open>Business\<close>, \<open>Consumer_Run\<close>: \<open>worker\<close>, \<open>utils/kafka\<close>, \<open>business/internal\<close>. Forwarding in
    order, batch pushes, what consumers commit, and which shutdowns end. The business consumer's goroutine is divided into
    check, fetch, handler and commit, so that a turn can outlast the stop; the turns of the gateway's two consumers are single steps.
  \<^item> \<open>Auth_Server\<close>, \<open>Handlers\<close>, \<open>Factory\<close>: \<open>auth/internal/server\<close>, \<open>auth\<close>, \<open>access/handler\<close>, \<open>connruntime/factory.go\<close>. Tokens and
    their life time; dispatch; the handshake and what a login, a second login and a lost connection leave behind. \<open>Connection.Run\<close> waits for both
    of its loops, so that a client that is gone is noticed when something is written to it.
  \<^item> \<open>Bootstrap\<close>, \<open>Lifecycle\<close>, \<open>Logger\<close>: \<open>config\<close>, \<open>svc\<close>, \<open>app\<close>, \<open>handler\<close>, \<open>metrics\<close>, \<open>logger\<close>. When a gateway comes up, what it then is, and
    when it goes down.
  \<^item> \<open>Services\<close>, \<open>Gateway_Http\<close>: \<open>config.Load\<close> of the three processes, the loggers and \<open>main\<close> functions of the two
    services, the routes and the access log; the HTTP side and the counters of the gateway. What a business service
    that has come up can send; what a request to the gateway can do.
  \<^item> \<open>Sdk_Types\<close>, \<open>Sdk_Base\<close>, \<open>Sdk_Client\<close>, \<open>Sdk_Run\<close>, \<open>Sdk_Push\<close>: \<open>src/sdk\<close>. The client over both transports (contract \<open>sdk_wire\<close>) as a
    state machine of calls, arriving signals, background writes and the goroutines of the heartbeat, the only place where the
    process can die.
  \<^item> \<open>Go_Url\<close>, \<open>Sdk_Url\<close>: the part of \<open>net/url\<close> that \<open>getWsURL\<close> of \<open>sdk/ws/client.go\<close> uses, and the address a
    WebSocket client dials.
  \<^item> \<open>Validation_Base\<close>, \<open>Validation\<close>, \<open>Validation_Events\<close>, \<open>Validation_Service\<close>: the \<open>.pb.validate.go\<close> files of
    \<open>src/common-protocol/gen\<close>, the checks of the messages of the protocol. \<open>Validate\<close> returns the first and
    \<open>ValidateAll\<close> all violations (contract \<open>validator\<close>); what a valid message satisfies.
  \<^item> This theory: properties that span components, from a token to the handshake, from
    an address to the write queues and the wire, and what the wiring of the process means for a client's message.

  \<^bold>\<open>Parameters.\<close> Code outside the tree is an argument: the marshalling and compression libraries (\<open>codec_lib\<close>,
  of which only gzip is assumed to undo itself), Redis (\<open>redis_laws\<close>), the database (\<open>gorm\<close>), SHA-256, the rate limiter,
  the HTTP exchange with the authentication service, what Kafka fetches and answers, the gRPC stub, the configuration library, JSON decoding of requests, the WebSocket dialer and upgrader, the numbers
  of the wire constants of the SDK, what listeners and \<open>Accept\<close> return, the clock. Laws are named hypotheses, and the
  witnesses instantiate them.

  \<^bold>\<open>Bounds and fuel.\<close> \<open>chain_run\<close> has fuel, the number of stages; each call advances the index, and the agreement with
  the nesting, which has none, shows that it is enough. \<open>writeLoop\<close> has fuel, one more than the queue is long, which
  is shown to be enough to empty it. Loops that wait for their environment take the list of what it answers. The
  reader of the gateway's TCP transport may spin for ever and is a \<^theory_text>\<open>partial_function\<close>, for which \<open>None\<close>
  is exactly characterised. All other loops are shown to terminate by a measure.

  \<^bold>\<open>Not modelled.\<close> The command line (cobra), gin's matching beyond exact paths, cmux, the text of
  a stack trace; interfaces without code and code that is commented out; the generated codecs of the
  \<open>.pb.go\<close> files, whose marshalling is a parameter. The text of the files that the configuration library reads is
  not modelled either: what it answers is an argument. Memory shared without locks is modelled as sequentially
  consistent.
\<close>

section \<open>Tokens: from the authentication service to the gateway\<close>

lemma hex_EncodeToString_ne: "bs \<noteq> [] \<Longrightarrow> hex_EncodeToString bs \<noteq> ''''"
  by (cases bs) (simp_all add: hex_EncodeToString_def)

text \<open>
  C9. The gateway lets in exactly the holders of live tokens. A token that the authentication service
  has issued to a user and device is verified by the gateway, after any number of further requests
  and cleaner ticks at the service, as that user and that device until 24 hours have passed, and is
  refused afterwards; the HTTP exchange is taken to answer what the handler answers.
\<close>

theorem gateway_accepts_live_tokens:
  assumes issue: "handleToken (Some req) (Some random) t0 tokens = (TokenOK token g pr hb ex, tokens')" and wf: "gm_wf tokens"
    and random: "length random = 32"
    and run: "\<forall>x\<in>set xs. op_time x \<le> now \<and> \<not> issues token x"
  shows "\<exists>why. Verify (\<lambda>url tok. Answer (fst (handleValidate (Some tok) now (fold auth_step xs tokens')))) addr token =
    (if now \<le> t0 + 24 * Hour then Inr (tq_UserID req, tq_DeviceID req) else Inl (TokenInvalid why))"
proof -
  have "generateToken (Some random) = Some token" using handleToken_issued(1) [OF issue] .
  then have "token \<noteq> ''''" using random hex_EncodeToString_ne [of random] by (cases random) (auto simp: generateToken_def)
  from issued_token_validates [OF issue wf run this] show ?thesis
    by (simp add: Verify_def validateToken_def invalid_response_def)
qed

theorem gateway_accepts_live_tokens_witness:
  "(let st = snd (handleToken (Some \<lparr>tq_DeviceID = ''d'', tq_UserID = ''u'', tq_AppID = ''''\<rparr>) (Some (replicate 32 0)) 0 []);
        tok = hex_EncodeToString (replicate 32 0)
    in Verify (\<lambda>url tok. Answer (fst (handleValidate (Some tok) 1 (fold auth_step [CleanTokens 1] st)))) ''a'' tok = Inr (''u'', ''d''))"
proof -
  let ?q = "\<lparr>tq_DeviceID = ''d'', tq_UserID = ''u'', tq_AppID = ''''\<rparr>"
  let ?t = "hex_EncodeToString (replicate 32 0)"
  obtain g pr hb ex st where h: "handleToken (Some ?q) (Some (replicate 32 0)) 0 [] = (TokenOK ?t g pr hb ex, st)"
    by (simp add: handleToken_def generateToken_def Let_def)
  show ?thesis
    using gateway_accepts_live_tokens [OF h, of "[CleanTokens 1]" 1 "''a''"] h
    by (simp add: gm_wf_def issues_def gm_keys_def Let_def Hour_def Second_def)
qed

section \<open>Down: from the queue to the members of a room\<close>

lemma joined_member:
  assumes sess: "sess_IsActive s w" "se_conn (wd_sess w s) = Some c" "has_room w s"
    and valid: "m_To (msg_of w m) = Some to" "rt_Key to = room" "\<not> IsExpired (UnixMilli (wd_now w)) (m_ExpireAt (msg_of w m))"
      "m_TraceId (msg_of w m) = Some t" "m_Delivery (msg_of w m) = Some d"
    and notself: "get_header (msg_of w m) ''x-exclude-conn'' \<noteq> sid_of w s"
    and indep: "\<And>sessions. Resolve room (wd_router (sess_JoinRoom s room w)) = Some sessions \<Longrightarrow>
      independent (sess_JoinRoom s room w)
        (filter_targets (sess_JoinRoom s room w) (get_header (msg_of w m) ''x-exclude-conn'') sessions)"
  shows "\<exists>s'. downlink_Run store (Some m) (sess_JoinRoom s room w) = Ret () s' \<and> \<not> bc_Aborted (ps_ctx s')
    \<and> fo_Offline (dc_FanOutResult (ps_ctx s')) = 0
    \<and> ch_buf (cn_writeCh (wd_conns (ps_w s') c)) = ch_buf (cn_writeCh (wd_conns w c)) @ [m]
    \<and> delivery_kept w (ps_w s')"
proof -
  let ?w = "sess_JoinRoom s room w"
  have f: "msg_of ?w = msg_of w" "wd_now ?w = wd_now w" "wd_conns ?w = wd_conns w" "se_conn (wd_sess ?w s) = se_conn (wd_sess w s)"
    "se_state (wd_sess ?w s) = se_state (wd_sess w s)" "sid_of ?w = sid_of w"
    by (simp_all add: sess_JoinRoom_def withConn_def sid_of_def msg_of_def fun_eq_iff)
  have r: "idx_get (lr_rooms (wd_router ?w)) room (sid_of w s) = Some s"
    using sess(2) by (simp add: sess_JoinRoom_def withConn_def JoinRoom_def)
  then obtain inner where i: "gm_get (lr_rooms (wd_router ?w)) room = Some inner" "gm_get inner (sid_of w s) = Some s"
    by (auto simp: idx_get_def split: option.splits)
  then have mem0: "s \<in> set (members_of (lr_rooms (wd_router ?w)) room)"
    using gm_get_SomeD [OF i(2)] by (force simp: members_of_def gm_vals_def)
  have "\<exists>sessions. Resolve room (wd_router ?w) = Some sessions \<and> s \<in> set sessions"
    using mem0 by (cases "members_of (lr_rooms (wd_router ?w)) room") (auto simp: Resolve_def Let_def)
  then obtain sessions where res: "Resolve room (wd_router ?w) = Some sessions" and mem: "s \<in> set sessions" by blast
  let ?T = "filter_targets ?w (get_header (msg_of ?w m) ''x-exclude-conn'') sessions"
  have ind: "independent ?w ?T" using indep [OF res] by (simp add: f)
  have inT: "s \<in> set ?T" using mem sess(1) notself by (auto simp: filter_targets_def sess_IsActive_def f)
  have room: "has_room ?w s" using sess(2,3) by (simp add: has_room_def f)
  have v: "m_To (msg_of ?w m) = Some to" "\<not> IsExpired (UnixMilli (wd_now ?w)) (m_ExpireAt (msg_of ?w m))"
    "m_TraceId (msg_of ?w m) = Some t" "m_Delivery (msg_of ?w m) = Some d" using valid by (simp_all add: f)
  have "Resolve (rt_Key to) (wd_router ?w) = Some sessions" using res valid(2) by simp
  from downlink_fanout [OF v this refl ind, of store] obtain s' where
    s': "downlink_Run store (Some m) ?w = Ret () s'" "\<not> bc_Aborted (ps_ctx s')" "fo_Offline (dc_FanOutResult (ps_ctx s')) = 0"
      "\<forall>x\<in>set ?T. \<forall>c. se_conn (wd_sess ?w x) = Some c \<longrightarrow>
         ch_buf (cn_writeCh (wd_conns (ps_w s') c)) = ch_buf (cn_writeCh (wd_conns ?w c)) @ (if has_room ?w x then [m] else [])"
      and fo: "fanout_loop store m ?T (zero_FanOutResult\<lparr>fo_Total := length ?T\<rparr>) ?w = Ret (dc_FanOutResult (ps_ctx s')) (ps_w s')"
    by auto
  have "delivery_kept ?w (ps_w s')" using fo by (rule fanout_loop_kept)
  then have "delivery_kept w (ps_w s')" by (simp add: delivery_kept_def f)
  with s' show ?thesis using inT sess(2) room f by auto
qed

text \<open>
  Whoever has joined a room receives what is sent to it. After an active session with an active
  connection that has room joins a room, a valid message addressed to the room that does not exclude
  the session is appended to its write queue exactly once, whatever the state of the other members,
  and the chain neither aborts nor counts the room as offline.
\<close>

theorem joined_member_receives_room_message:
  assumes sess: "sess_IsActive s w" "se_conn (wd_sess w s) = Some c" "has_room w s"
    and valid: "m_To (msg_of w m) = Some to" "rt_Key to = room" "\<not> IsExpired (UnixMilli (wd_now w)) (m_ExpireAt (msg_of w m))"
      "m_TraceId (msg_of w m) = Some t" "m_Delivery (msg_of w m) = Some d"
    and notself: "get_header (msg_of w m) ''x-exclude-conn'' \<noteq> sid_of w s"
    and indep: "\<And>sessions. Resolve room (wd_router (sess_JoinRoom s room w)) = Some sessions \<Longrightarrow>
      independent (sess_JoinRoom s room w)
        (filter_targets (sess_JoinRoom s room w) (get_header (msg_of w m) ''x-exclude-conn'') sessions)"
  shows "\<exists>s'. downlink_Run store (Some m) (sess_JoinRoom s room w) = Ret () s' \<and> \<not> bc_Aborted (ps_ctx s')
    \<and> fo_Offline (dc_FanOutResult (ps_ctx s')) = 0
    \<and> ch_buf (cn_writeCh (wd_conns (ps_w s') c)) = ch_buf (cn_writeCh (wd_conns w c)) @ [m]"
  using joined_member [OF assms] by blast

text \<open>
  C8. A room message reaches the wire. After a session has joined a room and a valid message for the room
  has gone through the downlink chain, the write loop of the session's connection puts on the wire one frame
  for every message that was queued, in order, and then one for this message: each is the codec's encoding of
  the message itself, except that its sequence number may be another, because every connection numbers
  anew what it is given. Assumed is that the members the message goes to do not share a connection and that the
  codec encodes the queued messages whatever their sequence numbers.
\<close>

theorem room_message_reaches_wire:
  assumes sess: "sess_IsActive s w" "se_conn (wd_sess w s) = Some c" "has_room w s" "conn_ok (wd_conns w c)"
    and valid: "m_To (msg_of w m) = Some to" "rt_Key to = room" "\<not> IsExpired (UnixMilli (wd_now w)) (m_ExpireAt (msg_of w m))"
      "m_TraceId (msg_of w m) = Some t" "m_Delivery (msg_of w m) = Some d"
    and notself: "get_header (msg_of w m) ''x-exclude-conn'' \<noteq> sid_of w s"
    and indep: "\<And>sessions. Resolve room (wd_router (sess_JoinRoom s room w)) = Some sessions \<Longrightarrow>
      independent (sess_JoinRoom s room w)
        (filter_targets (sess_JoinRoom s room w) (get_header (msg_of w m) ''x-exclude-conn'') sessions)"
    and queue: "q = ch_buf (cn_writeCh (wd_conns w c)) @ [m]"
    and lib: "\<And>r x. r \<in> set q \<Longrightarrow> content x = content (msg_of w r) \<Longrightarrow> \<exists>frame. FrameCodec_Encode L fc x = Inr frame"
  shows "\<exists>s' frames. downlink_Run store (Some m) (sess_JoinRoom s room w) = Ret () s'
    \<and> cn_wire (snd (writeLoop (Suc (length q)) L fc (wd_heap (ps_w s')) (wd_conns (ps_w s') c))) = cn_wire (wd_conns w c) @ frames
    \<and> list_all2 (\<lambda>r frame. FrameCodec_Encode L fc (msg_of (ps_w s') r) = Inr frame
         \<and> content (msg_of (ps_w s') r) = content (msg_of w r)) q frames"
proof -
  obtain s' where run: "downlink_Run store (Some m) (sess_JoinRoom s room w) = Ret () s'"
    and q': "ch_buf (cn_writeCh (wd_conns (ps_w s') c)) = q" and kept: "delivery_kept w (ps_w s')"
    using joined_member [OF sess(1-3) valid notself indep, of store] unfolding queue by blast
  let ?h = "wd_heap (ps_w s')" and ?c = "wd_conns (ps_w s') c"
  have c: "content (msg_of (ps_w s') r) = content (msg_of w r)" "cn_wire ?c = cn_wire (wd_conns w c)" "conn_ok ?c" for r
    using kept sess(4) by (simp_all add: delivery_kept_def)
  obtain frames where "cn_wire (snd (writeLoop (Suc (length q)) L fc ?h ?c)) = cn_wire ?c @ frames"
      and "list_all2 (\<lambda>r d. FrameCodec_Encode L fc (msg_of (ps_w s') r) = Inr d) q frames"
    using writeLoop_frames [OF c(3), of L fc ?h] lib c(1) unfolding q' msg_of_def by blast
  then show ?thesis using run c(1,2) by auto
qed

section \<open>A gateway as it is started\<close>

text \<open>A session without a worker manager: the submission panics and the chain recovers.\<close>

lemma uplink_no_worker:
  assumes valid: "m_MsgId (msg_of w r) \<noteq> ''''" "\<not> IsExpired (UnixMilli (wd_now w)) (m_ExpireAt (msg_of w r))"
      "conn_IsActive (wd_conns w c)" "m_TraceId (msg_of w r) = Some t" "t \<noteq> ''''"
      "limiter_allows l (se_userID (wd_sess w s)) (m_BizCode (msg_of w r))"
    and biz: "effective_biz s r w \<noteq> ''''" "\<not> dp_Worker (se_deps (wd_sess w s))"
  shows "\<exists>x. uplink_Run l s c (Some r) w =
    Ret () \<lparr>ps_idx = 6, ps_ctx = x,
      ps_w = submit_new c (error_reply t (Some (m_MsgId (msg_of w r))) 5000 ''internal error'')
        (upd_msg r (enrich (wd_conns w c) (traced_ctx (wd_now w) s c r t)) w)\<rparr>"
proof -
  let ?x = "traced_ctx (wd_now w) s c r t"
  have x: "uc_Message ?x = Some r" "uc_Conn ?x = c" "uc_Session ?x = s" "bc_TraceID ?x = t"
    by (simp_all add: traced_ctx_def new_UplinkCtx_def)
  let ?w1 = "upd_msg r (enrich (wd_conns w c) ?x) w"
  have sub: "sess_SubmitUpstream s r ?w1 = Panic ?w1"
    using biz by (auto simp: sess_SubmitUpstream_def Let_def effective_biz_def)
  show ?thesis
    unfolding uplink_reaches_submit [OF valid]
    by (simp add: recoverG_def MetricsStage_def thenG_def bindG_def SubmitStage_def x Let_def on_w_def sub
        RecoverStage_handler_def ReplyError_def uctx_Abort_def mod_ctx_def modG_def)
qed

lemma submit_new_pools: "wd_pools (submit_new c m w) = wd_pools w"
  using world_conn_Submit_fields(9) [of c "mh_next (wd_heap w)" "snd (new_msg m w)"]
  by (simp add: submit_new_def split: prod.splits) (metis fst_conv new_msg_fields(1,8) prod.collapse snd_conv)

text \<open>
  C38. A gateway that has come up forwards no message of any client. Its session registry is built
  without the worker manager, so every session it ever creates lacks it; dispatching a valid business
  message of such a session queues no job in any pool, and the client gets the answer 5000
  (internal error) for it.
\<close>

theorem started_gateway_forwards_nothing:
  assumes run: "app_Run sha blank e (Some cfg) = RunStarts gs"
    and created: "reg_GetOrCreate (fd_sha (gs_connFactory gs)) (fd_sessDeps (gs_connFactory gs)) (fd_hasScanner (gs_connFactory gs))
        u d a dt b w0 = ((s, True), w1)" "se_deps (wd_sess w s) = se_deps (wd_sess w1 s)"
    and frame: "m_Type (msg_of w r) = FrameType_BUSINESS" "m_MsgId (msg_of w r) \<noteq> ''''"
      "\<not> IsExpired (UnixMilli (wd_now w)) (m_ExpireAt (msg_of w r))" "m_TraceId (msg_of w r) = Some t" "t \<noteq> ''''"
    and conn: "conn_IsActive (wd_conns w c)" and biz: "effective_biz s r w \<noteq> ''''"
  shows "\<exists>v. Dispatch (fd_HandlerReg (gs_connFactory gs)) s c r w =
      Ret False (submit_new c (error_reply t (Some (m_MsgId (msg_of w r))) 5000 ''internal error'') v)
    \<and> wd_conns v = wd_conns w \<and> wd_pools v = wd_pools w
    \<and> wd_pools (submit_new c (error_reply t (Some (m_MsgId (msg_of w r))) 5000 ''internal error'') v) = wd_pools w"
proof -
  have "NewGatewayServer sha blank e cfg = Some (Inr gs)"
    using run by (auto simp: app_Run_def split: option.splits sum.splits)
  note f = NewGatewayServer_node(2) [OF this, unfolded boot_factory_def boot_registry_eq]
  have nw: "\<not> dp_Worker (se_deps (wd_sess w s))"
    using created by (auto simp: reg_GetOrCreate_def Let_def f NewSession_def split: option.splits)
  have l: "limiter_allows None (se_userID (wd_sess w s)) (m_BizCode (msg_of w r))" by (simp add: limiter_allows_def)
  let ?v = "upd_msg r (enrich (wd_conns w c) (traced_ctx (wd_now w) s c r t)) w"
  have "Dispatch (fd_HandlerReg (gs_connFactory gs)) s c r w =
      Ret False (submit_new c (error_reply t (Some (m_MsgId (msg_of w r))) 5000 ''internal error'') ?v)"
    using frame(1) uplink_no_worker [OF frame(2,3) conn frame(4,5) l biz nw]
    by (auto simp: f Dispatch_def Build_handlers UpstreamHandler_Handle_def bindG_def retG_def)
  moreover have "wd_conns ?v = wd_conns w" "wd_pools ?v = wd_pools w" by simp_all
  ultimately show ?thesis using submit_new_pools by metis
qed

section \<open>Witnesses\<close>

lemma sample_room_facts:
  "msg_of (sample_down\<lparr>wd_router := NewLocalRouter\<rparr>) 3 = sample_downmsg"
  "wd_sess (sample_down\<lparr>wd_router := NewLocalRouter\<rparr>) = (\<lambda>_. sample_session)"
  "wd_conns (sample_down\<lparr>wd_router := NewLocalRouter\<rparr>) = (\<lambda>_. sample_conn)"
  "sid_of (sample_down\<lparr>wd_router := NewLocalRouter\<rparr>) 0 = ''aa''"
  "cn_wire sample_conn = []" "ch_buf (cn_writeCh sample_conn) = []"
  using sample_down_fields
  by (simp_all add: msg_of_def sid_of_def sample_session_def sample_conn_def conn_Activate_def newConnection_def make_chan_def)

lemma sample_room_state:
  "sess_IsActive 0 (sample_down\<lparr>wd_router := NewLocalRouter\<rparr>)"
  "se_conn (wd_sess (sample_down\<lparr>wd_router := NewLocalRouter\<rparr>) 0) = Some 0"
  "has_room (sample_down\<lparr>wd_router := NewLocalRouter\<rparr>) 0"
  "conn_ok (wd_conns (sample_down\<lparr>wd_router := NewLocalRouter\<rparr>) 0)"
  using sample_conn_ok by (simp_all add: sess_IsActive_def has_room_def sample_room_facts sample_session_def WriteChannelSize_def)

lemma sample_room_independent:
  assumes "Resolve ''r'' (wd_router (sess_JoinRoom 0 ''r'' (sample_down\<lparr>wd_router := NewLocalRouter\<rparr>))) = Some sessions"
  shows "independent (sess_JoinRoom 0 ''r'' (sample_down\<lparr>wd_router := NewLocalRouter\<rparr>))
    (filter_targets (sess_JoinRoom 0 ''r'' (sample_down\<lparr>wd_router := NewLocalRouter\<rparr>)) x sessions)"
proof -
  let ?j = "sess_JoinRoom 0 ''r'' (sample_down\<lparr>wd_router := NewLocalRouter\<rparr>)"
  have "Resolve ''r'' (wd_router ?j) = Some [0]"
    by (simp add: sess_JoinRoom_def withConn_def sample_down_fields sample_session_def Resolve_def members_of_def JoinRoom_def
        NewLocalRouter_def idx_put_def gm_set_def gm_get_def gm_vals_def Let_def sid_of_def)
  with assms have "sessions = [0]" by simp
  moreover have "filter_targets v x [0] = [] \<or> filter_targets v x [0] = [0]" for v by (simp add: filter_targets_def)
  ultimately have "filter_targets ?j x sessions = [] \<or> filter_targets ?j x sessions = [0]" by blast
  moreover have "wd_conns ?j = (\<lambda>_. sample_conn)" by (simp add: sess_JoinRoom_def withConn_def sample_room_facts)
  ultimately show ?thesis using sample_conn_ok by (auto simp: independent_def)
qed

theorem joined_member_receives_room_message_witness:
  "\<exists>s'. downlink_Run True (Some 3) (sess_JoinRoom 0 ''r'' (sample_down\<lparr>wd_router := NewLocalRouter\<rparr>)) = Ret () s'
     \<and> ch_buf (cn_writeCh (wd_conns (ps_w s') 0)) = [3]"
proof -
  let ?w = "sample_down\<lparr>wd_router := NewLocalRouter\<rparr>"
  have "\<exists>s'. downlink_Run True (Some 3) (sess_JoinRoom 0 ''r'' ?w) = Ret () s' \<and> \<not> bc_Aborted (ps_ctx s') \<and> fo_Offline (dc_FanOutResult (ps_ctx s')) = 0
    \<and> ch_buf (cn_writeCh (wd_conns (ps_w s') 0)) = ch_buf (cn_writeCh (wd_conns ?w 0)) @ [3]"
    by (rule joined_member_receives_room_message [OF sample_room_state(1-3)])
       (use sample_room_independent sample_downmsg_fields in \<open>auto simp: sample_room_facts\<close>)
  then show ?thesis by (auto simp: sample_room_facts)
qed

text \<open>A serialisation of the sample message: its sequence number, in unary.\<close>

definition wire_lib :: "Message codec_lib" where
  "wire_lib =
     (let enc = (\<lambda>x. if content x = content sample_downmsg then Inr (replicate (unat (m_SeqId x)) 0) else Inl (LibError ''other''));
          dec = (\<lambda>b. Inr (sample_downmsg\<lparr>m_SeqId := of_nat (length b)\<rparr>))
      in \<lparr>json_Marshal = enc, json_Unmarshal = dec, proto_Marshal = (\<lambda>_. enc), proto_Unmarshal = dec, gzip_Write = Inr, gzip_ReadAll = Inr\<rparr>)"

theorem room_message_reaches_wire_witness:
  "\<exists>s' frame. downlink_Run True (Some 3) (sess_JoinRoom 0 ''r'' (sample_down\<lparr>wd_router := NewLocalRouter\<rparr>)) = Ret () s'
     \<and> cn_wire (snd (writeLoop 2 wire_lib DefaultConfig (wd_heap (ps_w s')) (wd_conns (ps_w s') 0))) = [frame]
     \<and> FrameCodec_Encode wire_lib DefaultConfig (msg_of (ps_w s') 3) = Inr frame
     \<and> content (msg_of (ps_w s') 3) = content sample_downmsg"
proof -
  let ?w = "sample_down\<lparr>wd_router := NewLocalRouter\<rparr>"
  note f = sample_room_facts
  have enc: "\<exists>frame. FrameCodec_Encode wire_lib DefaultConfig x = Inr frame" if "content x = content (msg_of ?w 3)" for x
    using that by (simp add: f wire_lib_def FrameCodec_Encode_def DefaultConfig_def codec_marshal_def codec_compress_def codec_ids Let_def)
  have "\<exists>s' frames. downlink_Run True (Some 3) (sess_JoinRoom 0 ''r'' ?w) = Ret () s'
    \<and> cn_wire (snd (writeLoop (Suc (length [3 :: nat])) wire_lib DefaultConfig (wd_heap (ps_w s')) (wd_conns (ps_w s') 0))) = cn_wire (wd_conns ?w 0) @ frames
    \<and> list_all2 (\<lambda>r frame. FrameCodec_Encode wire_lib DefaultConfig (msg_of (ps_w s') r) = Inr frame
         \<and> content (msg_of (ps_w s') r) = content (msg_of ?w r)) [3] frames"
    by (rule room_message_reaches_wire [where room = "''r''", OF sample_room_state])
       (use sample_room_independent sample_downmsg_fields enc in \<open>auto simp: f\<close>)
  then show ?thesis
    by (auto simp: numeral_2_eq_2 list_all2_Cons1 f simp del: writeLoop.simps)
qed

theorem started_gateway_forwards_nothing_witness:
  "\<exists>gs v w1. app_Run id sample_world sample_env (Some sample_config) = RunStarts gs
     \<and> reg_GetOrCreate id (fd_sessDeps (gs_connFactory gs)) True ''u'' ''d'' ''a'' ''ios'' ''im'' sample_world = ((1, True), w1)
     \<and> Dispatch (fd_HandlerReg (gs_connFactory gs)) 1 0 3 (upd_msg 3 (\<lambda>m. m\<lparr>m_Type := FrameType_BUSINESS, m_TraceId := Some ''t''\<rparr>) w1)
       = Ret False (submit_new 0 (error_reply ''t'' (Some ''m1'') 5000 ''internal error'') v)"
proof -
  obtain gs where gs: "app_Run id sample_world sample_env (Some sample_config) = RunStarts gs" using sample_starts by blast
  then have n: "NewGatewayServer id sample_world sample_env sample_config = Some (Inr gs)"
    by (auto simp: app_Run_def split: option.splits sum.splits)
  note f = NewGatewayServer_node(2) [OF n, unfolded boot_factory_def boot_registry_eq]
  let ?F = "gs_connFactory gs"
  have F: "fd_sha ?F = id" "fd_hasScanner ?F" by (simp_all add: f)
  obtain w1 where c: "reg_GetOrCreate (fd_sha ?F) (fd_sessDeps ?F) (fd_hasScanner ?F) ''u'' ''d'' ''a'' ''ios'' ''im'' sample_world = ((1, True), w1)"
      "w1 = sample_world\<lparr>wd_sess := (wd_sess sample_world)(1 := wd_sess w1 1), wd_nextSess := 2, wd_sessions := wd_sessions w1, wd_userIndex := wd_userIndex w1\<rparr>"
      "se_BizCode (wd_sess w1 1) = ''im''"
    by (simp add: reg_GetOrCreate_def lookup_user_def Let_def NewSession_def) (simp add: sample_world_def)
  let ?w = "upd_msg 3 (\<lambda>m. m\<lparr>m_Type := FrameType_BUSINESS, m_TraceId := Some ''t''\<rparr>) w1"
  have m: "msg_of w1 3 = sample_msg ''m1''" "wd_conns w1 0 = sample_conn"
    by (subst c(2), simp add: msg_of_def sample_world_def)+
  have "m_ExpireAt (sample_msg ''m1'') = 0" "m_BizCode (sample_msg ''m1'') = ''''" "m_MsgId (sample_msg ''m1'') = ''m1''"
    by (simp_all add: sample_msg_def new_Message_def)
  then obtain v where "Dispatch (fd_HandlerReg ?F) 1 0 3 ?w = Ret False (submit_new 0 (error_reply ''t'' (Some ''m1'') 5000 ''internal error'') v)"
    using started_gateway_forwards_nothing [OF gs c(1), of ?w 3 "''t''" 0] c(3)
    by (auto simp: m IsExpired_def effective_biz_def)
  with gs c(1) F show ?thesis by auto
qed

end
